(* ===== verification/Prelude.thy ===== *)
theory Prelude
  imports Main "HOL-Library.Word"
begin

text \<open>
  Shared vocabulary of the development: the machine types of the C code, the
  byte-level view of memory (the host is little-endian, as in the
  \<open>#else\<close> branch of \<open>include/internal/endian_helper.h\<close>), copying into a fixed
  buffer, and iterating a compression function over the whole blocks of a buffer.
\<close>

unbundle bit_operations_syntax

type_synonym byte = "8 word"
type_synonym u32 = "32 word"
type_synonym u64 = "64 word"

named_theorems wordnat \<open>reading machine-word arithmetic as arithmetic on natural numbers\<close>

text \<open>
  Evaluation by rewriting. The library gives the bit operations of words as equations under the
  projection to the integers, which leaves an operand that is used twice unevaluated; with the
  equations below every intermediate word is reduced to a numeral before it is shared.
\<close>

lemma word_bit_operations_code [code]:
  "x AND y = (word_of_int (uint x AND uint y) :: 'a::len word)"
  "x OR y = (word_of_int (uint x OR uint y) :: 'a::len word)"
  "x XOR y = (word_of_int (uint x XOR uint y) :: 'a::len word)"
  "push_bit n x = (word_of_int (push_bit n (uint x)) :: 'a::len word)"
  "drop_bit n x = (word_of_int (drop_bit n (uint x)) :: 'a::len word)"
  by (rule bit_word_eqI; auto simp: bit_simps)+

lemma ucast_code [code]:
  "ucast (x :: 'a::len word) = (word_of_int (uint x) :: 'b::len word)"
  by simp

section \<open>Bytes and words\<close>

text \<open>The value a little-endian load of the listed bytes gives (first byte = lowest address).\<close>

fun load_le :: "byte list \<Rightarrow> 'w::len word" where
  "load_le [] = 0"
| "load_le (b # bs) = ucast b OR push_bit 8 (load_le bs)"

definition load_be :: "byte list \<Rightarrow> 'w::len word" where
  "load_be bs = load_le (rev bs)"

text \<open>The \<open>n\<close> bytes a little-endian store of a word writes.\<close>

primrec store_le :: "nat \<Rightarrow> 'w::len word \<Rightarrow> byte list" where
  "store_le 0 w = []"
| "store_le (Suc n) w = ucast w # store_le n (drop_bit 8 w)"

definition store_be :: "nat \<Rightarrow> 'w::len word \<Rightarrow> byte list" where
  "store_be n w = rev (store_le n w)"

lemma length_store_le [simp]: "length (store_le n w) = n"
  by (induction n arbitrary: w) auto

lemma length_store_be [simp]: "length (store_be n w) = n"
  by (simp add: store_be_def)

text \<open>A 32-bit (64-bit) little-endian load at word index \<open>i\<close> of a byte buffer.\<close>

definition ld32 :: "byte list \<Rightarrow> nat \<Rightarrow> u32" where
  "ld32 bs i = load_le (take 4 (drop (4 * i) bs))"

definition ld64 :: "byte list \<Rightarrow> nat \<Rightarrow> u64" where
  "ld64 bs i = load_le (take 8 (drop (8 * i) bs))"

section \<open>Copying into a fixed buffer\<close>

text \<open>
  \<open>memcpy (dst + off, src, n)\<close>: the \<open>n\<close> bytes of \<open>dst\<close> from \<open>off\<close> on are replaced
  by the first \<open>n\<close> bytes of \<open>src\<close>.
\<close>

definition memcpy_at :: "byte list \<Rightarrow> nat \<Rightarrow> byte list \<Rightarrow> nat \<Rightarrow> byte list" where
  "memcpy_at dst off src n = take off dst @ take n src @ drop (off + n) dst"

definition memset_at :: "byte list \<Rightarrow> nat \<Rightarrow> byte \<Rightarrow> nat \<Rightarrow> byte list" where
  "memset_at dst off v n = memcpy_at dst off (replicate n v) n"

lemma length_memcpy_at [simp]:
  "n \<le> length src \<Longrightarrow> off + n \<le> length dst \<Longrightarrow> length (memcpy_at dst off src n) = length dst"
  by (simp add: memcpy_at_def)

lemma length_memset_at [simp]:
  "off + n \<le> length dst \<Longrightarrow> length (memset_at dst off v n) = length dst"
  by (simp add: memset_at_def)

lemma take_memcpy_at:
  "n \<le> length src \<Longrightarrow> off \<le> length dst \<Longrightarrow>
   take (off + n) (memcpy_at dst off src n) = take off dst @ take n src"
  by (simp add: memcpy_at_def)

lemma memcpy_at_zero [simp]: "memcpy_at dst off src 0 = dst"
  by (simp add: memcpy_at_def)

lemma nth_memcpy_at:
  "n \<le> length src \<Longrightarrow> off + n \<le> length dst \<Longrightarrow> i < length dst \<Longrightarrow>
   memcpy_at dst off src n ! i = (if off \<le> i \<and> i < off + n then src ! (i - off) else dst ! i)"
  by (auto simp: memcpy_at_def nth_append min_def)

lemma take_memcpy_at_before [simp]:
  "k \<le> off \<Longrightarrow> off \<le> length dst \<Longrightarrow> take k (memcpy_at dst off src n) = take k dst"
  by (simp add: memcpy_at_def min_def)

lemma take3: "take a xs @ take b (drop a xs) @ take c (drop b (drop a xs)) = take (a + (b + c)) xs"
  by (simp only: take_add)

section \<open>Lists of a fixed length\<close>

lemma list4E:
  assumes "length xs = 4"
  obtains a b c d where "xs = [a, b, c, d]"
  using assms by (auto simp: length_Suc_conv numeral_eq_Suc)

lemma list5E:
  assumes "length xs = 5"
  obtains a b c d e where "xs = [a, b, c, d, e]"
  using assms by (auto simp: length_Suc_conv numeral_eq_Suc)

lemma list8E:
  assumes "length xs = 8"
  obtains a b c d e f g h where "xs = [a, b, c, d, e, f, g, h]"
  using assms by (auto simp: length_Suc_conv numeral_eq_Suc)

section \<open>Iterating over the blocks of a buffer\<close>

text \<open>\<open>n\<close> blocks of \<open>B\<close> bytes, hashed in order of address.\<close>

primrec hash_nblocks ::
  "nat \<Rightarrow> (byte list \<Rightarrow> 'd \<Rightarrow> 'd) \<Rightarrow> nat \<Rightarrow> byte list \<Rightarrow> 'd \<Rightarrow> 'd" where
  "hash_nblocks B f 0 xs d = d"
| "hash_nblocks B f (Suc n) xs d = hash_nblocks B f n (drop B xs) (f (take B xs) d)"

text \<open>All the whole blocks of a buffer.\<close>

definition hash_blocks ::
  "nat \<Rightarrow> (byte list \<Rightarrow> 'd \<Rightarrow> 'd) \<Rightarrow> byte list \<Rightarrow> 'd \<Rightarrow> 'd" where
  "hash_blocks B f xs d = hash_nblocks B f (length xs div B) xs d"

lemma hash_nblocks_add:
  "hash_nblocks B f (m + n) xs d = hash_nblocks B f n (drop (m * B) xs) (hash_nblocks B f m xs d)"
  by (induction m arbitrary: xs d) (auto simp: add.commute)

lemma hash_nblocks_append:
  "n * B \<le> length xs \<Longrightarrow> hash_nblocks B f n (xs @ ys) d = hash_nblocks B f n xs d"
  by (induction n arbitrary: xs d) auto

lemma hash_nblocks_take:
  "n * B \<le> k \<Longrightarrow> hash_nblocks B f n (take k xs) d = hash_nblocks B f n xs d"
proof (induction n arbitrary: xs d k)
  case (Suc n)
  then have "B \<le> k" "n * B \<le> k - B" by simp_all
  with Suc.IH[of "k - B" "drop B xs"] show ?case
    by (simp add: drop_take min_def)
qed simp

lemma hash_blocks_append:
  assumes "B dvd length xs"
  shows "hash_blocks B f (xs @ ys) d = hash_blocks B f ys (hash_blocks B f xs d)"
proof (cases "B = 0")
  case False
  from assms have *: "length xs div B * B = length xs" by simp
  have "hash_nblocks B f (length xs div B + length ys div B) (xs @ ys) d
      = hash_nblocks B f (length ys div B) ys (hash_nblocks B f (length xs div B) xs d)"
    by (simp add: hash_nblocks_add * hash_nblocks_append)
  moreover have "length (xs @ ys) div B = length xs div B + length ys div B"
    using assms False by (auto simp: div_plus_div_distrib_dvd_left)
  ultimately show ?thesis by (simp add: hash_blocks_def)
qed (use assms in \<open>auto simp: hash_blocks_def\<close>)

lemma hash_blocks_short [simp]: "length xs < B \<Longrightarrow> hash_blocks B f xs d = d"
  by (simp add: hash_blocks_def)

lemma hash_blocks_one: "length xs = B \<Longrightarrow> 0 < B \<Longrightarrow> hash_blocks B f xs d = f xs d"
  by (simp add: hash_blocks_def)

lemma hash_blocks_rest:
  "length ys < B \<Longrightarrow> B dvd length xs \<Longrightarrow> hash_blocks B f (xs @ ys) d = hash_blocks B f xs d"
  by (simp add: hash_blocks_append)

lemma hash_nblocks_eq_blocks:
  "length xs = n * B \<Longrightarrow> 0 < B \<Longrightarrow> hash_nblocks B f n xs d = hash_blocks B f xs d"
  by (simp add: hash_blocks_def)

section \<open>Machine words read as numbers\<close>

text \<open>The distance to the next multiple.\<close>

lemma dvd_add_complement:
  assumes "0 < (B :: nat)"
  shows "B dvd x + (B - x mod B) mod B"
proof (cases "B dvd x")
  case False
  then have "0 < x mod B" by (simp add: mod_greater_zero_iff_not_dvd)
  then have "(B - x mod B) mod B = B - x mod B" using assms by simp
  moreover have "x mod B < B" using assms by simp
  ultimately have "x + (B - x mod B) mod B = x div B * B + B"
    using div_mult_mod_eq[of x B] by linarith
  then show ?thesis by simp
qed simp

lemma mod_complement:
  assumes "(B :: nat) dvd a + n" "0 < B"
  shows "a mod B = (B - n mod B) mod B"
proof -
  have "B dvd a mod B + n mod B" using assms(1) by (simp add: mod_add_eq dvd_eq_mod_eq_0)
  then obtain q where q: "a mod B + n mod B = B * q" by (auto elim: dvdE)
  moreover have "a mod B < B" "n mod B < B" using assms(2) by simp_all
  then have "B * q < B * 2" using q by linarith
  then have "q < 2" by simp
  ultimately consider "a mod B + n mod B = 0" | "a mod B + n mod B = B"
    by (cases "q = 0") (auto simp: less_2_cases_iff)
  then show ?thesis
  proof cases
    case 2
    then have "B - n mod B = a mod B" by simp
    then show ?thesis by simp
  qed simp
qed

lemma unat_of_nat_small [wordnat]:
  "n < 2 ^ LENGTH('a) \<Longrightarrow> unat (of_nat n :: 'a::len word) = n"
  by (simp add: unat_of_nat take_bit_nat_eq_self)

lemma unat_drop_bit: "unat (drop_bit n (x :: 'a::len word)) = unat x div 2 ^ n"
  by (subst unsigned_drop_bit_eq) (simp only: drop_bit_eq_div take_bit_nat_eq_self unsigned_less)

lemma ucast_of_nat_down:
  "LENGTH('b) \<le> LENGTH('a) \<Longrightarrow> ucast (of_nat m :: 'a::len word) = (of_nat m :: 'b::len word)"
  by (rule word_unat_eq_iff[THEN iffD2])
    (simp add: unsigned_ucast_eq unsigned_of_nat take_bit_take_bit min_def)

lemma unat_add_small [wordnat]:
  "unat (x :: 'a::len word) + unat y < 2 ^ LENGTH('a) \<Longrightarrow> unat (x + y) = unat x + unat y"
  by (simp add: unat_word_ariths)

lemma unat_sub_small [wordnat]:
  "y \<le> (x :: 'a::len word) \<Longrightarrow> unat (x - y) = unat x - unat y"
  by (rule unat_sub)

lemma unat_and_mask:
  "unat ((x :: 'a::len word) AND mask k) = unat x mod 2 ^ k"
  by (simp flip: take_bit_eq_mask take_bit_eq_mod) (simp add: unsigned_take_bit_eq)

end
