(* ===== verification/Endian.thy ===== *)
theory Endian
  imports Prelude
begin

text \<open>
  Byte order, \<open>include/internal/endian_helper.h\<close>: the portable definitions of
  \<open>byteswap32\<close>, \<open>byteswap64\<close> and the \<open>to_le\<close>/\<open>to_be\<close> macros of the
  little-endian branch. The lemmas say what they are for: a word loaded from memory and
  passed through \<open>to_be\<close> is the big-endian value of the bytes, and storing
  \<open>to_be x\<close> writes the bytes of \<open>x\<close> most significant first.
\<close>

section \<open>The macros\<close>

definition byteswap32 :: "u32 \<Rightarrow> u32" where
  "byteswap32 x =
     push_bit 24 x OR push_bit 8 (x AND 0xff00) OR drop_bit 8 (x AND 0xff0000) OR drop_bit 24 x"

definition byteswap64 :: "u64 \<Rightarrow> u64" where
  "byteswap64 x =
     push_bit 56 (x AND push_bit 0 0xff) OR push_bit 40 (x AND push_bit 8 0xff) OR
     push_bit 24 (x AND push_bit 16 0xff) OR push_bit 8 (x AND push_bit 24 0xff) OR
     drop_bit 8 (x AND push_bit 32 0xff) OR drop_bit 24 (x AND push_bit 40 0xff) OR
     drop_bit 40 (x AND push_bit 48 0xff) OR drop_bit 56 (x AND push_bit 56 0xff)"

definition to_le32 :: "u32 \<Rightarrow> u32" where "to_le32 x = x"
definition to_le64 :: "u64 \<Rightarrow> u64" where "to_le64 x = x"
definition to_be32 :: "u32 \<Rightarrow> u32" where "to_be32 x = byteswap32 x"
definition to_be64 :: "u64 \<Rightarrow> u64" where "to_be64 x = byteswap64 x"

section \<open>Bit by bit\<close>

lemma ff_mask: "(0xff :: 'w::len word) = mask 8"
  by (simp add: mask_eq_exp_minus_1)

lemma ff_masks32:
  "(0xff00 :: u32) = push_bit 8 (mask 8)" "(0xff0000 :: u32) = push_bit 16 (mask 8)"
  by (simp_all add: mask_eq_exp_minus_1)

lemma byte_index_cases:
  assumes "(n :: nat) < 8 * k"
  obtains j r where "n = 8 * j + r" "j < k" "r < 8"
proof -
  from assms have "n div 8 < k" by (simp add: div_less_iff_less_mult mult.commute)
  moreover have "n = 8 * (n div 8) + n mod 8" by simp
  ultimately show thesis using that[of "n div 8" "n mod 8"] by simp
qed

lemma bit_byteswap32:
  assumes "j < 4" "r < 8"
  shows "bit (byteswap32 x) (8 * j + r) = bit x (8 * (3 - j) + r)"
proof -
  from assms(1) consider "j = 0" | "j = 1" | "j = 2" | "j = 3" by linarith
  then show ?thesis
    by cases (use assms(2) in \<open>auto simp: byteswap32_def ff_masks32 bit_simps dest: bit_imp_le_length\<close>)
qed

lemma bit_byteswap64:
  assumes "j < 8" "r < 8"
  shows "bit (byteswap64 x) (8 * j + r) = bit x (8 * (7 - j) + r)"
proof -
  from assms(1) consider "j = 0" | "j = 1" | "j = 2" | "j = 3" | "j = 4" | "j = 5" | "j = 6" | "j = 7"
    by linarith
  then show ?thesis
    by cases (use assms(2) in \<open>auto simp: byteswap64_def ff_mask bit_simps dest: bit_imp_le_length\<close>)
qed

lemma bit_load_le:
  "8 * j + r < LENGTH('w) \<Longrightarrow> r < 8 \<Longrightarrow>
   bit (load_le bs :: 'w::len word) (8 * j + r) \<longleftrightarrow> j < length bs \<and> bit (bs ! j) r"
proof (induction bs arbitrary: j)
  case (Cons b bs)
  show ?case
  proof (cases j)
    case 0
    then show ?thesis using Cons.prems by (simp add: bit_simps)
  next
    case (Suc i)
    have "\<not> bit b (8 + (8 * i + r))" using bit_imp_le_length[of b] by fastforce
    then show ?thesis using Cons.IH[of i] Cons.prems Suc by (simp add: bit_simps add.assoc)
  qed
qed simp

lemma bit_store_le:
  "i < k \<Longrightarrow> r < 8 \<Longrightarrow> bit (store_le k x ! i) r = bit x (8 * i + r)"
proof (induction k arbitrary: x i)
  case (Suc k)
  then show ?case by (cases i) (auto simp: bit_simps add.assoc)
qed simp

lemma u32_byte_eqI:
  assumes "\<And>j r. j < 4 \<Longrightarrow> r < 8 \<Longrightarrow> bit (x :: u32) (8 * j + r) = bit y (8 * j + r)"
  shows "x = y"
proof (rule bit_word_eqI)
  fix n assume "n < LENGTH(32)"
  then have "n < 8 * 4" by simp
  then show "bit x n = bit y n" by (rule byte_index_cases) (use assms in auto)
qed

lemma u64_byte_eqI:
  assumes "\<And>j r. j < 8 \<Longrightarrow> r < 8 \<Longrightarrow> bit (x :: u64) (8 * j + r) = bit y (8 * j + r)"
  shows "x = y"
proof (rule bit_word_eqI)
  fix n assume "n < LENGTH(64)"
  then have "n < 8 * 8" by simp
  then show "bit x n = bit y n" by (rule byte_index_cases) (use assms in auto)
qed

lemma byte_eqI:
  assumes "\<And>r. r < 8 \<Longrightarrow> bit (x :: byte) r = bit y r"
  shows "x = y"
  by (rule bit_word_eqI) (use assms in simp)

section \<open>What the macros compute\<close>

lemma byteswap32_load_le: "length bs = 4 \<Longrightarrow> byteswap32 (load_le bs) = load_be bs"
  by (rule u32_byte_eqI) (simp add: bit_byteswap32 bit_load_le load_be_def rev_nth less_imp_diff_less)

lemma byteswap64_load_le: "length bs = 8 \<Longrightarrow> byteswap64 (load_le bs) = load_be bs"
  by (rule u64_byte_eqI) (simp add: bit_byteswap64 bit_load_le load_be_def rev_nth less_imp_diff_less)

lemma byteswap32_byteswap32 [simp]: "byteswap32 (byteswap32 x) = x"
  by (rule u32_byte_eqI) (simp add: bit_byteswap32)

lemma byteswap64_byteswap64 [simp]: "byteswap64 (byteswap64 x) = x"
  by (rule u64_byte_eqI) (simp add: bit_byteswap64)

lemma store_le_byteswap32: "store_le 4 (byteswap32 x) = store_be 4 x"
  by (rule nth_equalityI)
    (auto simp: store_be_def rev_nth bit_store_le bit_byteswap32 intro!: byte_eqI)

lemma store_le_byteswap64: "store_le 8 (byteswap64 x) = store_be 8 x"
  by (rule nth_equalityI)
    (auto simp: store_be_def rev_nth bit_store_le bit_byteswap64 intro!: byte_eqI)

lemma load_le_store_le32: "load_le (store_le 4 x) = (x :: u32)"
  by (rule u32_byte_eqI) (simp add: bit_load_le bit_store_le)

lemma load_le_store_le64: "load_le (store_le 8 x) = (x :: u64)"
  by (rule u64_byte_eqI) (simp add: bit_load_le bit_store_le)

lemma load_be_store_be32: "load_be (store_be 4 x) = (x :: u32)"
  by (simp add: load_be_def store_be_def load_le_store_le32)

lemma load_be_store_be64: "load_be (store_be 8 x) = (x :: u64)"
  by (simp add: load_be_def store_be_def load_le_store_le64)

end
