(* ===== verification/MultiBuffer.thy ===== *)
theory MultiBuffer
  imports Endian
begin

text \<open>
  The data shared by every hash: the flags, status and error codes of
  \<open>include/isa-l_crypto/multi_buffer.h\<close>, the return codes of
  \<open>isal_crypto_api.h\<close>, and the job and context structures of the
  \<open>*_mb.h\<close> headers. The five algorithms declare the same structures at different
  widths, so the types take the digest word \<open>'w\<close> and the width \<open>'l\<close> of \<open>job.len\<close>
  (\<open>uint32_t\<close> for MD5 and SHA-1, \<open>uint64_t\<close> for the others).
\<close>

section \<open>Flags, status and error codes\<close>

text \<open>
  The C enums are used as bit masks (\<open>flags & ~ISAL_HASH_ENTIRE\<close>,
  \<open>PROCESSING | LAST\<close>), and a caller may pass any value, so flags and status are machine
  words; the error code is only ever assigned one of its enumerators.
\<close>

abbreviation (input) ISAL_HASH_UPDATE :: u32 where "ISAL_HASH_UPDATE \<equiv> 0"
abbreviation (input) ISAL_HASH_FIRST :: u32 where "ISAL_HASH_FIRST \<equiv> 1"
abbreviation (input) ISAL_HASH_LAST :: u32 where "ISAL_HASH_LAST \<equiv> 2"
abbreviation (input) ISAL_HASH_ENTIRE :: u32 where "ISAL_HASH_ENTIRE \<equiv> 3"

abbreviation (input) STS_IDLE :: u32 where "STS_IDLE \<equiv> 0"
abbreviation (input) STS_PROCESSING :: u32 where "STS_PROCESSING \<equiv> 1"
abbreviation (input) STS_LAST :: u32 where "STS_LAST \<equiv> 2"
abbreviation (input) STS_COMPLETE :: u32 where "STS_COMPLETE \<equiv> 4"

datatype hash_ctx_error =
  ERROR_NONE | ERROR_INVALID_FLAGS | ERROR_ALREADY_PROCESSING | ERROR_ALREADY_COMPLETED

datatype job_sts =
  STS_UNKNOWN | STS_BEING_PROCESSED | STS_COMPLETED | STS_INTERNAL_ERROR | STS_ERROR

datatype isal_error =
    ERR_NONE | ERR_NULL_SRC | ERR_NULL_DST | ERR_NULL_CTX | ERR_NULL_MGR | ERR_NULL_KEY
  | ERR_NULL_EXP_KEY | ERR_NULL_IV | ERR_NULL_AUTH | ERR_NULL_AAD | ERR_CIPH_LEN
  | ERR_AUTH_TAG_LEN | ERR_INVALID_FLAGS | ERR_ALREADY_PROCESSING | ERR_ALREADY_COMPLETED
  | ERR_XTS_NULL_TWEAK | ERR_XTS_SAME_KEYS | ERR_SELF_TEST | ERR_FIPS_INVALID_ALGO
  | ERR_WINDOW_SIZE | ERR_NULL_OFFSET | ERR_NULL_MATCH | ERR_NULL_MASK | ERR_NULL_INIT_VAL
  | ERR_FIPS_DISABLED

section \<open>Jobs and contexts\<close>

text \<open>
  \<open>job.buffer\<close> points into the caller's buffer or into the context's own
  \<open>partial_block_buffer\<close>, and is read when the scheduler gets to the job, not when the job
  is submitted. A pointer into the caller's read-only buffer is the list of the bytes from it
  on, so that pointer addition drops bytes; a pointer into the own buffer is its offset.
\<close>

datatype bufptr = User "byte list" | Own nat

record (overloaded) ('w, 'l) job =
  job_buffer :: bufptr
  job_len :: "'l::len word"
  result_digest :: "'w::len word list"
  job_status :: job_sts

record (overloaded) ('w, 'l) hash_ctx =
  job :: "('w::len, 'l::len) job"
  status :: u32
  error :: hash_ctx_error
  total_length :: u64
  incoming_buffer :: "byte list"
  incoming_buffer_length :: u32
  partial_block_buffer :: "byte list"
  partial_block_buffer_length :: u32

primrec buf_add :: "bufptr \<Rightarrow> nat \<Rightarrow> bufptr" where
  "buf_add (User bs) n = User (drop n bs)"
| "buf_add (Own off) n = Own (off + n)"

text \<open>The bytes a job pointer of the context \<open>ctx\<close> reads.\<close>

primrec buf_bytes :: "('w::len, 'l::len) hash_ctx \<Rightarrow> bufptr \<Rightarrow> byte list" where
  "buf_bytes ctx (User bs) = bs"
| "buf_bytes ctx (Own off) = drop off (partial_block_buffer ctx)"

lemma buf_bytes_add [simp]: "buf_bytes ctx (buf_add p n) = drop n (buf_bytes ctx p)"
  by (cases p) (simp_all add: add.commute)

definition set_digest :: "'w::len word list \<Rightarrow> ('w, 'l::len) hash_ctx \<Rightarrow> ('w, 'l) hash_ctx" where
  "set_digest d ctx = ctx\<lparr>job := (job ctx)\<lparr>result_digest := d\<rparr>\<rparr>"

abbreviation digest :: "('w::len, 'l::len) hash_ctx \<Rightarrow> 'w word list" where
  "digest ctx \<equiv> result_digest (job ctx)"

lemma set_digest_simps [simp]:
  "digest (set_digest d ctx) = d"
  "status (set_digest d ctx) = status ctx"
  "error (set_digest d ctx) = error ctx"
  "total_length (set_digest d ctx) = total_length ctx"
  "incoming_buffer (set_digest d ctx) = incoming_buffer ctx"
  "incoming_buffer_length (set_digest d ctx) = incoming_buffer_length ctx"
  "partial_block_buffer (set_digest d ctx) = partial_block_buffer ctx"
  "partial_block_buffer_length (set_digest d ctx) = partial_block_buffer_length ctx"
  by (simp_all add: set_digest_def)

text \<open>The initialisation macro a caller runs on a fresh context before the first submit.\<close>

definition isal_hash_ctx_init :: "('w::len, 'l::len) hash_ctx \<Rightarrow> ('w, 'l) hash_ctx" where
  "isal_hash_ctx_init ctx = ctx\<lparr>error := ERROR_NONE, status := STS_COMPLETE\<rparr>"

definition isal_hash_ctx_processing :: "('w::len, 'l::len) hash_ctx \<Rightarrow> bool" where
  "isal_hash_ctx_processing ctx \<longleftrightarrow> status ctx AND STS_PROCESSING \<noteq> 0"

definition isal_hash_ctx_complete :: "('w::len, 'l::len) hash_ctx \<Rightarrow> bool" where
  "isal_hash_ctx_complete ctx \<longleftrightarrow> status ctx = STS_COMPLETE"

end
