(* ===== verification/HashSpec.thy ===== *)
theory HashSpec
  imports MultiBuffer
begin

text \<open>
  The abstract specification every hash of the library is compared with: the
  Merkle-Damgard construction over a compression function, as the standards (FIPS 180-4,
  RFC 1321, GB/T 32905) define it. An algorithm is its block and length-field sizes, its
  initial value and compression function, the encoding of the 64-bit message length and a
  last transformation of the digest words (the identity but for SM3, whose code stores the
  words byte-swapped).
\<close>

record (overloaded) 'w hash_alg =
  block_size :: nat
  log2_block_size :: nat
  pad_field_size :: nat
  initial_digest :: "'w::len word list"
  single :: "byte list \<Rightarrow> 'w word list \<Rightarrow> 'w word list"
  len_field :: "u64 \<Rightarrow> byte list"
  output_digest :: "'w word list \<Rightarrow> 'w word list"

section \<open>Padding\<close>

text \<open>
  After a message of \<open>n\<close> bytes: the byte \<open>0x80\<close>, the least number of zero bytes that
  leaves room for a length field of \<open>pad_field_size\<close> bytes at the end of a block, and the
  length in bits, of which the code only ever fills the low 8 bytes.
\<close>

definition pad_zeros :: "nat \<Rightarrow> nat \<Rightarrow> nat \<Rightarrow> nat" where
  "pad_zeros B P n = (B - (n + 1 + P) mod B) mod B + (P - 8)"

definition md_padding :: "'w::len hash_alg \<Rightarrow> nat \<Rightarrow> byte list" where
  "md_padding A n =
     0x80 # replicate (pad_zeros (block_size A) (pad_field_size A) n) 0
       @ len_field A (of_nat n * 8)"

definition md_blocks :: "'w::len hash_alg \<Rightarrow> byte list \<Rightarrow> 'w word list \<Rightarrow> 'w word list" where
  "md_blocks A m d = hash_blocks (block_size A) (single A) m d"

definition md_hash :: "'w::len hash_alg \<Rightarrow> byte list \<Rightarrow> 'w word list" where
  "md_hash A m =
     output_digest A (md_blocks A (m @ md_padding A (length m)) (initial_digest A))"

text \<open>Two compression functions that agree on digests of \<open>k\<close> words give the same hash.\<close>

lemma hash_nblocks_cong:
  assumes "\<And>xs d. length xs = B \<Longrightarrow> length d = k \<Longrightarrow> f xs d = g xs d \<and> length (g xs d) = k"
    and "length d = k" "n * B \<le> length xs"
  shows "hash_nblocks B f n xs d = hash_nblocks B g n xs d"
  using assms(2,3)
proof (induction n arbitrary: xs d)
  case (Suc n)
  then have "length (take B xs) = B" "n * B \<le> length (drop B xs)" by simp_all
  with assms(1)[of "take B xs" d] Suc.prems Suc.IH show ?case by simp
qed simp

lemma md_hash_cong:
  assumes "\<And>xs d. length xs = block_size A \<Longrightarrow> length d = k \<Longrightarrow>
      single A xs d = f xs d \<and> length (f xs d) = k"
    and "length (initial_digest A) = k"
  shows "md_hash A m = md_hash (A\<lparr>single := f\<rparr>) m"
proof -
  let ?p = "m @ md_padding A (length m)"
  have "hash_nblocks (block_size A) (single A) (length ?p div block_size A) ?p (initial_digest A)
      = hash_nblocks (block_size A) f (length ?p div block_size A) ?p (initial_digest A)"
    using assms by (intro hash_nblocks_cong[where k = k]) (simp_all only: div_times_less_eq_dividend)
  then show ?thesis
    by (simp add: md_hash_def md_blocks_def md_padding_def hash_blocks_def)
qed

section \<open>What the code relies on in an algorithm's constants\<close>

locale hash_algorithm =
  fixes A :: "'w::len hash_alg"
  assumes block_size_log2: "block_size A = 2 ^ log2_block_size A"
    and log2_block_size_bounds: "4 \<le> log2_block_size A" "log2_block_size A \<le> 7"
    and pad_field_size: "pad_field_size A = 8 \<or> pad_field_size A = 16"
    and pad_field_less: "pad_field_size A < block_size A"
    and length_len_field: "length (len_field A x) = 8"
begin

lemma pad_field_bounds: "8 \<le> pad_field_size A" "pad_field_size A < block_size A"
  using pad_field_size pad_field_less by auto

lemma block_size_pos [simp]: "0 < block_size A"
  by (simp add: block_size_log2)

lemma block_size_bounds: "block_size A \<le> 128" "16 \<le> block_size A"
proof -
  have "(2::nat) ^ 4 \<le> 2 ^ log2_block_size A" "(2::nat) ^ log2_block_size A \<le> 2 ^ 7"
    using log2_block_size_bounds by (intro power_increasing; simp)+
  then show "block_size A \<le> 128" "16 \<le> block_size A"
    by (simp_all add: block_size_log2)
qed

lemma md_blocks_append:
  "block_size A dvd length xs \<Longrightarrow> md_blocks A (xs @ ys) d = md_blocks A ys (md_blocks A xs d)"
  by (simp add: md_blocks_def hash_blocks_append)

lemma md_blocks_short [simp]: "length xs < block_size A \<Longrightarrow> md_blocks A xs d = d"
  by (simp add: md_blocks_def)

lemma md_blocks_one: "length xs = block_size A \<Longrightarrow> md_blocks A xs d = single A xs d"
  by (simp add: md_blocks_def hash_blocks_one)

lemma md_blocks_Nil [simp]: "md_blocks A [] d = d"
  by simp

lemma hash_nblocks_md_blocks:
  assumes "n * block_size A \<le> length xs"
  shows "hash_nblocks (block_size A) (single A) n xs d = md_blocks A (take (n * block_size A) xs) d"
proof -
  have "length (take (n * block_size A) xs) = n * block_size A" using assms by simp
  then have "hash_nblocks (block_size A) (single A) n (take (n * block_size A) xs) d
      = md_blocks A (take (n * block_size A) xs) d"
    unfolding md_blocks_def by (rule hash_nblocks_eq_blocks) simp
  then show ?thesis by (simp add: hash_nblocks_take)
qed

lemma length_md_padding_dvd: "block_size A dvd n + length (md_padding A n)"
proof -
  let ?B = "block_size A" and ?P = "pad_field_size A"
  have "n + length (md_padding A n) = (n + 1 + ?P) + (?B - (n + 1 + ?P) mod ?B) mod ?B"
    using pad_field_bounds by (simp add: md_padding_def pad_zeros_def length_len_field)
  then show ?thesis by (simp only: dvd_add_complement block_size_pos)
qed

end

end
