(* ===== verification/BaseCtx.thy ===== *)
theory BaseCtx
  imports HashSpec
begin

text \<open>
  The portable context layer, \<open><alg>_mb/<alg>_ctx_base.c\<close>. The five files hold the same
  four functions over different constants; they are translated once over the algorithm
  record (line numbers of the map are those of the SHA-256 file) and instantiated per
  algorithm in the theory of its compression function. A base manager has no state and
  finishes every submit at once.
\<close>

section \<open>The operations\<close>

definition base_init :: "'w::len hash_alg \<Rightarrow> ('w, 'l::len) hash_ctx \<Rightarrow> ('w, 'l) hash_ctx" where
  "base_init A ctx =
     (set_digest (initial_digest A) ctx)
       \<lparr>total_length := 0, partial_block_buffer_length := 0,
        error := ERROR_NONE, status := STS_PROCESSING\<rparr>"

text \<open>
  The first half of \<open>update\<close>: append the caller's bytes to the partial block, and hash that
  block when it is full. The result is the context, the advanced buffer pointer and the
  remaining length. The second disjunct of the C condition is joined with a bitwise \<open>|\<close>.
\<close>

definition base_fill ::
  "'w::len hash_alg \<Rightarrow> ('w, 'l::len) hash_ctx \<Rightarrow> byte list \<Rightarrow> u32 \<Rightarrow>
   ('w, 'l) hash_ctx \<times> byte list \<times> u32" where
  "base_fill A ctx buffer remain_len =
     (if partial_block_buffer_length ctx \<noteq> 0 \<or> remain_len < of_nat (block_size A) then
        let copy_len = of_nat (block_size A) - partial_block_buffer_length ctx;
            copy_len = (if remain_len < copy_len then remain_len else copy_len);
            (ctx, buffer, remain_len) =
              (if copy_len \<noteq> 0 then
                 (ctx\<lparr>partial_block_buffer :=
                        memcpy_at (partial_block_buffer ctx)
                          (unat (partial_block_buffer_length ctx)) buffer (unat copy_len),
                      partial_block_buffer_length := partial_block_buffer_length ctx + copy_len\<rparr>,
                  drop (unat copy_len) buffer, remain_len - copy_len)
               else (ctx, buffer, remain_len))
        in if of_nat (block_size A) \<le> partial_block_buffer_length ctx then
             (set_digest (single A (take (block_size A) (partial_block_buffer ctx)) (digest ctx))
                (ctx\<lparr>partial_block_buffer_length := 0\<rparr>), buffer, remain_len)
           else (ctx, buffer, remain_len)
      else (ctx, buffer, remain_len))"

text \<open>
  The \<open>while\<close> loop over the whole blocks of the caller's buffer. The block sizes of the
  library are 64 and 128; the first conjunct of the guard only serves to make the generic
  function total.
\<close>

function base_loop ::
  "'w::len hash_alg \<Rightarrow> u32 \<Rightarrow> byte list \<Rightarrow> 'w word list \<Rightarrow> u32 \<times> byte list \<times> 'w word list" where
  "base_loop A remain_len buffer dgst =
     (if 0 < (of_nat (block_size A) :: u32) \<and> of_nat (block_size A) \<le> remain_len then
        base_loop A (remain_len - of_nat (block_size A)) (drop (block_size A) buffer)
          (single A (take (block_size A) buffer) dgst)
      else (remain_len, buffer, dgst))"
  by pat_completeness auto
termination
  by (relation "measure (\<lambda>(A, n, b, d). unat n)")
    (auto simp: word_less_nat_alt word_le_nat_alt unat_sub_small)

declare base_loop.simps [simp del]

definition base_update ::
  "'w::len hash_alg \<Rightarrow> ('w, 'l::len) hash_ctx \<Rightarrow> byte list \<Rightarrow> u32 \<Rightarrow> ('w, 'l) hash_ctx" where
  "base_update A ctx buffer len =
     (let ctx = ctx\<lparr>total_length := total_length ctx + ucast len\<rparr>;
          (ctx, buffer, remain_len) = base_fill A ctx buffer len;
          (ctx, buffer, remain_len) =
            (if partial_block_buffer_length ctx = 0 then
               let (remain_len, buffer, dgst) = base_loop A remain_len buffer (digest ctx)
               in (set_digest dgst ctx, buffer, remain_len)
             else (ctx, buffer, remain_len));
          ctx =
            (if 0 < remain_len then
               ctx\<lparr>partial_block_buffer :=
                     memcpy_at (partial_block_buffer ctx) 0 buffer (unat remain_len),
                   partial_block_buffer_length := remain_len\<rparr>
             else ctx)
      in ctx\<lparr>status := STS_IDLE\<rparr>)"

text \<open>
  The last block or two, which \<open>final\<close> and the one-shot \<open><alg>_ref\<close> build on the stack: the
  \<open>i\<close> remaining bytes, \<open>0x80\<close>, zeros, and the bit count in the last eight bytes. (The \<open>_ref\<close>
  files of the 64-byte hashes leave bytes 120 to 127 uninitialised; they are overwritten by
  the length, or belong to a second block that is not hashed.)
\<close>

definition hash_tail ::
  "'w::len hash_alg \<Rightarrow> byte list \<Rightarrow> u32 \<Rightarrow> u64 \<Rightarrow> 'w word list \<Rightarrow> 'w word list" where
  "hash_tail A buffer n bits dgst =
     (let B = block_size A;
          buf = take (unat n) buffer @ [0x80] @ replicate (2 * B - (unat n + 1)) 0;
          i = n + 1;
          i = (if of_nat (B - pad_field_size A) < i then 2 * B else B);
          buf = memcpy_at buf (i - 8) (len_field A bits) 8;
          dgst = single A (take B buf) dgst
      in if i = 2 * B then single A (take B (drop B buf)) dgst else dgst)"

definition base_final :: "'w::len hash_alg \<Rightarrow> ('w, 'l::len) hash_ctx \<Rightarrow> ('w, 'l) hash_ctx" where
  "base_final A ctx =
     (let dgst = hash_tail A (partial_block_buffer ctx) (partial_block_buffer_length ctx)
                   (total_length ctx * 8) (digest ctx)
      in (set_digest (output_digest A dgst) ctx)\<lparr>status := STS_COMPLETE\<rparr>)"

text \<open>\<open><alg>_ref (input, digest, len)\<close>, the one-shot reference of the library.\<close>

definition ref_hash :: "'w::len hash_alg \<Rightarrow> byte list \<Rightarrow> u32 \<Rightarrow> 'w word list" where
  "ref_hash A input len =
     (let (i, input, dgst) = base_loop A len input (initial_digest A)
      in hash_tail A input i (ucast len * 8) dgst)"

definition base_submit ::
  "'w::len hash_alg \<Rightarrow> ('w, 'l::len) hash_ctx \<Rightarrow> byte list \<Rightarrow> u32 \<Rightarrow> u32 \<Rightarrow> ('w, 'l) hash_ctx"
where
  "base_submit A ctx buffer len flags =
     (if flags AND NOT ISAL_HASH_ENTIRE \<noteq> 0 then ctx\<lparr>error := ERROR_INVALID_FLAGS\<rparr>
      else if status ctx AND STS_PROCESSING \<noteq> 0 \<and> flags = ISAL_HASH_ENTIRE then
        ctx\<lparr>error := ERROR_ALREADY_PROCESSING\<rparr>
      else if status ctx AND STS_COMPLETE \<noteq> 0 \<and> flags AND ISAL_HASH_FIRST = 0 then
        ctx\<lparr>error := ERROR_ALREADY_COMPLETED\<rparr>
      else
        let ctx = (if flags = ISAL_HASH_FIRST
                   then base_update A (base_init A ctx) buffer len else ctx);
            ctx = (if flags = ISAL_HASH_UPDATE then base_update A ctx buffer len else ctx);
            ctx = (if flags = ISAL_HASH_LAST
                   then base_final A (base_update A ctx buffer len) else ctx);
            ctx = (if flags = ISAL_HASH_ENTIRE
                   then base_final A (base_update A (base_init A ctx) buffer len) else ctx)
        in ctx)"

text \<open>\<open>_<alg>_ctx_mgr_flush_base\<close> has nothing in flight and returns \<open>NULL\<close>.\<close>

definition base_flush :: "('w::len, 'l::len) hash_ctx option" where
  "base_flush = None"

text \<open>A stream of requests on one context, each with the length of its buffer.\<close>

definition base_stream ::
  "'w::len hash_alg \<Rightarrow> ('w, 'l::len) hash_ctx \<Rightarrow> byte list \<Rightarrow> byte list list \<Rightarrow> byte list \<Rightarrow>
   ('w, 'l) hash_ctx" where
  "base_stream A ctx x ys z =
     base_submit A
       (fold (\<lambda>b c. base_submit A c b (of_nat (length b)) ISAL_HASH_UPDATE) ys
          (base_submit A ctx x (of_nat (length x)) ISAL_HASH_FIRST))
       z (of_nat (length z)) ISAL_HASH_LAST"

section \<open>What a context holds\<close>

text \<open>
  The digest of the context covers the whole blocks \<open>pre\<close>, and \<open>part\<close> waits in the partial
  block buffer; a context has absorbed the message \<open>m\<close> when \<open>m\<close> is cut in this way and the
  byte counter counts it.
\<close>

definition ctx_split ::
  "'w::len hash_alg \<Rightarrow> byte list \<Rightarrow> byte list \<Rightarrow> ('w, 'l::len) hash_ctx \<Rightarrow> bool" where
  "ctx_split A pre part ctx \<longleftrightarrow>
     block_size A dvd length pre \<and> length part < block_size A \<and>
     digest ctx = md_blocks A pre (initial_digest A) \<and>
     unat (partial_block_buffer_length ctx) = length part \<and>
     take (length part) (partial_block_buffer ctx) = part \<and>
     length (partial_block_buffer ctx) = 2 * block_size A"

definition ctx_holds :: "'w::len hash_alg \<Rightarrow> byte list \<Rightarrow> ('w, 'l::len) hash_ctx \<Rightarrow> bool" where
  "ctx_holds A m ctx \<longleftrightarrow>
     (\<exists>pre part. m = pre @ part \<and> ctx_split A pre part ctx) \<and>
     total_length ctx = of_nat (length m)"

text \<open>The only thing asked of a fresh context: its buffer has the declared size.\<close>

definition wf_ctx :: "'w::len hash_alg \<Rightarrow> ('w, 'l::len) hash_ctx \<Rightarrow> bool" where
  "wf_ctx A ctx \<longleftrightarrow> length (partial_block_buffer ctx) = 2 * block_size A"

lemma ctx_split_frame [simp]:
  "ctx_split A pre part (ctx\<lparr>status := s\<rparr>) = ctx_split A pre part ctx"
  "ctx_split A pre part (ctx\<lparr>error := e\<rparr>) = ctx_split A pre part ctx"
  "ctx_split A pre part (ctx\<lparr>total_length := t\<rparr>) = ctx_split A pre part ctx"
  by (simp_all add: ctx_split_def)

context hash_algorithm begin

lemma unat_block_size [simp]: "unat (of_nat (block_size A) :: u32) = block_size A"
proof -
  have "block_size A < 2 ^ 32" using block_size_bounds(1) by simp
  then show ?thesis by (intro unat_of_nat_small) simp
qed

lemma block_size_word_pos [simp]: "0 < (of_nat (block_size A) :: u32)"
  by (simp add: word_less_nat_alt)

lemma base_loop_eq:
  "base_loop A n bs d =
     (of_nat (unat n mod block_size A),
      drop (unat n div block_size A * block_size A) bs,
      hash_nblocks (block_size A) (single A) (unat n div block_size A) bs d)"
proof (induction "unat n" arbitrary: n bs d rule: less_induct)
  case less
  let ?B = "block_size A"
  show ?case
  proof (cases "of_nat ?B \<le> n")
    case True
    then have le: "?B \<le> unat n" and un: "unat (n - of_nat ?B) = unat n - ?B"
      by (simp_all add: word_le_nat_alt unat_sub_small)
    have step: "unat n div ?B = Suc ((unat n - ?B) div ?B)" "unat n mod ?B = (unat n - ?B) mod ?B"
      using le by (simp_all add: le_div_geq le_mod_geq)
    have "unat (n - of_nat ?B) < unat n" using le un block_size_pos by linarith
    note IH = less.hyps[OF this]
    show ?thesis
      unfolding base_loop.simps[of A n] using True
      by (simp add: IH un step add.commute)
  next
    case False
    then have "unat n < ?B" by (simp add: word_le_nat_alt)
    then show ?thesis
      unfolding base_loop.simps[of A n] using False by simp
  qed
qed

text \<open>
  The outcomes of \<open>base_fill\<close>: either it leaves an empty partial block and has consumed
  \<open>k\<close> bytes of the caller's, or all of them fit into the partial block.
\<close>

lemma base_fill_cases:
  assumes sp: "ctx_split A pre part ctx" and len: "unat n \<le> length bs"
    and res: "base_fill A ctx bs n = (ctx', bs', n')"
  obtains (whole) k where "k \<le> unat n" "bs' = drop k bs" "unat n' = unat n - k"
      "ctx_split A (pre @ part @ take k bs) [] ctx'"
      "total_length ctx' = total_length ctx" "error ctx' = error ctx"
  | (stored) "n' = 0" "ctx_split A pre (part @ take (unat n) bs) ctx'"
      "total_length ctx' = total_length ctx" "error ctx' = error ctx"
proof -
  let ?B = "block_size A" and ?p = "partial_block_buffer_length ctx"
  note p = sp [unfolded ctx_split_def]
  show thesis
  proof (cases "?p \<noteq> 0 \<or> n < of_nat ?B")
    case False
    then have "part = []" "?B \<le> unat n"
      using p by (auto simp: word_less_nat_alt unat_eq_0[symmetric])
    with False res sp show ?thesis by (intro whole[of 0]) (auto simp: base_fill_def)
  next
    case True
    define c where "c = (if n < of_nat ?B - ?p then n else of_nat ?B - ?p)"
    have un: "unat (of_nat ?B - ?p) = ?B - length part"
      using p by (simp add: unat_sub_small word_le_nat_alt)
    have uc: "unat c = min (unat n) (?B - length part)"
      by (simp add: c_def un word_less_nat_alt min_def)
    define pb where "pb = memcpy_at (partial_block_buffer ctx) (length part) bs (unat c)"
    have lpb: "length pb = 2 * ?B"
    proof -
      have "unat c \<le> length bs" "length part + unat c \<le> length (partial_block_buffer ctx)"
        using p len uc by auto
      then show ?thesis using p by (simp add: pb_def)
    qed
    have tpb: "take (length part + unat c) pb = part @ take (unat c) bs"
      using p len uc by (simp add: pb_def take_memcpy_at)
    have upl: "unat (?p + c) = length part + unat c"
    proof -
      have "length part + unat c \<le> ?B" using p uc by (auto simp: min_def)
      then have "length part + unat c < 2 ^ 32" using block_size_bounds(1) by simp
      then show ?thesis using p by (simp add: unat_add_small)
    qed
    show ?thesis
    proof (cases "?B \<le> length part + unat c")
      case full': True
      then have c': "unat c = ?B - length part" and cn: "unat c \<le> unat n" using uc p by auto
      then have "c \<noteq> 0" using p by auto
      moreover have "of_nat ?B \<le> ?p + c" using full' upl by (simp add: word_le_nat_alt)
      ultimately have "(ctx', bs', n') =
          (set_digest (single A (take ?B pb) (digest ctx))
             (ctx\<lparr>partial_block_buffer := pb, partial_block_buffer_length := 0\<rparr>),
           drop (unat c) bs, n - c)"
        using True res p by (simp add: base_fill_def c_def[symmetric] pb_def Let_def)
      moreover have "take ?B pb = part @ take (unat c) bs"
        using tpb c' p by simp
      moreover have "unat (n - c) = unat n - unat c"
        using cn by (simp add: unat_sub_small word_le_nat_alt)
      ultimately show ?thesis
        using lpb c' cn p len
        by (intro whole[of "unat c"])
          (simp_all add: ctx_split_def md_blocks_append md_blocks_one)
    next
      case False
      then have cn: "unat c = unat n" and lt: "length part + unat n < ?B" using uc by auto
      then have [simp]: "c = n" by (simp add: unsigned_word_eqI)
      have "\<not> of_nat ?B \<le> ?p + c" "\<not> of_nat ?B \<le> ?p"
        using False upl p by (simp_all add: word_le_nat_alt)
      then have "(ctx', bs', n') =
          (if n = 0 then (ctx, bs, 0)
           else (ctx\<lparr>partial_block_buffer := pb, partial_block_buffer_length := ?p + n\<rparr>,
                 drop (unat n) bs, 0))"
        using True res p by (auto simp: base_fill_def c_def[symmetric] pb_def Let_def)
      then show ?thesis
        using lt lpb tpb upl p len by (intro stored) (auto simp: ctx_split_def split: if_splits)
    qed
  qed
qed

text \<open>The rest of \<open>update\<close>: the loop over whole blocks, and the copy of what remains.\<close>

lemma base_loop_split:
  assumes sp: "ctx_split A pre [] ctx" and len: "unat n \<le> length bs"
    and res: "base_loop A n bs (digest ctx) = (n', bs', d')"
  shows "unat n' = unat n mod block_size A"
    and "bs' = drop (unat n - unat n mod block_size A) bs"
    and "ctx_split A (pre @ take (unat n - unat n mod block_size A) bs) [] (set_digest d' ctx)"
proof -
  let ?B = "block_size A" and ?q = "unat n div block_size A"
  have q: "unat n - unat n mod ?B = ?q * ?B" by (simp add: minus_mod_eq_div_mult)
  have le: "?q * ?B \<le> length bs" using len by (metis div_times_less_eq_dividend le_trans)
  have "unat n mod ?B < 2 ^ 32"
    using unsigned_less[of n] by (intro le_less_trans[OF mod_less_eq_dividend]) simp
  then show "unat n' = unat n mod ?B"
    using res by (auto simp: base_loop_eq unat_of_nat_small)
  show "bs' = drop (unat n - unat n mod ?B) bs"
    using res by (auto simp: base_loop_eq q)
  have "d' = hash_nblocks ?B (single A) ?q (take (?q * ?B) bs) (digest ctx)"
    using res by (auto simp: base_loop_eq hash_nblocks_take)
  also have "\<dots> = md_blocks A (take (?q * ?B) bs) (digest ctx)"
    using le by (simp add: md_blocks_def hash_nblocks_eq_blocks)
  finally show "ctx_split A (pre @ take (unat n - unat n mod ?B) bs) [] (set_digest d' ctx)"
    using sp le by (simp add: ctx_split_def q md_blocks_append)
qed

lemma base_tail_split:
  assumes sp: "ctx_split A pre [] ctx" and len: "unat n \<le> length bs" and n: "unat n < block_size A"
  shows "ctx_split A pre (take (unat n) bs)
    (if 0 < n then ctx\<lparr>partial_block_buffer := memcpy_at (partial_block_buffer ctx) 0 bs (unat n),
       partial_block_buffer_length := n\<rparr> else ctx)"
  using assms take_memcpy_at[of "unat n" bs 0 "partial_block_buffer ctx"]
  by (auto simp: ctx_split_def word_less_nat_alt)

text \<open>\<open>update\<close> absorbs the caller's bytes, whatever was buffered before.\<close>

lemma base_update_split:
  assumes sp: "ctx_split A pre part ctx" and len: "unat n \<le> length bs"
  obtains pre' part' where "pre' @ part' = pre @ part @ take (unat n) bs"
    "ctx_split A pre' part' (base_update A ctx bs n)"
    "total_length (base_update A ctx bs n) = total_length ctx + ucast n"
    "error (base_update A ctx bs n) = error ctx"
proof -
  let ?B = "block_size A"
  define ctx1 where "ctx1 = ctx\<lparr>total_length := total_length ctx + ucast n\<rparr>"
  have sp1: "ctx_split A pre part ctx1" using sp by (simp add: ctx1_def)
  have tot1: "total_length ctx1 = total_length ctx + ucast n" and err1: "error ctx1 = error ctx"
    by (simp_all add: ctx1_def)
  obtain ctx2 bs2 n2 where fill: "base_fill A ctx1 bs n = (ctx2, bs2, n2)" by (metis prod_cases3)
  note upd = base_update_def[of A ctx bs n, folded ctx1_def, unfolded Let_def fill]
  from sp1 len fill show ?thesis
  proof (cases rule: base_fill_cases)
    case (whole k)
    obtain n3 bs3 d3 where loop: "base_loop A n2 bs2 (digest ctx2) = (n3, bs3, d3)"
      by (metis prod_cases3)
    have len2: "unat n2 \<le> length bs2" using whole len by simp
    note l = base_loop_split[OF whole(4) len2 loop]
    let ?c = "unat n2 - unat n2 mod ?B"
    have "unat n3 \<le> length bs3" "unat n3 < ?B" using l(1,2) len2 by simp_all
    note t = base_tail_split[OF l(3) this]
    have "take k bs @ take ?c (drop k bs) @ take (unat n3) (drop ?c (drop k bs))
        = take (k + (?c + unat n3)) bs"
      by (rule take3)
    also have "k + (?c + unat n3) = unat n"
      using whole(1,3) l(1) mod_less_eq_dividend[of "unat n2" ?B] by linarith
    finally have "take k bs @ take ?c bs2 @ take (unat n3) bs3 = take (unat n) bs"
      using whole l(2) by simp
    moreover have "partial_block_buffer_length ctx2 = 0"
      using whole(4) by (simp add: ctx_split_def unat_eq_0)
    ultimately show ?thesis
      using t whole(5,6) tot1 err1
      by (intro that[of "(pre @ part @ take k bs) @ take ?c bs2" "take (unat n3) bs3"])
        (simp_all add: upd loop)
  next
    case stored
    show ?thesis
    proof (cases "partial_block_buffer_length ctx2 = 0")
      case True
      moreover have "unat (partial_block_buffer_length ctx2) = length (part @ take (unat n) bs)"
        using stored(2) by (simp only: ctx_split_def)
      ultimately have nil: "part @ take (unat n) bs = []" by (metis length_0_conv unat_0)
      have "base_loop A 0 bs2 (digest ctx2) = (0, bs2, digest ctx2)"
        by (simp add: base_loop_eq)
      then show ?thesis
        using stored True tot1 err1 nil
        by (intro that[of pre "[]"]) (simp_all add: upd set_digest_def)
    next
      case False
      then show ?thesis
        using stored tot1 err1
        by (intro that[of pre "part @ take (unat n) bs"]) (simp_all add: upd)
    qed
  qed
qed

lemma base_update_holds:
  assumes holds: "ctx_holds A m ctx" and len: "unat n \<le> length bs"
  shows "ctx_holds A (m @ take (unat n) bs) (base_update A ctx bs n)"
    and "error (base_update A ctx bs n) = error ctx"
proof -
  from holds obtain pre part where m: "m = pre @ part" "ctx_split A pre part ctx"
    and tot: "total_length ctx = of_nat (length m)" by (auto simp: ctx_holds_def)
  from base_update_split[OF m(2) len] obtain pre' part'
    where u: "pre' @ part' = pre @ part @ take (unat n) bs"
      "ctx_split A pre' part' (base_update A ctx bs n)"
      "total_length (base_update A ctx bs n) = total_length ctx + ucast n"
      "error (base_update A ctx bs n) = error ctx" by metis
  have "(ucast n :: u64) = of_nat (unat n)" by simp
  then have "total_length (base_update A ctx bs n) = of_nat (length (m @ take (unat n) bs))"
    using u(3) tot len by (simp add: min_def)
  then show "ctx_holds A (m @ take (unat n) bs) (base_update A ctx bs n)"
    using u(1)[symmetric] u(2) m(1) unfolding ctx_holds_def by (metis append_assoc)
  show "error (base_update A ctx bs n) = error ctx" by (rule u(4))
qed

lemma status_base_update [simp]: "status (base_update A ctx bs n) = STS_IDLE"
  by (simp add: base_update_def Let_def split: prod.splits)

lemma base_init_holds:
  "wf_ctx A ctx \<Longrightarrow> ctx_holds A [] (base_init A ctx)"
  by (simp add: wf_ctx_def ctx_holds_def ctx_split_def base_init_def)

text \<open>
  \<open>final\<close> appends exactly the padding of the specification: the buffer it builds on the
  stack is the partial block followed by \<open>md_padding\<close>, in one block or two.
\<close>

lemma pad_zeros_part:
  assumes "block_size A dvd n" "p < block_size A"
  shows "pad_zeros (block_size A) (pad_field_size A) (n + p) =
    (if p + 1 + pad_field_size A \<le> block_size A
     then block_size A - (p + 1 + pad_field_size A)
     else 2 * block_size A - (p + 1 + pad_field_size A)) + (pad_field_size A - 8)"
proof -
  let ?B = "block_size A" and ?P = "pad_field_size A"
  have e: "(n + p + 1 + ?P) mod ?B = (p + 1 + ?P) mod ?B"
    using assms(1) by (metis add.assoc dvd_eq_mod_eq_0 mod_add_left_eq plus_nat.add_0)
  consider "p + 1 + ?P < ?B" | "p + 1 + ?P = ?B" | "?B < p + 1 + ?P" by linarith
  then show ?thesis
  proof cases
    case 3
    then have "(p + 1 + ?P) mod ?B = p + 1 + ?P - ?B"
      using assms(2) pad_field_bounds(2) by (simp add: le_mod_geq mod_less)
    then show ?thesis
      unfolding pad_zeros_def e using 3 assms(2) pad_field_bounds(2)
      by (simp add: mod_less)
  qed (simp_all add: pad_zeros_def e[simplified])
qed

lemma hash_tail_eq:
  assumes pre: "block_size A dvd length pre"
    and part: "unat n = length part" "length part < block_size A" "take (length part) buffer = part"
  shows "hash_tail A buffer n (of_nat (length (pre @ part)) * 8) (md_blocks A pre d0)
      = md_blocks A (pre @ part @ md_padding A (length (pre @ part))) d0"
proof -
  let ?B = "block_size A" and ?P = "pad_field_size A" and ?p = "length part"
  let ?m = "pre @ part" and ?d = "md_blocks A pre d0"
  let ?L = "len_field A (of_nat (length ?m) * 8)"
  let ?two = "?B < ?p + 1 + ?P"
  define i where "i = (if ?two then 2 * ?B else ?B)"
  define buf where "buf = part @ [0x80] @ replicate (2 * ?B - (?p + 1)) 0"
  have un: "unat (n + 1) = ?p + 1"
    using part block_size_bounds(1) by (simp add: unat_add_small)
  have cond: "(of_nat (?B - ?P) < n + 1) = ?two"
  proof -
    have "unat (of_nat (?B - ?P) :: u32) = ?B - ?P"
      using block_size_bounds(1) by (intro unat_of_nat_small) simp
    then show ?thesis using un pad_field_bounds(2) by (auto simp: word_less_nat_alt)
  qed
  have zeros: "pad_zeros ?B ?P (length pre + ?p) = i - (?p + 1 + 8)"
    using pre part(2) pad_field_bounds
    by (subst pad_zeros_part) (auto simp: i_def)
  define pad where "pad = memcpy_at buf (i - 8) ?L 8"
  have lb: "length buf = 2 * ?B" using part(2) by (simp add: buf_def)
  have i: "?p + 1 + 8 \<le> i" "i \<le> 2 * ?B" "i = ?B \<or> i = 2 * ?B"
    using part(2) pad_field_bounds by (auto simp: i_def)
  have lpad: "length pad = 2 * ?B"
    using lb i length_len_field by (simp add: pad_def)
  have "take (i - 8) buf = part @ 0x80 # replicate (i - (?p + 1 + 8)) 0"
    using i by (simp add: buf_def take_Cons' min_def)
  moreover have "take (i - 8 + 8) pad = take (i - 8) buf @ take 8 ?L"
    unfolding pad_def using lb i by (intro take_memcpy_at) (auto simp: length_len_field)
  moreover have "take 8 ?L = ?L" by (simp add: length_len_field)
  ultimately have msg: "take i pad = part @ md_padding A (length ?m)"
    using i by (simp add: md_padding_def zeros)
  have blocks: "md_blocks A (take i pad) d =
      (if i = 2 * ?B then single A (take ?B (drop ?B pad)) (single A (take ?B pad) d)
       else single A (take ?B pad) d)" for d
  proof (cases "i = 2 * ?B")
    case True
    then have "take i pad = take ?B pad @ take ?B (drop ?B pad)"
      by (simp only: take_add[symmetric] mult_2)
    then have "md_blocks A (take i pad) d
        = md_blocks A (take ?B pad @ take ?B (drop ?B pad)) d"
      by (simp only:)
    also have "\<dots> = single A (take ?B (drop ?B pad)) (single A (take ?B pad) d)"
      using lpad by (subst md_blocks_append) (simp_all add: md_blocks_one)
    finally show ?thesis using True by simp
  qed (use i lpad md_blocks_one in auto)
  have "hash_tail A buffer n (of_nat (length ?m) * 8) ?d = md_blocks A (take i pad) ?d"
    unfolding hash_tail_def Let_def cond i_def[symmetric] blocks
    using part by (simp add: pad_def buf_def)
  then show ?thesis
    using pre by (simp add: msg md_blocks_append)
qed

lemma base_final_eq:
  assumes holds: "ctx_holds A m ctx"
  shows "base_final A ctx = (set_digest (md_hash A m) ctx)\<lparr>status := STS_COMPLETE\<rparr>"
proof -
  from holds obtain pre part where m: "m = pre @ part" and sp: "ctx_split A pre part ctx"
    and tot: "total_length ctx = of_nat (length m)" by (auto simp: ctx_holds_def)
  show ?thesis
    using sp hash_tail_eq[of pre "partial_block_buffer_length ctx" part "partial_block_buffer ctx"]
    by (simp add: base_final_def tot m md_hash_def ctx_split_def)
qed

text \<open>The one-shot reference computes the specified digest (without the output transformation).\<close>

lemma ref_hash_eq:
  assumes "unat n \<le> length bs"
  shows "ref_hash A bs n = md_blocks A (take (unat n) bs @ md_padding A (unat n)) (initial_digest A)"
proof -
  let ?B = "block_size A" and ?k = "unat n div block_size A * block_size A"
  let ?pre = "take ?k bs" and ?part = "take (unat n mod ?B) (drop ?k bs)"
  have e: "?k + unat n mod ?B = unat n" by (rule div_mult_mod_eq)
  then have "?k \<le> length bs" "unat n mod ?B \<le> length bs - ?k" using assms by linarith+
  then have len: "length ?pre = ?k" "length ?part = unat n mod ?B"
    by (simp_all only: length_take length_drop min_absorb2)
  have m: "take (unat n) bs = ?pre @ ?part"
    by (simp only: take_add[symmetric] e)
  have small: "unat n mod ?B < 2 ^ 32"
    using unsigned_less[of n] by (intro le_less_trans[OF mod_less_eq_dividend]) simp
  have "hash_nblocks ?B (single A) (unat n div ?B) bs d = md_blocks A ?pre d" for d
    using len(1) hash_nblocks_take[of "unat n div ?B" ?B ?k "single A" bs d]
    by (simp add: md_blocks_def hash_nblocks_eq_blocks)
  moreover have "(ucast n :: u64) = of_nat (unat n)" "length (?pre @ ?part) = unat n"
    using len e by simp_all
  ultimately show ?thesis
    using hash_tail_eq[of ?pre "of_nat (unat n mod ?B)" ?part "drop ?k bs" "initial_digest A"] len small
    by (simp add: ref_hash_def base_loop_eq unat_of_nat_small m)
qed

section \<open>Functional behaviour of submit\<close>

text \<open>
  Every branch of \<open>submit\<close>. A request the checks accept absorbs the bytes and, when it carries
  the \<open>LAST\<close> flag, completes the hash of everything absorbed.
\<close>

lemma base_submit_first:
  assumes "wf_ctx A ctx" "unat n \<le> length bs"
  shows "ctx_holds A (take (unat n) bs) (base_submit A ctx bs n ISAL_HASH_FIRST)"
    and "status (base_submit A ctx bs n ISAL_HASH_FIRST) = STS_IDLE"
    and "error (base_submit A ctx bs n ISAL_HASH_FIRST) = ERROR_NONE"
  using base_update_holds[OF base_init_holds[OF assms(1)] assms(2)]
  by (simp_all add: base_submit_def Let_def) (simp add: base_init_def)

lemma base_submit_update:
  assumes "ctx_holds A m ctx" "status ctx = STS_IDLE" "unat n \<le> length bs"
  shows "ctx_holds A (m @ take (unat n) bs) (base_submit A ctx bs n ISAL_HASH_UPDATE)"
    and "status (base_submit A ctx bs n ISAL_HASH_UPDATE) = STS_IDLE"
    and "error (base_submit A ctx bs n ISAL_HASH_UPDATE) = error ctx"
  using base_update_holds[OF assms(1,3)] assms(2)
  by (simp_all add: base_submit_def Let_def)

lemma base_submit_last:
  assumes "ctx_holds A m ctx" "status ctx = STS_IDLE" "unat n \<le> length bs"
  shows "digest (base_submit A ctx bs n ISAL_HASH_LAST) = md_hash A (m @ take (unat n) bs)"
    and "status (base_submit A ctx bs n ISAL_HASH_LAST) = STS_COMPLETE"
    and "error (base_submit A ctx bs n ISAL_HASH_LAST) = error ctx"
  using base_update_holds[OF assms(1,3)] assms(2)
  by (simp_all add: base_submit_def Let_def base_final_eq)

lemma base_submit_entire:
  assumes "wf_ctx A ctx" "status ctx AND STS_PROCESSING = 0" "unat n \<le> length bs"
  shows "digest (base_submit A ctx bs n ISAL_HASH_ENTIRE) = md_hash A (take (unat n) bs)"
    and "status (base_submit A ctx bs n ISAL_HASH_ENTIRE) = STS_COMPLETE"
    and "error (base_submit A ctx bs n ISAL_HASH_ENTIRE) = ERROR_NONE"
  using base_update_holds[OF base_init_holds[OF assms(1)] assms(3)] assms(2)
  by (simp_all add: base_submit_def Let_def base_final_eq) (simp_all add: set_digest_def base_init_def)

text \<open>A message given in pieces: \<open>FIRST\<close>, any number of \<open>UPDATE\<close>s, \<open>LAST\<close>.\<close>

lemma base_updates:
  assumes "ctx_holds A m ctx" "status ctx = STS_IDLE" "\<forall>b\<in>set bs. length b < 2 ^ 32"
  defines "up \<equiv> \<lambda>b c. base_submit A c b (of_nat (length b)) ISAL_HASH_UPDATE"
  shows "ctx_holds A (m @ concat bs) (fold up bs ctx) \<and> status (fold up bs ctx) = STS_IDLE \<and>
    error (fold up bs ctx) = error ctx"
  using assms(1-3)
proof (induction bs arbitrary: m ctx)
  case (Cons b bs)
  then have len: "unat (of_nat (length b) :: u32) = length b" by (simp add: unat_of_nat_small)
  note u = base_submit_update[OF Cons.prems(1,2), of "of_nat (length b)" b, unfolded len]
  have "ctx_holds A (m @ b) (up b ctx)" "status (up b ctx) = STS_IDLE" "error (up b ctx) = error ctx"
    using u by (simp_all add: up_def)
  from Cons.IH[OF this(1,2)] this(3) Cons.prems(3) show ?case by simp
qed simp

lemma base_stream:
  assumes "wf_ctx A ctx" "\<forall>b\<in>set (x # ys @ [z]). length b < 2 ^ 32"
  shows "digest (base_stream A ctx x ys z) = md_hash A (x @ concat ys @ z)"
    and "status (base_stream A ctx x ys z) = STS_COMPLETE"
    and "error (base_stream A ctx x ys z) = ERROR_NONE"
proof -
  have ux: "unat (of_nat (length x) :: u32) = length x" and uz: "unat (of_nat (length z) :: u32) = length z"
    using assms(2) by (simp_all add: unat_of_nat_small)
  note f = base_submit_first[OF assms(1), of "of_nat (length x)" x, unfolded ux]
  let ?c = "base_submit A ctx x (of_nat (length x)) ISAL_HASH_FIRST"
  have h: "ctx_holds A x ?c" "status ?c = STS_IDLE" "error ?c = ERROR_NONE" using f by simp_all
  have "\<forall>b\<in>set ys. length b < 2 ^ 32" using assms(2) by simp
  note u = base_updates[OF h(1,2) this]
  let ?d = "fold (\<lambda>b c. base_submit A c b (of_nat (length b)) ISAL_HASH_UPDATE) ys ?c"
  note l = base_submit_last[of "x @ concat ys" ?d "of_nat (length z)" z, unfolded uz]
  show "digest (base_stream A ctx x ys z) = md_hash A (x @ concat ys @ z)"
    "status (base_stream A ctx x ys z) = STS_COMPLETE"
    "error (base_stream A ctx x ys z) = ERROR_NONE"
    using l u h(3) by (simp_all add: base_stream_def)
qed

end

lemma base_entire_digest:
  assumes "hash_algorithm A" "wf_ctx A ctx" "status ctx AND STS_PROCESSING = 0" "unat n \<le> length bs"
  shows "digest (base_submit A ctx bs n ISAL_HASH_ENTIRE) = md_hash A (take (unat n) bs)"
  by (rule hash_algorithm.base_submit_entire(1)[OF assms])

text \<open>The branches of \<open>submit\<close> that refuse a request change nothing but the error code.\<close>

lemma base_submit_errors:
  "flags AND NOT ISAL_HASH_ENTIRE \<noteq> 0 \<Longrightarrow>
     base_submit A ctx buffer len flags = ctx\<lparr>error := ERROR_INVALID_FLAGS\<rparr>"
  "status ctx AND STS_PROCESSING \<noteq> 0 \<Longrightarrow>
     base_submit A ctx buffer len ISAL_HASH_ENTIRE = ctx\<lparr>error := ERROR_ALREADY_PROCESSING\<rparr>"
  "status ctx = STS_COMPLETE \<Longrightarrow> flags = ISAL_HASH_UPDATE \<or> flags = ISAL_HASH_LAST \<Longrightarrow>
     base_submit A ctx buffer len flags = ctx\<lparr>error := ERROR_ALREADY_COMPLETED\<rparr>"
  by (auto simp: base_submit_def)

end
