(* ===== verification/Rounds.thy ===== *)
theory Rounds
  imports BaseCtx
begin

text \<open>
  What the unrolled compression functions have in common. Instead of moving the working
  variables at the end of a round, the code passes them to the next call of its \<open>step\<close> macro
  in rotated positions; and it keeps the last sixteen words of the message schedule in a ring
  that each step overwrites. The lemmas here undo both.
\<close>

section \<open>Rotated roles\<close>

text \<open>The variable that plays role \<open>r\<close> in step \<open>n\<close>, of \<open>N\<close> variables.\<close>

definition role :: "nat \<Rightarrow> nat \<Rightarrow> nat \<Rightarrow> nat" where
  "role N r n = (r + (N - n mod N)) mod N"

text \<open>The variables in the order of the roles they are about to play.\<close>

definition unrot :: "nat \<Rightarrow> nat \<Rightarrow> 'a list \<Rightarrow> 'a list" where
  "unrot N n v = map (\<lambda>r. v ! role N r n) [0..<N]"

lemma role_less [simp]: "0 < N \<Longrightarrow> role N r n < N"
  by (simp add: role_def)

lemma length_unrot [simp]: "length (unrot N n v) = N"
  by (simp add: unrot_def)

lemma nth_unrot: "r < N \<Longrightarrow> unrot N n v ! r = v ! role N r n"
  by (simp add: unrot_def)

lemma role_cases:
  assumes "r < N"
  shows "role N r n = (if r + (N - n mod N) < N then r + (N - n mod N) else r - n mod N)"
proof -
  have "n mod N < N" using assms by simp
  then show ?thesis using assms by (auto simp: role_def le_mod_geq)
qed

lemma role_inj:
  assumes "r < N" "s < N" "role N r n = role N s n"
  shows "r = s"
proof -
  obtain k where k: "n mod N = k" "k < N" using assms(1) by simp
  show ?thesis
    using assms k(2) by (auto simp: role_cases k(1) split: if_splits)
qed

lemma role_eq: "r < N \<Longrightarrow> s < N \<Longrightarrow> role N r n = role N s n \<longleftrightarrow> r = s"
  using role_inj by auto

lemma role_Suc:
  assumes "r < N"
  shows "role N r (Suc n) = role N (if r = 0 then N - 1 else r - 1) n"
proof (cases "Suc (n mod N) = N")
  case True
  then show ?thesis using assms by (auto simp: role_def mod_Suc)
next
  case False
  then have "Suc n mod N = Suc (n mod N)" "Suc (n mod N) < N"
    using assms mod_less_divisor[of N n] by (simp_all add: mod_Suc Suc_lessI)
  then show ?thesis
    using assms by (auto simp: role_def Suc_diff_Suc not_le le_mod_geq)
qed

lemma unrot_Suc:
  assumes "0 < N"
  shows "unrot N (Suc n) v = last (unrot N n v) # butlast (unrot N n v)"
proof (rule nth_equalityI)
  fix i assume "i < length (unrot N (Suc n) v)"
  then show "unrot N (Suc n) v ! i = (last (unrot N n v) # butlast (unrot N n v)) ! i"
    using assms
    by (cases i) (simp_all add: nth_unrot role_Suc last_conv_nth nth_butlast flip: length_0_conv)
qed (use assms in simp)

lemma unrot_update:
  assumes "length v = N" "r < N"
  shows "unrot N n (v[role N r n := x]) = (unrot N n v)[r := x]"
  using assms by (intro nth_equalityI) (auto simp: nth_unrot nth_list_update role_eq)

lemma unrot_home: "N dvd n \<Longrightarrow> length v = N \<Longrightarrow> unrot N n v = v"
  by (intro nth_equalityI) (auto simp: nth_unrot role_def)

section \<open>The rotation macro\<close>

text \<open>\<open>rol32\<close> of the SHA-1 and MD5 files, two shifts joined by an exclusive or.\<close>

definition rol32 :: "u32 \<Rightarrow> nat \<Rightarrow> u32" where
  "rol32 x r = push_bit r x XOR drop_bit (32 - r) x"

lemma shifts_rotl:
  fixes x :: "'w::len word"
  assumes "0 < r" "r < LENGTH('w)"
  shows "push_bit r x XOR drop_bit (LENGTH('w) - r) x = word_rotl r x"
    and "push_bit r x OR drop_bit (LENGTH('w) - r) x = word_rotl r x"
proof -
  have "bit (word_rotl r x) n \<longleftrightarrow> r \<le> n \<and> n < LENGTH('w) \<and> bit x (n - r)
      \<or> n < r \<and> bit x (LENGTH('w) - r + n)" for n
  proof (cases "r \<le> n")
    case True
    then have "n + (LENGTH('w) - r) = LENGTH('w) + (n - r)" using assms by simp
    then have "n < LENGTH('w) \<Longrightarrow> (n + (LENGTH('w) - r)) mod LENGTH('w) = n - r"
      by (simp only: mod_add_self1) simp
    then show ?thesis using assms True by (auto simp: bit_word_rotl_iff)
  next
    case False
    then have "n + (LENGTH('w) - r) < LENGTH('w)" using assms by simp
    then show ?thesis using assms False by (auto simp: bit_word_rotl_iff add.commute)
  qed
  moreover have "bit (push_bit r x) n \<longleftrightarrow> r \<le> n \<and> n < LENGTH('w) \<and> bit x (n - r)" for n
    by (auto simp: bit_push_bit_iff dest: bit_imp_le_length)
  moreover have "bit (drop_bit (LENGTH('w) - r) x) n \<longleftrightarrow> n < r \<and> bit x (LENGTH('w) - r + n)" for n
    using assms bit_imp_le_length[of x "LENGTH('w) - r + n"] by (auto simp: bit_drop_bit_eq)
  ultimately show "push_bit r x XOR drop_bit (LENGTH('w) - r) x = word_rotl r x"
    and "push_bit r x OR drop_bit (LENGTH('w) - r) x = word_rotl r x"
    by (intro bit_word_eqI; simp add: bit_xor_iff bit_or_iff; linarith)+
qed

lemma rol32_rotl: "0 < r \<Longrightarrow> r < 32 \<Longrightarrow> rol32 x r = word_rotl r x"
  using shifts_rotl(1)[of r x] by (simp add: rol32_def)

text \<open>For evaluation: one reduction to a numeral instead of four.\<close>

lemma rol32_code [code]:
  "rol32 x r = word_of_int (let k = uint x in push_bit r k XOR drop_bit (32 - r) k)"
  by (simp add: rol32_def word_bit_operations_code Let_def)
    (rule bit_word_eqI, auto simp: bit_simps)

section \<open>The ring of the message schedule\<close>

text \<open>
  A schedule whose first sixteen words come from the block (\<open>init\<close>) and whose word \<open>t\<close> is
  computed by \<open>rec\<close> from the words at distances 1 to 16 before it.
\<close>

primrec schedule :: "(nat \<Rightarrow> 'a) \<Rightarrow> ((nat \<Rightarrow> 'a) \<Rightarrow> 'a) \<Rightarrow> nat \<Rightarrow> 'a list" where
  "schedule init rec 0 = []"
| "schedule init rec (Suc t) =
     (let W = schedule init rec t
      in W @ [if t < 16 then init t else rec (\<lambda>k. W ! (t - k))])"

text \<open>\<open>W(i) = ...\<close> on the ring \<open>w[16]\<close> with \<open>#define W(x) w[(x) & 15]\<close>.\<close>

definition ring_step ::
  "(nat \<Rightarrow> 'a) \<Rightarrow> ((nat \<Rightarrow> 'a) \<Rightarrow> 'a) \<Rightarrow> nat \<Rightarrow> 'a list \<Rightarrow> 'a list" where
  "ring_step init rec i w =
     w[i mod 16 := if i < 16 then init i else rec (\<lambda>k. w ! ((i - k) mod 16))]"

definition ring_holds ::
  "(nat \<Rightarrow> 'a) \<Rightarrow> ((nat \<Rightarrow> 'a) \<Rightarrow> 'a) \<Rightarrow> nat \<Rightarrow> 'a list \<Rightarrow> bool" where
  "ring_holds init rec n w \<longleftrightarrow> length w = 16 \<and>
     (\<forall>t<n. n \<le> t + 16 \<longrightarrow> w ! (t mod 16) = schedule init rec (Suc t) ! t)"

lemma length_schedule [simp]: "length (schedule init rec t) = t"
  by (induction t) (simp_all add: Let_def)

lemma schedule_nth:
  "s < t \<Longrightarrow> schedule init rec t ! s = schedule init rec (Suc s) ! s"
proof (induction t)
  case (Suc t)
  then show ?case by (cases "s = t") (auto simp: nth_append Let_def)
qed simp

lemma ring_holds_0: "length w = 16 \<Longrightarrow> ring_holds init rec 0 w"
  by (simp add: ring_holds_def)

locale ring_schedule =
  fixes init :: "nat \<Rightarrow> 'a" and rec :: "(nat \<Rightarrow> 'a) \<Rightarrow> 'a"
  assumes local_rec: "(\<And>k. 0 < k \<Longrightarrow> k \<le> 16 \<Longrightarrow> f k = g k) \<Longrightarrow> rec f = rec g"
begin

lemma ring_holds_step:
  assumes "ring_holds init rec n w"
  shows "ring_holds init rec (Suc n) (ring_step init rec n w)"
    and "ring_step init rec n w ! (n mod 16) = schedule init rec (Suc n) ! n"
proof -
  have len: "length w = 16"
    and W: "\<And>t. t < n \<Longrightarrow> n \<le> t + 16 \<Longrightarrow> w ! (t mod 16) = schedule init rec n ! t"
    using assms by (auto simp: ring_holds_def simp del: schedule.simps simp: schedule_nth[of _ n])
  have "rec (\<lambda>k. w ! ((n - k) mod 16)) = rec (\<lambda>k. schedule init rec n ! (n - k))" if "16 \<le> n"
    using that by (intro local_rec W) auto
  then show new: "ring_step init rec n w ! (n mod 16) = schedule init rec (Suc n) ! n"
    using len by (simp add: ring_step_def nth_append Let_def)
  have "ring_step init rec n w ! (t mod 16) = schedule init rec (Suc t) ! t"
    if "t < Suc n" "Suc n \<le> t + 16" for t
  proof (cases "t = n")
    case False
    with that have t: "t < n" "n \<le> t + 16" by simp_all
    have "n mod 16 \<noteq> t mod 16"
    proof
      assume "n mod 16 = t mod 16"
      then have "16 dvd n - t" using t by (simp add: mod_eq_dvd_iff_nat)
      then show False using t that by (auto dest: dvd_imp_le)
    qed
    then have "ring_step init rec n w ! (t mod 16) = w ! (t mod 16)"
      by (simp only: ring_step_def nth_list_update_neq simp_thms)
    with t show ?thesis by (simp only: W schedule_nth[of t n])
  qed (simp only: new)
  then show "ring_holds init rec (Suc n) (ring_step init rec n w)"
    using len by (simp add: ring_holds_def ring_step_def)
qed

end

end
