(* ===== verification/Fips180.thy ===== *)
theory Fips180
  imports HashSpec Complex_Main
begin

text \<open>
  SHA-256 and SHA-512 as FIPS 180-4 defines them, independent of the code: the functions of section
  4.1, the constants of 4.2 and 5.3 (as the leading bits of the fractional parts of roots of the first
  primes), and the hash computations of 6.2.2 and 6.4.2. To compare tables of constants with it, an
  entry is checked by powers of integers.
\<close>

section \<open>Constants\<close>

text \<open>The first eighty primes: those below 410.\<close>

definition is_prime :: "int \<Rightarrow> bool" where
  "is_prime p \<longleftrightarrow> 2 \<le> p \<and> (\<forall>d\<in>{2..<p}. \<not> d dvd p)"

definition fips_primes :: "int list" where
  "fips_primes = filter is_prime [2..409]"

text \<open>The first bits of the fractional part of a number, as many as a word has.\<close>

definition fraction_bits :: "real \<Rightarrow> 'w::len word" where
  "fraction_bits x = word_of_int \<lfloor>2 ^ LENGTH('w) * frac x\<rfloor>"

section \<open>The compression functions\<close>

text \<open>What differs between the two: the sigma functions and the number of rounds.\<close>

record (overloaded) 'w fips_sha2 =
  Sigma0 :: "'w::len word \<Rightarrow> 'w word"
  Sigma1 :: "'w word \<Rightarrow> 'w word"
  sigma0 :: "'w word \<Rightarrow> 'w word"
  sigma1 :: "'w word \<Rightarrow> 'w word"
  fips_num_rounds :: nat

definition fips256 :: "32 fips_sha2" where
  "fips256 =
     \<lparr>Sigma0 = (\<lambda>x. word_rotr 2 x XOR word_rotr 13 x XOR word_rotr 22 x),
      Sigma1 = (\<lambda>x. word_rotr 6 x XOR word_rotr 11 x XOR word_rotr 25 x),
      sigma0 = (\<lambda>x. word_rotr 7 x XOR word_rotr 18 x XOR drop_bit 3 x),
      sigma1 = (\<lambda>x. word_rotr 17 x XOR word_rotr 19 x XOR drop_bit 10 x),
      fips_num_rounds = 64\<rparr>"

definition fips512 :: "64 fips_sha2" where
  "fips512 =
     \<lparr>Sigma0 = (\<lambda>x. word_rotr 28 x XOR word_rotr 34 x XOR word_rotr 39 x),
      Sigma1 = (\<lambda>x. word_rotr 14 x XOR word_rotr 18 x XOR word_rotr 41 x),
      sigma0 = (\<lambda>x. word_rotr 1 x XOR word_rotr 8 x XOR drop_bit 7 x),
      sigma1 = (\<lambda>x. word_rotr 19 x XOR word_rotr 61 x XOR drop_bit 6 x),
      fips_num_rounds = 80\<rparr>"

definition fips_Ch :: "'w::len word \<Rightarrow> 'w word \<Rightarrow> 'w word \<Rightarrow> 'w word" where
  "fips_Ch x y z = (x AND y) XOR (NOT x AND z)"

definition fips_Maj :: "'w::len word \<Rightarrow> 'w word \<Rightarrow> 'w word \<Rightarrow> 'w word" where
  "fips_Maj x y z = (x AND y) XOR (x AND z) XOR (y AND z)"

definition fips_K :: "nat \<Rightarrow> 'w::len word" where
  "fips_K t = fraction_bits (root 3 (of_int (fips_primes ! t)))"

text \<open>Word \<open>t\<close> of a block, most significant byte first, and the message schedule \<open>W\<^sub>0 \<dots> W\<^sub>t\<^sub>-\<^sub>1\<close>.\<close>

definition fips_word :: "byte list \<Rightarrow> nat \<Rightarrow> 'w::len word" where
  "fips_word block t = load_be (take (LENGTH('w) div 8) (drop (LENGTH('w) div 8 * t) block))"

primrec fips_schedule :: "'w::len fips_sha2 \<Rightarrow> byte list \<Rightarrow> nat \<Rightarrow> 'w word list" where
  "fips_schedule S block 0 = []"
| "fips_schedule S block (Suc t) =
     (let W = fips_schedule S block t in
      W @ [if t < 16 then fips_word block t
           else sigma1 S (W ! (t - 2)) + W ! (t - 7) + sigma0 S (W ! (t - 15)) + W ! (t - 16)])"

type_synonym 'w regs =
  "'w word \<times> 'w word \<times> 'w word \<times> 'w word \<times> 'w word \<times> 'w word \<times> 'w word \<times> 'w word"

definition fips_round :: "'w::len fips_sha2 \<Rightarrow> 'w word \<Rightarrow> 'w word \<Rightarrow> 'w regs \<Rightarrow> 'w regs" where
  "fips_round S K W = (\<lambda>(a, b, c, d, e, f, g, h).
     let T1 = h + Sigma1 S e + fips_Ch e f g + K + W;
         T2 = Sigma0 S a + fips_Maj a b c
     in (T1 + T2, a, b, c, d + T1, e, f, g))"

primrec fips_rounds :: "'w::len fips_sha2 \<Rightarrow> byte list \<Rightarrow> nat \<Rightarrow> 'w regs \<Rightarrow> 'w regs" where
  "fips_rounds S block 0 s = s"
| "fips_rounds S block (Suc t) s =
     fips_round S (fips_K t) (fips_schedule S block (Suc t) ! t) (fips_rounds S block t s)"

definition list_of_regs :: "'w::len regs \<Rightarrow> 'w word list" where
  "list_of_regs = (\<lambda>(a, b, c, d, e, f, g, h). [a, b, c, d, e, f, g, h])"

definition regs_of_list :: "'w::len word list \<Rightarrow> 'w regs" where
  "regs_of_list v = (v ! 0, v ! 1, v ! 2, v ! 3, v ! 4, v ! 5, v ! 6, v ! 7)"

definition fips_compress :: "'w::len fips_sha2 \<Rightarrow> byte list \<Rightarrow> 'w word list \<Rightarrow> 'w word list" where
  "fips_compress S block H =
     map2 (+) H (list_of_regs (fips_rounds S block (fips_num_rounds S) (regs_of_list H)))"

lemma length_list_of_regs [simp]: "length (list_of_regs r) = 8"
  by (simp add: list_of_regs_def split: prod.split)

lemma length_fips_compress [simp]: "length H = 8 \<Longrightarrow> length (fips_compress S block H) = 8"
  by (simp add: fips_compress_def)

section \<open>The hashes\<close>

definition fips_H0 :: "'w::len word list" where
  "fips_H0 = map (\<lambda>p. fraction_bits (sqrt (of_int p))) (take 8 fips_primes)"

definition fips_sha256_alg :: "32 hash_alg" where
  "fips_sha256_alg =
     \<lparr>block_size = 64, log2_block_size = 6, pad_field_size = 8, initial_digest = fips_H0,
      single = fips_compress fips256, len_field = store_be 8, output_digest = (\<lambda>d. d)\<rparr>"

definition fips_sha512_alg :: "64 hash_alg" where
  "fips_sha512_alg =
     \<lparr>block_size = 128, log2_block_size = 7, pad_field_size = 16, initial_digest = fips_H0,
      single = fips_compress fips512, len_field = store_be 8, output_digest = (\<lambda>d. d)\<rparr>"

definition fips_sha256 :: "byte list \<Rightarrow> u32 list" where
  "fips_sha256 m = md_hash fips_sha256_alg m"

definition fips_sha512 :: "byte list \<Rightarrow> u64 list" where
  "fips_sha512 m = md_hash fips_sha512_alg m"

section \<open>Checking the constants\<close>

text \<open>A composite number below \<open>21\<^sup>2\<close> has a divisor below 21.\<close>

lemma is_prime_small:
  assumes "p < 441"
  shows "is_prime p \<longleftrightarrow> 2 \<le> p \<and> list_all (\<lambda>d. d < p \<longrightarrow> p mod d \<noteq> 0) [2..20]"
proof -
  have *: "\<exists>d\<in>{2..20}. d < p \<and> d dvd p" if d: "2 \<le> d" "d < p" "d dvd p" for d
  proof (cases "d \<le> 20")
    case False
    obtain e where e: "p = d * e" using d(3) by blast
    have "0 < e" "e \<noteq> 1" using e d(1,2) zero_less_mult_pos[of d e] by auto
    moreover have "e < 21"
    proof (rule ccontr)
      assume "\<not> e < 21"
      then have "21 * 21 \<le> d * e" using False by (intro mult_mono) simp_all
      then show False using assms e by simp
    qed
    moreover have "e < p" using e d(1) calculation(1) by simp
    ultimately show ?thesis using e by (intro bexI[of _ e]) auto
  qed (use d in auto)
  have "(\<forall>d\<in>{2..<p}. \<not> d dvd p) \<longleftrightarrow> (\<forall>d\<in>{2..20}. d < p \<longrightarrow> \<not> d dvd p)"
  proof (intro iffI ballI impI notI)
    fix d assume "\<forall>d\<in>{2..<p}. \<not> d dvd p" "d \<in> {2..20}" "d < p" "d dvd p"
    then show False by auto
  next
    fix d assume none: "\<forall>d\<in>{2..20}. d < p \<longrightarrow> \<not> d dvd p" and "d \<in> {2..<p}" "d dvd p"
    then obtain e where "e \<in> {2..20}" "e < p" "e dvd p" using *[of d] by auto
    with none show False by blast
  qed
  then show ?thesis unfolding is_prime_def list_all_iff set_upto dvd_eq_mod_eq_0 by (rule conj_cong[OF refl])
qed

lemma fips_primes_eq:
  "fips_primes =
    [2, 3, 5, 7, 11, 13, 17, 19, 23, 29, 31, 37, 41, 43, 47, 53, 59, 61, 67, 71, 73, 79, 83, 89, 97, 101,
     103, 107, 109, 113, 127, 131, 137, 139, 149, 151, 157, 163, 167, 173, 179, 181, 191, 193, 197, 199,
     211, 223, 227, 229, 233, 239, 241, 251, 257, 263, 269, 271, 277, 281, 283, 293, 307, 311, 313, 317,
     331, 337, 347, 349, 353, 359, 367, 373, 379, 383, 389, 397, 401, 409]"
proof -
  have "fips_primes = filter (\<lambda>p. 2 \<le> p \<and> list_all (\<lambda>d. d < p \<longrightarrow> p mod d \<noteq> 0) [2..20]) [2..409]"
    unfolding fips_primes_def
  proof (rule filter_cong[OF refl])
    fix p :: int assume "p \<in> set [2..409]"
    then have "p \<le> 409" by (simp only: set_upto atLeastAtMost_iff)
    then have "p < 441" by simp
    then show "is_prime p = (2 \<le> p \<and> list_all (\<lambda>d. d < p \<longrightarrow> p mod d \<noteq> 0) [2..20])" by (rule is_prime_small)
  qed
  also have "\<dots> =
    [2, 3, 5, 7, 11, 13, 17, 19, 23, 29, 31, 37, 41, 43, 47, 53, 59, 61, 67, 71, 73, 79, 83, 89, 97, 101,
     103, 107, 109, 113, 127, 131, 137, 139, 149, 151, 157, 163, 167, 173, 179, 181, 191, 193, 197, 199,
     211, 223, 227, 229, 233, 239, 241, 251, 257, 263, 269, 271, 277, 281, 283, 293, 307, 311, 313, 317,
     331, 337, 347, 349, 353, 359, 367, 373, 379, 383, 389, 397, 401, 409]"
    by code_simp
  finally show ?thesis .
qed

declare fips_primes_eq [code]

text \<open>
  \<open>k\<close> holds the leading bits of the fractional part of the \<open>n\<close>th root of \<open>p\<close>, when the root, scaled
  by the size of a word, lies between two successive integers of which \<open>k\<close> is the lower one.
\<close>

definition root_digits :: "nat \<Rightarrow> int \<Rightarrow> int \<Rightarrow> int \<Rightarrow> bool" where
  "root_digits n W p k \<longleftrightarrow> list_ex (\<lambda>c. c ^ n \<le> p \<and> p < (c + 1) ^ n \<and>
     (let M = c * W + k; q = p * W ^ n in M ^ n \<le> q \<and> q < (M + 1) ^ n)) [1, 2, 3, 4, 5, 6, 7]"

definition root_entry :: "nat \<Rightarrow> int \<Rightarrow> 'w::len word \<Rightarrow> bool" where
  "root_entry n p k \<longleftrightarrow> root_digits n (2 ^ LENGTH('w)) p (uint k)"

lemma root_entryD:
  fixes k :: "'w::len word"
  assumes "root_entry n p k" "0 < n"
  shows "fraction_bits (root n (of_int p)) = k"
proof -
  let ?w = "2 ^ LENGTH('w) :: int" and ?x = "root n (of_int p)"
  obtain c where mem: "c \<in> set [1, 2, 3, 4, 5, 6, 7]" and le: "(c * ?w + uint k) ^ n \<le> p * ?w ^ n"
    and less: "p * ?w ^ n < (c * ?w + uint k + 1) ^ n"
    using assms(1) unfolding root_entry_def root_digits_def Let_def list_ex_iff by blast
  have c: "0 \<le> c" using mem by auto
  define M where "M = c * ?w + uint k"
  have M: "0 \<le> M" using c by (simp add: M_def)
  have root: "root n (of_int (j ^ n)) = of_int j" if "0 \<le> j" for j :: int
    using that assms(2) by (simp add: real_root_power_cancel)
  have scale: "root n (of_int (p * ?w ^ n)) = of_int ?w * ?x"
    using assms(2) by (simp add: real_root_mult real_root_power_cancel mult.commute)
  have "of_int M \<le> of_int ?w * ?x"
    using le assms(2) unfolding root[OF M, symmetric] scale[symmetric] M_def[symmetric] by (simp only: real_root_le_iff of_int_le_iff)
  moreover have "of_int ?w * ?x < of_int (M + 1)"
    using less assms(2) M unfolding scale[symmetric] M_def[symmetric]
    by (subst root[symmetric]) (simp_all only: real_root_less_iff of_int_less_iff)
  ultimately have "\<lfloor>of_int ?w * ?x\<rfloor> = M" by (simp add: floor_eq_iff)
  moreover have "2 ^ LENGTH('w) * frac ?x = of_int ?w * ?x - of_int (?w * \<lfloor>?x\<rfloor>)"
    by (simp add: frac_def algebra_simps)
  ultimately have "\<lfloor>2 ^ LENGTH('w) * frac ?x\<rfloor> = M - ?w * \<lfloor>?x\<rfloor>" by (simp only: floor_diff_of_int)
  then have "fraction_bits ?x = (word_of_int (M - ?w * \<lfloor>?x\<rfloor>) :: 'w word)" by (simp add: fraction_bits_def)
  also have "\<dots> = k" by (simp add: M_def)
  finally show ?thesis .
qed

lemma cube_root_table:
  assumes "list_all2 (root_entry 3) (take (length ks) fips_primes) ks" "t < length ks"
  shows "ks ! t = fips_K t"
proof -
  have "length (take (length ks) fips_primes) = length ks" using assms(1) by (rule list_all2_lengthD)
  with list_all2_nthD2[OF assms] assms(2) have "root_entry 3 (fips_primes ! t) (ks ! t)" by simp
  from root_entryD[OF this] show ?thesis by (simp add: fips_K_def)
qed

lemma square_root_table:
  assumes "list_all2 (root_entry 2) (take 8 fips_primes) hs"
  shows "hs = fips_H0"
  unfolding fips_H0_def
  using assms by (induction rule: list_all2_induct) (auto dest: root_entryD simp: sqrt_def)

end
