(* ===== verification/Sha2.thy ===== *)
theory Sha2
  imports Rounds Fips180
begin

text \<open>
  The compression step SHA-256 and SHA-512 share. \<open><alg>_ctx_base.c\<close> and \<open><alg>_ref.c\<close>
  unroll the rounds by hand: the macro \<open>step\<close> is invoked with the eight local variables
  in rotated positions and keeps the message schedule in a ring of sixteen words. Here the
  variables are a list, the role \<open>r\<close> of step \<open>i\<close> being variable \<open>role 8 r i\<close>, that is \<open>(r - i) mod 8\<close>; the
  end of the theory says that this is the compression function of FIPS 180-4 (\<open>Fips180\<close>) when the
  macros are those of the standard (locale \<open>fips_macros\<close>).
\<close>

section \<open>The macros\<close>

text \<open>\<open>ror32\<close> and \<open>ror64\<close>: two shifts joined by an exclusive or.\<close>

definition ror32 :: "u32 \<Rightarrow> nat \<Rightarrow> u32" where
  "ror32 x r = drop_bit r x XOR push_bit (32 - r) x"

definition ror64 :: "u64 \<Rightarrow> nat \<Rightarrow> u64" where
  "ror64 x r = drop_bit r x XOR push_bit (64 - r) x"

definition ch :: "'w::len word \<Rightarrow> 'w word \<Rightarrow> 'w word \<Rightarrow> 'w word" where
  "ch e f g = (e AND f) XOR (g AND NOT e)"

definition maj :: "'w::len word \<Rightarrow> 'w word \<Rightarrow> 'w word \<Rightarrow> 'w word" where
  "maj a b c = (a AND b) XOR (a AND c) XOR (b AND c)"

text \<open>
  The macros that differ between the two algorithms: \<open>s0\<close>, \<open>s1\<close> (the capital sigmas of the
  standard), \<open>S0\<close>, \<open>S1\<close> (the small ones), the load \<open>to_be(ww[i])\<close> and the round constants
  written into the calls of \<open>step\<close>, with the number of calls.
\<close>

record (overloaded) 'w sha2_macros =
  mac_s0 :: "'w::len word \<Rightarrow> 'w word"
  mac_s1 :: "'w word \<Rightarrow> 'w word"
  mac_S0 :: "'w word \<Rightarrow> 'w word"
  mac_S1 :: "'w word \<Rightarrow> 'w word"
  mac_ww :: "byte list \<Rightarrow> nat \<Rightarrow> 'w word"
  mac_k :: "nat \<Rightarrow> 'w word"
  rounds :: nat

text \<open>
  The macro \<open>step (i, a, b, c, d, e, f, g, h, k)\<close>: first the ring \<open>w\<close> is advanced, then the
  variables \<open>v\<close>.
\<close>

definition sha2_ring ::
  "'w::len sha2_macros \<Rightarrow> byte list \<Rightarrow> nat \<Rightarrow> 'w word list \<Rightarrow> 'w word list" where
  "sha2_ring M data i w =
     (if i < 16 then w[i mod 16 := mac_ww M data i]
      else w[i mod 16 :=
               w ! ((i - 16) mod 16) + mac_S0 M (w ! ((i - 15) mod 16))
               + w ! ((i - 7) mod 16) + mac_S1 M (w ! ((i - 2) mod 16))])"

definition sha2_vars ::
  "'w::len sha2_macros \<Rightarrow> nat \<Rightarrow> 'w word \<Rightarrow> 'w word list \<Rightarrow> 'w word list" where
  "sha2_vars M i wi v =
     (let a = v ! role 8 0 i; b = v ! role 8 1 i; c = v ! role 8 2 i; d = v ! role 8 3 i;
          e = v ! role 8 4 i; f = v ! role 8 5 i; g = v ! role 8 6 i; h = v ! role 8 7 i;
          t2 = mac_s0 M a + maj a b c;
          t1 = h + mac_s1 M e + ch e f g + mac_k M i + wi
      in v[role 8 3 i := d + t1, role 8 7 i := t1 + t2])"

definition sha2_step ::
  "'w::len sha2_macros \<Rightarrow> byte list \<Rightarrow> nat \<Rightarrow> 'w word list \<times> 'w word list \<Rightarrow>
   'w word list \<times> 'w word list" where
  "sha2_step M data i = (\<lambda>(v, w).
     let w = sha2_ring M data i w in (sha2_vars M i (w ! (i mod 16)) v, w))"

text \<open>
  \<open>_single (data, digest)\<close>: load the variables, run the steps, add to the digest. The ring
  starts uninitialised in C; every entry is written before it is read.
\<close>

definition sha2_single ::
  "'w::len sha2_macros \<Rightarrow> byte list \<Rightarrow> 'w word list \<Rightarrow> 'w word list" where
  "sha2_single M data dgst =
     (let (v, w) = fold (sha2_step M data) [0..<rounds M] (dgst, replicate 16 0)
      in map2 (+) dgst v)"

section \<open>The macros, rolled up\<close>

text \<open>
  The same macros in a loop: the message schedule as a list, the variables moved at the end of each
  round. Whatever the macros are, the unrolled code computes this.
\<close>

primrec rolled_schedule :: "'w::len sha2_macros \<Rightarrow> byte list \<Rightarrow> nat \<Rightarrow> 'w word list" where
  "rolled_schedule M data 0 = []"
| "rolled_schedule M data (Suc t) =
     (let W = rolled_schedule M data t in
      W @ [if t < 16 then mac_ww M data t
           else mac_S1 M (W ! (t - 2)) + W ! (t - 7) + mac_S0 M (W ! (t - 15)) + W ! (t - 16)])"

definition rolled_round ::
  "'w::len sha2_macros \<Rightarrow> 'w word \<Rightarrow> 'w word \<Rightarrow> 'w regs \<Rightarrow> 'w regs" where
  "rolled_round M k W = (\<lambda>(a, b, c, d, e, f, g, h).
     let T1 = h + mac_s1 M e + ch e f g + k + W;
         T2 = mac_s0 M a + maj a b c
     in (T1 + T2, a, b, c, d + T1, e, f, g))"

primrec rolled_rounds ::
  "'w::len sha2_macros \<Rightarrow> byte list \<Rightarrow> nat \<Rightarrow> 'w regs \<Rightarrow> 'w regs" where
  "rolled_rounds M data 0 s = s"
| "rolled_rounds M data (Suc t) s =
     rolled_round M (mac_k M t) (rolled_schedule M data (Suc t) ! t) (rolled_rounds M data t s)"

definition rolled_compress ::
  "'w::len sha2_macros \<Rightarrow> byte list \<Rightarrow> 'w word list \<Rightarrow> 'w word list" where
  "rolled_compress M data H =
     map2 (+) H (list_of_regs (rolled_rounds M data (rounds M) (regs_of_list H)))"

section \<open>The unrolled code is the loop\<close>

lemma shifts_rotr:
  "0 < r \<Longrightarrow> r < LENGTH('w) \<Longrightarrow>
   drop_bit r x XOR push_bit (LENGTH('w) - r) x = word_rotr r (x :: 'w::len word)"
  by (rule bit_word_eqI)
    (auto simp: bit_simps mod_if add.commute dest: bit_imp_le_length)

lemma ror_rotr:
  "0 < r \<Longrightarrow> r < 32 \<Longrightarrow> ror32 x r = word_rotr r x"
  "0 < r \<Longrightarrow> r < 64 \<Longrightarrow> ror64 y r = word_rotr r y"
  using shifts_rotr[of r x] shifts_rotr[of r y] by (simp_all add: ror32_def ror64_def)

text \<open>For evaluation: one reduction to a numeral instead of four.\<close>

lemma ror_code [code]:
  "ror32 x r = word_of_int (let k = uint x in drop_bit r k XOR push_bit (32 - r) k)"
  "ror64 y r = word_of_int (let k = uint y in drop_bit r k XOR push_bit (64 - r) k)"
  by (simp_all add: ror32_def ror64_def word_bit_operations_code Let_def)
    (rule bit_word_eqI; auto simp: bit_simps)+

definition sha2_rec :: "'w::len sha2_macros \<Rightarrow> (nat \<Rightarrow> 'w word) \<Rightarrow> 'w word" where
  "sha2_rec M W = W 16 + mac_S0 M (W 15) + W 7 + mac_S1 M (W 2)"

interpretation sha2: ring_schedule "mac_ww M data" "sha2_rec M" for M data
  by unfold_locales (simp add: sha2_rec_def)

lemma sha2_ring_step: "sha2_ring M data i = ring_step (mac_ww M data) (sha2_rec M) i"
  by (rule ext) (simp add: sha2_ring_def ring_step_def sha2_rec_def)

lemma rolled_schedule_eq: "rolled_schedule M data t = schedule (mac_ww M data) (sha2_rec M) t"
  by (induction t) (simp_all add: Let_def sha2_rec_def ac_simps)

definition step_inv ::
  "'w::len sha2_macros \<Rightarrow> byte list \<Rightarrow> 'w word list \<Rightarrow> nat \<Rightarrow> 'w word list \<times> 'w word list \<Rightarrow> bool"
where
  "step_inv M data H n = (\<lambda>(v, w).
     length v = 8 \<and> ring_holds (mac_ww M data) (sha2_rec M) n w \<and>
     regs_of_list (unrot 8 n v) = rolled_rounds M data n (regs_of_list H))"

lemma length_sha2_vars [simp]: "length (sha2_vars M n W v) = length v"
  by (simp add: sha2_vars_def Let_def)

lemma sha2_vars_round:
  assumes "length v = 8"
  shows "regs_of_list (unrot 8 (Suc n) (sha2_vars M n W v))
    = rolled_round M (mac_k M n) W (regs_of_list (unrot 8 n v))"
proof -
  obtain a b c d e f g h where u: "unrot 8 n v = [a, b, c, d, e, f, g, h]"
    by (rule list8E[OF length_unrot])
  have v: "v ! role 8 r n = [a, b, c, d, e, f, g, h] ! r" if "r < 8" for r
    using nth_unrot[of r 8 n v] that u by simp
  show ?thesis
    by (simp add: sha2_vars_def Let_def unrot_Suc unrot_update assms u v
        regs_of_list_def rolled_round_def)
qed

lemma step_inv_Suc:
  assumes "step_inv M data H n (v, w)"
  shows "step_inv M data H (Suc n) (sha2_step M data n (v, w))"
  using assms sha2.ring_holds_step[of M data n w]
  by (simp add: step_inv_def sha2_step_def sha2_vars_round sha2_ring_step rolled_schedule_eq
      del: rolled_schedule.simps schedule.simps)

lemma step_inv_fold:
  assumes "length H = 8"
  shows "step_inv M data H n (fold (sha2_step M data) [0..<n] (H, replicate 16 0))"
proof (induction n)
  case (Suc n)
  then show ?case
    by (cases "fold (sha2_step M data) [0..<n] (H, replicate 16 0)")
      (simp add: step_inv_Suc)
qed (simp add: step_inv_def assms unrot_home ring_holds_0)

text \<open>When the number of rounds is a multiple of eight, the roles are back in place.\<close>

theorem sha2_single_eq_rolled:
  assumes "length H = 8" "8 dvd rounds M"
  shows "sha2_single M data H = rolled_compress M data H"
proof -
  obtain v w where vw: "fold (sha2_step M data) [0..<rounds M] (H, replicate 16 0) = (v, w)"
    by fastforce
  with step_inv_fold[OF assms(1), of M data "rounds M"]
  have v: "length v = 8" "regs_of_list v = rolled_rounds M data (rounds M) (regs_of_list H)"
    using assms(2) by (auto simp: step_inv_def unrot_home)
  have "list_of_regs (regs_of_list v) = v"
    by (rule list8E[OF v(1)]) (simp add: list_of_regs_def regs_of_list_def)
  then show ?thesis
    by (simp add: sha2_single_def vw rolled_compress_def flip: v(2))
qed

lemma length_sha2_single [simp]:
  "length H = 8 \<Longrightarrow> length (sha2_single M data H) = 8"
  using step_inv_fold[of H M data "rounds M"]
  by (auto simp: sha2_single_def step_inv_def split: prod.splits)

section \<open>The loop is the compression function of FIPS 180-4\<close>

text \<open>When the macros are the functions and constants of the standard.\<close>

locale fips_macros =
  fixes M :: "'w::len sha2_macros" and S :: "'w fips_sha2" and B :: nat
  assumes sigmas: "mac_s0 M = Sigma0 S" "mac_s1 M = Sigma1 S" "mac_S0 M = sigma0 S" "mac_S1 M = sigma1 S"
    and loads: "length data = B \<Longrightarrow> t < 16 \<Longrightarrow> mac_ww M data t = fips_word data t"
    and round_consts: "t < rounds M \<Longrightarrow> mac_k M t = fips_K t"
    and num_rounds: "rounds M = fips_num_rounds S" "8 dvd rounds M"
begin

lemma schedule_fips: "length data = B \<Longrightarrow> rolled_schedule M data t = fips_schedule S data t"
  by (induction t) (simp_all add: Let_def sigmas loads)

lemma rounds_fips:
  "length data = B \<Longrightarrow> t \<le> rounds M \<Longrightarrow> rolled_rounds M data t s = fips_rounds S data t s"
proof (induction t)
  case (Suc t)
  have "rolled_round M k W r = fips_round S k W r" for k W r
    by (simp add: rolled_round_def fips_round_def sigmas ch_def maj_def fips_Ch_def fips_Maj_def and.commute)
  with Suc show ?case by (simp add: round_consts schedule_fips del: rolled_schedule.simps fips_schedule.simps)
qed simp

lemma single_fips: "length H = 8 \<Longrightarrow> length data = B \<Longrightarrow> sha2_single M data H = fips_compress S data H"
  using sha2_single_eq_rolled[OF _ num_rounds(2), of H data]
  by (simp add: rolled_compress_def fips_compress_def rounds_fips num_rounds(1)[symmetric])

end

end
