(* ===== verification/Sha256.thy ===== *)
theory Sha256
  imports Sha2
begin

text \<open>
  SHA-256: the macros, round constants and initial digest of
  \<open>sha256_mb/sha256_ctx_base.c\<close> and \<open>include/internal/sha256_mb_internal.h\<close>, the
  compression function, and the portable operations as instances of the context layer.
  \<open>sha256_ref.c\<close> repeats the same macros.
\<close>

section \<open>The compression function\<close>

definition sha256_s0 :: "u32 \<Rightarrow> u32" where
  "sha256_s0 a = ror32 a 2 XOR ror32 a 13 XOR ror32 a 22"

definition sha256_s1 :: "u32 \<Rightarrow> u32" where
  "sha256_s1 e = ror32 e 6 XOR ror32 e 11 XOR ror32 e 25"

definition sha256_S0 :: "u32 \<Rightarrow> u32" where
  "sha256_S0 w = ror32 w 7 XOR ror32 w 18 XOR drop_bit 3 w"

definition sha256_S1 :: "u32 \<Rightarrow> u32" where
  "sha256_S1 w = ror32 w 17 XOR ror32 w 19 XOR drop_bit 10 w"

text \<open>The constants of the calls of \<open>step\<close>, four calls to a row.\<close>

definition sha256_k :: "u32 list" where
  "sha256_k = concat
    [[0x428a2f98, 0x71374491, 0xb5c0fbcf, 0xe9b5dba5],
      [0x3956c25b, 0x59f111f1, 0x923f82a4, 0xab1c5ed5],
      [0xd807aa98, 0x12835b01, 0x243185be, 0x550c7dc3],
      [0x72be5d74, 0x80deb1fe, 0x9bdc06a7, 0xc19bf174],
      [0xe49b69c1, 0xefbe4786, 0x0fc19dc6, 0x240ca1cc],
      [0x2de92c6f, 0x4a7484aa, 0x5cb0a9dc, 0x76f988da],
      [0x983e5152, 0xa831c66d, 0xb00327c8, 0xbf597fc7],
      [0xc6e00bf3, 0xd5a79147, 0x06ca6351, 0x14292967],
      [0x27b70a85, 0x2e1b2138, 0x4d2c6dfc, 0x53380d13],
      [0x650a7354, 0x766a0abb, 0x81c2c92e, 0x92722c85],
      [0xa2bfe8a1, 0xa81a664b, 0xc24b8b70, 0xc76c51a3],
      [0xd192e819, 0xd6990624, 0xf40e3585, 0x106aa070],
      [0x19a4c116, 0x1e376c08, 0x2748774c, 0x34b0bcb5],
      [0x391c0cb3, 0x4ed8aa4a, 0x5b9cca4f, 0x682e6ff3],
      [0x748f82ee, 0x78a5636f, 0x84c87814, 0x8cc70208],
      [0x90befffa, 0xa4506ceb, 0xbef9a3f7, 0xc67178f2]]"

definition sha256_const :: "nat \<Rightarrow> u32" where
  "sha256_const i = sha256_k ! i"

definition sha256_ww :: "byte list \<Rightarrow> nat \<Rightarrow> u32" where
  "sha256_ww data i = to_be32 (ld32 data i)"

definition sha256_macros :: "32 sha2_macros" where
  "sha256_macros =
     \<lparr>mac_s0 = sha256_s0, mac_s1 = sha256_s1, mac_S0 = sha256_S0, mac_S1 = sha256_S1,
      mac_ww = sha256_ww, mac_k = sha256_const, rounds = 64\<rparr>"

definition sha256_single :: "byte list \<Rightarrow> u32 list \<Rightarrow> u32 list" where
  "sha256_single = sha2_single sha256_macros"

definition sha256_initial_digest :: "u32 list" where
  "sha256_initial_digest =
     [0x6a09e667, 0xbb67ae85, 0x3c6ef372, 0xa54ff53a,
      0x510e527f, 0x9b05688c, 0x1f83d9ab, 0x5be0cd19]"

definition sha256_alg :: "32 hash_alg" where
  "sha256_alg =
     \<lparr>block_size = 64, log2_block_size = 6, pad_field_size = 8,
      initial_digest = sha256_initial_digest, single = sha256_single,
      len_field = (\<lambda>n. store_le 8 (to_be64 n)), output_digest = (\<lambda>d. d)\<rparr>"

interpretation sha256: hash_algorithm sha256_alg
  by unfold_locales (simp_all add: sha256_alg_def)

section \<open>The portable operations\<close>

type_synonym sha256_ctx = "(32, 64) hash_ctx"

definition sha256_init :: "sha256_ctx \<Rightarrow> sha256_ctx" where
  "sha256_init = base_init sha256_alg"

definition sha256_update :: "sha256_ctx \<Rightarrow> byte list \<Rightarrow> u32 \<Rightarrow> sha256_ctx" where
  "sha256_update = base_update sha256_alg"

definition sha256_final :: "sha256_ctx \<Rightarrow> sha256_ctx" where
  "sha256_final = base_final sha256_alg"

definition sha256_ctx_mgr_submit_base :: "sha256_ctx \<Rightarrow> byte list \<Rightarrow> u32 \<Rightarrow> u32 \<Rightarrow> sha256_ctx" where
  "sha256_ctx_mgr_submit_base = base_submit sha256_alg"

definition sha256_ctx_mgr_flush_base :: "sha256_ctx option" where
  "sha256_ctx_mgr_flush_base = base_flush"

text \<open>\<open>sha256_mb/sha256_ref.c\<close>, with its own copy of the compression function.\<close>

definition sha256_ref_single :: "byte list \<Rightarrow> 32 word list \<Rightarrow> 32 word list" where
  "sha256_ref_single = sha256_single"

definition sha256_ref :: "byte list \<Rightarrow> u32 \<Rightarrow> u32 list" where
  "sha256_ref = ref_hash (sha256_alg\<lparr>single := sha256_ref_single\<rparr>)"

lemma sha256_ref_eq: "sha256_ref = ref_hash sha256_alg"
  by (simp add: sha256_ref_def sha256_ref_single_def sha256_alg_def)

section \<open>Agreement with FIPS 180-4\<close>

text \<open>The macros are the sigma functions of the standard.\<close>

lemma sha256_sigmas:
  "sha256_s0 x = word_rotr 2 x XOR word_rotr 13 x XOR word_rotr 22 x"
  "sha256_s1 x = word_rotr 6 x XOR word_rotr 11 x XOR word_rotr 25 x"
  "sha256_S0 x = word_rotr 7 x XOR word_rotr 18 x XOR drop_bit 3 x"
  "sha256_S1 x = word_rotr 17 x XOR word_rotr 19 x XOR drop_bit 10 x"
  by (simp_all add: sha256_s0_def sha256_s1_def sha256_S0_def sha256_S1_def ror_rotr)

text \<open>The tables hold the leading bits of the roots of the first primes.\<close>

lemma sha256_k_roots: "list_all2 (root_entry 3) (take (length sha256_k) fips_primes) sha256_k"
  by code_simp

lemma sha256_initial_digest_fips: "sha256_initial_digest = fips_H0"
  by (rule square_root_table) code_simp

lemma length_sha256_k: "length sha256_k = 64"
  by (simp add: sha256_k_def)

lemma sha256_ww_fips: "length data = 64 \<Longrightarrow> t < 16 \<Longrightarrow> sha256_ww data t = fips_word data t"
  by (simp add: sha256_ww_def fips_word_def to_be32_def ld32_def byteswap32_load_le)

interpretation sha256_std: fips_macros sha256_macros fips256 64
proof
  fix t assume "t < rounds sha256_macros"
  then show "mac_k sha256_macros t = fips_K t"
    using cube_root_table[OF sha256_k_roots, of t] by (simp add: sha256_macros_def sha256_const_def length_sha256_k)
qed (simp_all add: sha256_macros_def fips256_def sha256_sigmas fun_eq_iff sha256_ww_fips)

lemma sha256_single_fips:
  "length H = 8 \<Longrightarrow> length data = 64 \<Longrightarrow> sha256_single data H = fips_compress fips256 data H"
  unfolding sha256_single_def by (rule sha256_std.single_fips)

text \<open>The hash the standard defines: its padding, and its compression function block by block.\<close>

lemma sha256_hash_fips: "md_hash sha256_alg m = fips_sha256 m"
proof -
  have "sha256_alg\<lparr>single := fips_compress fips256\<rparr> = fips_sha256_alg"
    by (simp add: sha256_alg_def fips_sha256_alg_def sha256_initial_digest_fips to_be64_def store_le_byteswap64)
  moreover have "md_hash sha256_alg m = md_hash (sha256_alg\<lparr>single := fips_compress fips256\<rparr>) m"
    by (rule md_hash_cong[where k = 8]) (simp_all add: sha256_alg_def sha256_single_fips sha256_initial_digest_def)
  ultimately show ?thesis by (simp only: fips_sha256_def)
qed

end
