(* ===== verification/CtxMgr.thy ===== *)
theory CtxMgr
  imports BaseCtx
begin

text \<open>
  The context layer over a job scheduler, \<open><alg>_mb/<alg>_ctx_<arch>.c\<close>. The files of all
  architectures hold the same four functions; they are translated once (line numbers of the
  map are those of \<open>sha256_ctx_sse.c\<close>) over the algorithm and the two scheduler operations
  they call, which are assembly on x86 and C on aarch64.

  Contexts live in a store indexed by numbers (the caller's array of contexts); a job is
  named by the context it is embedded in, so \<open>JOB_TO_CTX\<close> is the identity, and the null
  pointer is \<open>None\<close>. The loops of \<open>resubmit\<close> and \<open>flush\<close> run as long as the scheduler hands
  back jobs: they are partial functions, and their result \<open>None\<close> would mean not returning.
\<close>

type_synonym ('w, 'l) store = "nat \<Rightarrow> ('w, 'l) hash_ctx"

type_synonym ('s, 'w, 'l) job_submit_fun =
  "'s \<Rightarrow> ('w, 'l) store \<Rightarrow> nat \<Rightarrow> 's \<times> ('w, 'l) store \<times> nat option"

type_synonym ('s, 'w, 'l) job_flush_fun =
  "'s \<Rightarrow> ('w, 'l) store \<Rightarrow> 's \<times> ('w, 'l) store \<times> nat option"

section \<open>Padding in place\<close>

text \<open>
  \<open>hash_pad\<close> works in the context's two-block buffer. \<open>clr\<close> is where the clearing starts
  relative to the first free byte: 0, except in two files that write 1.
\<close>

definition hash_pad ::
  "'w::len hash_alg \<Rightarrow> nat \<Rightarrow> byte list \<Rightarrow> u64 \<Rightarrow> byte list \<times> u32" where
  "hash_pad A clr padblock total_len =
     (let B = block_size A;
          P = pad_field_size A;
          i = ucast (total_len AND (of_nat B - 1)) :: u32;
          padblock = memset_at padblock (unat i + clr) 0 B;
          padblock = padblock[unat i := 0x80];
          i = i + ucast (((of_nat B - 1) AND (0 - (total_len + of_nat P + 1))) + 1 + of_nat P);
          padblock = (if P = 16 then memcpy_at padblock (unat i - 16) (replicate 8 0) 8
                      else padblock);
          padblock = memcpy_at padblock (unat i - 8) (len_field A (push_bit 3 total_len)) 8
      in (padblock, drop_bit (log2_block_size A) i))"

section \<open>The operations\<close>

definition set_job :: "bufptr \<Rightarrow> nat \<Rightarrow> ('w::len, 'l::len) hash_ctx \<Rightarrow> ('w, 'l) hash_ctx" where
  "set_job p n ctx = ctx\<lparr>job := (job ctx)\<lparr>job_buffer := p, job_len := of_nat n\<rparr>\<rparr>"

text \<open>
  The body of the \<open>if\<close> in \<open>resubmit\<close> that takes what the caller's buffer still holds: the
  number of whole blocks to hash from it, and the context with the rest in its own buffer.
\<close>

definition take_incoming ::
  "'w::len hash_alg \<Rightarrow> ('w, 'l::len) hash_ctx \<Rightarrow> ('w, 'l) hash_ctx \<times> u32" where
  "take_incoming A ctx =
     (if partial_block_buffer_length ctx = 0 \<and> incoming_buffer_length ctx \<noteq> 0 then
        let buffer = incoming_buffer ctx;
            len = incoming_buffer_length ctx;
            copy_len = len AND (of_nat (block_size A) - 1);
            (len, ctx) =
              (if copy_len \<noteq> 0 then
                 let len = len - copy_len
                 in (len, ctx\<lparr>partial_block_buffer :=
                                 memcpy_at (partial_block_buffer ctx) 0
                                   (drop (unat len) buffer) (unat copy_len),
                               partial_block_buffer_length := copy_len\<rparr>)
               else (len, ctx));
            ctx = ctx\<lparr>incoming_buffer_length := 0\<rparr>
        in (ctx, drop_bit (log2_block_size A) len)
      else (ctx, 0))"

partial_function (option) ctx_mgr_resubmit ::
  "'w::len hash_alg \<Rightarrow> nat \<Rightarrow> ('s, 'w, 'l::len) job_submit_fun \<Rightarrow>
   's \<Rightarrow> ('w, 'l) store \<Rightarrow> nat option \<Rightarrow> ('s \<times> ('w, 'l) store \<times> nat option) option" where
  "ctx_mgr_resubmit A clr mb_submit s st co =
     (case co of
        None \<Rightarrow> Some (s, st, None)
      | Some c \<Rightarrow>
          let ctx = st c
          in if status ctx AND STS_COMPLETE \<noteq> 0 then
               Some (s, st(c := (set_digest (output_digest A (digest ctx)) ctx)
                                  \<lparr>status := STS_COMPLETE\<rparr>), Some c)
             else
               let buffer = incoming_buffer ctx;
                   (ctx, len) = take_incoming A ctx
               in if len \<noteq> 0 then
                    let (s, st, co) =
                      mb_submit s (st(c := set_job (User buffer) (unat len) ctx)) c
                    in ctx_mgr_resubmit A clr mb_submit s st co
                  else if status ctx AND STS_LAST \<noteq> 0 then
                    let (buf, n_extra_blocks) =
                          hash_pad A clr (partial_block_buffer ctx) (total_length ctx);
                        ctx = ctx\<lparr>partial_block_buffer := buf,
                                  status := STS_PROCESSING OR STS_COMPLETE\<rparr>;
                        (s, st, co) =
                          mb_submit s (st(c := set_job (Own 0) (unat n_extra_blocks) ctx)) c
                    in ctx_mgr_resubmit A clr mb_submit s st co
                  else Some (s, st(c := ctx\<lparr>status := STS_IDLE\<rparr>), Some c))"

text \<open>The part of \<open>submit\<close> before the partial block is looked at.\<close>

definition submit_start ::
  "'w::len hash_alg \<Rightarrow> ('w, 'l::len) hash_ctx \<Rightarrow> byte list \<Rightarrow> u32 \<Rightarrow> u32 \<Rightarrow> ('w, 'l) hash_ctx"
where
  "submit_start A ctx buffer len flags =
     (let ctx = (if flags AND ISAL_HASH_FIRST \<noteq> 0 then
                   (set_digest (initial_digest A) ctx)
                     \<lparr>total_length := 0, partial_block_buffer_length := 0\<rparr>
                 else ctx);
          ctx = ctx\<lparr>error := ERROR_NONE, incoming_buffer := buffer,
                    incoming_buffer_length := len,
                    status := (if flags AND ISAL_HASH_LAST \<noteq> 0
                               then STS_PROCESSING OR STS_LAST else STS_PROCESSING)\<rparr>
      in ctx\<lparr>total_length := total_length ctx + ucast len\<rparr>)"

text \<open>
  Filling the partial block. The flag of the result says that the block is full and has
  become the context's job.
\<close>

definition submit_fill ::
  "'w::len hash_alg \<Rightarrow> ('w, 'l::len) hash_ctx \<Rightarrow> byte list \<Rightarrow> u32 \<Rightarrow> ('w, 'l) hash_ctx \<times> bool"
where
  "submit_fill A ctx buffer len =
     (if partial_block_buffer_length ctx \<noteq> 0 \<or> len < of_nat (block_size A) then
        let copy_len = of_nat (block_size A) - partial_block_buffer_length ctx;
            copy_len = (if len < copy_len then len else copy_len);
            ctx = (if copy_len \<noteq> 0 then
                     ctx\<lparr>partial_block_buffer :=
                           memcpy_at (partial_block_buffer ctx)
                             (unat (partial_block_buffer_length ctx)) buffer (unat copy_len),
                         partial_block_buffer_length := partial_block_buffer_length ctx + copy_len,
                         incoming_buffer := drop (unat copy_len) buffer,
                         incoming_buffer_length := len - copy_len\<rparr>
                   else ctx)
        in if of_nat (block_size A) \<le> partial_block_buffer_length ctx then
             (set_job (Own 0) 1 (ctx\<lparr>partial_block_buffer_length := 0\<rparr>), True)
           else (ctx, False)
      else (ctx, False))"

definition ctx_mgr_submit ::
  "'w::len hash_alg \<Rightarrow> nat \<Rightarrow> ('s, 'w, 'l::len) job_submit_fun \<Rightarrow>
   's \<Rightarrow> ('w, 'l) store \<Rightarrow> nat \<Rightarrow> byte list \<Rightarrow> u32 \<Rightarrow> u32 \<Rightarrow>
   ('s \<times> ('w, 'l) store \<times> nat option) option" where
  "ctx_mgr_submit A clr mb_submit s st c buffer len flags =
     (let ctx = st c
      in if flags AND NOT ISAL_HASH_ENTIRE \<noteq> 0 then
           Some (s, st(c := ctx\<lparr>error := ERROR_INVALID_FLAGS\<rparr>), Some c)
         else if status ctx AND STS_PROCESSING \<noteq> 0 then
           Some (s, st(c := ctx\<lparr>error := ERROR_ALREADY_PROCESSING\<rparr>), Some c)
         else if status ctx AND STS_COMPLETE \<noteq> 0 \<and> flags AND ISAL_HASH_FIRST = 0 then
           Some (s, st(c := ctx\<lparr>error := ERROR_ALREADY_COMPLETED\<rparr>), Some c)
         else
           let (ctx, full) = submit_fill A (submit_start A ctx buffer len flags) buffer len;
               (s, st, co) =
                 (if full then mb_submit s (st(c := ctx)) c else (s, st(c := ctx), Some c))
           in ctx_mgr_resubmit A clr mb_submit s st co)"

partial_function (option) ctx_mgr_flush ::
  "'w::len hash_alg \<Rightarrow> nat \<Rightarrow> ('s, 'w, 'l::len) job_submit_fun \<Rightarrow> ('s, 'w, 'l) job_flush_fun \<Rightarrow>
   's \<Rightarrow> ('w, 'l) store \<Rightarrow> ('s \<times> ('w, 'l) store \<times> nat option) option" where
  "ctx_mgr_flush A clr mb_submit mb_flush s st =
     (let (s, st, co) = mb_flush s st
      in case co of
           None \<Rightarrow> Some (s, st, None)
         | Some c \<Rightarrow>
             (case ctx_mgr_resubmit A clr mb_submit s st (Some c) of
                None \<Rightarrow> None
              | Some (s, st, co) \<Rightarrow>
                  (case co of
                     Some c \<Rightarrow> Some (s, st, Some c)
                   | None \<Rightarrow> ctx_mgr_flush A clr mb_submit mb_flush s st)))"

section \<open>Padding in place is the padding of the specification\<close>

context hash_algorithm begin

lemma block_mask: "(of_nat (block_size A) - 1 :: 'a::len word) = mask (log2_block_size A)"
  by (simp add: block_size_log2 mask_eq_exp_minus_1)

lemma unat_and_block_mask: "unat (x AND (of_nat (block_size A) - 1)) = unat (x :: 'a::len word) mod block_size A"
  by (subst block_mask) (simp only: unat_and_mask block_size_log2)

lemma unat_of_nat_mod_block:
  "unat (of_nat n :: u64) mod block_size A = n mod block_size A"
proof -
  have "log2_block_size A \<le> 64" using log2_block_size_bounds by simp
  then have "block_size A dvd 2 ^ 64" by (simp only: block_size_log2 le_imp_power_dvd)
  then show ?thesis by (simp add: unat_of_nat mod_mod_cancel)
qed

text \<open>The number of zero bytes, computed in the code by a bit mask of a negated word.\<close>

lemma unat_pad_mask:
  "unat ((of_nat (block_size A) - 1) AND (0 - (of_nat n :: u64)))
    = (block_size A - n mod block_size A) mod block_size A"
proof -
  let ?B = "block_size A" and ?r = "0 - (of_nat n :: u64)" and ?n = "unat (of_nat n :: u64)"
  have "log2_block_size A \<le> 64" using log2_block_size_bounds by simp
  then have "?B dvd 2 ^ 64" by (simp only: block_size_log2 le_imp_power_dvd)
  moreover have "unat (?r + of_nat n) = 0" by simp
  then have "2 ^ 64 dvd unat ?r + ?n" by (simp only: unat_word_ariths dvd_eq_mod_eq_0) simp
  ultimately have "?B dvd unat ?r + ?n" by (rule dvd_trans)
  then have "unat ?r mod ?B = (?B - ?n mod ?B) mod ?B" by (rule mod_complement) simp
  then show ?thesis
    by (simp only: and.commute[of "_ - 1"] unat_and_block_mask unat_of_nat_mod_block)
qed

text \<open>The index \<open>i\<close> ends at the end of the first or the second block.\<close>

lemma pad_index:
  defines "z n \<equiv> (block_size A - (n + pad_field_size A + 1) mod block_size A) mod block_size A"
  shows "\<exists>k\<in>{1, 2}. n mod block_size A + (z n + 1 + pad_field_size A) = k * block_size A"
proof -
  let ?B = "block_size A" and ?P = "pad_field_size A"
  let ?i = "n mod ?B + (z n + 1 + ?P)"
  have "n div ?B * ?B + ?i = n + ?P + 1 + z n" by (simp add: div_mult_mod_eq algebra_simps)
  moreover have "?B dvd n + ?P + 1 + z n"
    unfolding z_def by (rule dvd_add_complement) simp
  ultimately have "?B dvd ?i" by (metis dvd_add_right_iff dvd_triv_right)
  then obtain k where k: "?i = ?B * k" by (auto elim: dvdE)
  have "n mod ?B < ?B" "z n < ?B" by (simp_all add: z_def)
  then have "?i < ?B * 3" using pad_field_bounds by linarith
  then have "k < 3" using k by simp
  moreover have "k \<noteq> 0" using k by (metis add_is_0 mult_0_right one_neq_zero)
  ultimately have "k = 1 \<or> k = 2" by linarith
  then show ?thesis using k by (auto simp: mult.commute)
qed

lemma pad_zeros_index:
  "pad_zeros (block_size A) (pad_field_size A) n =
    (block_size A - (n + pad_field_size A + 1) mod block_size A) mod block_size A + (pad_field_size A - 8)"
  by (simp add: pad_zeros_def add.commute[of 1] ac_simps)

lemma hash_pad_eq:
  assumes pb: "length pb = 2 * block_size A" and part: "take (n mod block_size A) pb = part"
    and clr: "clr \<le> 1"
  obtains pb' k where "hash_pad A clr pb (of_nat n) = (pb', of_nat k)" "0 < k" "k \<le> 2"
    "length pb' = 2 * block_size A" "take (k * block_size A) pb' = part @ md_padding A n"
proof -
  let ?B = "block_size A" and ?P = "pad_field_size A"
  obtain i0 where i0: "n mod ?B = i0" "i0 < ?B" by simp
  define z where "z = (?B - (n + ?P + 1) mod ?B) mod ?B"
  obtain k where k: "k = 1 \<or> k = 2" "i0 + (z + 1 + ?P) = k * ?B"
    using pad_index[of n] by (auto simp: z_def i0)
  define i where "i = k * ?B"
  have bnd: "i0 < ?B" "z < ?B" by (simp_all add: z_def i0)
  have i: "i = i0 + 1 + ?P + z" "i \<le> 2 * ?B" using k by (auto simp: i_def)
  define w0 where "w0 = (ucast ((of_nat n :: u64) AND (of_nat ?B - 1)) :: u32)"
  have w0: "unat w0 = i0"
  proof -
    have "unat ((of_nat n :: u64) AND (of_nat ?B - 1)) = i0"
      by (simp only: unat_and_block_mask unat_of_nat_mod_block i0)
    moreover have "?B < 2 ^ 32" using block_size_bounds(1) by simp
    with bnd(1) have "i0 < 2 ^ 32" by (rule order_less_trans)
    ultimately show ?thesis by (simp add: w0_def unsigned_ucast_eq take_bit_nat_eq_self)
  qed
  define w1 where "w1 = w0 + ucast (((of_nat ?B - 1)
      AND (0 - ((of_nat n :: u64) + of_nat ?P + 1))) + 1 + of_nat ?P)"
  have w1: "unat w1 = i"
  proof -
    have "((of_nat ?B - 1) AND (0 - ((of_nat n :: u64) + of_nat ?P + 1))) = of_nat z"
    proof (rule word_unat_eq_iff[THEN iffD2])
      have "unat (of_nat z :: u64) = z"
        using bnd block_size_bounds(1) by (intro unat_of_nat_small) simp
      then show "unat ((of_nat ?B - 1) AND (0 - ((of_nat n :: u64) + of_nat ?P + 1)))
          = unat (of_nat z :: u64)"
        using unat_pad_mask[of "n + ?P + 1"] by (simp add: z_def)
    qed
    then have "w1 = w0 + ucast (of_nat (z + 1 + ?P) :: u64)" by (simp add: w1_def ac_simps)
    moreover have "(ucast (of_nat m :: u64) :: u32) = of_nat m" for m
      by (simp add: ucast_of_nat_down)
    ultimately have "w1 = w0 + of_nat (z + 1 + ?P)" by (simp only:)
    moreover have "w0 = of_nat i0" unfolding w0[symmetric] by simp
    ultimately have "w1 = of_nat i" by (simp add: i(1) algebra_simps)
    moreover have "i < 2 ^ 32" using i(2) block_size_bounds(1) by simp
    ultimately show ?thesis by (simp add: unat_of_nat_small)
  qed
  have w1': "drop_bit (log2_block_size A) w1 = of_nat k"
  proof (rule word_unat_eq_iff[THEN iffD2])
    have "unat (of_nat k :: u32) = k" using k(1) by (intro unat_of_nat_small) auto
    moreover have "unat (drop_bit (log2_block_size A) w1) = i div ?B"
      by (simp only: unat_drop_bit w1 block_size_log2)
    ultimately show "unat (drop_bit (log2_block_size A) w1) = unat (of_nat k :: u32)"
      by (simp add: i_def)
  qed
  define p1 where "p1 = (memset_at pb (i0 + clr) 0 ?B)[i0 := 0x80]"
  define p2 where "p2 = (if ?P = 16 then memcpy_at p1 (i - 16) (replicate 8 0) 8 else p1)"
  define p3 where "p3 = memcpy_at p2 (i - 8) (len_field A (of_nat n * 8)) 8"
  have l1: "length p1 = 2 * ?B" using pb bnd clr by (simp add: p1_def)
  have l2: "length p2 = 2 * ?B" using l1 i by (simp add: p2_def)
  have l3: "length p3 = 2 * ?B" using l2 i pad_field_bounds by (simp add: p3_def length_len_field)
  have eq: "hash_pad A clr pb (of_nat n) = (p3, of_nat k)"
    unfolding hash_pad_def Let_def w0_def[symmetric] w1_def[symmetric] w0 w1 w1'
    by (simp add: p3_def p2_def p1_def push_bit_eq_mult)
  have n1: "p1 ! j = (if j < i0 then part ! j else if j = i0 then 0x80 else 0)"
    if "j < i0 + ?B" "j < 2 * ?B" for j
    using that pb bnd clr part[unfolded i0, symmetric]
    by (auto simp: p1_def memset_at_def nth_memcpy_at nth_list_update)
  have n2: "p2 ! j = (if j < i0 then part ! j else if j = i0 then 0x80 else 0)" if "j < i - 8" for j
  proof (cases "?P = 16")
    case True
    then show ?thesis
      using that i l1 bnd n1[of j] by (auto simp: p2_def nth_memcpy_at)
  next
    case False
    then have "?P = 8" using pad_field_size by simp
    then show ?thesis using that i bnd n1[of j] by (simp add: p2_def)
  qed
  have "take (i - 8) p3 = part @ 0x80 # replicate (z + (?P - 8)) 0"
  proof (rule nth_equalityI)
    have lp: "length part = i0" using part[unfolded i0] pb bnd by auto
    show "length (take (i - 8) p3) = length (part @ 0x80 # replicate (z + (?P - 8)) 0)"
      using l3 i lp pad_field_bounds by simp
    fix j assume "j < length (take (i - 8) p3)"
    then have j: "j < i - 8" by simp
    then have "p3 ! j = p2 ! j" using l2 i by (simp add: p3_def nth_memcpy_at length_len_field)
    moreover have "j \<noteq> i0 \<Longrightarrow> \<not> j < i0 \<Longrightarrow> j - i0 - 1 < z + (?P - 8)"
      using j i pad_field_bounds by linarith
    ultimately show "take (i - 8) p3 ! j = (part @ 0x80 # replicate (z + (?P - 8)) 0) ! j"
      using j n2[OF j] lp by (auto simp: nth_append nth_Cons')
  qed
  moreover have "take i p3 = take (i - 8) p3 @ len_field A (of_nat n * 8)"
  proof -
    have "8 \<le> i" "i - 8 \<le> length p2" using i l2 pad_field_bounds by linarith+
    moreover have "take (i - 8 + 8) p3 = take (i - 8) p2 @ take 8 (len_field A (of_nat n * 8))"
      unfolding p3_def using calculation(2) by (intro take_memcpy_at) (simp_all add: length_len_field)
    ultimately show ?thesis by (simp add: p3_def length_len_field)
  qed
  ultimately have "take i p3 = part @ md_padding A n"
    by (simp add: md_padding_def pad_zeros_index z_def)
  with eq k(1) l3 show ?thesis by (intro that[of p3 k]) (auto simp: i_def)
qed

end

end
