(* ===== verification/Scheduler.thy ===== *)
theory Scheduler
  imports CtxMgr
begin

text \<open>
  The interface between the context layer and a job scheduler, as a locale, and the
  correctness of the context layer over any scheduler that keeps its laws. A scheduler may
  hand back any job in flight, not the one just submitted; what the context layer relies on
  is that a job handed back has been hashed to its end, that the work left on the others
  still leads to the same digests, and that nothing else of a context is touched.
\<close>

section \<open>What a scheduler promises\<close>

text \<open>The digest a job ends with when \<open>n\<close> blocks from its buffer are still to be hashed.\<close>

definition job_result ::
  "'w::len hash_alg \<Rightarrow> ('w, 'l::len) store \<Rightarrow> nat \<Rightarrow> nat \<Rightarrow> 'w word list" where
  "job_result A st n c =
     hash_nblocks (block_size A) (single A) n
       (buf_bytes (st c) (job_buffer (job (st c)))) (digest (st c))"

text \<open>Two contexts that differ at most in the embedded job.\<close>

definition same_frame :: "('w::len, 'l::len) hash_ctx \<Rightarrow> ('w, 'l) hash_ctx \<Rightarrow> bool" where
  "same_frame a b \<longleftrightarrow> a\<lparr>job := job b\<rparr> = b"

text \<open>
  The effect of an operation of the scheduler when the jobs \<open>I\<close> are in flight (the one being
  submitted included) and job \<open>j\<close> is to end with the digest \<open>fin j\<close>.
\<close>

definition sched_post ::
  "nat set \<Rightarrow> (nat \<Rightarrow> 'w::len word list) \<Rightarrow> ('w, 'l::len) store \<Rightarrow>
   nat set \<Rightarrow> (nat \<Rightarrow> 'w word list) \<Rightarrow> ('w, 'l) store \<Rightarrow> nat option \<Rightarrow> bool" where
  "sched_post I fin st I' fin' st' r \<longleftrightarrow>
     I' = I - set_option r \<and> set_option r \<subseteq> I \<and>
     (\<forall>j\<in>I'. fin' j = fin j) \<and> (\<forall>j\<in>set_option r. digest (st' j) = fin j) \<and>
     (\<forall>j. same_frame (st j) (st' j)) \<and> (\<forall>j. j \<notin> I \<longrightarrow> st' j = st j)"

locale job_scheduler = hash_algorithm A for A :: "'w::len hash_alg" +
  fixes mb_submit :: "('s, 'w, 'l::len) job_submit_fun"
    and mb_flush :: "('s, 'w, 'l) job_flush_fun"
    and inflight :: "'s \<Rightarrow> nat set"
    and work :: "'s \<Rightarrow> nat \<Rightarrow> nat"
    and sinv :: "'s \<Rightarrow> ('w, 'l) store \<Rightarrow> bool"
    and max_blocks :: nat
  assumes max_blocks: "2 < max_blocks" "max_blocks \<le> 2 ^ LENGTH('l)"
    and finite_inflight: "sinv s st \<Longrightarrow> finite (inflight s)"
    and sinv_stable: "sinv s st \<Longrightarrow>
      (\<And>j. j \<in> inflight s \<Longrightarrow> job (st' j) = job (st j) \<and>
         partial_block_buffer (st' j) = partial_block_buffer (st j)) \<Longrightarrow> sinv s st'"
    and submit_law: "sinv s st \<Longrightarrow> c \<notin> inflight s \<Longrightarrow> 0 < n \<Longrightarrow> n < max_blocks \<Longrightarrow>
      unat (job_len (job (st c))) = n \<Longrightarrow>
      n * block_size A \<le> length (buf_bytes (st c) (job_buffer (job (st c)))) \<Longrightarrow>
      mb_submit s st c = (s', st', r) \<Longrightarrow>
      sinv s' st' \<and>
      sched_post (insert c (inflight s))
        (\<lambda>j. job_result A st (if j = c then n else work s j) j) st
        (inflight s') (\<lambda>j. job_result A st' (work s' j) j) st' r"
    and flush_law: "sinv s st \<Longrightarrow> mb_flush s st = (s', st', r) \<Longrightarrow>
      sinv s' st' \<and>
      sched_post (inflight s) (\<lambda>j. job_result A st (work s j) j) st
        (inflight s') (\<lambda>j. job_result A st' (work s' j) j) st' r \<and>
      (r = None \<longrightarrow> inflight s = {})"

lemma same_frame_simps:
  assumes "same_frame a b"
  shows "status b = status a" "error b = error a" "total_length b = total_length a"
    "incoming_buffer b = incoming_buffer a" "incoming_buffer_length b = incoming_buffer_length a"
    "partial_block_buffer b = partial_block_buffer a"
    "partial_block_buffer_length b = partial_block_buffer_length a"
  using arg_cong[OF assms[unfolded same_frame_def], of status]
    arg_cong[OF assms[unfolded same_frame_def], of error]
    arg_cong[OF assms[unfolded same_frame_def], of total_length]
    arg_cong[OF assms[unfolded same_frame_def], of incoming_buffer]
    arg_cong[OF assms[unfolded same_frame_def], of incoming_buffer_length]
    arg_cong[OF assms[unfolded same_frame_def], of partial_block_buffer]
    arg_cong[OF assms[unfolded same_frame_def], of partial_block_buffer_length]
  by simp_all

lemma same_frame_refl [simp]: "same_frame a a"
  by (simp add: same_frame_def)

section \<open>The stages of a request\<close>

text \<open>
  A context whose user request is being processed, when its current job ends with digest \<open>d\<close>.
  Of the message \<open>m\<close>, the blocks \<open>pre\<close> are hashed, \<open>part\<close> is buffered and \<open>rest\<close> is still in
  the caller's buffer; or the last blocks with the padding are the current job. \<open>fin\<close> says
  that the request carried the \<open>LAST\<close> flag.
\<close>

definition pending ::
  "'w::len hash_alg \<Rightarrow> nat \<Rightarrow> byte list \<Rightarrow> 'w word list \<Rightarrow> ('w, 'l::len) hash_ctx \<Rightarrow> bool" where
  "pending A mx m d ctx \<longleftrightarrow> total_length ctx = of_nat (length m) \<and>
     (\<exists>pre part rest. m = pre @ part @ rest \<and> block_size A dvd length pre \<and>
        d = md_blocks A pre (initial_digest A) \<and> length part < block_size A \<and>
        unat (partial_block_buffer_length ctx) = length part \<and>
        take (length part) (partial_block_buffer ctx) = part \<and>
        unat (incoming_buffer_length ctx) = length rest \<and>
        take (length rest) (incoming_buffer ctx) = rest \<and>
        length rest div block_size A < mx \<and> (part = [] \<or> rest = []))"

lemma pendingI:
  assumes "total_length ctx = of_nat (length m)" "m = pre @ part @ rest"
    "block_size A dvd length pre" "d = md_blocks A pre (initial_digest A)"
    "length part < block_size A" "unat (partial_block_buffer_length ctx) = length part"
    "take (length part) (partial_block_buffer ctx) = part"
    "unat (incoming_buffer_length ctx) = length rest"
    "take (length rest) (incoming_buffer ctx) = rest"
    "length rest div block_size A < mx" "part = [] \<or> rest = []"
  shows "pending A mx m d ctx"
  unfolding pending_def using assms by blast

definition stage ::
  "'w::len hash_alg \<Rightarrow> nat \<Rightarrow> bool \<Rightarrow> byte list \<Rightarrow> 'w word list \<Rightarrow> ('w, 'l::len) hash_ctx \<Rightarrow> bool"
where
  "stage A mx fin m d ctx \<longleftrightarrow>
     length (partial_block_buffer ctx) = 2 * block_size A \<and>
     (if status ctx = STS_PROCESSING OR STS_COMPLETE then
        fin \<and> d = md_blocks A (m @ md_padding A (length m)) (initial_digest A)
      else
        status ctx = (if fin then STS_PROCESSING OR STS_LAST else STS_PROCESSING) \<and>
        pending A mx m d ctx)"

text \<open>A context handed back to the user.\<close>

definition settled ::
  "'w::len hash_alg \<Rightarrow> bool \<Rightarrow> byte list \<Rightarrow> ('w, 'l::len) hash_ctx \<Rightarrow> bool" where
  "settled A fin m ctx \<longleftrightarrow>
     length (partial_block_buffer ctx) = 2 * block_size A \<and>
     (if fin then status ctx = STS_COMPLETE \<and> digest ctx = md_hash A m
      else status ctx = STS_IDLE \<and> ctx_holds A m ctx)"

text \<open>How often a context can still be given to the scheduler before it settles.\<close>

definition steps_left :: "('w::len, 'l::len) hash_ctx \<Rightarrow> nat" where
  "steps_left ctx =
     (if status ctx AND STS_COMPLETE \<noteq> 0 then 0
      else (if status ctx AND STS_LAST \<noteq> 0 then 1 else 0)
         + (if incoming_buffer_length ctx \<noteq> 0 then 1 else 0))"

definition total_steps :: "nat set \<Rightarrow> ('w::len, 'l::len) store \<Rightarrow> nat" where
  "total_steps I st = (\<Sum>j\<in>I. steps_left (st j))"

lemma total_steps_upd:
  assumes "finite I" "c \<in> I" "steps_left x < steps_left (st c)"
  shows "total_steps I (st(c := x)) < total_steps I st"
  unfolding total_steps_def using assms
  by (intro sum_strict_mono_ex1) (auto intro: less_imp_le)

lemma steps_left_frame: "same_frame a b \<Longrightarrow> steps_left b = steps_left a"
  by (simp add: steps_left_def same_frame_simps)

lemma stage_frame:
  "same_frame a b \<Longrightarrow> stage A mx l m d b = stage A mx l m d a"
  by (simp add: stage_def pending_def same_frame_simps)

lemma set_job_simps [simp]:
  "status (set_job p n ctx) = status ctx"
  "error (set_job p n ctx) = error ctx"
  "total_length (set_job p n ctx) = total_length ctx"
  "incoming_buffer (set_job p n ctx) = incoming_buffer ctx"
  "incoming_buffer_length (set_job p n ctx) = incoming_buffer_length ctx"
  "partial_block_buffer (set_job p n ctx) = partial_block_buffer ctx"
  "partial_block_buffer_length (set_job p n ctx) = partial_block_buffer_length ctx"
  "digest (set_job p n ctx) = digest ctx"
  "job_buffer (job (set_job p n ctx)) = p"
  "job_len (job (set_job p n ctx)) = of_nat n"
  by (simp_all add: set_job_def)

lemma stage_set_job [simp]: "stage A mx l m d (set_job p n ctx) = stage A mx l m d ctx"
  by (simp add: stage_def pending_def)

lemma steps_left_set_job [simp]: "steps_left (set_job p n ctx) = steps_left ctx"
  by (simp add: steps_left_def)

lemma buf_bytes_set_job [simp]: "buf_bytes (set_job p n ctx) q = buf_bytes ctx q"
  by (cases q) simp_all

section \<open>Taking the rest of the caller's buffer\<close>

context hash_algorithm begin

lemma take_incoming_pending:
  fixes ctx :: "('w, 'l::len) hash_ctx"
  assumes len: "length (partial_block_buffer ctx) = 2 * block_size A"
    and p: "pending A mx m d ctx"
    and res: "take_incoming A ctx = (ctx', len)"
  obtains n pre mid part where "unat len = n" "n < mx"
    "m = (pre @ mid) @ part" "block_size A dvd length pre"
    "d = md_blocks A pre (initial_digest A)"
    "mid = take (n * block_size A) (incoming_buffer ctx)" "length mid = n * block_size A"
    "length part < block_size A" "unat (partial_block_buffer_length ctx') = length part"
    "take (length part) (partial_block_buffer ctx') = part"
    "length (partial_block_buffer ctx') = 2 * block_size A"
    "incoming_buffer_length ctx' = 0" "total_length ctx' = total_length ctx"
    "status ctx' = status ctx" "error ctx' = error ctx" "job ctx' = job ctx"
    "n \<noteq> 0 \<longrightarrow> incoming_buffer_length ctx \<noteq> 0"
proof -
  let ?B = "block_size A"
  from p obtain pre part rest where m: "m = pre @ part @ rest" "?B dvd length pre"
      "d = md_blocks A pre (initial_digest A)" "length part < ?B"
      "unat (partial_block_buffer_length ctx) = length part"
      "take (length part) (partial_block_buffer ctx) = part"
      "unat (incoming_buffer_length ctx) = length rest"
      "take (length rest) (incoming_buffer ctx) = rest" "length rest div ?B < mx"
      "part = [] \<or> rest = []"
    by (auto simp: pending_def)
  show thesis
  proof (cases "partial_block_buffer_length ctx = 0 \<and> incoming_buffer_length ctx \<noteq> 0")
    case False
    then have "rest = []" using m(5,7,10) by (auto simp: unat_eq_0)
    moreover have "ctx' = ctx" "len = 0" using res False by (auto simp: take_incoming_def)
    moreover have "incoming_buffer_length ctx = 0" using m(7) calculation(1) by (simp add: unat_eq_0)
    ultimately show thesis
      using m len by (intro that[of 0 pre "[]" part]) auto
  next
    case True
    then have part: "part = []" using m(5) by simp
    let ?l = "incoming_buffer_length ctx" and ?inc = "incoming_buffer ctx"
    define cl where "cl = ?l AND (of_nat ?B - 1)"
    have ucl: "unat cl = length rest mod ?B"
      unfolding cl_def unat_and_block_mask m(7) by (rule refl)
    have "cl \<le> ?l" unfolding cl_def by (rule word_and_le2)
    then have ul: "unat (?l - cl) = length rest div ?B * ?B"
      using m(7) ucl by (simp add: unat_sub_small minus_mod_eq_div_mult)
    define n where "n = length rest div ?B"
    let ?tail = "take (unat cl) (drop (n * ?B) ?inc)"
    define pb where "pb = memcpy_at (partial_block_buffer ctx) 0 (drop (n * ?B) ?inc) (unat cl)"
    have rl: "length rest \<le> length ?inc"
      using arg_cong[OF m(8), of length] by simp
    have e: "n * ?B + unat cl = length rest" by (simp add: n_def ucl div_mult_mod_eq)
    have lt: "length ?tail = unat cl" "length (take (n * ?B) ?inc) = n * ?B"
      using rl e by simp_all
    have split: "rest = take (n * ?B) ?inc @ ?tail"
      using m(8) e by (simp only: take_add[symmetric])
    have clB: "unat cl < ?B" by (simp add: ucl)
    have pb: "length pb = 2 * ?B" "take (unat cl) pb = ?tail"
      using len clB rl e take_memcpy_at[of "unat cl" "drop (n * ?B) ?inc" 0 "partial_block_buffer ctx"]
      by (simp_all add: pb_def)
    have "take_incoming A ctx =
        ((if cl \<noteq> 0 then ctx\<lparr>partial_block_buffer := pb, partial_block_buffer_length := cl\<rparr>
          else ctx)\<lparr>incoming_buffer_length := 0\<rparr>, drop_bit (log2_block_size A) (?l - cl))"
      unfolding take_incoming_def Let_def cl_def[symmetric] ul
      using True by (simp add: pb_def n_def)
    then have len': "len = drop_bit (log2_block_size A) (?l - cl)"
      and ctx': "ctx' = (if cl \<noteq> 0 then ctx\<lparr>partial_block_buffer := pb,
          partial_block_buffer_length := cl\<rparr> else ctx)\<lparr>incoming_buffer_length := 0\<rparr>"
      using res by auto
    have ulen: "unat len = n"
      unfolding len' unat_drop_bit ul n_def block_size_log2[symmetric] by simp
    show thesis
    proof (rule that[of n pre "take (n * ?B) ?inc" ?tail])
      show "m = (pre @ take (n * ?B) ?inc) @ ?tail" using m(1) part split by simp
      show "take (length ?tail) (partial_block_buffer ctx') = ?tail"
        using lt pb by (simp add: ctx')
      show "unat (partial_block_buffer_length ctx') = length ?tail"
        using lt m(5) part by (auto simp: ctx')
    qed (use m part ulen lt clB pb len True in \<open>auto simp: ctx' n_def\<close>)
  qed
qed

end

section \<open>The context layer over a scheduler\<close>

text \<open>
  The invariant of a manager: its scheduler's own, and for every context in flight the stage
  of the request its user made; \<open>msg j\<close> is what context \<open>j\<close> has been given since its last
  \<open>FIRST\<close>, \<open>fin j\<close> whether \<open>LAST\<close> has been seen.
\<close>

definition mgr_ok ::
  "'w::len hash_alg \<Rightarrow> ('s \<Rightarrow> nat set) \<Rightarrow> ('s \<Rightarrow> nat \<Rightarrow> nat) \<Rightarrow>
   ('s \<Rightarrow> ('w, 'l::len) store \<Rightarrow> bool) \<Rightarrow> nat \<Rightarrow>
   (nat \<Rightarrow> bool) \<Rightarrow> (nat \<Rightarrow> byte list) \<Rightarrow> 's \<Rightarrow> ('w, 'l) store \<Rightarrow> bool" where
  "mgr_ok A inflight work sinv mx fin msg s st \<longleftrightarrow> sinv s st \<and>
     (\<forall>j\<in>inflight s. stage A mx (fin j) (msg j) (job_result A st (work s j) j) (st j))"

text \<open>What an operation of the context layer leaves, when the contexts \<open>I\<close> are its own.\<close>

definition mgr_post ::
  "'w::len hash_alg \<Rightarrow> ('s \<Rightarrow> nat set) \<Rightarrow> (nat \<Rightarrow> bool) \<Rightarrow> (nat \<Rightarrow> byte list) \<Rightarrow>
   nat set \<Rightarrow> ('w, 'l::len) store \<Rightarrow> 's \<Rightarrow> ('w, 'l) store \<Rightarrow> nat option \<Rightarrow> bool" where
  "mgr_post A inflight fin msg I st s' st' r \<longleftrightarrow>
     inflight s' \<union> set_option r = I \<and> set_option r \<inter> inflight s' = {} \<and>
     (\<forall>j\<in>set_option r. settled A (fin j) (msg j) (st' j)) \<and>
     (\<forall>j. j \<notin> I \<longrightarrow> st' j = st j) \<and> (\<forall>j. error (st' j) = error (st j))"

context job_scheduler begin

abbreviation ok where
  "ok \<equiv> mgr_ok A inflight work sinv max_blocks"

abbreviation stg where
  "stg \<equiv> stage A max_blocks"

lemma ok_outside:
  assumes "ok fin msg s st" "\<And>j. j \<in> inflight s \<Longrightarrow> st' j = st j"
    "\<And>j. j \<in> inflight s \<Longrightarrow> fin' j = fin j \<and> msg' j = msg j"
  shows "ok fin' msg' s st'"
  using assms sinv_stable[of s st st'] by (simp add: mgr_ok_def job_result_def)

lemma submit_job_ok:
  assumes ok: "ok fin msg s st" and c: "c \<notin> inflight s"
    and n: "0 < n" "n < max_blocks" "n * block_size A \<le> length (buf_bytes ctx p)"
    and stage: "stg (fin c) (msg c)
      (hash_nblocks (block_size A) (single A) n (buf_bytes ctx p) (digest ctx)) ctx"
    and sub: "mb_submit s (st(c := set_job p n ctx)) c = (s', st', r)"
  shows "ok fin msg s' st'" "inflight s' \<union> set_option r = insert c (inflight s)"
    "set_option r \<inter> inflight s' = {}"
    "\<And>j. j \<in> set_option r \<Longrightarrow> stg (fin j) (msg j) (digest (st' j)) (st' j)"
    "\<And>j. j \<notin> insert c (inflight s) \<Longrightarrow> st' j = st j"
    "\<And>j. same_frame ((st(c := set_job p n ctx)) j) (st' j)"
proof -
  let ?st = "st(c := set_job p n ctx)"
  have "n < 2 ^ LENGTH('l)" using n(2) max_blocks(2) by simp
  then have len: "unat (job_len (job (?st c))) = n" by (simp add: unat_of_nat_small)
  have sinv: "sinv s ?st"
    using ok c by (intro sinv_stable[of s st ?st]) (auto simp: mgr_ok_def)
  have pst: "sinv s' st' \<and> sched_post (insert c (inflight s))
      (\<lambda>j. job_result A ?st (if j = c then n else work s j) j) ?st
      (inflight s') (\<lambda>j. job_result A st' (work s' j) j) st' r"
    using submit_law[OF sinv c n(1,2) len _ sub] n(3) by simp
  note post = pst[THEN conjunct2, unfolded sched_post_def]
  have st: "stg (fin j) (msg j) (job_result A ?st (if j = c then n else work s j) j) (?st j)"
    if "j \<in> insert c (inflight s)" for j
  proof (cases "j = c")
    case True
    then show ?thesis using stage by (simp add: job_result_def)
  next
    case False
    then show ?thesis using that ok by (auto simp: mgr_ok_def job_result_def)
  qed
  show "ok fin msg s' st'"
    unfolding mgr_ok_def
  proof (intro conjI ballI)
    fix j assume j: "j \<in> inflight s'"
    then show "stg (fin j) (msg j) (job_result A st' (work s' j) j) (st' j)"
      using post st[of j] stage_frame[of "?st j" "st' j"] by auto
  qed (use pst in simp)
  show "inflight s' \<union> set_option r = insert c (inflight s)" "set_option r \<inter> inflight s' = {}"
    using post by auto
  show "stg (fin j) (msg j) (digest (st' j)) (st' j)" if "j \<in> set_option r" for j
    using that post st[of j] stage_frame[of "?st j" "st' j"] by auto
  show "st' j = st j" if "j \<notin> insert c (inflight s)" for j
    using that post by auto
  show "same_frame (?st j) (st' j)" for j
    using post by auto
qed

text \<open>One turn of the loop of \<open>resubmit\<close>: the context settles, or goes back to the scheduler.\<close>

lemma resubmit_turn:
  assumes clr: "clr \<le> 1" and stage: "stg (fin c) (msg c) (digest (st c)) (st c)"
  obtains (settles) x where
      "ctx_mgr_resubmit A clr mb_submit s st (Some c) = Some (s, st(c := x), Some c)"
      "settled A (fin c) (msg c) x" "error x = error (st c)" "steps_left x \<le> steps_left (st c)"
  | (again) n p ctx where
      "ctx_mgr_resubmit A clr mb_submit s st (Some c) =
        (let (s, st, co) = mb_submit s (st(c := set_job p n ctx)) c
         in ctx_mgr_resubmit A clr mb_submit s st co)"
      "0 < n" "n < max_blocks" "n * block_size A \<le> length (buf_bytes ctx p)"
      "stg (fin c) (msg c)
        (hash_nblocks (block_size A) (single A) n (buf_bytes ctx p) (digest ctx)) ctx"
      "error ctx = error (st c)" "steps_left ctx < steps_left (st c)"
proof (cases "status (st c) = STS_PROCESSING OR STS_COMPLETE")
  case True
  then have "fin c" "digest (st c)
      = md_blocks A (msg c @ md_padding A (length (msg c))) (initial_digest A)"
    "length (partial_block_buffer (st c)) = 2 * block_size A"
    using stage by (simp_all add: stage_def)
  then show thesis
    using True
    by (intro settles[of "(set_digest (output_digest A (digest (st c))) (st c))\<lparr>status := STS_COMPLETE\<rparr>"])
      (auto simp: ctx_mgr_resubmit.simps settled_def md_hash_def steps_left_def)
next
  case False
  let ?B = "block_size A"
  have stat: "status (st c) = (if fin c then STS_PROCESSING OR STS_LAST else STS_PROCESSING)"
    and pend: "pending A max_blocks (msg c) (digest (st c)) (st c)"
    and len: "length (partial_block_buffer (st c)) = 2 * ?B"
    using stage False by (auto simp: stage_def split: if_splits)
  obtain ctx blocks where inc: "take_incoming A (st c) = (ctx, blocks)" by fastforce
  obtain n pre mid part where t: "unat blocks = n" "n < max_blocks" "msg c = (pre @ mid) @ part"
      "?B dvd length pre" "digest (st c) = md_blocks A pre (initial_digest A)"
      "mid = take (n * ?B) (incoming_buffer (st c))" "length mid = n * ?B" "length part < ?B"
      "unat (partial_block_buffer_length ctx) = length part"
      "take (length part) (partial_block_buffer ctx) = part"
      "length (partial_block_buffer ctx) = 2 * ?B" "incoming_buffer_length ctx = 0"
      "total_length ctx = total_length (st c)" "status ctx = status (st c)"
      "error ctx = error (st c)" "job ctx = job (st c)"
      "n \<noteq> 0 \<longrightarrow> incoming_buffer_length (st c) \<noteq> 0"
    by (rule take_incoming_pending[OF len pend inc])
  have tot: "total_length (st c) = of_nat (length (msg c))" using pend by (simp add: pending_def)
  note loop = ctx_mgr_resubmit.simps[of A clr mb_submit s st "Some c"]
  have nc: "status (st c) AND STS_COMPLETE = 0" by (simp add: stat)
  show thesis
  proof (cases "n = 0")
    case False
    then have n: "0 < n" and b0: "blocks \<noteq> 0" using t(1) by auto
    have inclen: "n * ?B \<le> length (incoming_buffer (st c))"
      using t(6,7) by (metis length_take min.cobounded1)
    have "hash_nblocks ?B (single A) n (incoming_buffer (st c)) (digest ctx)
        = md_blocks A (pre @ mid) (initial_digest A)"
      by (simp only: hash_nblocks_md_blocks[OF inclen] t(6)[symmetric] t(5,16)
          md_blocks_append[OF t(4)])
    then have "pending A max_blocks (msg c)
        (hash_nblocks ?B (single A) n (incoming_buffer (st c)) (digest ctx)) ctx"
      using t max_blocks(1) tot
      by (intro pendingI[of _ _ "pre @ mid" part "[]"]) simp_all
    then have "stg (fin c) (msg c)
        (hash_nblocks ?B (single A) n (incoming_buffer (st c)) (digest ctx)) ctx"
      using t(11,14) stat by (simp add: stage_def)
    moreover have "steps_left ctx < steps_left (st c)"
      using t(12,14,17) False stat by (auto simp: steps_left_def)
    moreover have "ctx_mgr_resubmit A clr mb_submit s st (Some c) =
        (let (s, st, co) = mb_submit s (st(c := set_job (User (incoming_buffer (st c))) n ctx)) c
         in ctx_mgr_resubmit A clr mb_submit s st co)"
      unfolding loop using nc b0 t(1) by (simp add: inc)
    ultimately show thesis
      using n t(2,15) inclen by (intro again[of "User (incoming_buffer (st c))" n ctx]) simp_all
  next
    case n0: True
    then have b0: "blocks = 0" and mid: "mid = []" using t(1,7) by (simp_all add: unat_eq_0)
    show thesis
    proof (cases "fin c")
      case True
      have "length (msg c) mod ?B = length part"
        using t(3,4,8) mid by (auto elim!: dvdE)
      then have "take (length (msg c) mod ?B) (partial_block_buffer ctx) = part" using t(10) by simp
      from hash_pad_eq[OF t(11) this clr] obtain pb k where pad:
        "hash_pad A clr (partial_block_buffer ctx) (of_nat (length (msg c))) = (pb, of_nat k)"
        "0 < k" "k \<le> 2" "length pb = 2 * ?B"
        "take (k * ?B) pb = part @ md_padding A (length (msg c))" by metis
      have uk: "unat (of_nat k :: u32) = k" using pad(3) by (intro unat_of_nat_small) simp
      define x where "x = ctx\<lparr>partial_block_buffer := pb, status := STS_PROCESSING OR STS_COMPLETE\<rparr>"
      have kB: "k * ?B \<le> length pb" using pad(3,4) by simp
      have "hash_nblocks ?B (single A) k pb (digest ctx)
          = md_blocks A (msg c @ md_padding A (length (msg c))) (initial_digest A)"
        using t(3,4,5,16) mid by (simp add: hash_nblocks_md_blocks[OF kB] pad(5) md_blocks_append)
      then have "stg (fin c) (msg c) (hash_nblocks ?B (single A) k pb (digest ctx)) x"
        using True pad(4) by (simp add: stage_def x_def)
      moreover have "steps_left x < steps_left (st c)"
        using stat True by (simp add: steps_left_def x_def)
      moreover have "ctx_mgr_resubmit A clr mb_submit s st (Some c) =
          (let (s, st, co) = mb_submit s (st(c := set_job (Own 0) k x)) c
           in ctx_mgr_resubmit A clr mb_submit s st co)"
        unfolding loop using nc True b0 by (simp add: inc t(13,14) stat tot pad(1) uk x_def)
      ultimately show thesis
        using pad(2,3) kB max_blocks(1) t(15) by (intro again[of "Own 0" k x]) (simp_all add: x_def)
    next
      case False
      have "ctx_holds A (msg c) ctx"
        unfolding ctx_holds_def ctx_split_def
        using t mid tot by auto
      moreover have "ctx_mgr_resubmit A clr mb_submit s st (Some c) =
          Some (s, st(c := ctx\<lparr>status := STS_IDLE\<rparr>), Some c)"
        unfolding loop using nc False b0 by (simp add: inc t(14) stat)
      ultimately show thesis
        using False stat t(11,12,15)
        by (intro settles[of "ctx\<lparr>status := STS_IDLE\<rparr>"])
          (auto simp: settled_def steps_left_def ctx_holds_def)
    qed
  qed
qed

text \<open>
  The loop ends: every time round, some context takes one of its remaining steps. What it
  returns has settled, and everything it leaves in flight is in order.
\<close>

lemma resubmit_ok:
  assumes "clr \<le> 1" "ok fin msg s st"
    and "\<And>c. co = Some c \<Longrightarrow> c \<notin> inflight s \<and> stg (fin c) (msg c) (digest (st c)) (st c)"
  shows "\<exists>s' st' r. ctx_mgr_resubmit A clr mb_submit s st co = Some (s', st', r) \<and>
    ok fin msg s' st' \<and>
    mgr_post A inflight fin msg (inflight s \<union> set_option co) st s' st' r \<and>
    total_steps (inflight s' \<union> set_option r) st' \<le> total_steps (inflight s \<union> set_option co) st \<and>
    (co \<noteq> None \<and> r = None \<longrightarrow>
      total_steps (inflight s') st' < total_steps (inflight s \<union> set_option co) st)"
  using assms(2,3)
proof (induction "total_steps (inflight s \<union> set_option co) st" arbitrary: s st co rule: less_induct)
  case less
  show ?case
  proof (cases co)
    case None
    then show ?thesis
      using less.prems(1) by (simp add: ctx_mgr_resubmit.simps mgr_post_def)
  next
    case (Some c)
    with less.prems(2) have c: "c \<notin> inflight s"
      and stage: "stg (fin c) (msg c) (digest (st c)) (st c)" by auto
    have fin: "finite (insert c (inflight s))"
      using less.prems(1) finite_inflight by (auto simp: mgr_ok_def)
    from assms(1) stage show ?thesis
    proof (cases rule: resubmit_turn[where s = s and st = st])
      case (settles x)
      have "ok fin msg s (st(c := x))"
        using c by (intro ok_outside[OF less.prems(1)]) auto
      moreover have "total_steps (insert c (inflight s)) (st(c := x)) \<le> total_steps (insert c (inflight s)) st"
        using settles(4) by (auto simp: total_steps_def intro: sum_mono)
      ultimately show ?thesis
        using settles(1,2,3) c Some by (simp add: mgr_post_def)
    next
      case (again n p ctx)
      obtain s1 st1 r1 where sub: "mb_submit s (st(c := set_job p n ctx)) c = (s1, st1, r1)"
        by (metis prod_cases3)
      note one = submit_job_ok[OF less.prems(1) c again(2-5) sub]
      let ?I = "insert c (inflight s)"
      have "total_steps ?I st1 = total_steps ?I (st(c := set_job p n ctx))"
        unfolding total_steps_def using steps_left_frame[OF one(6)] by simp
      also have "\<dots> < total_steps ?I st"
        using fin again(7) by (intro total_steps_upd) simp_all
      finally have dec: "total_steps (inflight s1 \<union> set_option r1) st1 < total_steps ?I st"
        by (simp only: one(2))
      have "r1 = Some c' \<Longrightarrow> c' \<notin> inflight s1 \<and> stg (fin c') (msg c') (digest (st1 c')) (st1 c')" for c'
        using one(3,4) by auto
      moreover have "total_steps (inflight s1 \<union> set_option r1) st1
          < total_steps (inflight s \<union> set_option co) st"
        using dec Some by simp
      ultimately obtain s' st' r where IH:
        "ctx_mgr_resubmit A clr mb_submit s1 st1 r1 = Some (s', st', r)" "ok fin msg s' st'"
        "mgr_post A inflight fin msg (inflight s1 \<union> set_option r1) st1 s' st' r"
        "total_steps (inflight s' \<union> set_option r) st' \<le> total_steps (inflight s1 \<union> set_option r1) st1"
        using less.hyps[of s1 r1 st1] one(1) by blast
      have err: "error (st1 j) = error (st j)" for j
        using same_frame_simps(2)[OF one(6), of j] again(6) by (simp split: if_splits)
      have "mgr_post A inflight fin msg ?I st s' st' r"
        using IH(3) one(2,5) err by (simp add: mgr_post_def)
      moreover have "ctx_mgr_resubmit A clr mb_submit s st co = Some (s', st', r)"
        using again(1) IH(1) sub Some by simp
      ultimately show ?thesis
        using IH(2,4) dec Some by (auto intro: exI[of _ s'])
    qed
  qed
qed

text \<open>
  \<open>flush\<close> returns a context as long as one is in flight, however often the scheduler hands
  back jobs that are not yet done.
\<close>

lemma flush_ok:
  assumes "clr \<le> 1" "ok fin msg s st"
  shows "\<exists>s' st' r. ctx_mgr_flush A clr mb_submit mb_flush s st = Some (s', st', r) \<and>
    ok fin msg s' st' \<and> mgr_post A inflight fin msg (inflight s) st s' st' r \<and>
    (r = None \<longleftrightarrow> inflight s = {})"
  using assms(2)
proof (induction "total_steps (inflight s) st" arbitrary: s st rule: less_induct)
  case less
  obtain s1 st1 r1 where fl: "mb_flush s st = (s1, st1, r1)" by (metis prod_cases3)
  have "sinv s st" using less.prems by (simp add: mgr_ok_def)
  note law = flush_law[OF this fl]
  note post = law[THEN conjunct2, THEN conjunct1, unfolded sched_post_def]
  have fr: "same_frame (st j) (st1 j)" for j using post by simp
  have stage: "stg (fin j) (msg j) (job_result A st (work s j) j) (st1 j)" if "j \<in> inflight s" for j
    using that less.prems stage_frame[OF fr[of j]] by (simp add: mgr_ok_def)
  have ok1: "ok fin msg s1 st1"
    unfolding mgr_ok_def
  proof (intro conjI ballI)
    fix j assume "j \<in> inflight s1"
    then show "stg (fin j) (msg j) (job_result A st1 (work s1 j) j) (st1 j)"
      using post stage[of j] by auto
  qed (use law in simp)
  have sets: "inflight s1 \<union> set_option r1 = inflight s" "set_option r1 \<inter> inflight s1 = {}"
    using post by auto
  show ?case
  proof (cases r1)
    case None
    then have "inflight s = {}" using law by simp
    moreover have "inflight s1 = {}" using sets None calculation by simp
    moreover have "st1 j = st j" for j using post calculation by simp
    ultimately show ?thesis
      using None ok1 fl by (simp add: ctx_mgr_flush.simps mgr_post_def)
  next
    case (Some c)
    have c: "c \<notin> inflight s1 \<and> stg (fin c) (msg c) (digest (st1 c)) (st1 c)"
      using sets post stage[of c] Some by auto
    obtain s2 st2 r2 where re: "ctx_mgr_resubmit A clr mb_submit s1 st1 (Some c) = Some (s2, st2, r2)"
      "ok fin msg s2 st2" "mgr_post A inflight fin msg (inflight s1 \<union> {c}) st1 s2 st2 r2"
      "r2 = None \<Longrightarrow> total_steps (inflight s2) st2 < total_steps (inflight s1 \<union> {c}) st1"
      using resubmit_ok[OF assms(1) ok1, of "Some c"] c by auto
    have I: "inflight s1 \<union> {c} = inflight s" using sets Some by auto
    have ne: "inflight s \<noteq> {}" using I by auto
    have out: "st1 j = st j" if "j \<notin> inflight s" for j using that post by simp
    have post2: "mgr_post A inflight fin msg (inflight s) st s2 st2 r2"
      using re(3)[unfolded I] out same_frame_simps(2)[OF fr] by (simp add: mgr_post_def)
    show ?thesis
    proof (cases r2)
      case None
      have "total_steps (inflight s) st1 = total_steps (inflight s) st"
        unfolding total_steps_def using steps_left_frame[OF fr] by simp
      then have "total_steps (inflight s2) st2 < total_steps (inflight s) st"
        using re(4)[OF None, unfolded I] by simp
      from less.hyps[OF this re(2)] obtain s' st' r where IH:
        "ctx_mgr_flush A clr mb_submit mb_flush s2 st2 = Some (s', st', r)" "ok fin msg s' st'"
        "mgr_post A inflight fin msg (inflight s2) st2 s' st' r" "(r = None) = (inflight s2 = {})"
        by blast
      have "inflight s2 = inflight s" using post2 None by (simp add: mgr_post_def)
      then have "mgr_post A inflight fin msg (inflight s) st s' st' r" "(r = None) = (inflight s = {})"
        using IH(3,4) post2 by (simp_all add: mgr_post_def)
      moreover have "ctx_mgr_flush A clr mb_submit mb_flush s st = Some (s', st', r)"
        using fl Some re(1) None IH(1) by (simp add: ctx_mgr_flush.simps[of A clr mb_submit mb_flush s])
      ultimately show ?thesis using IH(2) by blast
    next
      case (Some d)
      have "ctx_mgr_flush A clr mb_submit mb_flush s st = Some (s2, st2, r2)"
        using fl \<open>r1 = Some c\<close> re(1) Some by (simp add: ctx_mgr_flush.simps[of A clr mb_submit mb_flush s])
      then show ?thesis using re(2) post2 ne Some by blast
    qed
  qed
qed

end

section \<open>A request from the user\<close>

text \<open>The request the checks of \<open>submit\<close> let through.\<close>

definition accepted :: "('w::len, 'l::len) hash_ctx \<Rightarrow> u32 \<Rightarrow> bool" where
  "accepted ctx flags \<longleftrightarrow>
     flags AND NOT ISAL_HASH_ENTIRE = 0 \<and> status ctx AND STS_PROCESSING = 0 \<and>
     \<not> (status ctx AND STS_COMPLETE \<noteq> 0 \<and> flags AND ISAL_HASH_FIRST = 0)"

text \<open>The message after a request, and whether it was its last part.\<close>

definition next_msg :: "byte list \<Rightarrow> byte list \<Rightarrow> u32 \<Rightarrow> u32 \<Rightarrow> byte list" where
  "next_msg m buffer len flags =
     (if flags AND ISAL_HASH_FIRST \<noteq> 0 then [] else m) @ take (unat len) buffer"

definition next_fin :: "u32 \<Rightarrow> bool" where
  "next_fin flags \<longleftrightarrow> flags AND ISAL_HASH_LAST \<noteq> 0"

text \<open>A context that is the user's: fresh, or settled by an earlier request.\<close>

definition at_rest ::
  "'w::len hash_alg \<Rightarrow> bool \<Rightarrow> byte list \<Rightarrow> ('w, 'l::len) hash_ctx \<Rightarrow> bool" where
  "at_rest A fin m ctx \<longleftrightarrow>
     settled A fin m ctx \<or>
     \<not> fin \<and> status ctx = STS_COMPLETE \<and> length (partial_block_buffer ctx) = 2 * block_size A"

context hash_algorithm begin

text \<open>The context before and after the partial block is filled.\<close>

lemma submit_start_split:
  assumes rest: "at_rest A fin m ctx" and acc: "accepted ctx flags" and len: "unat len \<le> length buffer"
  obtains pre part where
    "next_msg m buffer len flags = pre @ part @ take (unat len) buffer"
    "ctx_split A pre part (submit_start A ctx buffer len flags)"
    "total_length (submit_start A ctx buffer len flags) = of_nat (length (next_msg m buffer len flags))"
proof -
  let ?x = "submit_start A ctx buffer len flags"
  have wf: "length (partial_block_buffer ctx) = 2 * block_size A"
    using rest by (auto simp: at_rest_def settled_def)
  have ul: "(ucast len :: u64) = of_nat (unat len)" by simp
  show thesis
  proof (cases "flags AND ISAL_HASH_FIRST \<noteq> 0")
    case True
    then show thesis
      using wf len
      by (intro that[of "[]" "[]"]) (simp_all add: next_msg_def submit_start_def Let_def ctx_split_def)
  next
    case False
    then have "status ctx AND STS_COMPLETE = 0" using acc by (auto simp: accepted_def)
    then have "ctx_holds A m ctx"
      using rest by (auto simp: at_rest_def settled_def split: if_splits)
    then obtain pre part where m: "m = pre @ part" "ctx_split A pre part ctx"
      "total_length ctx = of_nat (length m)" by (auto simp: ctx_holds_def)
    then show thesis
      using False len
      by (intro that[of pre part])
        (simp_all add: next_msg_def submit_start_def Let_def ctx_split_def)
  qed
qed

lemma submit_start_fields:
  "incoming_buffer (submit_start A ctx buffer len flags) = buffer"
  "incoming_buffer_length (submit_start A ctx buffer len flags) = len"
  "status (submit_start A ctx buffer len flags) =
     (if next_fin flags then STS_PROCESSING OR STS_LAST else STS_PROCESSING)"
  "error (submit_start A ctx buffer len flags) = ERROR_NONE"
  by (simp_all add: submit_start_def Let_def next_fin_def)

lemma submit_fill_stage:
  fixes ctx :: "('w, 'l::len) hash_ctx"
  assumes sp: "ctx_split A pre part ctx" and m: "m = pre @ part @ take (unat len) buffer"
    and tot: "total_length ctx = of_nat (length m)" and len: "unat len \<le> length buffer"
    and inc: "incoming_buffer ctx = buffer" "incoming_buffer_length ctx = len"
    and stat: "status ctx = (if fin then STS_PROCESSING OR STS_LAST else STS_PROCESSING)"
    and mx: "unat len div block_size A < mx"
    and res: "submit_fill A ctx buffer len = (ctx', full)"
  shows "error ctx' = error ctx"
    "\<not> full \<Longrightarrow> stage A mx fin m (digest ctx') ctx'"
    "full \<Longrightarrow> \<exists>x. ctx' = set_job (Own 0) 1 x \<and> error x = error ctx \<and>
       stage A mx fin m
         (hash_nblocks (block_size A) (single A) 1 (partial_block_buffer x) (digest x)) x"
proof -
  let ?B = "block_size A" and ?p = "partial_block_buffer_length ctx"
  note p = sp [unfolded ctx_split_def]
  define c where "c = (if len < of_nat ?B - ?p then len else of_nat ?B - ?p)"
  define y where "y = (if c \<noteq> 0 then
      ctx\<lparr>partial_block_buffer := memcpy_at (partial_block_buffer ctx) (unat ?p) buffer (unat c),
          partial_block_buffer_length := ?p + c,
          incoming_buffer := drop (unat c) buffer, incoming_buffer_length := len - c\<rparr>
    else ctx)"
  let ?cond = "?p \<noteq> 0 \<or> len < of_nat ?B"
  let ?full = "?cond \<and> of_nat ?B \<le> partial_block_buffer_length y"
  have res': "full = ?full" "ctx' = (if ?full then set_job (Own 0) 1 (y\<lparr>partial_block_buffer_length := 0\<rparr>)
      else if ?cond then y else ctx)"
    using res unfolding submit_fill_def Let_def c_def[symmetric] y_def[symmetric]
    by (auto split: if_splits)
  have un: "unat (of_nat ?B - ?p) = ?B - length part"
    using p by (simp add: unat_sub_small word_le_nat_alt)
  have uc: "unat c = min (unat len) (?B - length part)"
    by (simp add: c_def un word_less_nat_alt min_def)
  then have cl: "unat c \<le> unat len" by simp
  have cB: "length part + unat c \<le> ?B" using p uc by (auto simp: min_def)
  then have "length part + unat c < 2 ^ 32" using block_size_bounds(1) by simp
  then have upl: "unat (?p + c) = length part + unat c" using p by (simp add: unat_add_small)
  have ulc: "unat (len - c) = unat len - unat c"
    using cl by (simp add: unat_sub_small word_le_nat_alt)
  have y: "unat (partial_block_buffer_length y) = length part + unat c"
      "unat (incoming_buffer_length y) = unat len - unat c"
      "incoming_buffer y = drop (unat c) buffer"
      "length (partial_block_buffer y) = 2 * ?B" "digest y = digest ctx"
      "total_length y = total_length ctx" "status y = status ctx" "error y = error ctx"
      "take (length part + unat c) (partial_block_buffer y) = part @ take (unat c) buffer"
    using p len cl cB inc upl ulc
      take_memcpy_at[of "unat c" buffer "length part" "partial_block_buffer ctx"]
    by (auto simp: y_def)
  have rest: "take (unat len) buffer = take (unat c) buffer @ take (unat len - unat c) (drop (unat c) buffer)"
    using cl by (simp only: take_add[symmetric] le_add_diff_inverse)
  have lrest: "length (take (unat len - unat c) (drop (unat c) buffer)) = unat len - unat c"
    using len cl by simp
  have mx': "(unat len - unat c) div ?B < mx"
    using mx div_le_mono[of "unat len - unat c" "unat len" ?B] by simp
  show "error ctx' = error ctx" using y(8) by (simp add: res')
  show "stage A mx fin m (digest ctx') ctx'" if nf: "\<not> full"
  proof (cases ?cond)
    case False
    then have "part = []" using p by (auto simp: unat_eq_0[symmetric])
    then have "pending A mx m (digest ctx) ctx"
      using p m tot len inc mx by (intro pendingI[of _ _ pre "[]" "take (unat len) buffer"]) simp_all
    then show ?thesis
      using False stat p unfolding res' by (simp add: stage_def)
  next
    case True
    then have "\<not> of_nat ?B \<le> partial_block_buffer_length y" using nf res' by simp
    then have "length part + unat c < ?B" using y(1) by (simp add: word_le_nat_alt)
    then have "unat c = unat len" using uc by auto
    then have "pending A mx m (digest y) y"
      using p m tot len y mx' \<open>length part + unat c < ?B\<close>
      by (intro pendingI[of _ _ pre "part @ take (unat len) buffer" "[]"]) simp_all
    moreover have nfull: "\<not> ?full" using nf res'(1) by blast
    have "ctx' = y" by (simp only: res'(2) if_not_P[OF nfull] if_P[OF True])
    ultimately show ?thesis using stat y by (simp add: stage_def)
  qed
  show "\<exists>x. ctx' = set_job (Own 0) 1 x \<and> error x = error ctx \<and>
      stage A mx fin m (hash_nblocks ?B (single A) 1 (partial_block_buffer x) (digest x)) x"
    if full: "full"
  proof (intro exI conjI)
    let ?x = "y\<lparr>partial_block_buffer_length := 0\<rparr>" and ?blk = "part @ take (unat c) buffer"
    show "ctx' = set_job (Own 0) 1 ?x" using full res' by simp
    show "error ?x = error ctx" using y(8) by simp
    have "?B \<le> length part + unat c" using full res' y(1) by (simp add: word_le_nat_alt)
    then have B: "length part + unat c = ?B" using uc p by auto
    then have tb: "take ?B (partial_block_buffer y) = ?blk" using y(9) by simp
    have lb: "length ?blk = ?B" using B len cl by simp
    have "hash_nblocks ?B (single A) 1 (partial_block_buffer ?x) (digest ?x)
        = md_blocks A (pre @ ?blk) (initial_digest A)"
      using p lb y(4,5) hash_nblocks_md_blocks[of 1 "partial_block_buffer y"]
      by (simp add: tb md_blocks_append)
    moreover have "?B dvd length (pre @ ?blk)" using p lb by simp
    ultimately have "pending A mx m (hash_nblocks ?B (single A) 1 (partial_block_buffer ?x) (digest ?x)) ?x"
      using m tot y mx' rest lrest
      by (intro pendingI[of _ _ "pre @ ?blk" "[]" "take (unat len - unat c) (drop (unat c) buffer)"])
        simp_all
    then show "stage A mx fin m (hash_nblocks ?B (single A) 1 (partial_block_buffer ?x) (digest ?x)) ?x"
      using stat y(4,7) by (simp add: stage_def)
  qed
qed

end

context job_scheduler begin

text \<open>
  A request that the checks accept: the context enters the manager and what comes back, if
  anything, has settled.
\<close>

lemma submit_ok:
  assumes clr: "clr \<le> 1" and ok: "ok fin msg s st" and c: "c \<notin> inflight s"
    and rest: "at_rest A (fin c) (msg c) (st c)" and acc: "accepted (st c) flags"
    and len: "unat len \<le> length buffer" "unat len div block_size A < max_blocks"
  defines "fin' \<equiv> fin(c := next_fin flags)"
    and "msg' \<equiv> msg(c := next_msg (msg c) buffer len flags)"
  shows "\<exists>s' st' r. ctx_mgr_submit A clr mb_submit s st c buffer len flags = Some (s', st', r) \<and>
    ok fin' msg' s' st' \<and>
    mgr_post A inflight fin' msg' (insert c (inflight s))
      (st(c := (st c)\<lparr>error := ERROR_NONE\<rparr>)) s' st' r"
proof -
  let ?x = "submit_start A (st c) buffer len flags" and ?m = "next_msg (msg c) buffer len flags"
  have ok': "ok fin' msg' s st"
    using ok c by (intro ok_outside[OF ok]) (auto simp: fin'_def msg'_def)
  obtain pre part where start: "?m = pre @ part @ take (unat len) buffer"
    "ctx_split A pre part ?x" "total_length ?x = of_nat (length ?m)"
    by (rule submit_start_split[OF rest acc len(1)])
  obtain x full where fill: "submit_fill A ?x buffer len = (x, full)" by fastforce
  note f = submit_fill_stage[OF start(2,1,3) len(1) submit_start_fields(1-3) len(2) fill]
  have sub: "ctx_mgr_submit A clr mb_submit s st c buffer len flags =
      (let (s, st, co) = (if full then mb_submit s (st(c := x)) c else (s, st(c := x), Some c))
       in ctx_mgr_resubmit A clr mb_submit s st co)"
    using acc unfolding accepted_def by (auto simp: ctx_mgr_submit_def Let_def fill)
  have fr: "error x = ERROR_NONE" using f(1) by (simp add: submit_start_fields)
  show ?thesis
  proof (cases full)
    case False
    have "ok fin' msg' s (st(c := x))"
      using c by (intro ok_outside[OF ok']) auto
    moreover have "stg (fin' c) (msg' c) (digest x) x"
      using f(2)[OF False] by (simp add: fin'_def msg'_def)
    ultimately obtain s' st' r where
      "ctx_mgr_resubmit A clr mb_submit s (st(c := x)) (Some c) = Some (s', st', r)"
      "ok fin' msg' s' st'"
      "mgr_post A inflight fin' msg' (inflight s \<union> {c}) (st(c := x)) s' st' r"
      using resubmit_ok[OF clr, of fin' msg' s "st(c := x)" "Some c"] c by auto
    then show ?thesis
      using False fr by (auto simp: sub mgr_post_def)
  next
    case True
    from f(3)[OF True] obtain y where y: "x = set_job (Own 0) 1 y" "error y = error ?x"
      "stg (fin' c) (msg' c)
        (hash_nblocks (block_size A) (single A) 1 (buf_bytes y (Own 0)) (digest y)) y"
      by (auto simp: fin'_def msg'_def)
    obtain s1 st1 r1 where s1: "mb_submit s (st(c := set_job (Own 0) 1 y)) c = (s1, st1, r1)"
      by (metis prod_cases3)
    have "1 * block_size A \<le> length (buf_bytes y (Own 0))"
      using y(3) by (simp add: stage_def)
    note one = submit_job_ok[OF ok' c _ _ this y(3) s1]
    have pos: "0 < (1::nat)" "1 < max_blocks" using max_blocks(1) by simp_all
    have "r1 = Some c' \<Longrightarrow> c' \<notin> inflight s1 \<and> stg (fin' c') (msg' c') (digest (st1 c')) (st1 c')" for c'
      using one(3,4)[OF pos] by auto
    then obtain s' st' r where
      re: "ctx_mgr_resubmit A clr mb_submit s1 st1 r1 = Some (s', st', r)" "ok fin' msg' s' st'"
      "mgr_post A inflight fin' msg' (inflight s1 \<union> set_option r1) st1 s' st' r"
      using resubmit_ok[OF clr one(1)[OF pos], of r1] by blast
    have "error (st1 j) = error ((st(c := (st c)\<lparr>error := ERROR_NONE\<rparr>)) j)" for j
      using same_frame_simps(2)[OF one(6)[OF pos], of j] y(2) submit_start_fields(4)
      by (simp split: if_splits)
    then have "mgr_post A inflight fin' msg' (insert c (inflight s))
        (st(c := (st c)\<lparr>error := ERROR_NONE\<rparr>)) s' st' r"
      using re(3)[unfolded one(2)[OF pos]] one(5)[OF pos] by (simp add: mgr_post_def)
    then show ?thesis
      using re(1,2) s1 True y(1) by (auto simp: sub)
  qed
qed

end

section \<open>Histories of calls\<close>

text \<open>
  A request that the checks refuse comes straight back with the error set, and nothing else
  changes; it may name a context that is in flight.
\<close>

definition refusal :: "('w::len, 'l::len) hash_ctx \<Rightarrow> u32 \<Rightarrow> hash_ctx_error" where
  "refusal ctx flags =
     (if flags AND NOT ISAL_HASH_ENTIRE \<noteq> 0 then ERROR_INVALID_FLAGS
      else if status ctx AND STS_PROCESSING \<noteq> 0 then ERROR_ALREADY_PROCESSING
      else ERROR_ALREADY_COMPLETED)"

lemma ctx_mgr_submit_refused:
  "\<not> accepted (st c) flags \<Longrightarrow>
   ctx_mgr_submit A clr sub s st c buffer len flags =
     Some (s, st(c := (st c)\<lparr>error := refusal (st c) flags\<rparr>), Some c)"
  by (auto simp: ctx_mgr_submit_def accepted_def refusal_def Let_def)

text \<open>
  All histories of calls to a manager, with the ghost message of every context. The caller
  keeps to the interface: the buffer has the announced length, and a request stays below the
  number of blocks the scheduler can count.
\<close>

inductive history ::
  "'w::len hash_alg \<Rightarrow> nat \<Rightarrow> ('s, 'w, 'l::len) job_submit_fun \<Rightarrow> ('s, 'w, 'l) job_flush_fun \<Rightarrow>
   nat \<Rightarrow> 's \<Rightarrow> ('w, 'l) store \<Rightarrow>
   (nat \<Rightarrow> bool) \<Rightarrow> (nat \<Rightarrow> byte list) \<Rightarrow> 's \<Rightarrow> ('w, 'l) store \<Rightarrow> bool"
  for A clr sub flush mx s0 st0
where
  start: "history A clr sub flush mx s0 st0 (\<lambda>_. False) (\<lambda>_. []) s0 st0"
| submit: "history A clr sub flush mx s0 st0 fin msg s st \<Longrightarrow>
    unat len \<le> length buffer \<Longrightarrow> unat len div block_size A < mx \<Longrightarrow> accepted (st c) flags \<Longrightarrow>
    ctx_mgr_submit A clr sub s st c buffer len flags = Some (s', st', r) \<Longrightarrow>
    history A clr sub flush mx s0 st0 (fin(c := next_fin flags))
      (msg(c := next_msg (msg c) buffer len flags)) s' st'"
| refuse: "history A clr sub flush mx s0 st0 fin msg s st \<Longrightarrow> \<not> accepted (st c) flags \<Longrightarrow>
    ctx_mgr_submit A clr sub s st c buffer len flags = Some (s', st', r) \<Longrightarrow>
    history A clr sub flush mx s0 st0 fin msg s' st'"
| flush: "history A clr sub flush mx s0 st0 fin msg s st \<Longrightarrow>
    ctx_mgr_flush A clr sub flush s st = Some (s', st', r) \<Longrightarrow>
    history A clr sub flush mx s0 st0 fin msg s' st'"

text \<open>A manager just initialised, with contexts prepared by the initialisation macro.\<close>

definition fresh :: "'w::len hash_alg \<Rightarrow> ('w, 'l::len) store \<Rightarrow> bool" where
  "fresh A st \<longleftrightarrow> (\<forall>c. status (st c) = STS_COMPLETE \<and>
     length (partial_block_buffer (st c)) = 2 * block_size A)"

lemma accepted_not_processing: "accepted ctx flags \<Longrightarrow> status ctx AND STS_PROCESSING = 0"
  by (simp add: accepted_def)

lemma stage_processing: "stage A mx fin m d ctx \<Longrightarrow> status ctx AND STS_PROCESSING \<noteq> 0"
  by (auto simp: stage_def split: if_splits)

lemma stage_error: "stage A mx fin m d (ctx\<lparr>error := e\<rparr>) = stage A mx fin m d ctx"
  by (simp add: stage_def pending_def)

lemma buf_bytes_error: "buf_bytes (ctx\<lparr>error := e\<rparr>) p = buf_bytes ctx p"
  by (cases p) simp_all

lemma at_rest_error [simp]: "at_rest A fin m (ctx\<lparr>error := e\<rparr>) = at_rest A fin m ctx"
  by (simp add: at_rest_def settled_def ctx_holds_def)

lemma at_rest_not_processing: "at_rest A fin m ctx \<Longrightarrow> status ctx AND STS_PROCESSING = 0"
  by (auto simp: at_rest_def settled_def split: if_splits)

context job_scheduler begin

lemma ok_error:
  assumes "ok fin msg s st"
  shows "ok fin msg s (st(c := (st c)\<lparr>error := e\<rparr>))"
proof -
  let ?st = "st(c := (st c)\<lparr>error := e\<rparr>)"
  have "sinv s ?st"
    using assms by (intro sinv_stable[of s st ?st]) (auto simp: mgr_ok_def)
  moreover have "job_result A ?st n j = job_result A st n j" for n j
    by (simp add: job_result_def buf_bytes_error)
  ultimately show ?thesis
    using assms by (simp add: mgr_ok_def stage_error)
qed

definition world_ok where
  "world_ok fin msg s st \<longleftrightarrow>
     ok fin msg s st \<and> (\<forall>c. c \<notin> inflight s \<longrightarrow> at_rest A (fin c) (msg c) (st c))"

lemma world_ok_post:
  assumes "ok fin msg s' st'" "mgr_post A inflight fin msg I st s' st' r"
    and "\<And>c. c \<notin> I \<Longrightarrow> at_rest A (fin c) (msg c) (st c)"
  shows "world_ok fin msg s' st'"
  unfolding world_ok_def
proof (intro conjI allI impI)
  fix c assume c: "c \<notin> inflight s'"
  show "at_rest A (fin c) (msg c) (st' c)"
  proof (cases "c \<in> I")
    case True
    then have "c \<in> set_option r" using assms(2) c by (auto simp: mgr_post_def)
    then show ?thesis using assms(2) by (auto simp: mgr_post_def at_rest_def)
  next
    case False
    then show ?thesis using assms(2,3) by (auto simp: mgr_post_def)
  qed
qed (rule assms(1))

theorem history_ok:
  assumes "clr \<le> 1" "sinv s0 st0" "inflight s0 = {}" "fresh A st0"
    and "history A clr mb_submit mb_flush max_blocks s0 st0 fin msg s st"
  shows "world_ok fin msg s st"
  using assms(5)
proof induction
  case start
  then show ?case
    using assms(2-4) by (auto simp: world_ok_def mgr_ok_def fresh_def at_rest_def)
next
  case (submit fin msg s st len buffer c flags s' st' r)
  then have ok: "ok fin msg s st" and rest: "\<And>c. c \<notin> inflight s \<Longrightarrow> at_rest A (fin c) (msg c) (st c)"
    by (auto simp: world_ok_def)
  have c: "c \<notin> inflight s"
  proof
    assume "c \<in> inflight s"
    then have "stg (fin c) (msg c) (job_result A st (work s c) c) (st c)"
      using ok by (simp add: mgr_ok_def)
    from stage_processing[OF this] accepted_not_processing[OF submit.hyps(4)] show False by simp
  qed
  from submit_ok[OF assms(1) ok c rest[OF c] submit.hyps(4) submit.hyps(2,3)] submit.hyps(5)
  have "ok (fin(c := next_fin flags)) (msg(c := next_msg (msg c) buffer len flags)) s' st'"
    "mgr_post A inflight (fin(c := next_fin flags)) (msg(c := next_msg (msg c) buffer len flags))
      (insert c (inflight s)) (st(c := (st c)\<lparr>error := ERROR_NONE\<rparr>)) s' st' r"
    by auto
  then show ?case by (rule world_ok_post) (simp add: rest)
next
  case (refuse fin msg s st c flags buffer len s' st' r)
  then have st': "s' = s" "st' = st(c := (st c)\<lparr>error := refusal (st c) flags\<rparr>)"
    by (simp_all add: ctx_mgr_submit_refused)
  show ?case
    using refuse.IH unfolding st' world_ok_def by (auto simp: ok_error)
next
  case (flush fin msg s st s' st' r)
  then have ok: "ok fin msg s st" and rest: "\<And>c. c \<notin> inflight s \<Longrightarrow> at_rest A (fin c) (msg c) (st c)"
    by (auto simp: world_ok_def)
  from flush_ok[OF assms(1) ok] flush.hyps(2)
  have "ok fin msg s' st'" "mgr_post A inflight fin msg (inflight s) st s' st' r" by auto
  then show ?case using rest by (rule world_ok_post)
qed

end

end
