(* ===== verification/LaneMgr.thy ===== *)
theory LaneMgr
  imports Scheduler
begin

text \<open>
  The job schedulers written in C, \<open><alg>_mb/aarch64/<alg>_mb_mgr_<arch>.c\<close>. All but the MD5
  one for SVE keep the same state, \<open>ISAL_<ALG>_MB_JOB_MGR\<close>: per lane the job in it and a
  length word whose low four bits are the lane index and whose other bits count the blocks
  left, and a stack of free lanes, four bits each. They share \<open>init\<close>, \<open>insert_job\<close>,
  \<open>free_lane\<close>, \<open>submit\<close> and \<open>flush\<close>, and differ in \<open>do_jobs\<close>, which is an argument here.
  (Line numbers of the map are those of \<open>sha256_mb_mgr_ce.c\<close>.) The multi-lane compression
  kernels are assembly and are an argument of the models of \<open>do_jobs\<close>.
\<close>

section \<open>State\<close>

text \<open>\<open>'n\<close> is the width of a length word: 64 for SHA-512, 32 for the others.\<close>

record (overloaded) 'n lane_mgr =
  unused_lanes :: u64
  lens :: "'n::len word list"
  ldata :: "nat option list"
  num_lanes_inuse :: u32

type_synonym ('n, 'w, 'l) do_jobs_fun =
  "'n lane_mgr \<Rightarrow> ('w, 'l) store \<Rightarrow> 'n lane_mgr \<times> ('w, 'l) store"

definition lane_is_not_finished :: "'n::len lane_mgr \<Rightarrow> nat \<Rightarrow> bool" where
  "lane_is_not_finished s i \<longleftrightarrow> lens s ! i AND NOT 0xf \<noteq> 0 \<and> ldata s ! i \<noteq> None"

definition lane_is_finished :: "'n::len lane_mgr \<Rightarrow> nat \<Rightarrow> bool" where
  "lane_is_finished s i \<longleftrightarrow> lens s ! i AND NOT 0xf = 0 \<and> ldata s ! i \<noteq> None"

section \<open>Operations\<close>

text \<open>\<open>mgr_init\<close> with \<open>L\<close> usable lanes in arrays of \<open>M\<close>.\<close>

definition mgr_init :: "nat \<Rightarrow> nat \<Rightarrow> 'n::len lane_mgr" where
  "mgr_init L M =
     \<lparr>unused_lanes = fold (\<lambda>i u. push_bit 4 u OR of_nat i) (rev [0..<L]) 0xf,
      lens = map of_nat [0..<L] @ replicate (M - L) 0xf,
      ldata = replicate M None,
      num_lanes_inuse = 0\<rparr>"

definition insert_job ::
  "'n::len lane_mgr \<Rightarrow> ('w::len, 'l::len) store \<Rightarrow> nat \<Rightarrow> 'n lane_mgr" where
  "insert_job s st c =
     (let lane_idx = unat (unused_lanes s AND 0xf)
      in s\<lparr>lens := (lens s)[lane_idx :=
             ucast (push_bit 4 (job_len (job (st c))) OR of_nat lane_idx)],
           ldata := (ldata s)[lane_idx := Some c],
           unused_lanes := drop_bit 4 (unused_lanes s),
           num_lanes_inuse := num_lanes_inuse s + 1\<rparr>)"

text \<open>\<open>free_lane\<close> looks for the first finished lane below \<open>F\<close>.\<close>

definition free_lane ::
  "nat \<Rightarrow> 'n::len lane_mgr \<Rightarrow> ('w::len, 'l::len) store \<Rightarrow>
   'n lane_mgr \<times> ('w, 'l) store \<times> nat option" where
  "free_lane F s st =
     (case List.find (lane_is_finished s) [0..<F] of
        None \<Rightarrow> (s, st, None)
      | Some i \<Rightarrow>
          let ret = the (ldata s ! i)
          in (s\<lparr>unused_lanes := push_bit 4 (unused_lanes s) OR of_nat i,
                num_lanes_inuse := num_lanes_inuse s - 1,
                ldata := (ldata s)[i := None]\<rparr>,
              st(ret := (st ret)\<lparr>job := (job (st ret))\<lparr>job_status := STS_COMPLETED\<rparr>\<rparr>),
              Some ret))"

definition mgr_submit ::
  "nat \<Rightarrow> nat \<Rightarrow> ('n::len, 'w::len, 'l::len) do_jobs_fun \<Rightarrow> ('n lane_mgr, 'w, 'l) job_submit_fun"
where
  "mgr_submit F L do_jobs s st c =
     (let s = insert_job s st c;
          (s, st, ret) = free_lane F s st
      in if ret \<noteq> None then (s, st, ret)
         else if num_lanes_inuse s < of_nat L then (s, st, None)
         else let (s, st) = do_jobs s st in free_lane F s st)"

definition mgr_flush ::
  "nat \<Rightarrow> ('n::len, 'w::len, 'l::len) do_jobs_fun \<Rightarrow> ('n lane_mgr, 'w, 'l) job_flush_fun" where
  "mgr_flush F do_jobs s st =
     (let (s, st, ret) = free_lane F s st
      in if ret \<noteq> None then (s, st, ret)
         else let (s, st) = do_jobs s st in free_lane F s st)"

section \<open>Running the kernels\<close>

text \<open>
  A call of a kernel for \<open>lanes\<close> lanes hashes \<open>blocks\<close> blocks of each of the jobs; the
  argument \<open>kern\<close> is its effect on one job.
\<close>

type_synonym 'w kernel = "nat \<Rightarrow> nat \<Rightarrow> byte list \<Rightarrow> 'w word list \<Rightarrow> 'w word list"

definition kernel_job ::
  "'w::len kernel \<Rightarrow> nat \<Rightarrow> nat \<Rightarrow> nat \<Rightarrow> ('w, 'l::len) store \<Rightarrow> ('w, 'l) store" where
  "kernel_job kern lanes blocks j st =
     st(j := set_digest (kern lanes blocks (buf_bytes (st j) (job_buffer (job (st j))))
                          (digest (st j))) (st j))"

definition kernel_jobs ::
  "'w::len kernel \<Rightarrow> nat \<Rightarrow> nat \<Rightarrow> nat list \<Rightarrow> ('w, 'l::len) store \<Rightarrow> ('w, 'l) store" where
  "kernel_jobs kern lanes blocks js st = fold (kernel_job kern lanes blocks) js st"

text \<open>
  The pointer of a job is advanced by \<open>len << 2\<close> bytes, or \<open>len << 3\<close> for 128-byte blocks. \<open>len\<close> is
  an \<open>int\<close>, so that from 2^31 bytes on the shift overflows and C leaves the result undefined:
  the pointer is lost then, and nothing can be read from it.
\<close>

definition shift_len :: "nat \<Rightarrow> 'n::len word \<Rightarrow> nat option" where
  "shift_len sh len = (if unat len * 2 ^ sh < 2 ^ 31 then Some (unat len * 2 ^ sh) else None)"

definition buf_shift :: "bufptr \<Rightarrow> nat option \<Rightarrow> bufptr" where
  "buf_shift p n = (case n of Some k \<Rightarrow> buf_add p k | None \<Rightarrow> User [])"

text \<open>
  The body of the loop that follows: \<open>len\<close> is taken off the lane, and the job's pointer moves
  on. (\<open>job.len\<close> counts blocks while \<open>len\<close> is sixteen times as much; the field is not read again.)
\<close>

definition advance_lane ::
  "nat \<Rightarrow> 'n::len word \<Rightarrow> nat \<Rightarrow> 'n lane_mgr \<times> ('w::len, 'l::len) store \<Rightarrow>
   'n lane_mgr \<times> ('w, 'l) store" where
  "advance_lane sh len i = (\<lambda>(s, st).
     if lane_is_not_finished s i then
       let j = the (ldata s ! i); jb = job (st j)
       in (s\<lparr>lens := (lens s)[i := lens s ! i - len]\<rparr>,
           st(j := (st j)\<lparr>job := jb\<lparr>job_len := job_len jb - ucast len,
                                    job_buffer := buf_shift (job_buffer jb) (shift_len sh len)\<rparr>\<rparr>))
     else (s, st))"

text \<open>
  The scan of the lanes: the smallest length word of the lanes that are not finished, and
  those lanes, as many as are in use.
\<close>

definition scan_lanes :: "'n::len lane_mgr \<Rightarrow> nat list" where
  "scan_lanes s =
     take (unat (num_lanes_inuse s)) (filter (lane_is_not_finished s) [0..<length (ldata s)])"

definition min_len :: "'n::len lane_mgr \<Rightarrow> nat list \<Rightarrow> 'n word" where
  "min_len s is = Min (set (map ((!) (lens s)) is))"

definition lane_jobs :: "'n::len lane_mgr \<Rightarrow> nat list \<Rightarrow> nat list" where
  "lane_jobs s is = map (\<lambda>i. the (ldata s ! i)) is"

text \<open>
  \<open>do_jobs\<close> of the crypto-extension managers (SHA-1, SHA-256, SHA-512, SM3): all \<open>L\<close> lanes at
  once when they are all in use, and otherwise the lanes that are not finished.
\<close>

definition do_jobs_ce ::
  "nat \<Rightarrow> nat \<Rightarrow> 'w::len kernel \<Rightarrow> ('n::len, 'w, 'l::len) do_jobs_fun" where
  "do_jobs_ce sh L kern s st =
     (if num_lanes_inuse s = 0 then (s, st)
      else
        let is = (if num_lanes_inuse s = of_nat L then [0..<L] else scan_lanes s)
        in if is = [] then (s, st)
           else
             let len = min_len s is AND NOT 0xf;
                 st = kernel_jobs kern (length is) (unat (drop_bit 4 len)) (lane_jobs s is) st
             in fold (advance_lane sh len) [0..<length (ldata s)] (s, st))"

text \<open>
  \<open>do_jobs\<close> of the ASIMD managers of MD5 and SM3: four lanes at once, or the first unfinished
  one alone, to its end.
\<close>

definition do_jobs_asimd ::
  "nat \<Rightarrow> 'w::len kernel \<Rightarrow> ('n::len, 'w, 'l::len) do_jobs_fun" where
  "do_jobs_asimd sh kern s st =
     (if num_lanes_inuse s = 0 then (s, st)
      else if num_lanes_inuse s = 4 then
        let len = min_len s [0..<4] AND NOT 0xf;
            st = kernel_jobs kern 4 (unat (drop_bit 4 len)) (lane_jobs s [0..<4]) st
        in fold (advance_lane sh len) [0..<length (ldata s)] (s, st)
      else
        case List.find (lane_is_not_finished s) [0..<length (ldata s)] of
          None \<Rightarrow> (s, st)
        | Some i \<Rightarrow>
            let len = lens s ! i AND NOT 0xf;
                st = kernel_jobs kern 1 (unat (drop_bit 4 len)) (lane_jobs s [i]) st
            in advance_lane sh len i (s, st))"

text \<open>
  \<open>do_jobs\<close> of the ASIMD manager of SHA-1. With three lanes the four-lane kernel is given a
  dummy job, which is dropped; fewer are hashed one after the other.
\<close>

definition do_jobs_sha1_asimd ::
  "nat \<Rightarrow> 'w::len kernel \<Rightarrow> ('n::len, 'w, 'l::len) do_jobs_fun" where
  "do_jobs_sha1_asimd sh kern s st =
     (if num_lanes_inuse s = 0 then (s, st)
      else
        let is = scan_lanes s
        in if is = [] then (s, st)
           else
             let len = min_len s is AND NOT 0xf;
                 blocks = unat (drop_bit 4 len);
                 st = (if length is = 4 \<or> length is = 3
                       then kernel_jobs kern 4 blocks (lane_jobs s is) st
                       else kernel_jobs kern 1 blocks (lane_jobs s (take 2 is)) st)
             in fold (advance_lane sh len) [0..<length (ldata s)] (s, st))"

text \<open>
  \<open>do_jobs\<close> of the SVE managers of SM3: one call for all lanes when they nearly fill the
  vectors, and otherwise fours and singles. \<open>maxjobs\<close> is the number of lanes of the machine.
\<close>

fun kernel_groups ::
  "'w::len kernel \<Rightarrow> nat \<Rightarrow> nat list \<Rightarrow> ('w, 'l::len) store \<Rightarrow> ('w, 'l) store" where
  "kernel_groups kern blocks (a # b # c # d # js) st =
     kernel_groups kern blocks js (kernel_jobs kern 4 blocks [a, b, c, d] st)"
| "kernel_groups kern blocks js st = kernel_jobs kern 1 blocks js st"

definition do_jobs_sve ::
  "nat \<Rightarrow> nat \<Rightarrow> 'w::len kernel \<Rightarrow> ('n::len, 'w, 'l::len) do_jobs_fun" where
  "do_jobs_sve sh maxjobs kern s st =
     (if num_lanes_inuse s = 0 then (s, st)
      else
        let is = scan_lanes s
        in if is = [] then (s, st)
           else
             let len = min_len s is AND NOT 0xf;
                 blocks = unat (drop_bit 4 len);
                 lanes = length is;
                 st = (if 4 \<le> lanes \<and> int maxjobs - 2 \<le> int lanes
                       then kernel_jobs kern lanes blocks (lane_jobs s is) st
                       else kernel_groups kern blocks (lane_jobs s is) st)
             in fold (advance_lane sh len) [0..<length (ldata s)] (s, st))"

end
