(* ===== verification/LaneStack.thy ===== *)
theory LaneStack
  imports Prelude
begin

text \<open>
  Words as stacks of lane numbers of \<open>b\<close> bits each: what pushing, reading and popping the lowest
  number do, and the length words of the lane schedulers, whose low \<open>b\<close> bits are the lane.
\<close>

section \<open>The low bits\<close>

lemma unat_and_not_mask: "unat ((x :: 'a::len word) AND NOT (mask b)) = unat x div 2 ^ b * 2 ^ b"
proof -
  have "x = (x AND NOT (mask b)) OR (x AND mask b)"
    by (rule bit_word_eqI) (auto simp: bit_simps)
  also have "\<dots> = (x AND NOT (mask b)) + (x AND mask b)"
    by (rule disjunctive_add[symmetric]) (auto simp: bit_simps)
  finally have s: "x = (x AND NOT (mask b)) + (x AND mask b)" .
  have le: "x AND mask b \<le> x" by (rule word_and_le2)
  have "x AND NOT (mask b) = x - (x AND mask b)" by (subst (2) s) simp
  then have "unat (x AND NOT (mask b)) = unat x - unat x mod 2 ^ b"
    using le by (simp add: unat_sub_small unat_and_mask)
  then show ?thesis by (simp add: minus_mod_eq_div_mult)
qed

lemma not_mask_zero: "(x :: 'a::len word) AND NOT (mask b) = 0 \<longleftrightarrow> unat x div 2 ^ b = 0"
proof -
  have "x AND NOT (mask b) = 0 \<longleftrightarrow> unat (x AND NOT (mask b)) = 0" by (simp add: unat_eq_0)
  then show ?thesis unfolding unat_and_not_mask by simp
qed

lemma or_low_bits:
  assumes "i < 2 ^ b"
  shows "push_bit b (x :: 'a::len word) OR of_nat i = push_bit b x + of_nat i"
proof (rule disjunctive_add[symmetric])
  fix k
  have "bit (of_nat i :: 'a word) k \<Longrightarrow> k < b"
  proof -
    assume "bit (of_nat i :: 'a word) k"
    then have "bit i k" by (simp add: bit_of_nat_iff_bit bit_simps)
    show "k < b"
    proof (rule ccontr)
      assume "\<not> k < b"
      then have "(2::nat) ^ b \<le> 2 ^ k" by (intro power_increasing) simp_all
      with assms have "i < 2 ^ k" by (rule less_le_trans)
      then show False using \<open>bit i k\<close> by (simp add: bit_nat_def)
    qed
  qed
  then show "\<not> bit (push_bit b x) k \<or> \<not> bit (of_nat i :: 'a word) k"
    by (auto simp: bit_simps)
qed

section \<open>Stacks\<close>

primrec lane_stack :: "nat \<Rightarrow> nat list \<Rightarrow> u64 \<Rightarrow> bool" where
  "lane_stack b [] u \<longleftrightarrow> True"
| "lane_stack b (x # xs) u \<longleftrightarrow> unat (u AND mask b) = x \<and> lane_stack b xs (drop_bit b u)"

lemma lane_stack_cong:
  "take_bit (b * length xs) u = take_bit (b * length xs) v \<Longrightarrow> lane_stack b xs u = lane_stack b xs v"
proof (induction xs arbitrary: u v)
  case (Cons x xs)
  let ?n = "b + b * length xs"
  have eq: "take_bit ?n u = take_bit ?n v" using Cons.prems by simp
  have "take_bit b (take_bit ?n u) = take_bit b (take_bit ?n v)" by (simp only: eq)
  then have "u AND mask b = v AND mask b"
    unfolding take_bit_eq_mask[symmetric] by (simp add: take_bit_take_bit)
  moreover have "drop_bit b (take_bit ?n u) = drop_bit b (take_bit ?n v)" by (simp only: eq)
  then have lo: "take_bit (b * length xs) (drop_bit b u) = take_bit (b * length xs) (drop_bit b v)"
    by (simp only: drop_bit_take_bit add_diff_cancel_left')
  ultimately show ?case by (simp add: Cons.IH[OF lo])
qed simp

lemma lane_stack_push:
  assumes "lane_stack b xs u" "b * Suc (length xs) \<le> 64" "x < 2 ^ b"
  shows "lane_stack b (x # xs) (push_bit b u OR of_nat x)"
proof -
  let ?v = "push_bit b u OR of_nat x :: u64"
  have b: "b \<le> 64" using assms(2) by simp
  have "x < 2 ^ LENGTH(64)" using assms(3) power_increasing[OF b, of "2 :: nat"] by simp
  then have ux: "unat (of_nat x :: u64) = x" by (rule unat_of_nat_small)
  have low: "unat (?v AND mask b) = x"
  proof -
    have "?v AND mask b = of_nat x AND mask b"
      by (rule bit_word_eqI) (auto simp: bit_simps)
    then show ?thesis using assms(3) ux by (simp add: unat_and_mask)
  qed
  have hi: "\<not> bit (of_nat x :: u64) (k + b)" for k
  proof -
    have "unat (drop_bit b (of_nat x :: u64)) = 0" using assms(3) ux by (simp add: unat_drop_bit)
    then have "bit (drop_bit b (of_nat x :: u64)) k = False" by (simp add: unat_eq_0)
    then show ?thesis by (simp add: bit_drop_bit_eq add.commute)
  qed
  have "take_bit (b * length xs) (drop_bit b ?v) = take_bit (b * length xs) u"
    using assms(2) hi by (intro bit_word_eqI) (auto simp: bit_simps add.commute)
  then have "lane_stack b xs (drop_bit b ?v)" using lane_stack_cong assms(1) by blast
  then show ?thesis using low by simp
qed

end
