(* ===== verification/Nibbles.thy ===== *)
theory Nibbles
  imports LaneStack
begin

text \<open>
  The lane stacks and length words of four bits per lane, which all schedulers but one use.
\<close>

lemma nibble_mask: "(0xf :: 'a::len word) = mask 4"
  by (simp add: mask_eq_exp_minus_1)

lemma unat_and_nibble: "unat ((x :: 'a::len word) AND 0xf) = unat x mod 16"
  by (simp only: nibble_mask unat_and_mask) simp

lemma unat_and_not_nibble: "unat ((x :: 'a::len word) AND NOT 0xf) = unat x div 16 * 16"
  by (simp only: nibble_mask unat_and_not_mask) simp

lemma not_nibble_zero: "(x :: 'a::len word) AND NOT 0xf = 0 \<longleftrightarrow> unat x div 16 = 0"
  by (simp only: nibble_mask not_mask_zero) simp

lemma or_nibble:
  assumes "i < 16"
  shows "push_bit 4 (x :: 'a::len word) OR of_nat i = push_bit 4 x + of_nat i"
  using assms by (intro or_low_bits) simp

text \<open>The free lanes, as the nibbles of the stack word from the lowest up.\<close>

primrec nibbles :: "nat list \<Rightarrow> u64 \<Rightarrow> bool" where
  "nibbles [] u \<longleftrightarrow> True"
| "nibbles (x # xs) u \<longleftrightarrow> unat (u AND 0xf) = x \<and> nibbles xs (drop_bit 4 u)"

lemma nibbles_stack: "nibbles xs u = lane_stack 4 xs u"
  by (induction xs arbitrary: u) (simp_all only: nibbles.simps lane_stack.simps nibble_mask)

lemma nibbles_push:
  assumes "nibbles xs u" "length xs \<le> 15" "x < 16"
  shows "nibbles (x # xs) (push_bit 4 u OR of_nat x)"
  using assms unfolding nibbles_stack by (intro lane_stack_push) simp_all

end
