(* ===== verification/LaneInv.thy ===== *)
theory LaneInv
  imports LaneMgr Nibbles
begin

text \<open>
  The invariant of the lane managers, and the proof that they keep the laws of a scheduler,
  for any \<open>do_jobs\<close> that advances some lanes together and finishes one of them.
\<close>

section \<open>The invariant\<close>

definition lane_inflight :: "'n::len lane_mgr \<Rightarrow> nat set" where
  "lane_inflight s = {j. Some j \<in> set (ldata s)}"

text \<open>The blocks left in a lane, and those left for a job, found by its lane.\<close>

definition lane_left :: "'n::len lane_mgr \<Rightarrow> nat \<Rightarrow> nat" where
  "lane_left s i = unat (lens s ! i) div 16"

definition lane_work :: "'n::len lane_mgr \<Rightarrow> nat \<Rightarrow> nat" where
  "lane_work s j = lane_left s (length (takeWhile (\<lambda>x. x \<noteq> Some j) (ldata s)))"

text \<open>
  The lanes that hold a job are distinct and below \<open>L\<close>; the stack holds the others; the length
  word of a job counts blocks that its buffer has.
\<close>

definition lane_core ::
  "'w::len hash_alg \<Rightarrow> nat \<Rightarrow> nat \<Rightarrow> nat \<Rightarrow> nat list \<Rightarrow>
   'n::len lane_mgr \<Rightarrow> ('w, 'l::len) store \<Rightarrow> bool" where
  "lane_core A L M mx us s st \<longleftrightarrow>
     length (ldata s) = M \<and> length (lens s) = M \<and>
     distinct us \<and> set us = {i. i < L \<and> ldata s ! i = None} \<and>
     nibbles us (unused_lanes s) \<and> num_lanes_inuse s = of_nat (L - length us) \<and>
     (\<forall>i<M. \<forall>j. ldata s ! i = Some j \<longrightarrow>
        i < L \<and> (\<forall>k<M. ldata s ! k = Some j \<longrightarrow> k = i) \<and>
        (\<exists>n<mx. lens s ! i = of_nat (16 * n + i) \<and>
           n * block_size A \<le> length (buf_bytes (st j) (job_buffer (job (st j))))))"

definition lane_inv ::
  "'w::len hash_alg \<Rightarrow> nat \<Rightarrow> nat \<Rightarrow> nat \<Rightarrow> 'n::len lane_mgr \<Rightarrow> ('w, 'l::len) store \<Rightarrow> bool"
where
  "lane_inv A L M mx s st \<longleftrightarrow> (\<exists>us. us \<noteq> [] \<and> lane_core A L M mx us s st)"

text \<open>The lanes \<open>P\<close> have been advanced by \<open>n\<close> blocks, which finishes at least one of them.\<close>

definition adv_ctx ::
  "'w::len hash_alg \<Rightarrow> nat \<Rightarrow> ('w, 'l::len) hash_ctx \<Rightarrow> ('w, 'l) hash_ctx" where
  "adv_ctx A n ctx =
     ctx\<lparr>job := (job ctx)
       \<lparr>result_digest := hash_nblocks (block_size A) (single A) n
          (buf_bytes ctx (job_buffer (job ctx))) (digest ctx),
        job_buffer := buf_add (job_buffer (job ctx)) (n * block_size A),
        job_len := job_len (job ctx) - of_nat (16 * n)\<rparr>\<rparr>"

definition progress ::
  "'w::len hash_alg \<Rightarrow> nat set \<Rightarrow> nat \<Rightarrow> 'n::len lane_mgr \<Rightarrow> ('w, 'l::len) store \<Rightarrow>
   'n lane_mgr \<Rightarrow> ('w, 'l) store \<Rightarrow> bool" where
  "progress A P n s st s' st' \<longleftrightarrow>
     (\<exists>i\<in>P. lane_left s i = n) \<and>
     (\<forall>i\<in>P. i < length (ldata s) \<and> ldata s ! i \<noteq> None \<and> n \<le> lane_left s i) \<and>
     ldata s' = ldata s \<and> unused_lanes s' = unused_lanes s \<and>
     num_lanes_inuse s' = num_lanes_inuse s \<and> length (lens s') = length (lens s) \<and>
     (\<forall>i<length (lens s). lens s' ! i = (if i \<in> P then lens s ! i - of_nat (16 * n) else lens s ! i)) \<and>
     (\<forall>j. st' j = (if \<exists>i\<in>P. ldata s ! i = Some j then adv_ctx A n (st j) else st j))"

lemma same_frame_trans: "same_frame a b \<Longrightarrow> same_frame b c \<Longrightarrow> same_frame a c"
  unfolding same_frame_def by (metis hash_ctx.update_convs(1) hash_ctx.surjective hash_ctx.select_convs)

lemma sched_post_trans:
  assumes "sched_post I f st I' f' st' None" "sched_post I' f' st' I'' f'' st'' r"
  shows "sched_post I f st I'' f'' st'' r"
  using assms unfolding sched_post_def by (auto intro: same_frame_trans)

lemma sched_post_cong:
  assumes "\<And>j. j \<in> I \<Longrightarrow> f j = g j" "sched_post I g st I' f' st' r"
  shows "sched_post I f st I' f' st' r"
  using assms unfolding sched_post_def by (auto simp: subset_iff)

text \<open>
  The shape of a scheduler: \<open>L\<close> lanes are used, \<open>F\<close> are looked at when one is freed, the arrays
  have \<open>M\<close> entries, and a job has fewer than \<open>mx\<close> blocks, which a length word can count beside
  the lane and whose bytes an \<open>int\<close> can count. Then the law of \<open>do_jobs\<close>: when no lane is finished it finishes one.
\<close>

locale lane_layout = hash_algorithm A for A :: "'w::len hash_alg" +
  fixes n_ty :: "'n::len itself" and l_ty :: "'l::len itself"
    and L F M mx :: nat
  assumes lanes: "0 < L" "L \<le> 16" "L \<le> F" "F \<le> M"
    and mx: "2 < mx" "16 * mx \<le> 2 ^ LENGTH('n)" "16 * mx \<le> 2 ^ LENGTH('l)"
    and mx_int: "mx * block_size A \<le> 2 ^ 31"

locale lane_scheduler = lane_layout A "TYPE('n::len)" "TYPE('l::len)" L F M mx
  for A :: "'w::len hash_alg" and L F M mx +
  fixes do_jobs :: "('n::len, 'w, 'l::len) do_jobs_fun"
  assumes do_jobs_law: "lane_core A L M mx us s st \<Longrightarrow> lane_inflight s \<noteq> {} \<Longrightarrow>
      \<forall>i<M. \<not> lane_is_finished s i \<Longrightarrow> do_jobs s st = (s', st') \<Longrightarrow>
      \<exists>P n. progress A P n s st s' st'"
    and do_jobs_idle: "num_lanes_inuse s = 0 \<Longrightarrow> do_jobs s st = (s, st)"

context lane_layout
begin

lemma coreD:
  assumes "lane_core A L M mx us s st"
  shows "length (ldata s) = M" "length (lens s) = M" "distinct us"
    "set us = {i. i < L \<and> ldata s ! i = None}" "nibbles us (unused_lanes s)"
    "num_lanes_inuse s = of_nat (L - length us)"
  using assms unfolding lane_core_def by blast+

lemma coreI:
  assumes "length (ldata s) = M" "length (lens s) = M" "distinct us"
    "set us = {i. i < L \<and> ldata s ! i = None}" "nibbles us (unused_lanes s)"
    "num_lanes_inuse s = of_nat (L - length us)"
    "\<And>i j. i < M \<Longrightarrow> ldata s ! i = Some j \<Longrightarrow>
        i < L \<and> (\<forall>k<M. ldata s ! k = Some j \<longrightarrow> k = i) \<and>
        (\<exists>n<mx. lens s ! i = of_nat (16 * n + i) \<and>
           n * block_size A \<le> length (buf_bytes (st j) (job_buffer (job (st j)))))"
  shows "lane_core A L M mx us s st"
  unfolding lane_core_def using assms by blast

lemma core_laneD:
  fixes s :: "'n lane_mgr" and st :: "('w, 'l) store"
  assumes "lane_core A L M mx us s st" "i < M" "ldata s ! i = Some j"
  shows "i < L" "\<And>k. k < M \<Longrightarrow> ldata s ! k = Some j \<Longrightarrow> k = i"
    "\<exists>n<mx. lens s ! i = of_nat (16 * n + i) \<and>
       n * block_size A \<le> length (buf_bytes (st j) (job_buffer (job (st j))))"
  using assms unfolding lane_core_def by blast+

lemma unat_lens_word:
  assumes "n < mx" "i < L"
  shows "unat (of_nat (16 * n + i) :: 'n word) = 16 * n + i"
proof -
  have "16 * n + i < 2 ^ LENGTH('n)" using assms lanes(2) mx(2) by linarith
  then show ?thesis by (rule unat_of_nat_small)
qed

lemma core_lens:
  fixes s :: "'n lane_mgr" and st :: "('w, 'l) store"
  assumes "lane_core A L M mx us s st" "i < M" "ldata s ! i = Some j"
  obtains n where "n < mx" "lens s ! i = of_nat (16 * n + i)" "lane_left s i = n" "i < L"
    "n * block_size A \<le> length (buf_bytes (st j) (job_buffer (job (st j))))"
    "unat (lens s ! i) = 16 * n + i"
proof -
  note d = core_laneD[OF assms]
  from d(3) obtain n where n: "n < mx" "lens s ! i = of_nat (16 * n + i)"
    "n * block_size A \<le> length (buf_bytes (st j) (job_buffer (job (st j))))" by blast
  have u: "unat (lens s ! i) = 16 * n + i"
    unfolding n(2) using n(1) d(1) by (rule unat_lens_word)
  then have "lane_left s i = n" using d(1) lanes(2) unfolding lane_left_def by simp
  from that[OF n(1,2) this d(1) n(3) u] show thesis .
qed

lemma core_unique:
  fixes s :: "'n lane_mgr" and st :: "('w, 'l) store"
  assumes core: "lane_core A L M mx us s st" and i: "i < M" "ldata s ! i = Some j"
  shows "lane_work s j = lane_left s i"
proof -
  let ?k = "length (takeWhile (\<lambda>x. x \<noteq> Some j) (ldata s))"
  have "\<exists>x\<in>set (ldata s). \<not> x \<noteq> Some j"
    using i coreD(1)[OF core] by (metis nth_mem)
  then have k: "?k < length (ldata s)"
    using takeWhile_eq_all_conv[of "\<lambda>x. x \<noteq> Some j" "ldata s"]
      length_takeWhile_le[of "\<lambda>x. x \<noteq> Some j" "ldata s"]
      takeWhile_eq_take[of "\<lambda>x. x \<noteq> Some j" "ldata s"] by (metis le_neq_implies_less take_all_iff)
  then have "ldata s ! ?k = Some j"
    using nth_length_takeWhile[of "\<lambda>x. x \<noteq> Some j" "ldata s"] by simp
  then have "?k = i" using core_laneD(2)[OF core i] k coreD(1)[OF core] by simp
  then show ?thesis by (simp add: lane_work_def)
qed

lemma inflight_lane:
  "lane_core A L M mx us s st \<Longrightarrow> j \<in> lane_inflight s \<longleftrightarrow> (\<exists>i<M. ldata s ! i = Some j)"
  by (auto simp: lane_inflight_def in_set_conv_nth dest: coreD(1))

lemma core_finished: "lane_is_finished s i \<longleftrightarrow> ldata s ! i \<noteq> None \<and> lane_left s i = 0"
  unfolding lane_is_finished_def lane_left_def not_nibble_zero by blast

lemma core_not_finished: "lane_is_not_finished s i \<longleftrightarrow> ldata s ! i \<noteq> None \<and> lane_left s i \<noteq> 0"
  unfolding lane_is_not_finished_def lane_left_def not_nibble_zero by blast

lemma core_in_use:
  fixes s :: "'n lane_mgr" and st :: "('w, 'l) store"
  assumes core: "lane_core A L M mx us s st"
  shows "unat (num_lanes_inuse s) = L - length us" "length us \<le> L"
    "length us = L \<longleftrightarrow> lane_inflight s = {}"
proof -
  note us = coreD(3,4)[OF core]
  have card: "card (set us) = length us" using us(1) by (rule distinct_card)
  have sub: "set us \<subseteq> {..<L}" using us(2) by auto
  then show le: "length us \<le> L" using card card_mono[OF _ sub] by simp
  have "L - length us < 2 ^ LENGTH(32)" using lanes(2) by simp
  then show "unat (num_lanes_inuse s) = L - length us"
    unfolding coreD(6)[OF core] by (rule unat_of_nat_small)
  have "length us = L \<longleftrightarrow> set us = {..<L}"
  proof
    assume "length us = L"
    then have "card (set us) = card {..<L}" by (simp only: card card_lessThan)
    then show "set us = {..<L}" by (intro card_subset_eq[OF _ sub]) simp_all
  next
    assume "set us = {..<L}"
    then show "length us = L" using card by (simp only: card_lessThan)
  qed
  also have "\<dots> \<longleftrightarrow> lane_inflight s = {}"
  proof
    assume full: "set us = {..<L}"
    have False if "i < M" "ldata s ! i = Some j" for i j
    proof -
      have "i \<in> set us" using full core_laneD(1)[OF core that] by simp
      then show False using us(2) that(2) by simp
    qed
    then show "lane_inflight s = {}" using inflight_lane[OF core] by blast
  next
    assume none: "lane_inflight s = {}"
    have "ldata s ! i = None" if "i < L" for i
    proof -
      have "i < M" using that lanes by simp
      then show ?thesis using none inflight_lane[OF core] by (cases "ldata s ! i") auto
    qed
    then show "set us = {..<L}" using us(2) by auto
  qed
  finally show "length us = L \<longleftrightarrow> lane_inflight s = {}" .
qed

text \<open>Inserting a job.\<close>

lemma insert_core:
  fixes s :: "'n lane_mgr" and st :: "('w, 'l) store"
  assumes core: "lane_core A L M mx us s st" and us: "us = x # xs"
    and c: "c \<notin> lane_inflight s" and n: "n < mx" "unat (job_len (job (st c))) = n"
      "n * block_size A \<le> length (buf_bytes (st c) (job_buffer (job (st c))))"
  shows "lane_core A L M mx xs (insert_job s st c) st"
    and "lane_inflight (insert_job s st c) = insert c (lane_inflight s)"
    and "lane_work (insert_job s st c) c = n"
    and "\<And>j. j \<in> lane_inflight s \<Longrightarrow> lane_work (insert_job s st c) j = lane_work s j"
proof -
  let ?s = "insert_job s st c"
  note d = coreD[OF core, unfolded us]
  have setus: "insert x (set xs) = {i. i < L \<and> ldata s ! i = None}" using d(4) by simp
  have x: "unat (unused_lanes s AND 0xf) = x" "x < L" "ldata s ! x = None" "x \<notin> set xs"
    using d(3,5) setus by auto
  then have xM: "x < M" using lanes by simp
  note len = d(1,2)
  have xs: "nibbles xs (drop_bit 4 (unused_lanes s))" using d(5) by simp
  have jl: "job_len (job (st c)) = of_nat n" using n(2) by (metis of_nat_unat ucast_id)
  have "(ucast (push_bit 4 (of_nat n :: 'l word) OR of_nat x) :: 'n word) = of_nat (16 * n + x)"
  proof -
    have "push_bit 4 (of_nat n :: 'l word) OR of_nat x = push_bit 4 (of_nat n) + of_nat x"
      using x(2) lanes(2) by (intro or_nibble) simp
    also have "\<dots> = of_nat (16 * n + x)"
      by (simp add: push_bit_eq_mult mult.commute)
    finally have e: "push_bit 4 (of_nat n :: 'l word) OR of_nat x = of_nat (16 * n + x)" .
    have "16 * n + x < 2 ^ LENGTH('l)" using n(1) x(2) lanes(2) mx(3) by linarith
    then have "unat (push_bit 4 (of_nat n :: 'l word) OR of_nat x) = 16 * n + x"
      unfolding e by (rule unat_of_nat_small)
    then show ?thesis by (metis of_nat_unat)
  qed
  then have s: "?s = s\<lparr>lens := (lens s)[x := of_nat (16 * n + x)], ldata := (ldata s)[x := Some c],
      unused_lanes := drop_bit 4 (unused_lanes s), num_lanes_inuse := num_lanes_inuse s + 1\<rparr>"
    by (simp only: insert_job_def x(1) jl Let_def)
  have ln: "ldata ?s ! k = (if k = x then Some c else ldata s ! k)"
    "lens ?s ! k = (if k = x then of_nat (16 * n + x) else lens s ! k)" if "k < M" for k
    unfolding s using that len by (simp_all add: nth_list_update)
  have ne: "ldata s ! k \<noteq> Some c" if "k < M" for k
    using c that unfolding inflight_lane[OF core] by blast
  have num: "num_lanes_inuse s + 1 = of_nat (L - length xs)"
  proof -
    have "length us \<le> L" by (rule core_in_use(2)[OF core])
    then have "L - length xs = Suc (L - length us)" using us by simp
    then show ?thesis using d(6) us by simp
  qed
  have setxs: "set xs = {i. i < L \<and> ldata ?s ! i = None}"
  proof -
    have "ldata ?s ! i = (if i = x then Some c else ldata s ! i)" if "i < L" for i
      using ln(1)[of i] that lanes by simp
    then have "{i. i < L \<and> ldata ?s ! i = None} = {i. i < L \<and> ldata s ! i = None} - {x}"
      by (auto split: if_splits)
    then show ?thesis using setus x(4) by (metis Diff_insert_absorb)
  qed
  show core': "lane_core A L M mx xs ?s st"
  proof (rule coreI)
    show "distinct xs" using d(3) by simp
    show "set xs = {i. i < L \<and> ldata ?s ! i = None}" by (rule setxs)
    show "num_lanes_inuse ?s = of_nat (L - length xs)" unfolding s using num by simp
    show "length (ldata ?s) = M" "length (lens ?s) = M" "nibbles xs (unused_lanes ?s)"
      unfolding s using len xs by simp_all
  next
    fix i j assume i: "i < M" "ldata ?s ! i = Some j"
    show "i < L \<and> (\<forall>k<M. ldata ?s ! k = Some j \<longrightarrow> k = i) \<and>
        (\<exists>n<mx. lens ?s ! i = of_nat (16 * n + i) \<and>
           n * block_size A \<le> length (buf_bytes (st j) (job_buffer (job (st j)))))"
    proof (cases "i = x")
      case True
      then have "j = c" using i ln(1) by simp
      then show ?thesis using True n x(2) xM ln ne by auto
    next
      case False
      then have i': "ldata s ! i = Some j" using i ln(1)[OF i(1)] by simp
      then have "j \<noteq> c" using ne[OF i(1)] by blast
      then have "\<forall>k<M. ldata ?s ! k = Some j \<longrightarrow> k = i"
        using core_laneD(2)[OF core i(1) i'] ln(1) by (auto split: if_splits)
      then show ?thesis
        using core_laneD(1,3)[OF core i(1) i'] ln(2)[OF i(1)] False by simp
    qed
  qed
  show "lane_inflight ?s = insert c (lane_inflight s)"
  proof (rule set_eqI)
    fix j
    have "ldata ?s ! i = Some j \<longleftrightarrow> i = x \<and> j = c \<or> ldata s ! i = Some j" if "i < M" for i
      using ln(1)[OF that] x(3) by auto
    then show "j \<in> lane_inflight ?s \<longleftrightarrow> j \<in> insert c (lane_inflight s)"
      unfolding inflight_lane[OF core'] insert_iff inflight_lane[OF core] using xM by blast
  qed
  have "ldata ?s ! x = Some c" using ln(1)[OF xM] by simp
  note u = core_unique[OF core' xM this]
  have "unat (lens ?s ! x) = 16 * n + x"
    using ln(2)[OF xM] unat_lens_word[OF n(1) x(2)] by simp
  then have "lane_left ?s x = n" using x(2) lanes(2) unfolding lane_left_def by simp
  then show "lane_work ?s c = n" using u by simp
  show "lane_work ?s j = lane_work s j" if j: "j \<in> lane_inflight s" for j
  proof -
    from j obtain i where i: "i < M" "ldata s ! i = Some j" using inflight_lane[OF core] by auto
    then have "i \<noteq> x" using x(3) by auto
    then have "ldata ?s ! i = Some j" "lane_left ?s i = lane_left s i"
      using ln[OF i(1)] i(2) by (simp_all add: lane_left_def)
    then show ?thesis
      using core_unique[OF core i] core_unique[OF core' i(1)] by simp
  qed
qed

text \<open>Freeing a lane.\<close>

lemma find_finished:
  fixes s :: "'n lane_mgr" and st :: "('w, 'l) store"
  assumes core: "lane_core A L M mx us s st"
  shows "List.find (lane_is_finished s) [0..<F] = None \<longleftrightarrow> (\<forall>i<M. \<not> lane_is_finished s i)"
proof -
  have "i < F" if "i < M" "lane_is_finished s i" for i
  proof -
    obtain j where "ldata s ! i = Some j" using \<open>lane_is_finished s i\<close> core_finished by blast
    then show ?thesis using core_laneD(1)[OF core that(1)] lanes by fastforce
  qed
  then show ?thesis using lanes(4) by (auto simp: find_None_iff)
qed

lemma free_lane_core:
  fixes s :: "'n lane_mgr" and st st' :: "('w, 'l) store"
  assumes core: "lane_core A L M mx us s st" and i: "i < M" "ldata s ! i = Some j" "lane_left s i = 0"
  defines "s' \<equiv> s\<lparr>unused_lanes := push_bit 4 (unused_lanes s) OR of_nat i,
      num_lanes_inuse := num_lanes_inuse s - 1, ldata := (ldata s)[i := None]\<rparr>"
  assumes st': "\<And>k. job_buffer (job (st' k)) = job_buffer (job (st k))"
    "\<And>k. partial_block_buffer (st' k) = partial_block_buffer (st k)"
  shows "lane_core A L M mx (i # us) s' st'"
    and "lane_inflight s' = lane_inflight s - {j}"
    and "\<And>k. k \<in> lane_inflight s' \<Longrightarrow> lane_work s' k = lane_work s k"
proof -
  note d = coreD[OF core] and u = core_laneD[OF core i(1,2)]
  have i': "i \<notin> set us" "length us < L"
  proof -
    show "i \<notin> set us" using d(4) i(2) by simp
    have "lane_inflight s \<noteq> {}" using i inflight_lane[OF core] by blast
    then show "length us < L" using core_in_use(2,3)[OF core] by simp
  qed
  have ln: "ldata s' ! k = (if k = i then None else ldata s ! k)" if "k < M" for k
    using that d(1) by (simp add: s'_def nth_list_update)
  have bytes: "buf_bytes (st' k) p = buf_bytes (st k) p" for k p
    using st'(2) by (cases p) simp_all
  show core': "lane_core A L M mx (i # us) s' st'"
  proof (rule coreI)
    show "length (ldata s') = M" "length (lens s') = M" "distinct (i # us)"
      using d(1,2,3) i' by (simp_all add: s'_def)
    have "k < L \<and> ldata s' ! k = None \<longleftrightarrow> k = i \<or> k < L \<and> ldata s ! k = None" for k
      using ln[of k] u(1) lanes by (cases "k < L") auto
    then show "set (i # us) = {k. k < L \<and> ldata s' ! k = None}"
      using d(4) by auto
    show "nibbles (i # us) (unused_lanes s')"
      using nibbles_push[OF d(5), of i] i' u(1) lanes(2) by (simp add: s'_def)
    have "L - length us = Suc (L - length (i # us))" using i'(2) by simp
    then show "num_lanes_inuse s' = of_nat (L - length (i # us))"
      using d(6) by (simp add: s'_def)
  next
    fix k j' assume k: "k < M" "ldata s' ! k = Some j'"
    then have k': "ldata s ! k = Some j'" "k \<noteq> i" using ln[OF k(1)] by (auto split: if_splits)
    note v = core_laneD[OF core k(1) k'(1)]
    have "m = k" if "m < M" "ldata s' ! m = Some j'" for m
      using that ln[OF that(1)] v(2)[OF that(1)] by (simp split: if_splits)
    then have "\<forall>m<M. ldata s' ! m = Some j' \<longrightarrow> m = k" by blast
    moreover have "lens s' ! k = lens s ! k" by (simp add: s'_def)
    ultimately show "k < L \<and> (\<forall>m<M. ldata s' ! m = Some j' \<longrightarrow> m = k) \<and>
        (\<exists>n<mx. lens s' ! k = of_nat (16 * n + k) \<and>
           n * block_size A \<le> length (buf_bytes (st' j') (job_buffer (job (st' j')))))"
      using v(1,3) by (simp only: bytes st'(1))
  qed
  show inf: "lane_inflight s' = lane_inflight s - {j}"
  proof (rule set_eqI)
    fix k
    have "ldata s' ! m = Some k \<longleftrightarrow> ldata s ! m = Some k \<and> k \<noteq> j" if "m < M" for m
    proof (cases "m = i")
      case True
      then show ?thesis using ln[OF that] i(2) by simp
    next
      case False
      then have "ldata s ! m \<noteq> Some j" using u(2)[OF that] by blast
      then show ?thesis using ln[OF that] False by auto
    qed
    then show "k \<in> lane_inflight s' \<longleftrightarrow> k \<in> lane_inflight s - {j}"
      unfolding inflight_lane[OF core'] Diff_iff inflight_lane[OF core] by blast
  qed
  show "lane_work s' k = lane_work s k" if "k \<in> lane_inflight s'" for k
  proof -
    from that obtain m where m: "m < M" "ldata s' ! m = Some k"
      unfolding inflight_lane[OF core'] by blast
    then have "ldata s ! m = Some k" using ln[OF m(1)] by (auto split: if_splits)
    from core_unique[OF core m(1) this] core_unique[OF core' m] show ?thesis
      by (simp add: s'_def lane_left_def)
  qed
qed

lemma free_lane_post:
  fixes s :: "'n lane_mgr" and st :: "('w, 'l) store"
  assumes core: "lane_core A L M mx us s st" and res: "free_lane F s st = (s', st', r)"
  shows "r = None \<Longrightarrow> s' = s \<and> st' = st \<and> (\<forall>i<M. \<not> lane_is_finished s i)"
    and "r \<noteq> None \<Longrightarrow> \<exists>i. lane_core A L M mx (i # us) s' st'"
    and "sched_post (lane_inflight s) (\<lambda>j. job_result A st (lane_work s j) j) st
      (lane_inflight s') (\<lambda>j. job_result A st' (lane_work s' j) j) st' r"
proof -
  consider "List.find (lane_is_finished s) [0..<F] = None"
    | i where "List.find (lane_is_finished s) [0..<F] = Some i" by (cases "List.find (lane_is_finished s) [0..<F]") auto
  then have "(r = None \<longrightarrow> s' = s \<and> st' = st \<and> (\<forall>i<M. \<not> lane_is_finished s i)) \<and>
    (r \<noteq> None \<longrightarrow> (\<exists>i. lane_core A L M mx (i # us) s' st')) \<and>
    sched_post (lane_inflight s) (\<lambda>j. job_result A st (lane_work s j) j) st
      (lane_inflight s') (\<lambda>j. job_result A st' (lane_work s' j) j) st' r"
  proof cases
    case 1
    then show ?thesis using res find_finished[OF core] by (auto simp: free_lane_def sched_post_def)
  next
    case (2 i)
    then have "i < F" "lane_is_finished s i"
      using find_Some_iff[of "lane_is_finished s" "[0..<F]" i] by auto
    then obtain j where j: "i < M" "ldata s ! i = Some j" "lane_left s i = 0"
      using lanes(4) core_finished by fastforce
    define c where "c = (st j)\<lparr>job := (job (st j))\<lparr>job_status := STS_COMPLETED\<rparr>\<rparr>"
    have eq: "s' = s\<lparr>unused_lanes := push_bit 4 (unused_lanes s) OR of_nat i,
        num_lanes_inuse := num_lanes_inuse s - 1, ldata := (ldata s)[i := None]\<rparr>"
      "st' = st(j := c)" "r = Some j"
      using res 2 j by (simp_all add: free_lane_def Let_def c_def)
    have "job_buffer (job (st' k)) = job_buffer (job (st k))"
      "partial_block_buffer (st' k) = partial_block_buffer (st k)" for k
      unfolding eq(2) by (simp_all add: c_def)
    note f = free_lane_core[OF core j this, folded eq(1)]
    have zero: "lane_work s j = 0" using core_unique[OF core j(1,2)] j(3) by simp
    have "j \<in> lane_inflight s" using j inflight_lane[OF core] by blast
    moreover have "\<forall>k\<in>lane_inflight s'. job_result A st' (lane_work s' k) k = job_result A st (lane_work s k) k"
      using f(2,3) by (simp add: job_result_def eq(2))
    moreover have "digest (st' j) = job_result A st (lane_work s j) j"
      by (simp add: job_result_def zero eq(2) c_def)
    moreover have "same_frame (st k) (st' k)" for k
      unfolding eq(2) by (simp add: same_frame_def c_def)
    moreover have "\<forall>k. k \<notin> lane_inflight s \<longrightarrow> st' k = st k"
      using \<open>j \<in> lane_inflight s\<close> unfolding eq(2) by auto
    ultimately have "sched_post (lane_inflight s) (\<lambda>j. job_result A st (lane_work s j) j) st
        (lane_inflight s') (\<lambda>j. job_result A st' (lane_work s' j) j) st' r"
      using f(2) by (simp add: sched_post_def eq(3))
    then show ?thesis using f(1) by (auto simp: eq(3))
  qed
  then show "r = None \<Longrightarrow> s' = s \<and> st' = st \<and> (\<forall>i<M. \<not> lane_is_finished s i)"
    "r \<noteq> None \<Longrightarrow> \<exists>i. lane_core A L M mx (i # us) s' st'"
    "sched_post (lane_inflight s) (\<lambda>j. job_result A st (lane_work s j) j) st
      (lane_inflight s') (\<lambda>j. job_result A st' (lane_work s' j) j) st' r" by blast+
qed

text \<open>Running the kernels.\<close>

lemma hash_nblocks_left:
  "n \<le> m \<Longrightarrow> hash_nblocks B f (m - n) (drop (n * B) xs) (hash_nblocks B f n xs d) = hash_nblocks B f m xs d"
  using hash_nblocks_add[of B f n "m - n" xs d] by simp

lemma progress_core:
  fixes s :: "'n lane_mgr" and st :: "('w, 'l) store"
  assumes core: "lane_core A L M mx us s st" and pr: "progress A P n s st s' st'"
  shows "lane_core A L M mx us s' st'" and "\<exists>i<M. lane_is_finished s' i"
    and "sched_post (lane_inflight s) (\<lambda>j. job_result A st (lane_work s j) j) st
      (lane_inflight s') (\<lambda>j. job_result A st' (lane_work s' j) j) st' None"
proof -
  note d = coreD[OF core]
  note p = pr[unfolded progress_def d(1,2)]
  from p have P: "\<And>i. i \<in> P \<Longrightarrow> i < M \<and> ldata s ! i \<noteq> None \<and> n \<le> lane_left s i"
    and ld: "ldata s' = ldata s" by auto
  have left: "lane_left s' i = (if i \<in> P then lane_left s i - n else lane_left s i)"
    "lens s' ! i = of_nat (16 * lane_left s' i + i)"
    if i: "i < M" "ldata s ! i = Some j" for i j
  proof -
    from core_lens[OF core i] obtain m where m: "m < mx" "lens s ! i = of_nat (16 * m + i)"
      "lane_left s i = m" "i < L" by metis
    have l: "lens s' ! i = (if i \<in> P then lens s ! i - of_nat (16 * n) else lens s ! i)"
      using p i(1) by simp
    define m' where "m' = (if i \<in> P then m - n else m)"
    have "i \<in> P \<Longrightarrow> n \<le> m" using P m(3) by auto
    then have "16 * m + i - 16 * n = 16 * m' + i" if "i \<in> P"
      using that by (simp add: m'_def)
    then have l': "lens s' ! i = of_nat (16 * m' + i)"
      using \<open>i \<in> P \<Longrightarrow> n \<le> m\<close> unfolding l m(2) m'_def by (auto simp: of_nat_diff algebra_simps)
    have "m' < mx" using m(1) by (auto simp: m'_def)
    from unat_lens_word[OF this m(4)] have "lane_left s' i = m'"
      unfolding lane_left_def l' using m(4) lanes(2) by simp
    then show "lane_left s' i = (if i \<in> P then lane_left s i - n else lane_left s i)"
      "lens s' ! i = of_nat (16 * lane_left s' i + i)"
      using m(3) l' by (simp_all add: m'_def)
  qed
  have stj: "st' j = (if i \<in> P then adv_ctx A n (st j) else st j)"
    if i: "i < M" "ldata s ! i = Some j" for i j
  proof -
    have "(\<exists>k\<in>P. ldata s ! k = Some j) \<longleftrightarrow> i \<in> P"
      using core_laneD(2)[OF core i] P i(2) by blast
    then show ?thesis using p by simp
  qed
  have bytes: "buf_bytes (adv_ctx A n x) q = buf_bytes x q" for x :: "('w, 'l) hash_ctx" and q
    by (cases q) (simp_all add: adv_ctx_def)
  show core': "lane_core A L M mx us s' st'"
  proof (rule coreI)
    show "length (ldata s') = M" "length (lens s') = M" "distinct us"
      "set us = {i. i < L \<and> ldata s' ! i = None}" "nibbles us (unused_lanes s')"
      "num_lanes_inuse s' = of_nat (L - length us)"
      using p d by simp_all
  next
    fix i j assume i: "i < M" "ldata s' ! i = Some j"
    then have i': "ldata s ! i = Some j" using ld by simp
    note v = core_laneD[OF core i(1) i'] and l = left[OF i(1) i']
    from core_lens[OF core i(1) i'] obtain m where m: "m < mx" "lane_left s i = m"
      "m * block_size A \<le> length (buf_bytes (st j) (job_buffer (job (st j))))" by metis
    have "lane_left s' i < mx" using l(1) m(1,2) by auto
    moreover have "lane_left s' i * block_size A \<le> length (buf_bytes (st' j) (job_buffer (job (st' j))))"
      using m(3) unfolding stj[OF i(1) i'] l(1) m(2)
      by (simp add: bytes) (auto simp: adv_ctx_def diff_mult_distrib intro: diff_le_mono)
    moreover have "\<forall>k<M. ldata s' ! k = Some j \<longrightarrow> k = i" using v(2) ld by simp
    ultimately show "i < L \<and> (\<forall>k<M. ldata s' ! k = Some j \<longrightarrow> k = i) \<and>
        (\<exists>n<mx. lens s' ! i = of_nat (16 * n + i) \<and>
           n * block_size A \<le> length (buf_bytes (st' j) (job_buffer (job (st' j)))))"
      using v(1) l(2) by blast
  qed
  have inf: "lane_inflight s' = lane_inflight s"
    using ld by (simp add: lane_inflight_def)
  from p obtain i where i: "i \<in> P" "lane_left s i = n" by blast
  then obtain j where j: "i < M" "ldata s ! i = Some j" using P by blast
  then have "lane_is_finished s' i" using left(1)[OF j] i ld unfolding core_finished by simp
  with \<open>i < M\<close> show "\<exists>i<M. lane_is_finished s' i" by blast
  have "job_result A st' (lane_work s' j) j = job_result A st (lane_work s j) j"
    if "j \<in> lane_inflight s" for j
  proof -
    from that obtain i where i: "i < M" "ldata s ! i = Some j" unfolding inflight_lane[OF core] by blast
    have w: "lane_work s j = lane_left s i" "lane_work s' j = lane_left s' i"
      using core_unique[OF core i] core_unique[OF core' i(1)] i(2) ld by simp_all
    show ?thesis
      using P[of i] unfolding job_result_def w left(1)[OF i] stj[OF i]
      by (simp add: bytes) (simp add: adv_ctx_def hash_nblocks_left)
  qed
  moreover have "same_frame (st j) (st' j)" for j
    using p by (auto simp: same_frame_def adv_ctx_def)
  moreover have "st' j = st j" if "j \<notin> lane_inflight s" for j
    using p P that unfolding inflight_lane[OF core] by auto
  ultimately show "sched_post (lane_inflight s) (\<lambda>j. job_result A st (lane_work s j) j) st
      (lane_inflight s') (\<lambda>j. job_result A st' (lane_work s' j) j) st' None"
    by (simp add: sched_post_def inf)
qed

end

context lane_scheduler
begin

text \<open>One round of the kernels, and the lane it finishes.\<close>

lemma round_post:
  fixes s :: "'n lane_mgr" and st :: "('w, 'l) store"
  assumes core: "lane_core A L M mx us s st" and busy: "lane_inflight s \<noteq> {}"
    "\<forall>i<M. \<not> lane_is_finished s i"
    and res: "do_jobs s st = (s1, st1)" "free_lane F s1 st1 = (s', st', r)"
  shows "lane_inv A L M mx s' st'" and "r \<noteq> None"
    and "sched_post (lane_inflight s) (\<lambda>j. job_result A st (lane_work s j) j) st
      (lane_inflight s') (\<lambda>j. job_result A st' (lane_work s' j) j) st' r"
proof -
  from do_jobs_law[OF core busy res(1)] obtain P n where "progress A P n s st s1 st1"
    by blast
  note p = progress_core[OF core this] and f = free_lane_post[OF p(1) res(2)]
  show r: "r \<noteq> None" using f(1) p(2) by blast
  show "lane_inv A L M mx s' st'" using f(2)[OF r] unfolding lane_inv_def by blast
  show "sched_post (lane_inflight s) (\<lambda>j. job_result A st (lane_work s j) j) st
      (lane_inflight s') (\<lambda>j. job_result A st' (lane_work s' j) j) st' r"
    by (rule sched_post_trans[OF p(3) f(3)])
qed

lemma mgr_submit_law:
  fixes s :: "'n lane_mgr" and st :: "('w, 'l) store"
  assumes inv: "lane_inv A L M mx s st" and c: "c \<notin> lane_inflight s"
    and n: "n < mx" "unat (job_len (job (st c))) = n"
      "n * block_size A \<le> length (buf_bytes (st c) (job_buffer (job (st c))))"
    and res: "mgr_submit F L do_jobs s st c = (s', st', r)"
  shows "lane_inv A L M mx s' st' \<and>
    sched_post (insert c (lane_inflight s)) (\<lambda>j. job_result A st (if j = c then n else lane_work s j) j) st
      (lane_inflight s') (\<lambda>j. job_result A st' (lane_work s' j) j) st' r"
proof -
  from inv obtain x xs where core: "lane_core A L M mx (x # xs) s st"
    unfolding lane_inv_def by (metis neq_Nil_conv)
  let ?s = "insert_job s st c"
  note i = insert_core[OF core refl c n]
  have works: "job_result A st (if j = c then n else lane_work s j) j = job_result A st (lane_work ?s j) j"
    if "j \<in> lane_inflight ?s" for j
    using that i(2,3,4) by auto
  have post: "sched_post (insert c (lane_inflight s)) (\<lambda>j. job_result A st (if j = c then n else lane_work s j) j) st
      (lane_inflight s') (\<lambda>j. job_result A st' (lane_work s' j) j) st' r"
    if "sched_post (lane_inflight ?s) (\<lambda>j. job_result A st (lane_work ?s j) j) st
      (lane_inflight s') (\<lambda>j. job_result A st' (lane_work s' j) j) st' r"
    using sched_post_cong[OF works that] by (simp only: i(2))
  obtain s1 st1 r1 where f1: "free_lane F ?s st = (s1, st1, r1)" by (metis prod_cases3)
  note f = free_lane_post[OF i(1) f1]
  show ?thesis
  proof (cases "r1 = None")
    case False
    then have "s' = s1" "st' = st1" "r = r1" using res f1 by (simp_all add: mgr_submit_def Let_def)
    then show ?thesis using f(2)[OF False] post[OF] f(3) unfolding lane_inv_def by auto
  next
    case True
    then have s1: "s1 = ?s" "st1 = st" and nf: "\<forall>i<M. \<not> lane_is_finished ?s i" using f(1) by auto
    show ?thesis
    proof (cases "num_lanes_inuse ?s < of_nat L")
      case True
      then have eq: "s' = ?s" "st' = st" "r = None"
        using res f1 \<open>r1 = None\<close> unfolding s1 by (auto simp: mgr_submit_def Let_def)
      have "unat (of_nat L :: u32) = L" using lanes(2) by (intro unat_of_nat_small) simp
      then have "L - length xs < L"
        using True core_in_use(1)[OF i(1)] by (simp add: word_less_nat_alt)
      then have "xs \<noteq> []" by auto
      then show ?thesis using i(1) f(3) post unfolding eq lane_inv_def
        by (auto simp: \<open>r1 = None\<close> s1)
    next
      case False
      obtain s2 st2 where d: "do_jobs ?s st = (s2, st2)" by fastforce
      have "free_lane F s2 st2 = (s', st', r)"
        using res f1 \<open>r1 = None\<close> s1 False d by (simp add: mgr_submit_def Let_def)
      from round_post[OF i(1) _ nf d this] post show ?thesis unfolding i(2) by auto
    qed
  qed
qed

lemma mgr_flush_law:
  fixes s :: "'n lane_mgr" and st :: "('w, 'l) store"
  assumes inv: "lane_inv A L M mx s st" and res: "mgr_flush F do_jobs s st = (s', st', r)"
  shows "lane_inv A L M mx s' st' \<and>
    sched_post (lane_inflight s) (\<lambda>j. job_result A st (lane_work s j) j) st
      (lane_inflight s') (\<lambda>j. job_result A st' (lane_work s' j) j) st' r \<and>
    (r = None \<longrightarrow> lane_inflight s = {})"
proof -
  from inv obtain us where core: "lane_core A L M mx us s st" unfolding lane_inv_def by blast
  obtain s1 st1 r1 where f1: "free_lane F s st = (s1, st1, r1)" by (metis prod_cases3)
  note f = free_lane_post[OF core f1]
  show ?thesis
  proof (cases "r1 = None")
    case False
    then have "s' = s1" "st' = st1" "r = r1" using res f1 by (simp_all add: mgr_flush_def Let_def)
    then show ?thesis using f(2)[OF False] f(3) False unfolding lane_inv_def by auto
  next
    case True
    then have s1: "s1 = s" "st1 = st" and nf: "\<forall>i<M. \<not> lane_is_finished s i" using f(1) by auto
    obtain s2 st2 where d: "do_jobs s st = (s2, st2)" by fastforce
    have f2: "free_lane F s2 st2 = (s', st', r)"
      using res f1 True s1 d by (simp add: mgr_flush_def Let_def)
    show ?thesis
    proof (cases "lane_inflight s = {}")
      case True
      then have "num_lanes_inuse s = 0"
        using core_in_use(1,3)[OF core] by (simp add: unat_eq_0)
      then have "s2 = s" "st2 = st" using do_jobs_idle d by auto
      then have "s' = s" "st' = st" "r = None" using f1 f2 s1 \<open>r1 = None\<close> by auto
      then show ?thesis using inv f(3) s1 \<open>r1 = None\<close> True by auto
    next
      case False
      from round_post[OF core this nf d f2] show ?thesis by blast
    qed
  qed
qed

lemma lane_inv_stable:
  fixes s :: "'n lane_mgr" and st st' :: "('w, 'l) store"
  assumes inv: "lane_inv A L M mx s st"
    and same: "\<And>j. j \<in> lane_inflight s \<Longrightarrow> job (st' j) = job (st j) \<and>
      partial_block_buffer (st' j) = partial_block_buffer (st j)"
  shows "lane_inv A L M mx s st'"
proof -
  from inv obtain us where us: "us \<noteq> []" and core: "lane_core A L M mx us s st"
    unfolding lane_inv_def by blast
  have "lane_core A L M mx us s st'"
  proof (rule coreI[OF coreD[OF core]])
    fix i j assume i: "i < M" "ldata s ! i = Some j"
    then have "j \<in> lane_inflight s" unfolding inflight_lane[OF core] by blast
    from same[OF this] have "buf_bytes (st' j) (job_buffer (job (st' j))) = buf_bytes (st j) (job_buffer (job (st j)))"
      by (cases "job_buffer (job (st j))") simp_all
    then show "i < L \<and> (\<forall>k<M. ldata s ! k = Some j \<longrightarrow> k = i) \<and>
        (\<exists>n<mx. lens s ! i = of_nat (16 * n + i) \<and>
           n * block_size A \<le> length (buf_bytes (st' j) (job_buffer (job (st' j)))))"
      using core_laneD[OF core i] by simp
  qed
  then show ?thesis using us unfolding lane_inv_def by blast
qed

lemma mgr_init_inv:
  fixes st :: "('w, 'l) store"
  shows "lane_inv A L M mx (mgr_init L M :: 'n lane_mgr) st"
    and "lane_inflight (mgr_init L M :: 'n lane_mgr) = {}"
proof -
  have none: "ldata (mgr_init L M :: 'n lane_mgr) ! i = None" if "i < M" for i
    using that by (simp add: mgr_init_def)
  have "nibbles [L - k..<L] (fold (\<lambda>i u. push_bit 4 u OR of_nat i) (take k (rev [0..<L])) 0xf)" if "k \<le> L" for k
    using that
  proof (induction k)
    case (Suc k)
    then have k: "take (Suc k) (rev [0..<L]) = take k (rev [0..<L]) @ [L - Suc k]"
      by (simp add: take_Suc_conv_app_nth rev_nth)
    have "[L - Suc k..<L] = (L - Suc k) # [L - k..<L]"
      using Suc.prems by (simp add: upt_rec[of "L - Suc k"] Suc_diff_Suc)
    let ?u = "fold (\<lambda>i u. push_bit 4 u OR of_nat i) (take k (rev [0..<L])) 0xf :: u64"
    have "nibbles ((L - Suc k) # [L - k..<L]) (push_bit 4 ?u OR of_nat (L - Suc k))"
      using Suc lanes(2) by (intro nibbles_push) simp_all
    then show ?case unfolding k \<open>[L - Suc k..<L] = (L - Suc k) # [L - k..<L]\<close>
      by (simp only: fold_append fold.simps comp_apply id_apply)
  qed simp
  from this[of L] have "nibbles [0..<L] (unused_lanes (mgr_init L M :: 'n lane_mgr))"
    by (simp add: mgr_init_def)
  then have "lane_core A L M mx [0..<L] (mgr_init L M :: 'n lane_mgr) st"
    using none lanes by (intro coreI) (auto simp: mgr_init_def)
  then show "lane_inv A L M mx (mgr_init L M :: 'n lane_mgr) st"
    using lanes(1) unfolding lane_inv_def by (intro exI[of _ "[0..<L]"]) simp
  show "lane_inflight (mgr_init L M :: 'n lane_mgr) = {}"
    by (auto simp: lane_inflight_def mgr_init_def)
qed

end

text \<open>So a lane scheduler keeps the laws of a scheduler.\<close>

sublocale lane_scheduler \<subseteq> job_scheduler A "mgr_submit F L do_jobs" "mgr_flush F do_jobs"
  lane_inflight lane_work "lane_inv A L M mx" mx
proof unfold_locales
  show "2 < mx" "mx \<le> 2 ^ LENGTH('l)" using mx by auto
  show "finite (lane_inflight s)" for s :: "'n lane_mgr"
    unfolding lane_inflight_def by (rule finite_subset[of _ "the ` set (ldata s)"]) (auto intro: rev_image_eqI)
qed (rule lane_inv_stable mgr_submit_law mgr_flush_law; assumption)+

context lane_scheduler
begin

lemma is_job_scheduler:
  "job_scheduler A (mgr_submit F L do_jobs) (mgr_flush F do_jobs) lane_inflight lane_work
     (lane_inv A L M mx) mx"
  by (rule job_scheduler_axioms)

end

end
