(* ===== verification/LaneKernels.thy ===== *)
theory LaneKernels
  imports LaneInv
begin

text \<open>
  The four \<open>do_jobs\<close> of the C schedulers keep the law of \<open>lane_scheduler\<close>, whatever the
  kernels do as long as they hash: they run the kernels on some unfinished lanes for as many
  blocks as the shortest of them has left, and advance those lanes.
\<close>

section \<open>What a kernel promises\<close>

definition kernel_ok :: "'w::len hash_alg \<Rightarrow> 'w kernel \<Rightarrow> bool" where
  "kernel_ok A kern \<longleftrightarrow>
     (\<forall>lanes n bs d. n * block_size A \<le> length bs \<longrightarrow>
        kern lanes n bs d = hash_nblocks (block_size A) (single A) n bs d)"

text \<open>The kernel the compression function itself gives.\<close>

definition ref_kernel :: "'w::len hash_alg \<Rightarrow> 'w kernel" where
  "ref_kernel A = (\<lambda>lanes. hash_nblocks (block_size A) (single A))"

lemma ref_kernel_ok [simp]: "kernel_ok A (ref_kernel A)"
  by (simp add: kernel_ok_def ref_kernel_def)

section \<open>Hashing a group of jobs\<close>

definition hashed ::
  "'w::len hash_alg \<Rightarrow> nat \<Rightarrow> nat set \<Rightarrow> ('w, 'l::len) store \<Rightarrow> ('w, 'l) store" where
  "hashed A n J st = (\<lambda>j.
     if j \<in> J then
       set_digest (hash_nblocks (block_size A) (single A) n
                     (buf_bytes (st j) (job_buffer (job (st j)))) (digest (st j))) (st j)
     else st j)"

definition enough ::
  "'w::len hash_alg \<Rightarrow> nat \<Rightarrow> nat set \<Rightarrow> ('w, 'l::len) store \<Rightarrow> bool" where
  "enough A n J st \<longleftrightarrow>
     (\<forall>j\<in>J. n * block_size A \<le> length (buf_bytes (st j) (job_buffer (job (st j)))))"

lemma hashed_empty [simp]: "hashed A n {} st = st"
  by (simp add: hashed_def)

lemma hashed_hashed: "J \<inter> K = {} \<Longrightarrow> hashed A n K (hashed A n J st) = hashed A n (J \<union> K) st"
  by (rule ext) (auto simp: hashed_def)

lemma enough_hashed [simp]: "J \<inter> K = {} \<Longrightarrow> enough A n K (hashed A n J st) = enough A n K st"
  by (auto simp: enough_def hashed_def)

lemma enough_Un [simp]: "enough A n (J \<union> K) st \<longleftrightarrow> enough A n J st \<and> enough A n K st"
  by (auto simp: enough_def)

lemma kernel_job_ok:
  "kernel_ok A kern \<Longrightarrow> enough A n {j} st \<Longrightarrow> kernel_job kern lanes n j st = hashed A n {j} st"
  by (auto simp: kernel_job_def hashed_def kernel_ok_def enough_def)

lemma kernel_jobs_ok:
  assumes "kernel_ok A kern" "distinct js" "enough A n (set js) st"
  shows "kernel_jobs kern lanes n js st = hashed A n (set js) st"
  using assms(2,3)
proof (induction js arbitrary: st)
  case (Cons j js)
  then have e: "enough A n {j} st" "enough A n (set js) st" "{j} \<inter> set js = {}"
    by (auto simp: enough_def)
  then have "kernel_jobs kern lanes n (j # js) st = kernel_jobs kern lanes n js (hashed A n {j} st)"
    by (simp add: kernel_jobs_def kernel_job_ok[OF assms(1)])
  also have "\<dots> = hashed A n (set js) (hashed A n {j} st)"
    using Cons e by (intro Cons.IH) simp_all
  also have "\<dots> = hashed A n (set (j # js)) st" using e(3) by (simp add: hashed_hashed)
  finally show ?case .
qed (simp add: kernel_jobs_def)

lemma kernel_groups_ok:
  assumes "kernel_ok A kern" "distinct js" "enough A n (set js) st"
  shows "kernel_groups kern n js st = hashed A n (set js) st"
  using assms
proof (induction kern n js st rule: kernel_groups.induct)
  case (1 kern n a b c d js st)
  have split: "set (a # b # c # d # js) = set [a, b, c, d] \<union> set js" by auto
  have e: "enough A n (set [a, b, c, d]) st" "enough A n (set js) st"
    "set [a, b, c, d] \<inter> set js = {}" "distinct [a, b, c, d]" "distinct js"
    using 1(3,4) by (auto simp: enough_def)
  have "kernel_groups kern n (a # b # c # d # js) st
      = kernel_groups kern n js (hashed A n (set [a, b, c, d]) st)"
    by (simp only: kernel_groups.simps kernel_jobs_ok[OF 1(2) e(4,1)])
  also have "\<dots> = hashed A n (set js) (hashed A n (set [a, b, c, d]) st)"
    using 1(1)[OF 1(2) e(5)] e(2,3) kernel_jobs_ok[OF 1(2) e(4,1)] by (metis enough_hashed)
  finally show ?case by (simp only: hashed_hashed[OF e(3)] split)
qed (simp_all only: kernel_groups.simps kernel_jobs_ok)

section \<open>Advancing the lanes\<close>

definition adv_job ::
  "nat \<Rightarrow> 'n::len word \<Rightarrow> ('w::len, 'l::len) hash_ctx \<Rightarrow> ('w, 'l) hash_ctx" where
  "adv_job sh len ctx =
     ctx\<lparr>job := (job ctx)\<lparr>job_len := job_len (job ctx) - ucast len,
                         job_buffer := buf_shift (job_buffer (job ctx)) (shift_len sh len)\<rparr>\<rparr>"

text \<open>The lanes \<open>xs\<close> that hold an unfinished job are advanced, each job once.\<close>

lemma advance_lanes:
  fixes s :: "'n::len lane_mgr"
  assumes "distinct xs" "\<forall>i\<in>set xs. i < length (lens s)"
    and uniq: "\<forall>i\<in>set xs. \<forall>k\<in>set xs. \<forall>j. ldata s ! i = Some j \<longrightarrow> ldata s ! k = Some j \<longrightarrow> i = k"
    and res: "fold (advance_lane sh len) xs (s, st) = (s', st')"
  shows "s' = s\<lparr>lens := lens s'\<rparr>" "length (lens s') = length (lens s)"
    "\<And>i. lens s' ! i = (if i \<in> set xs \<and> lane_is_not_finished s i then lens s ! i - len else lens s ! i)"
    "\<And>j. st' j = (if \<exists>i\<in>set xs. lane_is_not_finished s i \<and> ldata s ! i = Some j
                   then adv_job sh len (st j) else st j)"
proof -
  have "s' = s\<lparr>lens := lens s'\<rparr> \<and> length (lens s') = length (lens s) \<and>
    (\<forall>i. lens s' ! i = (if i \<in> set xs \<and> lane_is_not_finished s i then lens s ! i - len else lens s ! i)) \<and>
    (\<forall>j. st' j = (if \<exists>i\<in>set xs. lane_is_not_finished s i \<and> ldata s ! i = Some j
                   then adv_job sh len (st j) else st j))"
    using assms
  proof (induction xs arbitrary: s' st' rule: rev_induct)
    case (snoc x xs)
    obtain s1 st1 where f: "fold (advance_lane sh len) xs (s, st) = (s1, st1)" by fastforce
    have IH: "s1 = s\<lparr>lens := lens s1\<rparr>" "length (lens s1) = length (lens s)"
      "\<And>i. lens s1 ! i = (if i \<in> set xs \<and> lane_is_not_finished s i then lens s ! i - len else lens s ! i)"
      "\<And>j. st1 j = (if \<exists>i\<in>set xs. lane_is_not_finished s i \<and> ldata s ! i = Some j
                     then adv_job sh len (st j) else st j)"
      using snoc.IH[OF _ _ _ f] snoc.prems(1-3) by auto
    have x: "x \<notin> set xs" "x < length (lens s)" using snoc.prems(1,2) by auto
    have ld: "ldata s1 = ldata s" using arg_cong[OF IH(1), of ldata] by simp
    have lx: "lens s1 ! x = lens s ! x" using IH(3) x(1) by simp
    then have nf: "lane_is_not_finished s1 x = lane_is_not_finished s x"
      by (simp add: lane_is_not_finished_def ld)
    have step: "advance_lane sh len x (s1, st1) = (s', st')"
      using snoc.prems(4) f by simp
    show ?case
    proof (cases "lane_is_not_finished s x")
      case False
      then have "s' = s1" "st' = st1" using step nf by (auto simp: advance_lane_def)
      then show ?thesis using IH False by auto
    next
      case True
      then obtain j where j: "ldata s ! x = Some j" by (auto simp: lane_is_not_finished_def)
      have st1j: "st1 j = st j"
      proof -
        have "\<not> (\<exists>i\<in>set xs. lane_is_not_finished s i \<and> ldata s ! i = Some j)"
          using snoc.prems(3) j x(1) by fastforce
        then show ?thesis unfolding IH(4)[of j] by (rule if_not_P)
      qed
      have eq: "s' = s1\<lparr>lens := (lens s1)[x := lens s1 ! x - len]\<rparr>" "st' = st1(j := adv_job sh len (st1 j))"
        using step True nf j by (auto simp: advance_lane_def ld Let_def adv_job_def)
      have "lens s' ! i = (if i = x then lens s ! x - len else lens s1 ! i)" for i
        using x(2) IH(2) lx by (simp add: eq(1) nth_list_update)
      moreover have "s' = s\<lparr>lens := lens s'\<rparr>" unfolding eq(1) by (subst IH(1)) simp
      ultimately show ?thesis
        using IH(2,3,4) True x(1) j st1j by (auto simp: eq)
    qed
  qed simp
  then show "s' = s\<lparr>lens := lens s'\<rparr>" "length (lens s') = length (lens s)"
    "\<And>i. lens s' ! i = (if i \<in> set xs \<and> lane_is_not_finished s i then lens s ! i - len else lens s ! i)"
    "\<And>j. st' j = (if \<exists>i\<in>set xs. lane_is_not_finished s i \<and> ldata s ! i = Some j
                   then adv_job sh len (st j) else st j)" by blast+
qed

section \<open>One round\<close>

lemma unat_len_blocks:
  "unat (drop_bit 4 ((w :: 'n::len word) AND NOT 0xf)) = unat w div 16"
  "unat (w AND NOT 0xf) = 16 * (unat w div 16)"
  "w AND NOT 0xf = of_nat (16 * (unat w div 16))"
proof -
  have u: "unat (w AND NOT 0xf) = unat w div 16 * 16" by (rule unat_and_not_nibble)
  then show "unat (w AND NOT 0xf) = 16 * (unat w div 16)" by simp
  then show "w AND NOT 0xf = of_nat (16 * (unat w div 16))" by (metis of_nat_unat ucast_id)
  show "unat (drop_bit 4 (w AND NOT 0xf)) = unat w div 16"
    unfolding unat_drop_bit u by simp
qed

context lane_layout
begin

text \<open>
  Hashing the jobs of the lanes \<open>js\<close> by \<open>n\<close> blocks and advancing those of the lanes \<open>xs\<close> that are
  unfinished is one step of progress when these are the same lanes.
\<close>

lemma progressI:
  fixes s :: "'n lane_mgr" and st :: "('w, 'l) store"
  assumes core: "lane_core A L M mx us s st"
    and ind: "is \<noteq> []" "\<forall>i\<in>set is. i < M \<and> ldata s ! i \<noteq> None"
      "\<forall>i\<in>set is. n \<le> lane_left s i" "i0 \<in> set is" "lane_left s i0 = n"
    and xs: "distinct xs" "set xs \<subseteq> {..<M}" "{i \<in> set xs. lane_is_not_finished s i} = set is"
    and len: "len = of_nat (16 * n)" "unat len = 16 * n" "16 * 2 ^ sh = block_size A"
    and res: "fold (advance_lane sh len) xs (s, hashed A n (set (lane_jobs s is)) st) = (s', st')"
  shows "progress A (set is) n s st s' st'"
proof -
  note d = coreD[OF core]
  have uniq: "\<forall>i\<in>set xs. \<forall>k\<in>set xs. \<forall>j. ldata s ! i = Some j \<longrightarrow> ldata s ! k = Some j \<longrightarrow> i = k"
    using core_laneD(2)[OF core] xs(2) by blast
  have lt: "\<forall>i\<in>set xs. i < length (lens s)" using xs(2) d(2) by auto
  note a = advance_lanes[OF xs(1) lt uniq res]
  have sel: "i \<in> set xs \<and> lane_is_not_finished s i \<longleftrightarrow> i \<in> set is" for i using xs(3) by auto
  have jobs: "j \<in> set (lane_jobs s is) \<longleftrightarrow> (\<exists>i\<in>set is. ldata s ! i = Some j)" for j
    using ind(2) by (force simp: lane_jobs_def image_iff)
  have st': "st' j = (if \<exists>i\<in>set is. ldata s ! i = Some j then adv_ctx A n (st j) else st j)" for j
  proof -
    have "(\<exists>i\<in>set xs. lane_is_not_finished s i \<and> ldata s ! i = Some j) \<longleftrightarrow> (\<exists>i\<in>set is. ldata s ! i = Some j)"
      using sel by blast
    moreover have "ucast len = (of_nat (16 * n) :: 'l word)" by (metis len(2) of_nat_unat)
    moreover have "shift_len sh len = Some (n * block_size A)"
    proof -
      have "unat len * 2 ^ sh = n * block_size A" using len(2,3) by simp
      moreover have "n * block_size A < 2 ^ 31"
      proof -
        obtain j where "i0 < M" "ldata s ! i0 = Some j" using ind(2,4) by auto
        from core_lens[OF core this] ind(5) have "n < mx" by metis
        then have "n * block_size A < mx * block_size A" using block_size_pos by simp
        from less_le_trans[OF this mx_int] show ?thesis .
      qed
      ultimately show ?thesis by (simp add: shift_len_def)
    qed
    ultimately show ?thesis
      using a(4)[of j] by (simp add: hashed_def jobs adv_job_def adv_ctx_def set_digest_def buf_shift_def)
  qed
  show ?thesis
    unfolding progress_def
    using ind st' a(2) a(3) sel d(1,2) arg_cong[OF a(1), of ldata]
      arg_cong[OF a(1), of unused_lanes] arg_cong[OF a(1), of num_lanes_inuse]
    by (auto simp: len(1))
qed

lemma core_enough:
  fixes s :: "'n lane_mgr" and st :: "('w, 'l) store"
  assumes core: "lane_core A L M mx us s st"
    and ind: "\<forall>i\<in>set is. i < M \<and> ldata s ! i \<noteq> None" "\<forall>i\<in>set is. n \<le> lane_left s i"
  shows "enough A n (set (lane_jobs s is)) st"
  unfolding enough_def
proof
  fix j assume "j \<in> set (lane_jobs s is)"
  then obtain i where i: "i \<in> set is" "ldata s ! i = Some j" using ind(1) by (force simp: lane_jobs_def)
  then obtain m where "lane_left s i = m" "m * block_size A \<le> length (buf_bytes (st j) (job_buffer (job (st j))))"
    using core_lens[OF core] ind(1) by metis
  then show "n * block_size A \<le> length (buf_bytes (st j) (job_buffer (job (st j))))"
    using ind(2) i(1) by (meson le_trans mult_le_mono1)
qed

lemma core_distinct_jobs:
  fixes s :: "'n lane_mgr" and st :: "('w, 'l) store"
  assumes core: "lane_core A L M mx us s st"
    and "distinct is" "\<forall>i\<in>set is. i < M \<and> ldata s ! i \<noteq> None"
  shows "distinct (lane_jobs s is)"
  unfolding lane_jobs_def distinct_map
proof (intro conjI inj_onI)
  fix x y assume xy: "x \<in> set is" "y \<in> set is" "the (ldata s ! x) = the (ldata s ! y)"
  then obtain j where "ldata s ! x = Some j" "ldata s ! y = Some j" using assms(3) by force
  then show "x = y" using core_laneD(2)[OF core] assms(3) xy by metis
qed (rule assms(2))

text \<open>The shortest of some lanes.\<close>

lemma min_len_lane:
  fixes s :: "'n lane_mgr"
  assumes "is \<noteq> []"
  shows "\<exists>i\<in>set is. lane_left s i = unat (min_len s is) div 16"
    and "i \<in> set is \<Longrightarrow> unat (min_len s is) div 16 \<le> lane_left s i"
proof -
  have "min_len s is \<in> set (map ((!) (lens s)) is)"
    unfolding min_len_def using assms by (intro Min_in) auto
  then show "\<exists>i\<in>set is. lane_left s i = unat (min_len s is) div 16"
    by (auto simp: lane_left_def)
  assume "i \<in> set is"
  then have "min_len s is \<le> lens s ! i" unfolding min_len_def by (intro Min_le) auto
  then show "unat (min_len s is) div 16 \<le> lane_left s i"
    unfolding lane_left_def by (intro div_le_mono) (simp add: word_le_nat_alt)
qed

text \<open>All unfinished lanes in one round.\<close>

lemma all_lanes_jobs:
  fixes s :: "'n lane_mgr" and st :: "('w, 'l) store"
  assumes core: "lane_core A L M mx us s st" and "is": "is \<noteq> []" "distinct is"
      "set is = {i. i < M \<and> lane_is_not_finished s i}"
    and n: "n = unat (min_len s is) div 16"
  shows "\<forall>i\<in>set is. i < M \<and> ldata s ! i \<noteq> None" "\<forall>i\<in>set is. n \<le> lane_left s i"
    and "distinct (lane_jobs s is)" "enough A n (set (lane_jobs s is)) st"
proof -
  show i: "\<forall>i\<in>set is. i < M \<and> ldata s ! i \<noteq> None"
    using "is"(3) core_not_finished by blast
  show le: "\<forall>i\<in>set is. n \<le> lane_left s i" unfolding n using min_len_lane(2)[OF "is"(1)] by blast
  show "distinct (lane_jobs s is)" using core_distinct_jobs[OF core "is"(2) i] .
  show "enough A n (set (lane_jobs s is)) st" using core_enough[OF core i le] .
qed

lemma all_lanes_progress:
  fixes s :: "'n lane_mgr" and st :: "('w, 'l) store"
  assumes core: "lane_core A L M mx us s st" and "is": "is \<noteq> []" "distinct is"
      "set is = {i. i < M \<and> lane_is_not_finished s i}"
    and n: "n = unat (min_len s is) div 16" and sh: "16 * 2 ^ sh = block_size A"
    and res: "fold (advance_lane sh (min_len s is AND NOT 0xf)) [0..<length (ldata s)]
      (s, hashed A n (set (lane_jobs s is)) st) = (s', st')"
  shows "progress A (set is) n s st s' st'"
proof -
  note i = all_lanes_jobs[OF core "is" n]
  obtain i0 where i0: "i0 \<in> set is" "lane_left s i0 = n"
    using min_len_lane(1)[OF "is"(1), of s] unfolding n by blast
  have len: "min_len s is AND NOT 0xf = of_nat (16 * n)" "unat (min_len s is AND NOT 0xf) = 16 * n"
    unfolding n by (rule unat_len_blocks)+
  have "distinct [0..<length (ldata s)]" "set [0..<length (ldata s)] \<subseteq> {..<M}"
    "{i \<in> set [0..<length (ldata s)]. lane_is_not_finished s i} = set is"
    using coreD(1)[OF core] unfolding "is"(3) by auto
  then show ?thesis
    by (rule progressI[OF core "is"(1) i(1,2) i0 _ _ _ len sh res])
qed

text \<open>The lanes in use.\<close>

lemma in_use_lanes:
  fixes s :: "'n lane_mgr" and st :: "('w, 'l) store"
  assumes core: "lane_core A L M mx us s st" and nf: "\<forall>i<M. \<not> lane_is_finished s i"
  shows "{i. i < M \<and> lane_is_not_finished s i} = {..<L} - set us"
    and "scan_lanes s = filter (lane_is_not_finished s) [0..<M]"
    and "set (scan_lanes s) = {i. i < M \<and> lane_is_not_finished s i}"
    and "length (scan_lanes s) = L - length us" "distinct (scan_lanes s)"
proof -
  note d = coreD[OF core]
  have nf': "lane_is_not_finished s i \<longleftrightarrow> ldata s ! i \<noteq> None" if "i < M" for i
    using nf that core_finished[of s i] core_not_finished[of s i] by blast
  show busy: "{i. i < M \<and> lane_is_not_finished s i} = {..<L} - set us"
  proof (rule set_eqI)
    fix i
    show "i \<in> {i. i < M \<and> lane_is_not_finished s i} \<longleftrightarrow> i \<in> {..<L} - set us"
    proof (cases "i < M")
      case True
      then have "ldata s ! i \<noteq> None \<Longrightarrow> i < L" using core_laneD(1)[OF core] by blast
      then show ?thesis using True nf'[OF True] d(4) by auto
    next
      case False
      then have "\<not> i < L" using lanes by simp
      then show ?thesis using False by simp
    qed
  qed
  have "set us \<subseteq> {..<L}" using d(4) by auto
  then have "card ({..<L} - set us) = L - length us"
    using distinct_card[OF d(3)] by (simp add: card_Diff_subset)
  moreover have "set (filter (lane_is_not_finished s) [0..<M]) = {i. i < M \<and> lane_is_not_finished s i}"
    by auto
  ultimately have len: "length (filter (lane_is_not_finished s) [0..<M]) = L - length us"
    using busy distinct_card[of "filter (lane_is_not_finished s) [0..<M]"] by simp
  then show scan: "scan_lanes s = filter (lane_is_not_finished s) [0..<M]"
    unfolding scan_lanes_def d(1) core_in_use(1)[OF core] by simp
  show "set (scan_lanes s) = {i. i < M \<and> lane_is_not_finished s i}" unfolding scan by auto
  show "length (scan_lanes s) = L - length us" "distinct (scan_lanes s)" unfolding scan by (rule len) simp
qed

lemma busy_not_idle:
  fixes s :: "'n lane_mgr" and st :: "('w, 'l) store"
  assumes core: "lane_core A L M mx us s st" and "lane_inflight s \<noteq> {}"
  shows "length us < L" "num_lanes_inuse s \<noteq> 0"
proof -
  show l: "length us < L" using core_in_use(2,3)[OF core] assms(2) by simp
  show "num_lanes_inuse s \<noteq> 0" using l core_in_use(1)[OF core] by (metis unat_0 zero_less_diff less_irrefl)
qed

lemma full_lanes:
  fixes s :: "'n lane_mgr" and st :: "('w, 'l) store"
  assumes core: "lane_core A L M mx us s st" and "num_lanes_inuse s = of_nat L"
  shows "us = []"
proof -
  have "unat (of_nat L :: u32) = L" using lanes(2) by (intro unat_of_nat_small) simp
  then have "L - length us = L" using core_in_use(1)[OF core] assms(2) by simp
  then have "length us = 0" using lanes(1) by linarith
  then show ?thesis by simp
qed

lemma do_jobs_ce_law:
  fixes s :: "'n lane_mgr" and st :: "('w, 'l) store"
  assumes kern: "kernel_ok A kern" and sh: "16 * 2 ^ sh = block_size A"
    and core: "lane_core A L M mx us s st" and busy: "lane_inflight s \<noteq> {}"
    and nf: "\<forall>i<M. \<not> lane_is_finished s i" and res: "do_jobs_ce sh L kern s st = (s', st')"
  shows "\<exists>P n. progress A P n s st s' st'"
proof -
  note b = busy_not_idle[OF core busy] and u = in_use_lanes[OF core nf]
  define js where "js = (if num_lanes_inuse s = of_nat L then [0..<L] else scan_lanes s)"
  have js: "js \<noteq> [] \<and> distinct js \<and> set js = {i. i < M \<and> lane_is_not_finished s i}"
  proof (cases "num_lanes_inuse s = of_nat L")
    case True
    then have "set js = {..<L} - set us" "js \<noteq> []" "distinct js"
      using full_lanes[OF core True] lanes(1) by (simp_all add: js_def atLeast0LessThan)
    then show ?thesis unfolding u(1) by blast
  next
    case False
    have "scan_lanes s \<noteq> []" using u(4) b(1) by auto
    then show ?thesis using False u(3,5) by (simp add: js_def)
  qed
  then have "js \<noteq> []" "distinct js" "set js = {i. i < M \<and> lane_is_not_finished s i}" by blast+
  note a = all_lanes_jobs[OF core this refl] and p = all_lanes_progress[OF core this refl sh]
  define len where "len = min_len s js AND NOT 0xf"
  have "do_jobs_ce sh L kern s st = fold (advance_lane sh len) [0..<length (ldata s)]
      (s, kernel_jobs kern (length js) (unat (drop_bit 4 len)) (lane_jobs s js) st)"
    using b(2) js by (simp add: do_jobs_ce_def Let_def js_def[symmetric] len_def)
  also have "kernel_jobs kern (length js) (unat (drop_bit 4 len)) (lane_jobs s js) st
      = hashed A (unat (min_len s js) div 16) (set (lane_jobs s js)) st"
    unfolding len_def unat_len_blocks(1) by (rule kernel_jobs_ok[OF kern a(3,4)])
  finally show ?thesis using p res unfolding len_def by metis
qed

text \<open>Every branch that runs the kernels on all the unfinished lanes.\<close>

lemma scan_progress:
  fixes s :: "'n lane_mgr" and st :: "('w, 'l) store"
  assumes sh: "16 * 2 ^ sh = block_size A"
    and core: "lane_core A L M mx us s st" and busy: "lane_inflight s \<noteq> {}"
    and nf: "\<forall>i<M. \<not> lane_is_finished s i"
  obtains len n js where "min_len s (scan_lanes s) AND NOT 0xf = len" "unat (drop_bit 4 len) = n"
    "lane_jobs s (scan_lanes s) = js" "scan_lanes s \<noteq> []" "length (scan_lanes s) \<le> L"
    "distinct js" "enough A n (set js) st"
    "fold (advance_lane sh len) [0..<length (ldata s)] (s, hashed A n (set js) st) = (s', st') \<longrightarrow>
      (\<exists>P n. progress A P n s st s' st')"
proof -
  note u = in_use_lanes[OF core nf]
  have ne: "scan_lanes s \<noteq> []" using u(4) busy_not_idle(1)[OF core busy] by auto
  have n: "unat (drop_bit 4 (min_len s (scan_lanes s) AND NOT 0xf)) = unat (min_len s (scan_lanes s)) div 16"
    by (rule unat_len_blocks(1))
  note a = all_lanes_jobs[OF core ne u(5,3) refl] and p = all_lanes_progress[OF core ne u(5,3) refl sh]
  show thesis
  proof (rule that[OF refl n refl ne _ a(3,4)])
    show "length (scan_lanes s) \<le> L" using u(4) by simp
  qed (use p in blast)
qed

lemma do_jobs_sve_law:
  fixes s :: "'n lane_mgr" and st :: "('w, 'l) store"
  assumes kern: "kernel_ok A kern" and sh: "16 * 2 ^ sh = block_size A"
    and core: "lane_core A L M mx us s st" and busy: "lane_inflight s \<noteq> {}"
    and nf: "\<forall>i<M. \<not> lane_is_finished s i" and res: "do_jobs_sve sh maxjobs kern s st = (s', st')"
  shows "\<exists>P n. progress A P n s st s' st'"
proof -
  obtain len n js where p: "min_len s (scan_lanes s) AND NOT 0xf = len" "unat (drop_bit 4 len) = n"
    "lane_jobs s (scan_lanes s) = js" "scan_lanes s \<noteq> []" "distinct js" "enough A n (set js) st"
    "fold (advance_lane sh len) [0..<length (ldata s)] (s, hashed A n (set js) st) = (s', st') \<longrightarrow>
      (\<exists>P n. progress A P n s st s' st')"
    using scan_progress[OF sh core busy nf, of s' st' thesis] by blast
  note r = res[unfolded do_jobs_sve_def Let_def p(1-3) kernel_jobs_ok[OF kern p(5,6)]
      kernel_groups_ok[OF kern p(5,6)] if_cancel]
  show ?thesis
    using r busy_not_idle(2)[OF core busy] p(4)
    by (intro p(7)[rule_format]) simp
qed

lemma do_jobs_sha1_asimd_law:
  fixes s :: "'n lane_mgr" and st :: "('w, 'l) store"
  assumes kern: "kernel_ok A kern" and sh: "16 * 2 ^ sh = block_size A" and L: "L = 4"
    and core: "lane_core A L M mx us s st" and busy: "lane_inflight s \<noteq> {}"
    and nf: "\<forall>i<M. \<not> lane_is_finished s i" and res: "do_jobs_sha1_asimd sh kern s st = (s', st')"
  shows "\<exists>P n. progress A P n s st s' st'"
proof -
  obtain len n js where p: "min_len s (scan_lanes s) AND NOT 0xf = len" "unat (drop_bit 4 len) = n"
    "lane_jobs s (scan_lanes s) = js" "scan_lanes s \<noteq> []" "length (scan_lanes s) \<le> L"
    "distinct js" "enough A n (set js) st"
    "fold (advance_lane sh len) [0..<length (ldata s)] (s, hashed A n (set js) st) = (s', st') \<longrightarrow>
      (\<exists>P n. progress A P n s st s' st')"
    using scan_progress[OF sh core busy nf, of s' st' thesis] by blast
  have "lane_jobs s (take 2 (scan_lanes s)) = js" if "\<not> (length (scan_lanes s) = 4 \<or> length (scan_lanes s) = 3)"
    using that p(3,5) L by simp
  then have "(if length (scan_lanes s) = 4 \<or> length (scan_lanes s) = 3 then kernel_jobs kern 4 n js st
      else kernel_jobs kern 1 n (lane_jobs s (take 2 (scan_lanes s))) st) = hashed A n (set js) st"
    using kernel_jobs_ok[OF kern p(6,7)] by simp
  note r = res[unfolded do_jobs_sha1_asimd_def Let_def p(1-3) this]
  show ?thesis using r busy_not_idle(2)[OF core busy] p(4) by (intro p(8)[rule_format]) simp
qed

lemma do_jobs_asimd_law:
  fixes s :: "'n lane_mgr" and st :: "('w, 'l) store"
  assumes kern: "kernel_ok A kern" and sh: "16 * 2 ^ sh = block_size A" and L: "L = 4"
    and core: "lane_core A L M mx us s st" and busy: "lane_inflight s \<noteq> {}"
    and nf: "\<forall>i<M. \<not> lane_is_finished s i" and res: "do_jobs_asimd sh kern s st = (s', st')"
  shows "\<exists>P n. progress A P n s st s' st'"
proof (cases "num_lanes_inuse s = of_nat L")
  case True
  then have "do_jobs_asimd sh kern s st = do_jobs_ce sh L kern s st"
    using busy_not_idle(2)[OF core busy] L by (simp add: do_jobs_asimd_def do_jobs_ce_def Let_def)
  then show ?thesis using do_jobs_ce_law[OF kern sh core busy nf] res by simp
next
  case False
  note u = in_use_lanes[OF core nf]
  have "set (scan_lanes s) \<noteq> {}" using u(4) busy_not_idle(1)[OF core busy] by auto
  then have "List.find (lane_is_not_finished s) [0..<length (ldata s)] \<noteq> None"
    unfolding u(3) coreD(1)[OF core] find_None_iff by auto
  then obtain i where f: "List.find (lane_is_not_finished s) [0..<length (ldata s)] = Some i" by blast
  then have "i < M" "lane_is_not_finished s i"
    unfolding coreD(1)[OF core] find_Some_iff by auto
  note i = f this
  define n where "n = unat (lens s ! i) div 16"
  define len where "len = lens s ! i AND NOT 0xf"
  have len: "len = of_nat (16 * n)" "unat len = 16 * n" "unat (drop_bit 4 len) = n"
    unfolding len_def n_def by (rule unat_len_blocks)+
  have ind: "\<forall>k\<in>set [i]. k < M \<and> ldata s ! k \<noteq> None" "\<forall>k\<in>set [i]. n \<le> lane_left s k"
    using i(2,3) core_not_finished by (auto simp: lane_left_def n_def)
  have "kernel_jobs kern 1 n (lane_jobs s [i]) st = hashed A n (set (lane_jobs s [i])) st"
    by (rule kernel_jobs_ok[OF kern core_distinct_jobs[OF core _ ind(1)] core_enough[OF core ind]]) simp
  then have "fold (advance_lane sh len) [i] (s, hashed A n (set (lane_jobs s [i])) st) = (s', st')"
    using res[unfolded do_jobs_asimd_def Let_def i(1) option.case, folded len_def, unfolded len(3)]
      False L busy_not_idle(2)[OF core busy] by simp
  then have "progress A (set [i]) n s st s' st'"
    using i(2,3) by (intro progressI[OF core _ ind _ _ _ _ _ len(1,2) sh, where xs = "[i]"]) (auto simp: lane_left_def n_def)
  then show ?thesis by blast
qed

end

section \<open>The schedulers are lane schedulers\<close>

text \<open>For any kernels that hash, given the numbers of lanes and the widths.\<close>

lemma lane_schedulers:
  fixes A :: "'w::len hash_alg"
  assumes kern: "kernel_ok A kern" and sh: "16 * 2 ^ sh = block_size A"
    and layout: "lane_layout TYPE('l::len) TYPE('n::len) A L F M mx"
  shows "lane_scheduler A L F M mx (do_jobs_ce sh L kern :: ('n, 'w, 'l) do_jobs_fun)"
    and "lane_scheduler A L F M mx (do_jobs_sve sh maxjobs kern :: ('n, 'w, 'l) do_jobs_fun)"
    and "L = 4 \<Longrightarrow> lane_scheduler A L F M mx (do_jobs_asimd sh kern :: ('n, 'w, 'l) do_jobs_fun)"
    and "L = 4 \<Longrightarrow> lane_scheduler A L F M mx (do_jobs_sha1_asimd sh kern :: ('n, 'w, 'l) do_jobs_fun)"
proof -
  note l = lane_scheduler.intro[OF layout] and ax = lane_scheduler_axioms.intro
  show "lane_scheduler A L F M mx (do_jobs_ce sh L kern :: ('n, 'w, 'l) do_jobs_fun)"
    by (rule l, rule ax, rule lane_layout.do_jobs_ce_law[OF layout kern sh])
      (assumption | simp add: do_jobs_ce_def)+
  show "lane_scheduler A L F M mx (do_jobs_sve sh maxjobs kern :: ('n, 'w, 'l) do_jobs_fun)"
    by (rule l, rule ax, rule lane_layout.do_jobs_sve_law[OF layout kern sh])
      (assumption | simp add: do_jobs_sve_def)+
  assume L: "L = 4"
  show "lane_scheduler A L F M mx (do_jobs_asimd sh kern :: ('n, 'w, 'l) do_jobs_fun)"
    by (rule l, rule ax, rule lane_layout.do_jobs_asimd_law[OF layout kern sh L])
      (assumption | simp add: do_jobs_asimd_def)+
  show "lane_scheduler A L F M mx (do_jobs_sha1_asimd sh kern :: ('n, 'w, 'l) do_jobs_fun)"
    by (rule l, rule ax, rule lane_layout.do_jobs_sha1_asimd_law[OF layout kern sh L])
      (assumption | simp add: do_jobs_sha1_asimd_def)+
qed

end
