(* ===== verification/ReadyScheduler.thy ===== *)
theory ReadyScheduler
  imports Scheduler
begin

text \<open>
  The context layer on a scheduler, from its initialisation on: what holds of the contexts in
  every state a history of calls can reach, and that every call made there returns.
\<close>

locale ready_scheduler = job_scheduler A mb_submit mb_flush inflight work sinv max_blocks
  for A :: "'w::len hash_alg"
    and mb_submit :: "('s, 'w, 'l::len) job_submit_fun" and mb_flush :: "('s, 'w, 'l) job_flush_fun"
    and inflight :: "'s \<Rightarrow> nat set" and work :: "'s \<Rightarrow> nat \<Rightarrow> nat"
    and sinv :: "'s \<Rightarrow> ('w, 'l) store \<Rightarrow> bool" and max_blocks :: nat +
  fixes init :: 's
  assumes init_inv: "sinv init st" and init_idle: "inflight init = {}"

text \<open>Flushing \<open>k\<close> times.\<close>

primrec flush_times ::
  "('s \<Rightarrow> ('w, 'l) store \<Rightarrow> ('s \<times> ('w, 'l) store \<times> nat option) option) \<Rightarrow> nat \<Rightarrow>
   's \<Rightarrow> ('w::len, 'l::len) store \<Rightarrow> ('s \<times> ('w, 'l) store) option" where
  "flush_times flush 0 s st = Some (s, st)"
| "flush_times flush (Suc k) s st =
     (case flush s st of None \<Rightarrow> None | Some (s', st', r) \<Rightarrow> flush_times flush k s' st')"

context ready_scheduler
begin

abbreviation reach where
  "reach clr st0 fin msg s st \<equiv>
     history A clr mb_submit mb_flush max_blocks init st0 fin msg s st"

lemma reach_ok:
  assumes "clr \<le> 1" "fresh A st0" "reach clr st0 fin msg s st"
  shows "world_ok fin msg s st"
  using history_ok[OF assms(1) init_inv init_idle assms(2,3)] .

lemma reach_inv:
  assumes "clr \<le> 1" "fresh A st0" "reach clr st0 fin msg s st"
  shows "sinv s st"
  using reach_ok[OF assms] by (simp add: world_ok_def mgr_ok_def)

lemma reach_done:
  assumes "clr \<le> 1" "fresh A st0" "reach clr st0 fin msg s st" "c \<notin> inflight s"
  shows "fin c \<Longrightarrow> status (st c) = STS_COMPLETE \<and> digest (st c) = md_hash A (msg c)"
    and "\<not> fin c \<Longrightarrow> status (st c) = STS_IDLE \<and> ctx_holds A (msg c) (st c) \<or> status (st c) = STS_COMPLETE"
  using reach_ok[OF assms(1-3)] assms(4) by (auto simp: world_ok_def at_rest_def settled_def)

lemma reach_submit:
  assumes clr: "clr \<le> 1" and st0: "fresh A st0" and h: "reach clr st0 fin msg s st"
    and acc: "accepted (st c) flags" and len: "unat len \<le> length buffer" "unat len div block_size A < max_blocks"
  obtains s' st' r where
    "ctx_mgr_submit A clr mb_submit s st c buffer len flags = Some (s', st', r)"
    "reach clr st0 (fin(c := next_fin flags)) (msg(c := next_msg (msg c) buffer len flags)) s' st'"
    "c \<notin> inflight s" "inflight s' = insert c (inflight s) - set_option r"
    "set_option r \<subseteq> insert c (inflight s)" "error (st' c) = ERROR_NONE"
proof -
  have w: "ok fin msg s st" "\<And>c. c \<notin> inflight s \<Longrightarrow> at_rest A (fin c) (msg c) (st c)"
    using reach_ok[OF clr st0 h] by (auto simp: world_ok_def)
  have c: "c \<notin> inflight s"
  proof
    assume "c \<in> inflight s"
    then have "stg (fin c) (msg c) (job_result A st (work s c) c) (st c)"
      using w(1) by (simp add: mgr_ok_def)
    from stage_processing[OF this] accepted_not_processing[OF acc] show False by simp
  qed
  from submit_ok[OF clr w(1) c w(2)[OF c] acc len] obtain s' st' r where r:
    "ctx_mgr_submit A clr mb_submit s st c buffer len flags = Some (s', st', r)"
    "mgr_post A inflight (fin(c := next_fin flags)) (msg(c := next_msg (msg c) buffer len flags))
      (insert c (inflight s)) (st(c := (st c)\<lparr>error := ERROR_NONE\<rparr>)) s' st' r" by blast
  have "error (st' c) = ERROR_NONE" using r(2) by (auto simp: mgr_post_def)
  moreover have "inflight s' = insert c (inflight s) - set_option r"
    "set_option r \<subseteq> insert c (inflight s)"
    using r(2) unfolding mgr_post_def by blast+
  ultimately show thesis using that[OF r(1) history.submit[OF h len acc r(1)] c] by blast
qed

lemma reach_flush:
  assumes clr: "clr \<le> 1" and st0: "fresh A st0" and h: "reach clr st0 fin msg s st"
  obtains s' st' r where
    "ctx_mgr_flush A clr mb_submit mb_flush s st = Some (s', st', r)"
    "reach clr st0 fin msg s' st'" "r = None \<longleftrightarrow> inflight s = {}"
    "inflight s' = inflight s - set_option r" "set_option r \<subseteq> inflight s"
proof -
  have w: "ok fin msg s st" using reach_ok[OF clr st0 h] by (auto simp: world_ok_def)
  from flush_ok[OF clr w] obtain s' st' r where r:
    "ctx_mgr_flush A clr mb_submit mb_flush s st = Some (s', st', r)"
    "mgr_post A inflight fin msg (inflight s) st s' st' r" "r = None \<longleftrightarrow> inflight s = {}"
    by blast
  have "inflight s' = inflight s - set_option r" "set_option r \<subseteq> inflight s"
    using r(2) unfolding mgr_post_def by blast+
  then show thesis using that[OF r(1) history.flush[OF h r(1)] r(3)] by blast
qed

text \<open>As many flushes as contexts are in flight give them all back.\<close>

lemma reach_drain:
  assumes clr: "clr \<le> 1" and st0: "fresh A st0" and h: "reach clr st0 fin msg s st"
  shows "\<exists>s' st'. flush_times (ctx_mgr_flush A clr mb_submit mb_flush)
      (card (inflight s)) s st = Some (s', st') \<and>
    reach clr st0 fin msg s' st' \<and> inflight s' = {}"
  using h
proof (induction "card (inflight s)" arbitrary: s st)
  case 0
  have "sinv s st" using reach_ok[OF clr st0 0(2)] by (simp add: world_ok_def mgr_ok_def)
  from finite_inflight[OF this] 0(1) have "inflight s = {}" by simp
  then show ?case using 0(2) by simp
next
  case (Suc k)
  obtain s1 st1 r where f:
    "ctx_mgr_flush A clr mb_submit mb_flush s st = Some (s1, st1, r)"
    "reach clr st0 fin msg s1 st1" "r = None \<longleftrightarrow> inflight s = {}"
    "inflight s1 = inflight s - set_option r" "set_option r \<subseteq> inflight s"
    by (rule reach_flush[OF clr st0 Suc.prems])
  have "inflight s \<noteq> {}" using Suc.hyps(2) by auto
  then obtain c where c: "r = Some c" "c \<in> inflight s" using f(3,5) by auto
  then have k: "k = card (inflight s1)" using Suc.hyps(2) f(4) by simp
  from Suc.hyps(1)[OF k f(2)] obtain s2 st2 where
    "flush_times (ctx_mgr_flush A clr mb_submit mb_flush) k s1 st1 = Some (s2, st2)"
    "reach clr st0 fin msg s2 st2" "inflight s2 = {}"
    unfolding k by blast
  then show ?case using f(1) by (simp flip: Suc.hyps(2))
qed

text \<open>A whole message on one context, and everything given back.\<close>

lemma reach_entire:
  fixes len :: u32
  assumes clr: "clr \<le> 1" and st0: "fresh A st0"
    and len: "unat len \<le> length buffer" "unat len div block_size A < max_blocks"
  shows "\<exists>s st. reach clr st0 ((\<lambda>_. False)(c := True)) ((\<lambda>_. [])(c := take (unat len) buffer)) s st \<and>
    inflight s = {}"
proof -
  have acc: "accepted (st0 c) ISAL_HASH_ENTIRE"
    using st0 by (simp add: accepted_def fresh_def)
  obtain s1 st1 r where "reach clr st0 ((\<lambda>_. False)(c := next_fin ISAL_HASH_ENTIRE))
      ((\<lambda>_. [])(c := next_msg [] buffer len ISAL_HASH_ENTIRE)) s1 st1"
    by (rule reach_submit[OF clr st0 history.start acc len])
  then have "reach clr st0 ((\<lambda>_. False)(c := True)) ((\<lambda>_. [])(c := take (unat len) buffer)) s1 st1"
    by (simp add: next_fin_def next_msg_def)
  from reach_drain[OF clr st0 this] show ?thesis by blast
qed

end

end
