(* ===== verification/LaneReach.thy ===== *)
theory LaneReach
  imports LaneKernels ReadyScheduler
begin

text \<open>
  The lane schedulers from their initialisation on: every job that is inserted finds a free lane.
\<close>

text \<open>
  What \<open>insert_job\<close> relies on: the lane on top of the stack is a lane, and no job is in it.
\<close>

definition lane_free :: "nat \<Rightarrow> 'n::len lane_mgr \<Rightarrow> bool" where
  "lane_free L s \<longleftrightarrow>
     unat (unused_lanes s AND 0xf) < L \<and> ldata s ! unat (unused_lanes s AND 0xf) = None"

text \<open>
  A scheduler that is watched: beside its state a bit, which the first call of \<open>submit\<close> that finds
  no free lane sets for good. \<open>submit\<close> inserts its job before it does anything else.
\<close>

definition watched_submit ::
  "nat \<Rightarrow> ('n::len lane_mgr, 'w::len, 'l::len) job_submit_fun \<Rightarrow>
   ('n lane_mgr \<times> bool, 'w, 'l) job_submit_fun" where
  "watched_submit L sub = (\<lambda>(s, bad) st c.
     let (s', st', r) = sub s st c in ((s', bad \<or> \<not> lane_free L s), st', r))"

definition watched_flush ::
  "('n::len lane_mgr, 'w::len, 'l::len) job_flush_fun \<Rightarrow>
   ('n lane_mgr \<times> bool, 'w, 'l) job_flush_fun" where
  "watched_flush flush = (\<lambda>(s, bad) st. let (s', st', r) = flush s st in ((s', bad), st', r))"

sublocale lane_scheduler \<subseteq> ready_scheduler A "mgr_submit F L do_jobs" "mgr_flush F do_jobs"
  lane_inflight lane_work "lane_inv A L M mx" mx "mgr_init L M"
  by unfold_locales (rule mgr_init_inv)+

context lane_scheduler
begin

lemma is_ready_scheduler:
  "ready_scheduler A (mgr_submit F L do_jobs) (mgr_flush F do_jobs) lane_inflight lane_work
     (lane_inv A L M mx) mx (mgr_init L M)"
  by (rule ready_scheduler_axioms)

text \<open>The invariant leaves a lane free, and the counter counts the jobs in flight.\<close>

lemma lane_inv_free:
  fixes s :: "'n lane_mgr" and st :: "('w, 'l) store"
  assumes "lane_inv A L M mx s st"
  shows "lane_free L s" "unat (num_lanes_inuse s) = card (lane_inflight s)"
    "card (lane_inflight s) < L"
proof -
  from assms obtain x xs where core: "lane_core A L M mx (x # xs) s st"
    unfolding lane_inv_def by (metis neq_Nil_conv)
  note d = coreD[OF core]
  have x: "unat (unused_lanes s AND 0xf) = x" using d(5) by simp
  have "x \<in> {i. i < L \<and> ldata s ! i = None}" using d(4) by (metis list.set_intros(1))
  then show "lane_free L s" unfolding lane_free_def x by simp
  let ?I = "{i. i < L \<and> ldata s ! i \<noteq> None}"
  have "bij_betw (\<lambda>i. the (ldata s ! i)) ?I (lane_inflight s)"
    unfolding bij_betw_def
  proof
    show "inj_on (\<lambda>i. the (ldata s ! i)) ?I"
    proof (rule inj_onI)
      fix i k assume ik: "i \<in> ?I" "k \<in> ?I" "the (ldata s ! i) = the (ldata s ! k)"
      then obtain j where "ldata s ! i = Some j" "ldata s ! k = Some j" by auto
      then show "i = k" using core_laneD(2)[OF core, of k j i] ik lanes by simp
    qed
    show "(\<lambda>i. the (ldata s ! i)) ` ?I = lane_inflight s"
    proof (rule set_eqI)
      fix j
      have "(\<exists>i<M. ldata s ! i = Some j) \<longleftrightarrow> (\<exists>i\<in>?I. the (ldata s ! i) = j)"
      proof
        assume "\<exists>i<M. ldata s ! i = Some j"
        then obtain i where i: "i < M" "ldata s ! i = Some j" by blast
        then show "\<exists>i\<in>?I. the (ldata s ! i) = j" using core_laneD(1)[OF core i] by auto
      next
        assume "\<exists>i\<in>?I. the (ldata s ! i) = j"
        then obtain i where "i < L" "ldata s ! i = Some j" by auto
        then show "\<exists>i<M. ldata s ! i = Some j" using lanes by (intro exI[of _ i]) simp
      qed
      then show "j \<in> (\<lambda>i. the (ldata s ! i)) ` ?I \<longleftrightarrow> j \<in> lane_inflight s"
        unfolding inflight_lane[OF core] by auto
    qed
  qed
  then have "card (lane_inflight s) = card ?I" by (rule bij_betw_same_card[symmetric])
  also have "?I = {..<L} - set (x # xs)" unfolding d(4) by auto
  also have "card ({..<L} - set (x # xs)) = L - length (x # xs)"
    using distinct_card[OF d(3)] d(4) by (subst card_Diff_subset) auto
  finally have card: "card (lane_inflight s) = L - length (x # xs)" .
  then show "unat (num_lanes_inuse s) = card (lane_inflight s)" using core_in_use(1)[OF core] by simp
  show "card (lane_inflight s) < L" unfolding card using lanes(1) by simp
qed

text \<open>The watched scheduler keeps the laws with the bit never set.\<close>

lemma watched_ready_scheduler:
  "ready_scheduler A (watched_submit L (mgr_submit F L do_jobs)) (watched_flush (mgr_flush F do_jobs))
     (\<lambda>s. lane_inflight (fst s)) (\<lambda>s. lane_work (fst s))
     (\<lambda>s st. lane_inv A L M mx (fst s) st \<and> \<not> snd s) mx (mgr_init L M, False)"
proof (unfold_locales, goal_cases)
  case (4 s st st')
  then show ?case using sinv_stable[of "fst s" st st'] by blast
next
  case (5 s st c n s' st' r)
  obtain s1 st1 r1 where sub: "mgr_submit F L do_jobs (fst s) st c = (s1, st1, r1)"
    by (metis prod_cases3)
  have res: "s' = (s1, False)" "st' = st1" "r = r1"
    using 5(1,7) lane_inv_free(1)[of "fst s" st] sub
    by (cases s; auto simp: watched_submit_def)+
  show ?case using submit_law[OF _ 5(2-6) sub] 5(1) by (simp add: res)
next
  case (6 s st s' st' r)
  obtain s1 st1 r1 where flush: "mgr_flush F do_jobs (fst s) st = (s1, st1, r1)"
    by (metis prod_cases3)
  have res: "s' = (s1, False)" "st' = st1" "r = r1"
    using 6 flush by (cases s; auto simp: watched_flush_def)+
  show ?case using flush_law[OF _ flush] 6(1) by (simp add: res)
qed (use max_blocks finite_inflight mgr_init_inv in auto)

end

end
