(* ===== verification/Sha512.thy ===== *)
theory Sha512
  imports Sha2
begin

text \<open>
  SHA-512: the macros, round constants and initial digest of
  \<open>sha512_mb/sha512_ctx_base.c\<close> and \<open>include/internal/sha512_mb_internal.h\<close>, the
  compression function, and the portable operations as instances of the context layer.
  \<open>sha512_ref.c\<close> repeats the same macros.
\<close>

section \<open>The compression function\<close>

definition sha512_s0 :: "u64 \<Rightarrow> u64" where
  "sha512_s0 a = ror64 a 28 XOR ror64 a 34 XOR ror64 a 39"

definition sha512_s1 :: "u64 \<Rightarrow> u64" where
  "sha512_s1 e = ror64 e 14 XOR ror64 e 18 XOR ror64 e 41"

definition sha512_S0 :: "u64 \<Rightarrow> u64" where
  "sha512_S0 w = ror64 w 1 XOR ror64 w 8 XOR drop_bit 7 w"

definition sha512_S1 :: "u64 \<Rightarrow> u64" where
  "sha512_S1 w = ror64 w 19 XOR ror64 w 61 XOR drop_bit 6 w"

text \<open>The constants of the calls of \<open>step\<close>, four calls to a row.\<close>

definition sha512_k :: "u64 list" where
  "sha512_k = concat
    [[0x428a2f98d728ae22, 0x7137449123ef65cd],
      [0xb5c0fbcfec4d3b2f, 0xe9b5dba58189dbbc],
      [0x3956c25bf348b538, 0x59f111f1b605d019],
      [0x923f82a4af194f9b, 0xab1c5ed5da6d8118],
      [0xd807aa98a3030242, 0x12835b0145706fbe],
      [0x243185be4ee4b28c, 0x550c7dc3d5ffb4e2],
      [0x72be5d74f27b896f, 0x80deb1fe3b1696b1],
      [0x9bdc06a725c71235, 0xc19bf174cf692694],
      [0xe49b69c19ef14ad2, 0xefbe4786384f25e3],
      [0x0fc19dc68b8cd5b5, 0x240ca1cc77ac9c65],
      [0x2de92c6f592b0275, 0x4a7484aa6ea6e483],
      [0x5cb0a9dcbd41fbd4, 0x76f988da831153b5],
      [0x983e5152ee66dfab, 0xa831c66d2db43210],
      [0xb00327c898fb213f, 0xbf597fc7beef0ee4],
      [0xc6e00bf33da88fc2, 0xd5a79147930aa725],
      [0x06ca6351e003826f, 0x142929670a0e6e70],
      [0x27b70a8546d22ffc, 0x2e1b21385c26c926],
      [0x4d2c6dfc5ac42aed, 0x53380d139d95b3df],
      [0x650a73548baf63de, 0x766a0abb3c77b2a8],
      [0x81c2c92e47edaee6, 0x92722c851482353b],
      [0xa2bfe8a14cf10364, 0xa81a664bbc423001],
      [0xc24b8b70d0f89791, 0xc76c51a30654be30],
      [0xd192e819d6ef5218, 0xd69906245565a910],
      [0xf40e35855771202a, 0x106aa07032bbd1b8],
      [0x19a4c116b8d2d0c8, 0x1e376c085141ab53],
      [0x2748774cdf8eeb99, 0x34b0bcb5e19b48a8],
      [0x391c0cb3c5c95a63, 0x4ed8aa4ae3418acb],
      [0x5b9cca4f7763e373, 0x682e6ff3d6b2b8a3],
      [0x748f82ee5defb2fc, 0x78a5636f43172f60],
      [0x84c87814a1f0ab72, 0x8cc702081a6439ec],
      [0x90befffa23631e28, 0xa4506cebde82bde9],
      [0xbef9a3f7b2c67915, 0xc67178f2e372532b],
      [0xca273eceea26619c, 0xd186b8c721c0c207],
      [0xeada7dd6cde0eb1e, 0xf57d4f7fee6ed178],
      [0x06f067aa72176fba, 0x0a637dc5a2c898a6],
      [0x113f9804bef90dae, 0x1b710b35131c471b],
      [0x28db77f523047d84, 0x32caab7b40c72493],
      [0x3c9ebe0a15c9bebc, 0x431d67c49c100d4c],
      [0x4cc5d4becb3e42b6, 0x597f299cfc657e2a],
      [0x5fcb6fab3ad6faec, 0x6c44198c4a475817]]"

definition sha512_const :: "nat \<Rightarrow> u64" where
  "sha512_const i = sha512_k ! i"

definition sha512_ww :: "byte list \<Rightarrow> nat \<Rightarrow> u64" where
  "sha512_ww data i = to_be64 (ld64 data i)"

definition sha512_macros :: "64 sha2_macros" where
  "sha512_macros =
     \<lparr>mac_s0 = sha512_s0, mac_s1 = sha512_s1, mac_S0 = sha512_S0, mac_S1 = sha512_S1,
      mac_ww = sha512_ww, mac_k = sha512_const, rounds = 80\<rparr>"

definition sha512_single :: "byte list \<Rightarrow> u64 list \<Rightarrow> u64 list" where
  "sha512_single = sha2_single sha512_macros"

definition sha512_initial_digest :: "u64 list" where
  "sha512_initial_digest =
     [0x6a09e667f3bcc908, 0xbb67ae8584caa73b,
      0x3c6ef372fe94f82b, 0xa54ff53a5f1d36f1,
      0x510e527fade682d1, 0x9b05688c2b3e6c1f,
      0x1f83d9abfb41bd6b, 0x5be0cd19137e2179]"

definition sha512_alg :: "64 hash_alg" where
  "sha512_alg =
     \<lparr>block_size = 128, log2_block_size = 7, pad_field_size = 16,
      initial_digest = sha512_initial_digest, single = sha512_single,
      len_field = (\<lambda>n. store_le 8 (to_be64 n)), output_digest = (\<lambda>d. d)\<rparr>"

interpretation sha512: hash_algorithm sha512_alg
  by unfold_locales (simp_all add: sha512_alg_def)

section \<open>The portable operations\<close>

type_synonym sha512_ctx = "(64, 64) hash_ctx"

definition sha512_init :: "sha512_ctx \<Rightarrow> sha512_ctx" where
  "sha512_init = base_init sha512_alg"

definition sha512_update :: "sha512_ctx \<Rightarrow> byte list \<Rightarrow> u32 \<Rightarrow> sha512_ctx" where
  "sha512_update = base_update sha512_alg"

definition sha512_final :: "sha512_ctx \<Rightarrow> sha512_ctx" where
  "sha512_final = base_final sha512_alg"

definition sha512_ctx_mgr_submit_base :: "sha512_ctx \<Rightarrow> byte list \<Rightarrow> u32 \<Rightarrow> u32 \<Rightarrow> sha512_ctx" where
  "sha512_ctx_mgr_submit_base = base_submit sha512_alg"

definition sha512_ctx_mgr_flush_base :: "sha512_ctx option" where
  "sha512_ctx_mgr_flush_base = base_flush"

text \<open>\<open>sha512_mb/sha512_ref.c\<close>, with its own copy of the compression function.\<close>

definition sha512_ref_single :: "byte list \<Rightarrow> 64 word list \<Rightarrow> 64 word list" where
  "sha512_ref_single = sha512_single"

definition sha512_ref :: "byte list \<Rightarrow> u32 \<Rightarrow> u64 list" where
  "sha512_ref = ref_hash (sha512_alg\<lparr>single := sha512_ref_single\<rparr>)"

lemma sha512_ref_eq: "sha512_ref = ref_hash sha512_alg"
  by (simp add: sha512_ref_def sha512_ref_single_def sha512_alg_def)

section \<open>Agreement with FIPS 180-4\<close>

text \<open>The macros are the sigma functions of the standard.\<close>

lemma sha512_sigmas:
  "sha512_s0 x = word_rotr 28 x XOR word_rotr 34 x XOR word_rotr 39 x"
  "sha512_s1 x = word_rotr 14 x XOR word_rotr 18 x XOR word_rotr 41 x"
  "sha512_S0 x = word_rotr 1 x XOR word_rotr 8 x XOR drop_bit 7 x"
  "sha512_S1 x = word_rotr 19 x XOR word_rotr 61 x XOR drop_bit 6 x"
  by (simp_all add: sha512_s0_def sha512_s1_def sha512_S0_def sha512_S1_def ror_rotr)

text \<open>The tables hold the leading bits of the roots of the first primes.\<close>

lemma sha512_k_roots: "list_all2 (root_entry 3) (take (length sha512_k) fips_primes) sha512_k"
  by code_simp

lemma sha512_initial_digest_fips: "sha512_initial_digest = fips_H0"
  by (rule square_root_table) code_simp

lemma length_sha512_k: "length sha512_k = 80"
  by (simp add: sha512_k_def)

lemma sha512_ww_fips: "length data = 128 \<Longrightarrow> t < 16 \<Longrightarrow> sha512_ww data t = fips_word data t"
  by (simp add: sha512_ww_def fips_word_def to_be64_def ld64_def byteswap64_load_le)

interpretation sha512_std: fips_macros sha512_macros fips512 128
proof
  fix t assume "t < rounds sha512_macros"
  then show "mac_k sha512_macros t = fips_K t"
    using cube_root_table[OF sha512_k_roots, of t] by (simp add: sha512_macros_def sha512_const_def length_sha512_k)
qed (simp_all add: sha512_macros_def fips512_def sha512_sigmas fun_eq_iff sha512_ww_fips)

lemma sha512_single_fips:
  "length H = 8 \<Longrightarrow> length data = 128 \<Longrightarrow> sha512_single data H = fips_compress fips512 data H"
  unfolding sha512_single_def by (rule sha512_std.single_fips)

text \<open>The hash the standard defines: its padding, and its compression function block by block.\<close>

lemma sha512_hash_fips: "md_hash sha512_alg m = fips_sha512 m"
proof -
  have "sha512_alg\<lparr>single := fips_compress fips512\<rparr> = fips_sha512_alg"
    by (simp add: sha512_alg_def fips_sha512_alg_def sha512_initial_digest_fips to_be64_def store_le_byteswap64)
  moreover have "md_hash sha512_alg m = md_hash (sha512_alg\<lparr>single := fips_compress fips512\<rparr>) m"
    by (rule md_hash_cong[where k = 8]) (simp_all add: sha512_alg_def sha512_single_fips sha512_initial_digest_def)
  ultimately show ?thesis by (simp only: fips_sha512_def)
qed

end
