(* ===== verification/Sha512Ctx.thy ===== *)
theory Sha512Ctx
  imports Sha512 LaneReach
begin

text \<open>
  SHA-512 in the context layers of the architectures: the functions of every
  \<open>sha512_mb/sha512_ctx_<arch>.c\<close> are the ones of \<open>CtxMgr\<close> over the algorithm's constants. On x86
  the scheduler is assembly and is an argument; on aarch64 it is the C code of \<open>LaneMgr\<close>
  over the kernels, which are assembly and the argument \<open>kern\<close>.
\<close>

section \<open>x86\<close>

text \<open>\<open>sha512_mb/sha512_ctx_sse.c\<close>.\<close>

definition sha512_hash_pad_sse ::
  "byte list \<Rightarrow> u64 \<Rightarrow> byte list \<times> u32" where
  "sha512_hash_pad_sse =
     hash_pad sha512_alg 0"

definition sha512_ctx_mgr_resubmit_sse ::
  "('s, 64, 64) job_submit_fun \<Rightarrow> 's \<Rightarrow> (64, 64) store \<Rightarrow> nat option \<Rightarrow>
   ('s \<times> (64, 64) store \<times> nat option) option" where
  "sha512_ctx_mgr_resubmit_sse mb_submit =
     ctx_mgr_resubmit sha512_alg 0 mb_submit"

definition sha512_ctx_mgr_submit_sse ::
  "('s, 64, 64) job_submit_fun \<Rightarrow> 's \<Rightarrow> (64, 64) store \<Rightarrow> nat \<Rightarrow> byte list \<Rightarrow> u32 \<Rightarrow> u32 \<Rightarrow>
   ('s \<times> (64, 64) store \<times> nat option) option" where
  "sha512_ctx_mgr_submit_sse mb_submit =
     ctx_mgr_submit sha512_alg 0 mb_submit"

definition sha512_ctx_mgr_flush_sse ::
  "('s, 64, 64) job_submit_fun \<Rightarrow> ('s, 64, 64) job_flush_fun \<Rightarrow> 's \<Rightarrow> (64, 64) store \<Rightarrow>
   ('s \<times> (64, 64) store \<times> nat option) option" where
  "sha512_ctx_mgr_flush_sse mb_submit mb_flush =
     ctx_mgr_flush sha512_alg 0 mb_submit mb_flush"

text \<open>\<open>sha512_mb/sha512_ctx_avx.c\<close>.\<close>

definition sha512_hash_pad_avx ::
  "byte list \<Rightarrow> u64 \<Rightarrow> byte list \<times> u32" where
  "sha512_hash_pad_avx =
     hash_pad sha512_alg 0"

definition sha512_ctx_mgr_resubmit_avx ::
  "('s, 64, 64) job_submit_fun \<Rightarrow> 's \<Rightarrow> (64, 64) store \<Rightarrow> nat option \<Rightarrow>
   ('s \<times> (64, 64) store \<times> nat option) option" where
  "sha512_ctx_mgr_resubmit_avx mb_submit =
     ctx_mgr_resubmit sha512_alg 0 mb_submit"

definition sha512_ctx_mgr_submit_avx ::
  "('s, 64, 64) job_submit_fun \<Rightarrow> 's \<Rightarrow> (64, 64) store \<Rightarrow> nat \<Rightarrow> byte list \<Rightarrow> u32 \<Rightarrow> u32 \<Rightarrow>
   ('s \<times> (64, 64) store \<times> nat option) option" where
  "sha512_ctx_mgr_submit_avx mb_submit =
     ctx_mgr_submit sha512_alg 0 mb_submit"

definition sha512_ctx_mgr_flush_avx ::
  "('s, 64, 64) job_submit_fun \<Rightarrow> ('s, 64, 64) job_flush_fun \<Rightarrow> 's \<Rightarrow> (64, 64) store \<Rightarrow>
   ('s \<times> (64, 64) store \<times> nat option) option" where
  "sha512_ctx_mgr_flush_avx mb_submit mb_flush =
     ctx_mgr_flush sha512_alg 0 mb_submit mb_flush"

text \<open>\<open>sha512_mb/sha512_ctx_avx2.c\<close>.\<close>

definition sha512_hash_pad_avx2 ::
  "byte list \<Rightarrow> u64 \<Rightarrow> byte list \<times> u32" where
  "sha512_hash_pad_avx2 =
     hash_pad sha512_alg 0"

definition sha512_ctx_mgr_resubmit_avx2 ::
  "('s, 64, 64) job_submit_fun \<Rightarrow> 's \<Rightarrow> (64, 64) store \<Rightarrow> nat option \<Rightarrow>
   ('s \<times> (64, 64) store \<times> nat option) option" where
  "sha512_ctx_mgr_resubmit_avx2 mb_submit =
     ctx_mgr_resubmit sha512_alg 0 mb_submit"

definition sha512_ctx_mgr_submit_avx2 ::
  "('s, 64, 64) job_submit_fun \<Rightarrow> 's \<Rightarrow> (64, 64) store \<Rightarrow> nat \<Rightarrow> byte list \<Rightarrow> u32 \<Rightarrow> u32 \<Rightarrow>
   ('s \<times> (64, 64) store \<times> nat option) option" where
  "sha512_ctx_mgr_submit_avx2 mb_submit =
     ctx_mgr_submit sha512_alg 0 mb_submit"

definition sha512_ctx_mgr_flush_avx2 ::
  "('s, 64, 64) job_submit_fun \<Rightarrow> ('s, 64, 64) job_flush_fun \<Rightarrow> 's \<Rightarrow> (64, 64) store \<Rightarrow>
   ('s \<times> (64, 64) store \<times> nat option) option" where
  "sha512_ctx_mgr_flush_avx2 mb_submit mb_flush =
     ctx_mgr_flush sha512_alg 0 mb_submit mb_flush"

text \<open>\<open>sha512_mb/sha512_ctx_avx2_ni.c\<close>.\<close>

definition sha512_hash_pad_avx2_ni ::
  "byte list \<Rightarrow> u64 \<Rightarrow> byte list \<times> u32" where
  "sha512_hash_pad_avx2_ni =
     hash_pad sha512_alg 1"

definition sha512_ctx_mgr_resubmit_avx2_ni ::
  "('s, 64, 64) job_submit_fun \<Rightarrow> 's \<Rightarrow> (64, 64) store \<Rightarrow> nat option \<Rightarrow>
   ('s \<times> (64, 64) store \<times> nat option) option" where
  "sha512_ctx_mgr_resubmit_avx2_ni mb_submit =
     ctx_mgr_resubmit sha512_alg 1 mb_submit"

definition sha512_ctx_mgr_submit_avx2_ni ::
  "('s, 64, 64) job_submit_fun \<Rightarrow> 's \<Rightarrow> (64, 64) store \<Rightarrow> nat \<Rightarrow> byte list \<Rightarrow> u32 \<Rightarrow> u32 \<Rightarrow>
   ('s \<times> (64, 64) store \<times> nat option) option" where
  "sha512_ctx_mgr_submit_avx2_ni mb_submit =
     ctx_mgr_submit sha512_alg 1 mb_submit"

definition sha512_ctx_mgr_flush_avx2_ni ::
  "('s, 64, 64) job_submit_fun \<Rightarrow> ('s, 64, 64) job_flush_fun \<Rightarrow> 's \<Rightarrow> (64, 64) store \<Rightarrow>
   ('s \<times> (64, 64) store \<times> nat option) option" where
  "sha512_ctx_mgr_flush_avx2_ni mb_submit mb_flush =
     ctx_mgr_flush sha512_alg 1 mb_submit mb_flush"

text \<open>\<open>sha512_mb/sha512_ctx_avx512.c\<close>.\<close>

definition sha512_hash_pad_avx512 ::
  "byte list \<Rightarrow> u64 \<Rightarrow> byte list \<times> u32" where
  "sha512_hash_pad_avx512 =
     hash_pad sha512_alg 0"

definition sha512_ctx_mgr_resubmit_avx512 ::
  "('s, 64, 64) job_submit_fun \<Rightarrow> 's \<Rightarrow> (64, 64) store \<Rightarrow> nat option \<Rightarrow>
   ('s \<times> (64, 64) store \<times> nat option) option" where
  "sha512_ctx_mgr_resubmit_avx512 mb_submit =
     ctx_mgr_resubmit sha512_alg 0 mb_submit"

definition sha512_ctx_mgr_submit_avx512 ::
  "('s, 64, 64) job_submit_fun \<Rightarrow> 's \<Rightarrow> (64, 64) store \<Rightarrow> nat \<Rightarrow> byte list \<Rightarrow> u32 \<Rightarrow> u32 \<Rightarrow>
   ('s \<times> (64, 64) store \<times> nat option) option" where
  "sha512_ctx_mgr_submit_avx512 mb_submit =
     ctx_mgr_submit sha512_alg 0 mb_submit"

definition sha512_ctx_mgr_flush_avx512 ::
  "('s, 64, 64) job_submit_fun \<Rightarrow> ('s, 64, 64) job_flush_fun \<Rightarrow> 's \<Rightarrow> (64, 64) store \<Rightarrow>
   ('s \<times> (64, 64) store \<times> nat option) option" where
  "sha512_ctx_mgr_flush_avx512 mb_submit mb_flush =
     ctx_mgr_flush sha512_alg 0 mb_submit mb_flush"

section \<open>aarch64\<close>

text \<open>\<open>sha512_mb/aarch64/sha512_mb_mgr_ce.c\<close>.\<close>

definition sha512_mb_mgr_init_ce ::
  "64 lane_mgr" where
  "sha512_mb_mgr_init_ce = mgr_init 2 8"

definition sha512_mb_mgr_do_jobs_ce ::
  "64 kernel \<Rightarrow> (64, 64, 64) do_jobs_fun" where
  "sha512_mb_mgr_do_jobs_ce kern = do_jobs_ce 3 2 kern"

definition sha512_mb_mgr_free_lane_ce ::
  "64 lane_mgr \<Rightarrow> (64, 64) store \<Rightarrow> 64 lane_mgr \<times> (64, 64) store \<times> nat option" where
  "sha512_mb_mgr_free_lane_ce = free_lane 2"

definition sha512_mb_mgr_insert_job_ce ::
  "64 lane_mgr \<Rightarrow> (64, 64) store \<Rightarrow> nat \<Rightarrow> 64 lane_mgr" where
  "sha512_mb_mgr_insert_job_ce = insert_job"

definition sha512_mb_mgr_submit_ce ::
  "64 kernel \<Rightarrow> (64 lane_mgr, 64, 64) job_submit_fun" where
  "sha512_mb_mgr_submit_ce kern = mgr_submit 2 2 (sha512_mb_mgr_do_jobs_ce kern)"

definition sha512_mb_mgr_flush_ce ::
  "64 kernel \<Rightarrow> (64 lane_mgr, 64, 64) job_flush_fun" where
  "sha512_mb_mgr_flush_ce kern = mgr_flush 2 (sha512_mb_mgr_do_jobs_ce kern)"

text \<open>\<open>sha512_mb/aarch64/sha512_ctx_ce.c\<close>.\<close>

definition sha512_hash_pad_ce ::
  "byte list \<Rightarrow> u64 \<Rightarrow> byte list \<times> u32" where
  "sha512_hash_pad_ce =
     hash_pad sha512_alg 0"

definition sha512_ctx_mgr_resubmit_ce ::
  "64 kernel \<Rightarrow> 64 lane_mgr \<Rightarrow> (64, 64) store \<Rightarrow> nat option \<Rightarrow>
   (64 lane_mgr \<times> (64, 64) store \<times> nat option) option" where
  "sha512_ctx_mgr_resubmit_ce kern =
     ctx_mgr_resubmit sha512_alg 0 (sha512_mb_mgr_submit_ce kern)"

definition sha512_ctx_mgr_submit_ce ::
  "64 kernel \<Rightarrow> 64 lane_mgr \<Rightarrow> (64, 64) store \<Rightarrow> nat \<Rightarrow> byte list \<Rightarrow> u32 \<Rightarrow> u32 \<Rightarrow>
   (64 lane_mgr \<times> (64, 64) store \<times> nat option) option" where
  "sha512_ctx_mgr_submit_ce kern =
     ctx_mgr_submit sha512_alg 0 (sha512_mb_mgr_submit_ce kern)"

definition sha512_ctx_mgr_flush_ce ::
  "64 kernel \<Rightarrow> 64 lane_mgr \<Rightarrow> (64, 64) store \<Rightarrow>
   (64 lane_mgr \<times> (64, 64) store \<times> nat option) option" where
  "sha512_ctx_mgr_flush_ce kern =
     ctx_mgr_flush sha512_alg 0 (sha512_mb_mgr_submit_ce kern) (sha512_mb_mgr_flush_ce kern)"

section \<open>The schedulers keep the laws\<close>

text \<open>
  For any kernels that hash, and so for the compression function itself. A job of
  fewer than 2^24 blocks is below 2^31 bytes, so the \<open>int\<close> the code keeps the least length in
  stays positive and counts the bytes the job's pointer moves on without an overflow.
\<close>

lemma sha512_ce_layout:
  "lane_layout TYPE(64) TYPE(64) sha512_alg 2 2 8 (2 ^ 24)"
  by (intro lane_layout.intro lane_layout_axioms.intro sha512.hash_algorithm_axioms) (simp_all add: sha512_alg_def)

lemma sha512_ce_scheduler:
  assumes "kernel_ok sha512_alg kern"
  shows "lane_scheduler sha512_alg 2 2 8 (2 ^ 24) (sha512_mb_mgr_do_jobs_ce kern)"
proof -
  have "16 * 2 ^ 3 = block_size sha512_alg" by (simp add: sha512_alg_def)
  from lane_schedulers(1)[OF assms(1) this sha512_ce_layout]
  show ?thesis by (simp only: sha512_mb_mgr_do_jobs_ce_def)
qed

interpretation sha512_ce: lane_scheduler sha512_alg 2 2 8 "2 ^ 24"
  "sha512_mb_mgr_do_jobs_ce (ref_kernel sha512_alg)"
  by (rule sha512_ce_scheduler) simp_all

end
