(* ===== verification/Sha1.thy ===== *)
theory Sha1
  imports Rounds
begin

text \<open>
  SHA-1, \<open>sha1_mb/sha1_ctx_base.c\<close> (and \<open>sha1_ref.c\<close>, which repeats it). The four macros
  \<open>step00_19\<close>, \<open>step20_39\<close>, \<open>step40_59\<close> and \<open>step60_79\<close> differ in the round function and
  constant; only the first still reads words of the block.
\<close>

section \<open>The compression function\<close>

definition sha1_F1 :: "u32 \<Rightarrow> u32 \<Rightarrow> u32 \<Rightarrow> u32" where
  "sha1_F1 b c d = d XOR (b AND (c XOR d))"

definition sha1_F2 :: "u32 \<Rightarrow> u32 \<Rightarrow> u32 \<Rightarrow> u32" where
  "sha1_F2 b c d = b XOR c XOR d"

definition sha1_F3 :: "u32 \<Rightarrow> u32 \<Rightarrow> u32 \<Rightarrow> u32" where
  "sha1_F3 b c d = (b AND c) OR (d AND (b OR c))"

definition sha1_F4 :: "u32 \<Rightarrow> u32 \<Rightarrow> u32 \<Rightarrow> u32" where
  "sha1_F4 b c d = b XOR c XOR d"

definition sha1_ring :: "byte list \<Rightarrow> nat \<Rightarrow> u32 list \<Rightarrow> u32 list" where
  "sha1_ring data i w =
     (if 15 < i then
        w[i mod 16 := rol32 (w ! ((i - 3) mod 16) XOR w ! ((i - 8) mod 16)
                             XOR w ! ((i - 14) mod 16) XOR w ! ((i - 16) mod 16)) 1]
      else w[i mod 16 := to_be32 (ld32 data i)])"

definition sha1_vars :: "nat \<Rightarrow> u32 \<Rightarrow> u32 list \<Rightarrow> u32 list" where
  "sha1_vars i wi v =
     (let a = v ! role 5 0 i; b = v ! role 5 1 i; c = v ! role 5 2 i;
          d = v ! role 5 3 i; e = v ! role 5 4 i;
          fk = (if i < 20 then sha1_F1 b c d + 0x5A827999
                else if i < 40 then sha1_F2 b c d + 0x6ED9EBA1
                else if i < 60 then sha1_F3 b c d + 0x8F1BBCDC
                else sha1_F4 b c d + 0xCA62C1D6)
      in v[role 5 4 i := e + (rol32 a 5 + fk + wi), role 5 1 i := rol32 b 30])"

definition sha1_step :: "byte list \<Rightarrow> nat \<Rightarrow> u32 list \<times> u32 list \<Rightarrow> u32 list \<times> u32 list" where
  "sha1_step data i = (\<lambda>(v, w).
     let w = sha1_ring data i w in (sha1_vars i (w ! (i mod 16)) v, w))"

definition sha1_single :: "byte list \<Rightarrow> u32 list \<Rightarrow> u32 list" where
  "sha1_single data dgst =
     (let (v, w) = fold (sha1_step data) [0..<80] (dgst, replicate 16 0) in map2 (+) dgst v)"

definition sha1_initial_digest :: "u32 list" where
  "sha1_initial_digest = [0x67452301, 0xefcdab89, 0x98badcfe, 0x10325476, 0xc3d2e1f0]"

definition sha1_alg :: "32 hash_alg" where
  "sha1_alg =
     \<lparr>block_size = 64, log2_block_size = 6, pad_field_size = 8,
      initial_digest = sha1_initial_digest, single = sha1_single,
      len_field = (\<lambda>n. store_le 8 (to_be64 n)), output_digest = (\<lambda>d. d)\<rparr>"

interpretation sha1: hash_algorithm sha1_alg
  by unfold_locales (simp_all add: sha1_alg_def)

section \<open>The portable operations\<close>

type_synonym sha1_ctx = "(32, 32) hash_ctx"

definition sha1_init :: "sha1_ctx \<Rightarrow> sha1_ctx" where
  "sha1_init = base_init sha1_alg"

definition sha1_update :: "sha1_ctx \<Rightarrow> byte list \<Rightarrow> u32 \<Rightarrow> sha1_ctx" where
  "sha1_update = base_update sha1_alg"

definition sha1_final :: "sha1_ctx \<Rightarrow> sha1_ctx" where
  "sha1_final = base_final sha1_alg"

definition sha1_ctx_mgr_submit_base :: "sha1_ctx \<Rightarrow> byte list \<Rightarrow> u32 \<Rightarrow> u32 \<Rightarrow> sha1_ctx" where
  "sha1_ctx_mgr_submit_base = base_submit sha1_alg"

definition sha1_ctx_mgr_flush_base :: "sha1_ctx option" where
  "sha1_ctx_mgr_flush_base = base_flush"

text \<open>\<open>sha1_mb/sha1_ref.c\<close>, with its own copy of the compression function.\<close>

definition sha1_ref_single :: "byte list \<Rightarrow> 32 word list \<Rightarrow> 32 word list" where
  "sha1_ref_single = sha1_single"

definition sha1_ref :: "byte list \<Rightarrow> u32 \<Rightarrow> u32 list" where
  "sha1_ref = ref_hash (sha1_alg\<lparr>single := sha1_ref_single\<rparr>)"

lemma sha1_ref_eq: "sha1_ref = ref_hash sha1_alg"
  by (simp add: sha1_ref_def sha1_ref_single_def sha1_alg_def)

section \<open>Agreement with FIPS 180-4, section 6.1\<close>

definition fips_f :: "nat \<Rightarrow> u32 \<Rightarrow> u32 \<Rightarrow> u32 \<Rightarrow> u32" where
  "fips_f t x y z =
     (if t < 20 then (x AND y) XOR (NOT x AND z)
      else if t < 40 then x XOR y XOR z
      else if t < 60 then (x AND y) XOR (x AND z) XOR (y AND z)
      else x XOR y XOR z)"

definition fips_K1 :: "nat \<Rightarrow> u32" where
  "fips_K1 t = [0x5a827999, 0x6ed9eba1, 0x8f1bbcdc, 0xca62c1d6] ! (t div 20)"

definition fips1_rec :: "(nat \<Rightarrow> u32) \<Rightarrow> u32" where
  "fips1_rec W = word_rotl 1 (W 3 XOR W 8 XOR W 14 XOR W 16)"

abbreviation fips1_schedule :: "byte list \<Rightarrow> nat \<Rightarrow> u32 list" where
  "fips1_schedule data \<equiv> schedule (\<lambda>t. load_be (take 4 (drop (4 * t) data))) fips1_rec"

type_synonym sha1_regs = "u32 \<times> u32 \<times> u32 \<times> u32 \<times> u32"

definition fips1_round :: "nat \<Rightarrow> u32 \<Rightarrow> sha1_regs \<Rightarrow> sha1_regs" where
  "fips1_round t W = (\<lambda>(a, b, c, d, e).
     (word_rotl 5 a + fips_f t b c d + e + fips_K1 t + W, a, word_rotl 30 b, c, d))"

primrec fips1_rounds :: "byte list \<Rightarrow> nat \<Rightarrow> sha1_regs \<Rightarrow> sha1_regs" where
  "fips1_rounds data 0 s = s"
| "fips1_rounds data (Suc t) s =
     fips1_round t (fips1_schedule data (Suc t) ! t) (fips1_rounds data t s)"

definition fips1_compress :: "byte list \<Rightarrow> u32 list \<Rightarrow> u32 list" where
  "fips1_compress data H =
     (let (a, b, c, d, e) = fips1_rounds data 80 (H ! 0, H ! 1, H ! 2, H ! 3, H ! 4)
      in [H ! 0 + a, H ! 1 + b, H ! 2 + c, H ! 3 + d, H ! 4 + e])"

lemma sha1_F_fips:
  "sha1_F1 b c d = (b AND c) XOR (NOT b AND d)"
  "sha1_F3 b c d = (b AND c) XOR (b AND d) XOR (c AND d)"
  by (rule bit_word_eqI; auto simp: sha1_F1_def sha1_F3_def bit_simps)+

lemma sha1_fk_fips:
  assumes "i < 80"
  shows "(if i < 20 then sha1_F1 b c d + 0x5A827999
    else if i < 40 then sha1_F2 b c d + 0x6ED9EBA1
    else if i < 60 then sha1_F3 b c d + 0x8F1BBCDC
    else sha1_F4 b c d + 0xCA62C1D6) = fips_f i b c d + fips_K1 i"
proof -
  have "i div 20 = (if i < 20 then 0 else if i < 40 then 1 else if i < 60 then 2 else 3)"
    using assms by (auto intro: div_nat_eqI)
  then show ?thesis
    by (simp add: fips_f_def fips_K1_def sha1_F_fips sha1_F2_def sha1_F4_def)
qed

lemma sha1_word: "4 * i + 4 \<le> length data \<Longrightarrow>
  to_be32 (ld32 data i) = load_be (take 4 (drop (4 * i) data))"
  by (simp add: ld32_def to_be32_def byteswap32_load_le)

interpretation sha1_sched: ring_schedule "\<lambda>i. to_be32 (ld32 data i)" fips1_rec for data
  by unfold_locales (simp add: fips1_rec_def)

lemma sha1_ring_step:
  "sha1_ring data i = ring_step (\<lambda>i. to_be32 (ld32 data i)) fips1_rec i"
  by (rule ext) (auto simp: sha1_ring_def ring_step_def fips1_rec_def rol32_rotl)

lemma sha1_schedule_eq:
  assumes "length data = 64"
  shows "schedule (\<lambda>i. to_be32 (ld32 data i)) fips1_rec t = fips1_schedule data t"
  using assms by (induction t) (simp_all add: Let_def sha1_word)

definition sha1_regs_of :: "u32 list \<Rightarrow> sha1_regs" where
  "sha1_regs_of v = (v ! 0, v ! 1, v ! 2, v ! 3, v ! 4)"

lemma length_sha1_vars [simp]: "length (sha1_vars n W v) = length v"
  by (simp add: sha1_vars_def Let_def)

lemma sha1_vars_round:
  assumes "length v = 5" "n < 80"
  shows "sha1_regs_of (unrot 5 (Suc n) (sha1_vars n W v)) = fips1_round n W (sha1_regs_of (unrot 5 n v))"
proof -
  obtain a b c d e where u: "unrot 5 n v = [a, b, c, d, e]"
    by (rule list5E[OF length_unrot])
  have v: "v ! role 5 r n = [a, b, c, d, e] ! r" if "r < 5" for r
    using nth_unrot[of r 5 n v] that u by simp
  show ?thesis
    unfolding sha1_vars_def Let_def sha1_fk_fips[OF assms(2)]
    by (simp add: unrot_Suc unrot_update assms(1) u v sha1_regs_of_def fips1_round_def rol32_rotl)
qed

definition sha1_inv :: "byte list \<Rightarrow> u32 list \<Rightarrow> nat \<Rightarrow> u32 list \<times> u32 list \<Rightarrow> bool" where
  "sha1_inv data H n = (\<lambda>(v, w).
     length v = 5 \<and> ring_holds (\<lambda>i. to_be32 (ld32 data i)) fips1_rec n w \<and>
     sha1_regs_of (unrot 5 n v) = fips1_rounds data n (sha1_regs_of H))"

lemma sha1_inv_Suc:
  assumes "sha1_inv data H n (v, w)" "n < 80" "length data = 64"
  shows "sha1_inv data H (Suc n) (sha1_step data n (v, w))"
  using assms sha1_sched.ring_holds_step[of data n w]
  by (simp add: sha1_inv_def sha1_step_def sha1_vars_round sha1_ring_step sha1_schedule_eq
      del: schedule.simps)

lemma sha1_inv_fold:
  assumes "length H = 5" "length data = 64" "n \<le> 80"
  shows "sha1_inv data H n (fold (sha1_step data) [0..<n] (H, replicate 16 0))"
  using assms(3)
proof (induction n)
  case (Suc n)
  then show ?case
    by (cases "fold (sha1_step data) [0..<n] (H, replicate 16 0)")
      (simp add: sha1_inv_Suc assms(2))
qed (simp add: sha1_inv_def assms unrot_home ring_holds_0)

theorem sha1_single_fips:
  assumes "length H = 5" "length data = 64"
  shows "sha1_single data H = fips1_compress data H"
proof -
  obtain v w where vw: "fold (sha1_step data) [0..<80] (H, replicate 16 0) = (v, w)" by fastforce
  with sha1_inv_fold[OF assms, of 80]
  have v: "length v = 5" "sha1_regs_of v = fips1_rounds data 80 (sha1_regs_of H)"
    by (auto simp: sha1_inv_def unrot_home)
  obtain a b c d e where abcd: "v = [a, b, c, d, e]" by (rule list5E[OF v(1)])
  obtain p q r s t where H: "H = [p, q, r, s, t]" by (rule list5E[OF assms(1)])
  have "fips1_rounds data 80 (p, q, r, s, t) = (a, b, c, d, e)"
    using v(2) by (simp add: abcd) (simp add: sha1_regs_of_def H)
  then show ?thesis
    unfolding sha1_single_def vw abcd by (simp add: fips1_compress_def H)
qed

text \<open>The hash the standard defines: its padding, and its compression function block by block.\<close>

definition fips_sha1 :: "byte list \<Rightarrow> u32 list" where
  "fips_sha1 m = md_hash (sha1_alg\<lparr>single := fips1_compress\<rparr>) m"

lemma sha1_hash_fips: "md_hash sha1_alg m = fips_sha1 m"
  unfolding fips_sha1_def
proof (rule md_hash_cong[where k = 5])
  show "length (initial_digest sha1_alg) = 5" by (simp add: sha1_alg_def sha1_initial_digest_def)
  fix xs :: "byte list" and d :: "u32 list" assume "length xs = block_size sha1_alg" "length d = 5"
  then show "single sha1_alg xs d = fips1_compress xs d \<and> length (fips1_compress xs d) = 5"
    using sha1_single_fips[of d xs] by (simp add: sha1_alg_def) (simp add: fips1_compress_def split: prod.splits)
qed

end
