(* ===== verification/Sha1Ctx.thy ===== *)
theory Sha1Ctx
  imports Sha1 LaneReach
begin

text \<open>
  SHA-1 in the context layers of the architectures: the functions of every
  \<open>sha1_mb/sha1_ctx_<arch>.c\<close> are the ones of \<open>CtxMgr\<close> over the algorithm's constants. On x86
  the scheduler is assembly and is an argument; on aarch64 it is the C code of \<open>LaneMgr\<close>
  over the kernels, which are assembly and the argument \<open>kern\<close>.
\<close>

section \<open>x86\<close>

text \<open>\<open>sha1_mb/sha1_ctx_sse.c\<close>.\<close>

definition sha1_hash_pad_sse ::
  "byte list \<Rightarrow> u64 \<Rightarrow> byte list \<times> u32" where
  "sha1_hash_pad_sse =
     hash_pad sha1_alg 0"

definition sha1_ctx_mgr_resubmit_sse ::
  "('s, 32, 32) job_submit_fun \<Rightarrow> 's \<Rightarrow> (32, 32) store \<Rightarrow> nat option \<Rightarrow>
   ('s \<times> (32, 32) store \<times> nat option) option" where
  "sha1_ctx_mgr_resubmit_sse mb_submit =
     ctx_mgr_resubmit sha1_alg 0 mb_submit"

definition sha1_ctx_mgr_submit_sse ::
  "('s, 32, 32) job_submit_fun \<Rightarrow> 's \<Rightarrow> (32, 32) store \<Rightarrow> nat \<Rightarrow> byte list \<Rightarrow> u32 \<Rightarrow> u32 \<Rightarrow>
   ('s \<times> (32, 32) store \<times> nat option) option" where
  "sha1_ctx_mgr_submit_sse mb_submit =
     ctx_mgr_submit sha1_alg 0 mb_submit"

definition sha1_ctx_mgr_flush_sse ::
  "('s, 32, 32) job_submit_fun \<Rightarrow> ('s, 32, 32) job_flush_fun \<Rightarrow> 's \<Rightarrow> (32, 32) store \<Rightarrow>
   ('s \<times> (32, 32) store \<times> nat option) option" where
  "sha1_ctx_mgr_flush_sse mb_submit mb_flush =
     ctx_mgr_flush sha1_alg 0 mb_submit mb_flush"

text \<open>\<open>sha1_mb/sha1_ctx_sse_ni.c\<close>.\<close>

definition sha1_hash_pad_sse_ni ::
  "byte list \<Rightarrow> u64 \<Rightarrow> byte list \<times> u32" where
  "sha1_hash_pad_sse_ni =
     hash_pad sha1_alg 0"

definition sha1_ctx_mgr_resubmit_sse_ni ::
  "('s, 32, 32) job_submit_fun \<Rightarrow> 's \<Rightarrow> (32, 32) store \<Rightarrow> nat option \<Rightarrow>
   ('s \<times> (32, 32) store \<times> nat option) option" where
  "sha1_ctx_mgr_resubmit_sse_ni mb_submit =
     ctx_mgr_resubmit sha1_alg 0 mb_submit"

definition sha1_ctx_mgr_submit_sse_ni ::
  "('s, 32, 32) job_submit_fun \<Rightarrow> 's \<Rightarrow> (32, 32) store \<Rightarrow> nat \<Rightarrow> byte list \<Rightarrow> u32 \<Rightarrow> u32 \<Rightarrow>
   ('s \<times> (32, 32) store \<times> nat option) option" where
  "sha1_ctx_mgr_submit_sse_ni mb_submit =
     ctx_mgr_submit sha1_alg 0 mb_submit"

definition sha1_ctx_mgr_flush_sse_ni ::
  "('s, 32, 32) job_submit_fun \<Rightarrow> ('s, 32, 32) job_flush_fun \<Rightarrow> 's \<Rightarrow> (32, 32) store \<Rightarrow>
   ('s \<times> (32, 32) store \<times> nat option) option" where
  "sha1_ctx_mgr_flush_sse_ni mb_submit mb_flush =
     ctx_mgr_flush sha1_alg 0 mb_submit mb_flush"

text \<open>\<open>sha1_mb/sha1_ctx_avx.c\<close>.\<close>

definition sha1_hash_pad_avx ::
  "byte list \<Rightarrow> u64 \<Rightarrow> byte list \<times> u32" where
  "sha1_hash_pad_avx =
     hash_pad sha1_alg 0"

definition sha1_ctx_mgr_resubmit_avx ::
  "('s, 32, 32) job_submit_fun \<Rightarrow> 's \<Rightarrow> (32, 32) store \<Rightarrow> nat option \<Rightarrow>
   ('s \<times> (32, 32) store \<times> nat option) option" where
  "sha1_ctx_mgr_resubmit_avx mb_submit =
     ctx_mgr_resubmit sha1_alg 0 mb_submit"

definition sha1_ctx_mgr_submit_avx ::
  "('s, 32, 32) job_submit_fun \<Rightarrow> 's \<Rightarrow> (32, 32) store \<Rightarrow> nat \<Rightarrow> byte list \<Rightarrow> u32 \<Rightarrow> u32 \<Rightarrow>
   ('s \<times> (32, 32) store \<times> nat option) option" where
  "sha1_ctx_mgr_submit_avx mb_submit =
     ctx_mgr_submit sha1_alg 0 mb_submit"

definition sha1_ctx_mgr_flush_avx ::
  "('s, 32, 32) job_submit_fun \<Rightarrow> ('s, 32, 32) job_flush_fun \<Rightarrow> 's \<Rightarrow> (32, 32) store \<Rightarrow>
   ('s \<times> (32, 32) store \<times> nat option) option" where
  "sha1_ctx_mgr_flush_avx mb_submit mb_flush =
     ctx_mgr_flush sha1_alg 0 mb_submit mb_flush"

text \<open>\<open>sha1_mb/sha1_ctx_avx2.c\<close>.\<close>

definition sha1_hash_pad_avx2 ::
  "byte list \<Rightarrow> u64 \<Rightarrow> byte list \<times> u32" where
  "sha1_hash_pad_avx2 =
     hash_pad sha1_alg 0"

definition sha1_ctx_mgr_resubmit_avx2 ::
  "('s, 32, 32) job_submit_fun \<Rightarrow> 's \<Rightarrow> (32, 32) store \<Rightarrow> nat option \<Rightarrow>
   ('s \<times> (32, 32) store \<times> nat option) option" where
  "sha1_ctx_mgr_resubmit_avx2 mb_submit =
     ctx_mgr_resubmit sha1_alg 0 mb_submit"

definition sha1_ctx_mgr_submit_avx2 ::
  "('s, 32, 32) job_submit_fun \<Rightarrow> 's \<Rightarrow> (32, 32) store \<Rightarrow> nat \<Rightarrow> byte list \<Rightarrow> u32 \<Rightarrow> u32 \<Rightarrow>
   ('s \<times> (32, 32) store \<times> nat option) option" where
  "sha1_ctx_mgr_submit_avx2 mb_submit =
     ctx_mgr_submit sha1_alg 0 mb_submit"

definition sha1_ctx_mgr_flush_avx2 ::
  "('s, 32, 32) job_submit_fun \<Rightarrow> ('s, 32, 32) job_flush_fun \<Rightarrow> 's \<Rightarrow> (32, 32) store \<Rightarrow>
   ('s \<times> (32, 32) store \<times> nat option) option" where
  "sha1_ctx_mgr_flush_avx2 mb_submit mb_flush =
     ctx_mgr_flush sha1_alg 0 mb_submit mb_flush"

text \<open>\<open>sha1_mb/sha1_ctx_avx512.c\<close>.\<close>

definition sha1_hash_pad_avx512 ::
  "byte list \<Rightarrow> u64 \<Rightarrow> byte list \<times> u32" where
  "sha1_hash_pad_avx512 =
     hash_pad sha1_alg 0"

definition sha1_ctx_mgr_resubmit_avx512 ::
  "('s, 32, 32) job_submit_fun \<Rightarrow> 's \<Rightarrow> (32, 32) store \<Rightarrow> nat option \<Rightarrow>
   ('s \<times> (32, 32) store \<times> nat option) option" where
  "sha1_ctx_mgr_resubmit_avx512 mb_submit =
     ctx_mgr_resubmit sha1_alg 0 mb_submit"

definition sha1_ctx_mgr_submit_avx512 ::
  "('s, 32, 32) job_submit_fun \<Rightarrow> 's \<Rightarrow> (32, 32) store \<Rightarrow> nat \<Rightarrow> byte list \<Rightarrow> u32 \<Rightarrow> u32 \<Rightarrow>
   ('s \<times> (32, 32) store \<times> nat option) option" where
  "sha1_ctx_mgr_submit_avx512 mb_submit =
     ctx_mgr_submit sha1_alg 0 mb_submit"

definition sha1_ctx_mgr_flush_avx512 ::
  "('s, 32, 32) job_submit_fun \<Rightarrow> ('s, 32, 32) job_flush_fun \<Rightarrow> 's \<Rightarrow> (32, 32) store \<Rightarrow>
   ('s \<times> (32, 32) store \<times> nat option) option" where
  "sha1_ctx_mgr_flush_avx512 mb_submit mb_flush =
     ctx_mgr_flush sha1_alg 0 mb_submit mb_flush"

text \<open>\<open>sha1_mb/sha1_ctx_avx512_ni.c\<close>.\<close>

definition sha1_hash_pad_avx512_ni ::
  "byte list \<Rightarrow> u64 \<Rightarrow> byte list \<times> u32" where
  "sha1_hash_pad_avx512_ni =
     hash_pad sha1_alg 0"

definition sha1_ctx_mgr_resubmit_avx512_ni ::
  "('s, 32, 32) job_submit_fun \<Rightarrow> 's \<Rightarrow> (32, 32) store \<Rightarrow> nat option \<Rightarrow>
   ('s \<times> (32, 32) store \<times> nat option) option" where
  "sha1_ctx_mgr_resubmit_avx512_ni mb_submit =
     ctx_mgr_resubmit sha1_alg 0 mb_submit"

definition sha1_ctx_mgr_submit_avx512_ni ::
  "('s, 32, 32) job_submit_fun \<Rightarrow> 's \<Rightarrow> (32, 32) store \<Rightarrow> nat \<Rightarrow> byte list \<Rightarrow> u32 \<Rightarrow> u32 \<Rightarrow>
   ('s \<times> (32, 32) store \<times> nat option) option" where
  "sha1_ctx_mgr_submit_avx512_ni mb_submit =
     ctx_mgr_submit sha1_alg 0 mb_submit"

definition sha1_ctx_mgr_flush_avx512_ni ::
  "('s, 32, 32) job_submit_fun \<Rightarrow> ('s, 32, 32) job_flush_fun \<Rightarrow> 's \<Rightarrow> (32, 32) store \<Rightarrow>
   ('s \<times> (32, 32) store \<times> nat option) option" where
  "sha1_ctx_mgr_flush_avx512_ni mb_submit mb_flush =
     ctx_mgr_flush sha1_alg 0 mb_submit mb_flush"

section \<open>aarch64\<close>

text \<open>\<open>sha1_mb/aarch64/sha1_mb_mgr_ce.c\<close>.\<close>

definition sha1_mb_mgr_init_ce ::
  "32 lane_mgr" where
  "sha1_mb_mgr_init_ce = mgr_init 2 16"

definition sha1_mb_mgr_do_jobs_ce ::
  "32 kernel \<Rightarrow> (32, 32, 32) do_jobs_fun" where
  "sha1_mb_mgr_do_jobs_ce kern = do_jobs_ce 2 2 kern"

definition sha1_mb_mgr_free_lane_ce ::
  "32 lane_mgr \<Rightarrow> (32, 32) store \<Rightarrow> 32 lane_mgr \<times> (32, 32) store \<times> nat option" where
  "sha1_mb_mgr_free_lane_ce = free_lane 2"

definition sha1_mb_mgr_insert_job_ce ::
  "32 lane_mgr \<Rightarrow> (32, 32) store \<Rightarrow> nat \<Rightarrow> 32 lane_mgr" where
  "sha1_mb_mgr_insert_job_ce = insert_job"

definition sha1_mb_mgr_submit_ce ::
  "32 kernel \<Rightarrow> (32 lane_mgr, 32, 32) job_submit_fun" where
  "sha1_mb_mgr_submit_ce kern = mgr_submit 2 2 (sha1_mb_mgr_do_jobs_ce kern)"

definition sha1_mb_mgr_flush_ce ::
  "32 kernel \<Rightarrow> (32 lane_mgr, 32, 32) job_flush_fun" where
  "sha1_mb_mgr_flush_ce kern = mgr_flush 2 (sha1_mb_mgr_do_jobs_ce kern)"

text \<open>\<open>sha1_mb/aarch64/sha1_ctx_ce.c\<close>.\<close>

definition sha1_hash_pad_ce ::
  "byte list \<Rightarrow> u64 \<Rightarrow> byte list \<times> u32" where
  "sha1_hash_pad_ce =
     hash_pad sha1_alg 0"

definition sha1_ctx_mgr_resubmit_ce ::
  "32 kernel \<Rightarrow> 32 lane_mgr \<Rightarrow> (32, 32) store \<Rightarrow> nat option \<Rightarrow>
   (32 lane_mgr \<times> (32, 32) store \<times> nat option) option" where
  "sha1_ctx_mgr_resubmit_ce kern =
     ctx_mgr_resubmit sha1_alg 0 (sha1_mb_mgr_submit_ce kern)"

definition sha1_ctx_mgr_submit_ce ::
  "32 kernel \<Rightarrow> 32 lane_mgr \<Rightarrow> (32, 32) store \<Rightarrow> nat \<Rightarrow> byte list \<Rightarrow> u32 \<Rightarrow> u32 \<Rightarrow>
   (32 lane_mgr \<times> (32, 32) store \<times> nat option) option" where
  "sha1_ctx_mgr_submit_ce kern =
     ctx_mgr_submit sha1_alg 0 (sha1_mb_mgr_submit_ce kern)"

definition sha1_ctx_mgr_flush_ce ::
  "32 kernel \<Rightarrow> 32 lane_mgr \<Rightarrow> (32, 32) store \<Rightarrow>
   (32 lane_mgr \<times> (32, 32) store \<times> nat option) option" where
  "sha1_ctx_mgr_flush_ce kern =
     ctx_mgr_flush sha1_alg 0 (sha1_mb_mgr_submit_ce kern) (sha1_mb_mgr_flush_ce kern)"

text \<open>\<open>sha1_mb/aarch64/sha1_mb_mgr_asimd.c\<close>.\<close>

definition sha1_mb_mgr_init_asimd ::
  "32 lane_mgr" where
  "sha1_mb_mgr_init_asimd = mgr_init 4 16"

definition sha1_mb_mgr_do_jobs_asimd ::
  "32 kernel \<Rightarrow> (32, 32, 32) do_jobs_fun" where
  "sha1_mb_mgr_do_jobs_asimd kern = do_jobs_sha1_asimd 2 kern"

definition sha1_mb_mgr_free_lane_asimd ::
  "32 lane_mgr \<Rightarrow> (32, 32) store \<Rightarrow> 32 lane_mgr \<times> (32, 32) store \<times> nat option" where
  "sha1_mb_mgr_free_lane_asimd = free_lane 4"

definition sha1_mb_mgr_insert_job_asimd ::
  "32 lane_mgr \<Rightarrow> (32, 32) store \<Rightarrow> nat \<Rightarrow> 32 lane_mgr" where
  "sha1_mb_mgr_insert_job_asimd = insert_job"

definition sha1_mb_mgr_submit_asimd ::
  "32 kernel \<Rightarrow> (32 lane_mgr, 32, 32) job_submit_fun" where
  "sha1_mb_mgr_submit_asimd kern = mgr_submit 4 4 (sha1_mb_mgr_do_jobs_asimd kern)"

definition sha1_mb_mgr_flush_asimd ::
  "32 kernel \<Rightarrow> (32 lane_mgr, 32, 32) job_flush_fun" where
  "sha1_mb_mgr_flush_asimd kern = mgr_flush 4 (sha1_mb_mgr_do_jobs_asimd kern)"

text \<open>\<open>sha1_mb/aarch64/sha1_ctx_asimd.c\<close>.\<close>

definition sha1_hash_pad_asimd ::
  "byte list \<Rightarrow> u64 \<Rightarrow> byte list \<times> u32" where
  "sha1_hash_pad_asimd =
     hash_pad sha1_alg 0"

definition sha1_ctx_mgr_resubmit_asimd ::
  "32 kernel \<Rightarrow> 32 lane_mgr \<Rightarrow> (32, 32) store \<Rightarrow> nat option \<Rightarrow>
   (32 lane_mgr \<times> (32, 32) store \<times> nat option) option" where
  "sha1_ctx_mgr_resubmit_asimd kern =
     ctx_mgr_resubmit sha1_alg 0 (sha1_mb_mgr_submit_asimd kern)"

definition sha1_ctx_mgr_submit_asimd ::
  "32 kernel \<Rightarrow> 32 lane_mgr \<Rightarrow> (32, 32) store \<Rightarrow> nat \<Rightarrow> byte list \<Rightarrow> u32 \<Rightarrow> u32 \<Rightarrow>
   (32 lane_mgr \<times> (32, 32) store \<times> nat option) option" where
  "sha1_ctx_mgr_submit_asimd kern =
     ctx_mgr_submit sha1_alg 0 (sha1_mb_mgr_submit_asimd kern)"

definition sha1_ctx_mgr_flush_asimd ::
  "32 kernel \<Rightarrow> 32 lane_mgr \<Rightarrow> (32, 32) store \<Rightarrow>
   (32 lane_mgr \<times> (32, 32) store \<times> nat option) option" where
  "sha1_ctx_mgr_flush_asimd kern =
     ctx_mgr_flush sha1_alg 0 (sha1_mb_mgr_submit_asimd kern) (sha1_mb_mgr_flush_asimd kern)"

section \<open>The schedulers keep the laws\<close>

text \<open>
  For any kernels that hash, and so for the compression function itself. A job of
  fewer than 2^25 blocks is below 2^31 bytes, so the \<open>int\<close> the code keeps the least length in
  stays positive and counts the bytes the job's pointer moves on without an overflow.
\<close>

lemma sha1_ce_layout:
  "lane_layout TYPE(32) TYPE(32) sha1_alg 2 2 16 (2 ^ 25)"
  by (intro lane_layout.intro lane_layout_axioms.intro sha1.hash_algorithm_axioms) (simp_all add: sha1_alg_def)

lemma sha1_ce_scheduler:
  assumes "kernel_ok sha1_alg kern"
  shows "lane_scheduler sha1_alg 2 2 16 (2 ^ 25) (sha1_mb_mgr_do_jobs_ce kern)"
proof -
  have "16 * 2 ^ 2 = block_size sha1_alg" by (simp add: sha1_alg_def)
  from lane_schedulers(1)[OF assms(1) this sha1_ce_layout]
  show ?thesis by (simp only: sha1_mb_mgr_do_jobs_ce_def)
qed

interpretation sha1_ce: lane_scheduler sha1_alg 2 2 16 "2 ^ 25"
  "sha1_mb_mgr_do_jobs_ce (ref_kernel sha1_alg)"
  by (rule sha1_ce_scheduler) simp_all

lemma sha1_asimd_layout:
  "lane_layout TYPE(32) TYPE(32) sha1_alg 4 4 16 (2 ^ 25)"
  by (intro lane_layout.intro lane_layout_axioms.intro sha1.hash_algorithm_axioms) (simp_all add: sha1_alg_def)

lemma sha1_asimd_scheduler:
  assumes "kernel_ok sha1_alg kern"
  shows "lane_scheduler sha1_alg 4 4 16 (2 ^ 25) (sha1_mb_mgr_do_jobs_asimd kern)"
proof -
  have "16 * 2 ^ 2 = block_size sha1_alg" by (simp add: sha1_alg_def)
  from lane_schedulers(4)[OF assms(1) this sha1_asimd_layout, OF refl]
  show ?thesis by (simp only: sha1_mb_mgr_do_jobs_asimd_def)
qed

interpretation sha1_asimd: lane_scheduler sha1_alg 4 4 16 "2 ^ 25"
  "sha1_mb_mgr_do_jobs_asimd (ref_kernel sha1_alg)"
  by (rule sha1_asimd_scheduler) simp_all

end
