(* ===== verification/Md5.thy ===== *)
theory Md5
  imports Rounds
begin

text \<open>
  MD5, \<open>md5_mb/md5_ctx_base.c\<close> (and \<open>md5_ref.c\<close>, which repeats it). There is no message
  schedule: the macro \<open>step\<close> gets the message word, the constant and the rotation as literal
  arguments of its 64 calls. The message length is stored little-endian.
\<close>

section \<open>The compression function\<close>

definition md5_F1 :: "u32 \<Rightarrow> u32 \<Rightarrow> u32 \<Rightarrow> u32" where
  "md5_F1 b c d = d XOR (b AND (c XOR d))"

definition md5_F2 :: "u32 \<Rightarrow> u32 \<Rightarrow> u32 \<Rightarrow> u32" where
  "md5_F2 b c d = c XOR (d AND (b XOR c))"

definition md5_F3 :: "u32 \<Rightarrow> u32 \<Rightarrow> u32 \<Rightarrow> u32" where
  "md5_F3 b c d = b XOR c XOR d"

definition md5_F4 :: "u32 \<Rightarrow> u32 \<Rightarrow> u32 \<Rightarrow> u32" where
  "md5_F4 b c d = c XOR (b OR NOT d)"

text \<open>The last three arguments of the calls: constant, word index, rotation.\<close>

definition md5_calls :: "(u32 \<times> nat \<times> nat) list" where
  "md5_calls = concat
     [[(0xd76aa478, 0, 7), (0xe8c7b756, 1, 12), (0x242070db, 2, 17), (0xc1bdceee, 3, 22)],
      [(0xf57c0faf, 4, 7), (0x4787c62a, 5, 12), (0xa8304613, 6, 17), (0xfd469501, 7, 22)],
      [(0x698098d8, 8, 7), (0x8b44f7af, 9, 12), (0xffff5bb1, 10, 17), (0x895cd7be, 11, 22)],
      [(0x6b901122, 12, 7), (0xfd987193, 13, 12), (0xa679438e, 14, 17), (0x49b40821, 15, 22)],
      [(0xf61e2562, 1, 5), (0xc040b340, 6, 9), (0x265e5a51, 11, 14), (0xe9b6c7aa, 0, 20)],
      [(0xd62f105d, 5, 5), (0x02441453, 10, 9), (0xd8a1e681, 15, 14), (0xe7d3fbc8, 4, 20)],
      [(0x21e1cde6, 9, 5), (0xc33707d6, 14, 9), (0xf4d50d87, 3, 14), (0x455a14ed, 8, 20)],
      [(0xa9e3e905, 13, 5), (0xfcefa3f8, 2, 9), (0x676f02d9, 7, 14), (0x8d2a4c8a, 12, 20)],
      [(0xfffa3942, 5, 4), (0x8771f681, 8, 11), (0x6d9d6122, 11, 16), (0xfde5380c, 14, 23)],
      [(0xa4beea44, 1, 4), (0x4bdecfa9, 4, 11), (0xf6bb4b60, 7, 16), (0xbebfbc70, 10, 23)],
      [(0x289b7ec6, 13, 4), (0xeaa127fa, 0, 11), (0xd4ef3085, 3, 16), (0x04881d05, 6, 23)],
      [(0xd9d4d039, 9, 4), (0xe6db99e5, 12, 11), (0x1fa27cf8, 15, 16), (0xc4ac5665, 2, 23)],
      [(0xf4292244, 0, 6), (0x432aff97, 7, 10), (0xab9423a7, 14, 15), (0xfc93a039, 5, 21)],
      [(0x655b59c3, 12, 6), (0x8f0ccc92, 3, 10), (0xffeff47d, 10, 15), (0x85845dd1, 1, 21)],
      [(0x6fa87e4f, 8, 6), (0xfe2ce6e0, 15, 10), (0xa3014314, 6, 15), (0x4e0811a1, 13, 21)],
      [(0xf7537e82, 4, 6), (0xbd3af235, 11, 10), (0x2ad7d2bb, 2, 15), (0xeb86d391, 9, 21)]]"

definition md5_step :: "byte list \<Rightarrow> nat \<Rightarrow> u32 list \<Rightarrow> u32 list" where
  "md5_step data i v =
     (let (k, wi, r) = md5_calls ! i;
          a = v ! role 4 0 i; b = v ! role 4 1 i; c = v ! role 4 2 i; d = v ! role 4 3 i;
          f = (if i < 16 then md5_F1 b c d
               else if i < 32 then md5_F2 b c d
               else if i < 48 then md5_F3 b c d
               else md5_F4 b c d);
          f = a + f + k + to_le32 (ld32 data wi)
      in v[role 4 0 i := b + rol32 f r])"

definition md5_single :: "byte list \<Rightarrow> u32 list \<Rightarrow> u32 list" where
  "md5_single data dgst = map2 (+) dgst (fold (md5_step data) [0..<64] dgst)"

definition md5_initial_digest :: "u32 list" where
  "md5_initial_digest = [0x67452301, 0xefcdab89, 0x98badcfe, 0x10325476]"

definition md5_alg :: "32 hash_alg" where
  "md5_alg =
     \<lparr>block_size = 64, log2_block_size = 6, pad_field_size = 8,
      initial_digest = md5_initial_digest, single = md5_single,
      len_field = (\<lambda>n. store_le 8 (to_le64 n)), output_digest = (\<lambda>d. d)\<rparr>"

interpretation md5: hash_algorithm md5_alg
  by unfold_locales (simp_all add: md5_alg_def)

section \<open>The portable operations\<close>

type_synonym md5_ctx = "(32, 32) hash_ctx"

definition md5_init :: "md5_ctx \<Rightarrow> md5_ctx" where
  "md5_init = base_init md5_alg"

definition md5_update :: "md5_ctx \<Rightarrow> byte list \<Rightarrow> u32 \<Rightarrow> md5_ctx" where
  "md5_update = base_update md5_alg"

definition md5_final :: "md5_ctx \<Rightarrow> md5_ctx" where
  "md5_final = base_final md5_alg"

definition md5_ctx_mgr_submit_base :: "md5_ctx \<Rightarrow> byte list \<Rightarrow> u32 \<Rightarrow> u32 \<Rightarrow> md5_ctx" where
  "md5_ctx_mgr_submit_base = base_submit md5_alg"

definition md5_ctx_mgr_flush_base :: "md5_ctx option" where
  "md5_ctx_mgr_flush_base = base_flush"

text \<open>\<open>md5_mb/md5_ref.c\<close>, with its own copy of the compression function.\<close>

definition md5_ref_single :: "byte list \<Rightarrow> 32 word list \<Rightarrow> 32 word list" where
  "md5_ref_single = md5_single"

definition md5_ref :: "byte list \<Rightarrow> u32 \<Rightarrow> u32 list" where
  "md5_ref = ref_hash (md5_alg\<lparr>single := md5_ref_single\<rparr>)"

lemma md5_ref_eq: "md5_ref = ref_hash md5_alg"
  by (simp add: md5_ref_def md5_ref_single_def md5_alg_def)

section \<open>Agreement with RFC 1321\<close>

definition rfc_F :: "nat \<Rightarrow> u32 \<Rightarrow> u32 \<Rightarrow> u32 \<Rightarrow> u32" where
  "rfc_F i x y z =
     (if i < 16 then (x AND y) OR (NOT x AND z)
      else if i < 32 then (x AND z) OR (y AND NOT z)
      else if i < 48 then x XOR y XOR z
      else y XOR (x OR NOT z))"

definition rfc_word :: "nat \<Rightarrow> nat" where
  "rfc_word i =
     (if i < 16 then i
      else if i < 32 then (5 * i + 1) mod 16
      else if i < 48 then (3 * i + 5) mod 16
      else 7 * i mod 16)"

definition rfc_shift :: "nat \<Rightarrow> nat" where
  "rfc_shift i =
     [[7, 12, 17, 22], [5, 9, 14, 20], [4, 11, 16, 23], [6, 10, 15, 21]] ! (i div 16) ! (i mod 4)"

type_synonym md5_regs = "u32 \<times> u32 \<times> u32 \<times> u32"

text \<open>One operation \<open>[abcd k s i]\<close> of the standard, and the renaming that follows it.\<close>

definition rfc_round :: "byte list \<Rightarrow> nat \<Rightarrow> md5_regs \<Rightarrow> md5_regs" where
  "rfc_round data i = (\<lambda>(a, b, c, d).
     (d, b + word_rotl (rfc_shift i)
           (a + rfc_F i b c d + load_le (take 4 (drop (4 * rfc_word i) data)) + fst (md5_calls ! i)),
      b, c))"

primrec rfc_rounds :: "byte list \<Rightarrow> nat \<Rightarrow> md5_regs \<Rightarrow> md5_regs" where
  "rfc_rounds data 0 s = s"
| "rfc_rounds data (Suc i) s = rfc_round data i (rfc_rounds data i s)"

definition rfc_compress :: "byte list \<Rightarrow> u32 list \<Rightarrow> u32 list" where
  "rfc_compress data H =
     (let (a, b, c, d) = rfc_rounds data 64 (H ! 0, H ! 1, H ! 2, H ! 3)
      in [H ! 0 + a, H ! 1 + b, H ! 2 + c, H ! 3 + d])"

lemma md5_F_rfc:
  "(if i < 16 then md5_F1 b c d else if i < 32 then md5_F2 b c d
    else if i < 48 then md5_F3 b c d else md5_F4 b c d) = rfc_F i b c d"
  by (auto simp: rfc_F_def md5_F1_def md5_F2_def md5_F3_def md5_F4_def bit_simps
      intro!: bit_word_eqI)

text \<open>The literal arguments of the calls follow the index and shift formulas of the standard.\<close>

lemma md5_calls_all:
  "length md5_calls = 64" "map snd md5_calls = map (\<lambda>i. (rfc_word i, rfc_shift i)) [0..<64]"
  by code_simp+

lemma md5_calls_nth: "i < 64 \<Longrightarrow> snd (md5_calls ! i) = (rfc_word i, rfc_shift i)"
  using arg_cong[OF md5_calls_all(2), of "\<lambda>xs. xs ! i"] by (simp add: md5_calls_all(1))

lemma rfc_shift_bounds: "i < 64 \<Longrightarrow> 0 < rfc_shift i \<and> rfc_shift i < 32"
proof -
  assume "i < 64"
  moreover have "\<forall>i\<in>set [0..<64]. 0 < rfc_shift i \<and> rfc_shift i < 32" by code_simp
  ultimately show ?thesis by simp
qed

lemma length_md5_step [simp]: "length (md5_step data i v) = length v"
  by (simp add: md5_step_def Let_def split: prod.splits)

definition md5_regs_of :: "u32 list \<Rightarrow> md5_regs" where
  "md5_regs_of v = (v ! 0, v ! 1, v ! 2, v ! 3)"

lemma md5_step_round:
  assumes "length v = 4" "i < 64"
  shows "md5_regs_of (unrot 4 (Suc i) (md5_step data i v))
    = rfc_round data i (md5_regs_of (unrot 4 i v))"
proof -
  obtain a b c d where u: "unrot 4 i v = [a, b, c, d]"
    by (rule list4E[OF length_unrot])
  have v: "v ! role 4 r i = [a, b, c, d] ! r" if "r < 4" for r
    using nth_unrot[of r 4 i v] that u by simp
  obtain k where k: "md5_calls ! i = (k, rfc_word i, rfc_shift i)"
    using md5_calls_nth[OF assms(2)] by (cases "md5_calls ! i") simp
  show ?thesis
    using rfc_shift_bounds[OF assms(2)]
    by (simp add: md5_step_def k Let_def unrot_Suc unrot_update assms(1) u v md5_F_rfc
        md5_regs_of_def rfc_round_def rol32_rotl to_le32_def ld32_def add.assoc add.commute[of k])
qed

lemma md5_fold:
  assumes "length H = 4" "n \<le> 64"
  shows "length (fold (md5_step data) [0..<n] H) = 4 \<and>
    md5_regs_of (unrot 4 n (fold (md5_step data) [0..<n] H)) = rfc_rounds data n (md5_regs_of H)"
  using assms(2) by (induction n) (simp_all add: assms(1) unrot_home md5_step_round)

theorem md5_single_rfc:
  assumes "length H = 4"
  shows "md5_single data H = rfc_compress data H"
proof -
  let ?v = "fold (md5_step data) [0..<64] H"
  have v: "length ?v = 4" "md5_regs_of ?v = rfc_rounds data 64 (md5_regs_of H)"
    using md5_fold[OF assms, of 64 data] by (auto simp: unrot_home)
  obtain a b c d where abcd: "?v = [a, b, c, d]" by (rule list4E[OF v(1)])
  obtain p q r s where H: "H = [p, q, r, s]" by (rule list4E[OF assms])
  have "rfc_rounds data 64 (p, q, r, s) = (a, b, c, d)"
    using v(2) by (simp add: abcd) (simp add: md5_regs_of_def H)
  then show ?thesis
    unfolding md5_single_def abcd by (simp add: rfc_compress_def H)
qed

lemma length_md5_single [simp]: "length H = 4 \<Longrightarrow> length (md5_single data H) = 4"
  using md5_fold[of H 64 data] by (simp add: md5_single_def)

text \<open>The hash the standard defines: its padding, and its compression function block by block.\<close>

definition rfc_md5 :: "byte list \<Rightarrow> u32 list" where
  "rfc_md5 m = md_hash (md5_alg\<lparr>single := rfc_compress\<rparr>) m"

lemma md5_hash_rfc: "md_hash md5_alg m = rfc_md5 m"
  unfolding rfc_md5_def
proof (rule md_hash_cong[where k = 4])
  show "length (initial_digest md5_alg) = 4" by (simp add: md5_alg_def md5_initial_digest_def)
  fix xs :: "byte list" and d :: "u32 list" assume "length d = 4"
  then show "single md5_alg xs d = rfc_compress xs d \<and> length (rfc_compress xs d) = 4"
    using md5_single_rfc[of d xs] by (simp add: md5_alg_def) (simp add: rfc_compress_def split: prod.splits)
qed

end
