(* ===== verification/Md5Ctx.thy ===== *)
theory Md5Ctx
  imports Md5 LaneReach
begin

text \<open>
  MD5 in the context layers of the architectures: the functions of every
  \<open>md5_mb/md5_ctx_<arch>.c\<close> are the ones of \<open>CtxMgr\<close> over the algorithm's constants. On x86
  the scheduler is assembly and is an argument; on aarch64 it is the C code of \<open>LaneMgr\<close>
  over the kernels, which are assembly and the argument \<open>kern\<close>.
\<close>

section \<open>x86\<close>

text \<open>\<open>md5_mb/md5_ctx_sse.c\<close>.\<close>

definition md5_hash_pad_sse ::
  "byte list \<Rightarrow> u64 \<Rightarrow> byte list \<times> u32" where
  "md5_hash_pad_sse =
     hash_pad md5_alg 0"

definition md5_ctx_mgr_resubmit_sse ::
  "('s, 32, 32) job_submit_fun \<Rightarrow> 's \<Rightarrow> (32, 32) store \<Rightarrow> nat option \<Rightarrow>
   ('s \<times> (32, 32) store \<times> nat option) option" where
  "md5_ctx_mgr_resubmit_sse mb_submit =
     ctx_mgr_resubmit md5_alg 0 mb_submit"

definition md5_ctx_mgr_submit_sse ::
  "('s, 32, 32) job_submit_fun \<Rightarrow> 's \<Rightarrow> (32, 32) store \<Rightarrow> nat \<Rightarrow> byte list \<Rightarrow> u32 \<Rightarrow> u32 \<Rightarrow>
   ('s \<times> (32, 32) store \<times> nat option) option" where
  "md5_ctx_mgr_submit_sse mb_submit =
     ctx_mgr_submit md5_alg 0 mb_submit"

definition md5_ctx_mgr_flush_sse ::
  "('s, 32, 32) job_submit_fun \<Rightarrow> ('s, 32, 32) job_flush_fun \<Rightarrow> 's \<Rightarrow> (32, 32) store \<Rightarrow>
   ('s \<times> (32, 32) store \<times> nat option) option" where
  "md5_ctx_mgr_flush_sse mb_submit mb_flush =
     ctx_mgr_flush md5_alg 0 mb_submit mb_flush"

text \<open>\<open>md5_mb/md5_ctx_avx.c\<close>.\<close>

definition md5_hash_pad_avx ::
  "byte list \<Rightarrow> u64 \<Rightarrow> byte list \<times> u32" where
  "md5_hash_pad_avx =
     hash_pad md5_alg 0"

definition md5_ctx_mgr_resubmit_avx ::
  "('s, 32, 32) job_submit_fun \<Rightarrow> 's \<Rightarrow> (32, 32) store \<Rightarrow> nat option \<Rightarrow>
   ('s \<times> (32, 32) store \<times> nat option) option" where
  "md5_ctx_mgr_resubmit_avx mb_submit =
     ctx_mgr_resubmit md5_alg 0 mb_submit"

definition md5_ctx_mgr_submit_avx ::
  "('s, 32, 32) job_submit_fun \<Rightarrow> 's \<Rightarrow> (32, 32) store \<Rightarrow> nat \<Rightarrow> byte list \<Rightarrow> u32 \<Rightarrow> u32 \<Rightarrow>
   ('s \<times> (32, 32) store \<times> nat option) option" where
  "md5_ctx_mgr_submit_avx mb_submit =
     ctx_mgr_submit md5_alg 0 mb_submit"

definition md5_ctx_mgr_flush_avx ::
  "('s, 32, 32) job_submit_fun \<Rightarrow> ('s, 32, 32) job_flush_fun \<Rightarrow> 's \<Rightarrow> (32, 32) store \<Rightarrow>
   ('s \<times> (32, 32) store \<times> nat option) option" where
  "md5_ctx_mgr_flush_avx mb_submit mb_flush =
     ctx_mgr_flush md5_alg 0 mb_submit mb_flush"

text \<open>\<open>md5_mb/md5_ctx_avx2.c\<close>.\<close>

definition md5_hash_pad_avx2 ::
  "byte list \<Rightarrow> u64 \<Rightarrow> byte list \<times> u32" where
  "md5_hash_pad_avx2 =
     hash_pad md5_alg 0"

definition md5_ctx_mgr_resubmit_avx2 ::
  "('s, 32, 32) job_submit_fun \<Rightarrow> 's \<Rightarrow> (32, 32) store \<Rightarrow> nat option \<Rightarrow>
   ('s \<times> (32, 32) store \<times> nat option) option" where
  "md5_ctx_mgr_resubmit_avx2 mb_submit =
     ctx_mgr_resubmit md5_alg 0 mb_submit"

definition md5_ctx_mgr_submit_avx2 ::
  "('s, 32, 32) job_submit_fun \<Rightarrow> 's \<Rightarrow> (32, 32) store \<Rightarrow> nat \<Rightarrow> byte list \<Rightarrow> u32 \<Rightarrow> u32 \<Rightarrow>
   ('s \<times> (32, 32) store \<times> nat option) option" where
  "md5_ctx_mgr_submit_avx2 mb_submit =
     ctx_mgr_submit md5_alg 0 mb_submit"

definition md5_ctx_mgr_flush_avx2 ::
  "('s, 32, 32) job_submit_fun \<Rightarrow> ('s, 32, 32) job_flush_fun \<Rightarrow> 's \<Rightarrow> (32, 32) store \<Rightarrow>
   ('s \<times> (32, 32) store \<times> nat option) option" where
  "md5_ctx_mgr_flush_avx2 mb_submit mb_flush =
     ctx_mgr_flush md5_alg 0 mb_submit mb_flush"

text \<open>\<open>md5_mb/md5_ctx_avx512.c\<close>.\<close>

definition md5_hash_pad_avx512 ::
  "byte list \<Rightarrow> u64 \<Rightarrow> byte list \<times> u32" where
  "md5_hash_pad_avx512 =
     hash_pad md5_alg 0"

definition md5_ctx_mgr_resubmit_avx512 ::
  "('s, 32, 32) job_submit_fun \<Rightarrow> 's \<Rightarrow> (32, 32) store \<Rightarrow> nat option \<Rightarrow>
   ('s \<times> (32, 32) store \<times> nat option) option" where
  "md5_ctx_mgr_resubmit_avx512 mb_submit =
     ctx_mgr_resubmit md5_alg 0 mb_submit"

definition md5_ctx_mgr_submit_avx512 ::
  "('s, 32, 32) job_submit_fun \<Rightarrow> 's \<Rightarrow> (32, 32) store \<Rightarrow> nat \<Rightarrow> byte list \<Rightarrow> u32 \<Rightarrow> u32 \<Rightarrow>
   ('s \<times> (32, 32) store \<times> nat option) option" where
  "md5_ctx_mgr_submit_avx512 mb_submit =
     ctx_mgr_submit md5_alg 0 mb_submit"

definition md5_ctx_mgr_flush_avx512 ::
  "('s, 32, 32) job_submit_fun \<Rightarrow> ('s, 32, 32) job_flush_fun \<Rightarrow> 's \<Rightarrow> (32, 32) store \<Rightarrow>
   ('s \<times> (32, 32) store \<times> nat option) option" where
  "md5_ctx_mgr_flush_avx512 mb_submit mb_flush =
     ctx_mgr_flush md5_alg 0 mb_submit mb_flush"

section \<open>aarch64\<close>

text \<open>\<open>md5_mb/aarch64/md5_mb_mgr_aarch64_asimd.c\<close>.\<close>

definition md5_mb_mgr_init_asimd ::
  "32 lane_mgr" where
  "md5_mb_mgr_init_asimd = mgr_init 4 32"

definition md5_mb_mgr_do_jobs_asimd ::
  "32 kernel \<Rightarrow> (32, 32, 32) do_jobs_fun" where
  "md5_mb_mgr_do_jobs_asimd kern = do_jobs_asimd 2 kern"

definition md5_mb_mgr_free_lane_asimd ::
  "32 lane_mgr \<Rightarrow> (32, 32) store \<Rightarrow> 32 lane_mgr \<times> (32, 32) store \<times> nat option" where
  "md5_mb_mgr_free_lane_asimd = free_lane 4"

definition md5_mb_mgr_insert_job_asimd ::
  "32 lane_mgr \<Rightarrow> (32, 32) store \<Rightarrow> nat \<Rightarrow> 32 lane_mgr" where
  "md5_mb_mgr_insert_job_asimd = insert_job"

definition md5_mb_mgr_submit_asimd ::
  "32 kernel \<Rightarrow> (32 lane_mgr, 32, 32) job_submit_fun" where
  "md5_mb_mgr_submit_asimd kern = mgr_submit 4 4 (md5_mb_mgr_do_jobs_asimd kern)"

definition md5_mb_mgr_flush_asimd ::
  "32 kernel \<Rightarrow> (32 lane_mgr, 32, 32) job_flush_fun" where
  "md5_mb_mgr_flush_asimd kern = mgr_flush 4 (md5_mb_mgr_do_jobs_asimd kern)"

text \<open>\<open>md5_mb/aarch64/md5_ctx_aarch64_asimd.c\<close>.\<close>

definition md5_hash_pad_asimd ::
  "byte list \<Rightarrow> u64 \<Rightarrow> byte list \<times> u32" where
  "md5_hash_pad_asimd =
     hash_pad md5_alg 0"

definition md5_ctx_mgr_resubmit_asimd ::
  "32 kernel \<Rightarrow> 32 lane_mgr \<Rightarrow> (32, 32) store \<Rightarrow> nat option \<Rightarrow>
   (32 lane_mgr \<times> (32, 32) store \<times> nat option) option" where
  "md5_ctx_mgr_resubmit_asimd kern =
     ctx_mgr_resubmit md5_alg 0 (md5_mb_mgr_submit_asimd kern)"

definition md5_ctx_mgr_submit_asimd ::
  "32 kernel \<Rightarrow> 32 lane_mgr \<Rightarrow> (32, 32) store \<Rightarrow> nat \<Rightarrow> byte list \<Rightarrow> u32 \<Rightarrow> u32 \<Rightarrow>
   (32 lane_mgr \<times> (32, 32) store \<times> nat option) option" where
  "md5_ctx_mgr_submit_asimd kern =
     ctx_mgr_submit md5_alg 0 (md5_mb_mgr_submit_asimd kern)"

definition md5_ctx_mgr_flush_asimd ::
  "32 kernel \<Rightarrow> 32 lane_mgr \<Rightarrow> (32, 32) store \<Rightarrow>
   (32 lane_mgr \<times> (32, 32) store \<times> nat option) option" where
  "md5_ctx_mgr_flush_asimd kern =
     ctx_mgr_flush md5_alg 0 (md5_mb_mgr_submit_asimd kern) (md5_mb_mgr_flush_asimd kern)"

section \<open>The schedulers keep the laws\<close>

text \<open>
  For any kernels that hash, and so for the compression function itself. A job of
  fewer than 2^25 blocks is below 2^31 bytes, so the \<open>int\<close> the code keeps the least length in
  stays positive and counts the bytes the job's pointer moves on without an overflow.
\<close>

lemma md5_asimd_layout:
  "lane_layout TYPE(32) TYPE(32) md5_alg 4 4 32 (2 ^ 25)"
  by (intro lane_layout.intro lane_layout_axioms.intro md5.hash_algorithm_axioms) (simp_all add: md5_alg_def)

lemma md5_asimd_scheduler:
  assumes "kernel_ok md5_alg kern"
  shows "lane_scheduler md5_alg 4 4 32 (2 ^ 25) (md5_mb_mgr_do_jobs_asimd kern)"
proof -
  have "16 * 2 ^ 2 = block_size md5_alg" by (simp add: md5_alg_def)
  from lane_schedulers(3)[OF assms(1) this md5_asimd_layout, OF refl]
  show ?thesis by (simp only: md5_mb_mgr_do_jobs_asimd_def)
qed

interpretation md5_asimd: lane_scheduler md5_alg 4 4 32 "2 ^ 25"
  "md5_mb_mgr_do_jobs_asimd (ref_kernel md5_alg)"
  by (rule md5_asimd_scheduler) simp_all

end
