(* ===== verification/LaneTable.thy ===== *)
theory LaneTable
  imports Scheduler
begin

text \<open>
  What all schedulers that keep jobs in lanes have in common: a table of the occupied lanes, each
  with its job and the blocks left of it. Inserting a job, freeing a finished lane and running
  the kernels on some lanes keep the laws of a scheduler, however the code represents the table.
\<close>

section \<open>Tables\<close>

type_synonym lane_table = "nat \<Rightarrow> (nat \<times> nat) option"

definition tab_jobs :: "lane_table \<Rightarrow> nat set" where
  "tab_jobs t = fst ` ran t"

definition tab_work :: "lane_table \<Rightarrow> nat \<Rightarrow> nat" where
  "tab_work t j = (THE n. \<exists>i. t i = Some (j, n))"

text \<open>A job is in one lane, and its buffer has the blocks that are left.\<close>

definition tab_ok ::
  "'w::len hash_alg \<Rightarrow> nat \<Rightarrow> lane_table \<Rightarrow> ('w, 'l::len) store \<Rightarrow> bool" where
  "tab_ok A mx t st \<longleftrightarrow> finite (dom t) \<and>
     (\<forall>i j n. t i = Some (j, n) \<longrightarrow> n < mx \<and>
        n * block_size A \<le> length (buf_bytes (st j) (job_buffer (job (st j)))) \<and>
        (\<forall>k m. t k = Some (j, m) \<longrightarrow> k = i))"

text \<open>The digests the jobs in the table are to end with.\<close>

abbreviation tab_fin ::
  "'w::len hash_alg \<Rightarrow> lane_table \<Rightarrow> ('w, 'l::len) store \<Rightarrow> nat \<Rightarrow> 'w word list" where
  "tab_fin A t st \<equiv> \<lambda>j. job_result A st (tab_work t j) j"

lemma tab_jobs_iff: "j \<in> tab_jobs t \<longleftrightarrow> (\<exists>i n. t i = Some (j, n))"
  by (force simp: tab_jobs_def ran_def image_iff)

lemma tab_okD:
  assumes "tab_ok A mx t st" "t i = Some (j, n)"
  shows "n < mx" "n * block_size A \<le> length (buf_bytes (st j) (job_buffer (job (st j))))"
    "\<And>k m. t k = Some (j, m) \<Longrightarrow> k = i"
  using assms unfolding tab_ok_def by blast+

lemma tab_okI:
  assumes "finite (dom t)" "\<And>i j n. t i = Some (j, n) \<Longrightarrow> n < mx"
    "\<And>i j n. t i = Some (j, n) \<Longrightarrow> n * block_size A \<le> length (buf_bytes (st j) (job_buffer (job (st j))))"
    "\<And>i j n k m. t i = Some (j, n) \<Longrightarrow> t k = Some (j, m) \<Longrightarrow> k = i"
  shows "tab_ok A mx t st"
  unfolding tab_ok_def using assms by blast

lemma tab_work_eq:
  assumes "tab_ok A mx t st" "t i = Some (j, n)"
  shows "tab_work t j = n"
  unfolding tab_work_def
proof (rule the_equality)
  show "\<exists>i. t i = Some (j, n)" using assms(2) by blast
  fix m assume "\<exists>i. t i = Some (j, m)"
  then obtain k where "t k = Some (j, m)" by blast
  with tab_okD(3)[OF assms this] assms(2) show "m = n" by simp
qed

lemma tab_jobs_finite: "tab_ok A mx t st \<Longrightarrow> finite (tab_jobs t)"
  unfolding tab_jobs_def tab_ok_def by (auto intro: finite_ran)

lemma tab_ok_cong:
  assumes "tab_ok A mx t st"
    and "\<And>j. j \<in> tab_jobs t \<Longrightarrow> job (st' j) = job (st j) \<and> partial_block_buffer (st' j) = partial_block_buffer (st j)"
  shows "tab_ok A mx t st'"
proof (rule tab_okI)
  fix i j n assume i: "t i = Some (j, n)"
  then have "j \<in> tab_jobs t" unfolding tab_jobs_iff by blast
  from assms(2)[OF this] have "buf_bytes (st' j) (job_buffer (job (st' j))) = buf_bytes (st j) (job_buffer (job (st j)))"
    by (cases "job_buffer (job (st j))") simp_all
  then show "n * block_size A \<le> length (buf_bytes (st' j) (job_buffer (job (st' j))))"
    using tab_okD(2)[OF assms(1) i] by simp
qed (use assms(1) in \<open>auto simp: tab_ok_def\<close>)

section \<open>What the operations do to a table\<close>

lemma tab_insert:
  assumes ok: "tab_ok A mx t st" and x: "t x = None" and c: "c \<notin> tab_jobs t"
    and n: "n < mx" "n * block_size A \<le> length (buf_bytes (st c) (job_buffer (job (st c))))"
  defines "t' \<equiv> t(x \<mapsto> (c, n))"
  shows "tab_ok A mx t' st" "tab_jobs t' = insert c (tab_jobs t)"
    "tab_work t' c = n" "\<And>j. j \<in> tab_jobs t \<Longrightarrow> tab_work t' j = tab_work t j"
proof -
  have cn: "t i \<noteq> Some (c, m)" for i m using c by (auto simp: tab_jobs_iff)
  show ok': "tab_ok A mx t' st"
    using ok n cn unfolding tab_ok_def t'_def by (auto split: if_splits)
  show "tab_jobs t' = insert c (tab_jobs t)"
  proof (rule set_eqI)
    fix j
    have "t' i = Some (j, m) \<longleftrightarrow> i = x \<and> j = c \<and> m = n \<or> t i = Some (j, m)" for i m
      using x by (auto simp: t'_def)
    then show "j \<in> tab_jobs t' \<longleftrightarrow> j \<in> insert c (tab_jobs t)"
      unfolding insert_iff tab_jobs_iff by blast
  qed
  show "tab_work t' c = n" using tab_work_eq[OF ok', of x] by (simp add: t'_def)
  show "tab_work t' j = tab_work t j" if "j \<in> tab_jobs t" for j
  proof -
    from that obtain i m where i: "t i = Some (j, m)" by (auto simp: tab_jobs_iff)
    then have "t' i = Some (j, m)" using x by (auto simp: t'_def)
    then show ?thesis using tab_work_eq[OF ok i] tab_work_eq[OF ok'] by simp
  qed
qed

lemma tab_free:
  assumes ok: "tab_ok A mx t st" and i: "t i = Some (j, 0)"
  defines "t' \<equiv> t(i := None)"
    and "st' \<equiv> st(j := (st j)\<lparr>job := (job (st j))\<lparr>job_status := STS_COMPLETED\<rparr>\<rparr>)"
  shows "tab_ok A mx t' st'" "tab_jobs t' = tab_jobs t - {j}"
    "sched_post (tab_jobs t) (tab_fin A t st) st (tab_jobs t') (tab_fin A t' st') st' (Some j)"
proof -
  have bytes: "buf_bytes (st' k) p = buf_bytes (st k) p" "job_buffer (job (st' k)) = job_buffer (job (st k))"
    "digest (st' k) = digest (st k)" for k p
    by (cases p; simp add: st'_def)+
  show ok': "tab_ok A mx t' st'"
  proof (rule tab_okI)
    show "finite (dom t')" using ok by (simp add: tab_ok_def t'_def)
    fix l k m assume "t' l = Some (k, m)"
    then have l: "t l = Some (k, m)" by (simp add: t'_def split: if_splits)
    show "m < mx" "m * block_size A \<le> length (buf_bytes (st' k) (job_buffer (job (st' k))))"
      using tab_okD(1,2)[OF ok l] by (simp_all add: bytes)
    show "l' = l" if "t' l' = Some (k, m')" for l' m'
      using that tab_okD(3)[OF ok l] by (simp add: t'_def split: if_splits)
  qed
  show jobs: "tab_jobs t' = tab_jobs t - {j}"
  proof (rule set_eqI)
    fix k
    have "t' l = Some (k, m) \<longleftrightarrow> t l = Some (k, m) \<and> k \<noteq> j" for l m
      using i tab_okD(3)[OF ok i, of l m] by (auto simp: t'_def)
    then show "k \<in> tab_jobs t' \<longleftrightarrow> k \<in> tab_jobs t - {j}"
      unfolding Diff_iff tab_jobs_iff by blast
  qed
  have w: "tab_work t' k = tab_work t k" if "k \<in> tab_jobs t'" for k
  proof -
    from that obtain l m where l: "t' l = Some (k, m)" by (auto simp: tab_jobs_iff)
    then have "t l = Some (k, m)" by (auto simp: t'_def split: if_splits)
    then show ?thesis using tab_work_eq[OF ok] tab_work_eq[OF ok' l] by simp
  qed
  have "digest (st' j) = job_result A st (tab_work t j) j"
    using tab_work_eq[OF ok i] bytes(3)[of j] by (simp add: job_result_def)
  moreover have "j \<in> tab_jobs t" using i by (auto simp: tab_jobs_iff)
  moreover have "job_result A st' m k = job_result A st m k" for m k
    by (simp add: job_result_def bytes)
  moreover have "same_frame (st k) (st' k)" for k by (simp add: same_frame_def st'_def)
  moreover have "st' k = st k" if "k \<notin> tab_jobs t" for k
    using that \<open>j \<in> tab_jobs t\<close> by (auto simp: st'_def)
  ultimately show "sched_post (tab_jobs t) (tab_fin A t st) st (tab_jobs t') (tab_fin A t' st') st' (Some j)"
    unfolding sched_post_def jobs using w unfolding jobs by auto
qed

text \<open>A job whose kernel has run: \<open>n\<close> blocks are hashed and the pointer is behind them.\<close>

definition advanced ::
  "'w::len hash_alg \<Rightarrow> nat \<Rightarrow> ('w, 'l::len) hash_ctx \<Rightarrow> ('w, 'l) hash_ctx \<Rightarrow> bool" where
  "advanced A n a b \<longleftrightarrow> same_frame a b \<and>
     digest b = hash_nblocks (block_size A) (single A) n (buf_bytes a (job_buffer (job a))) (digest a) \<and>
     job_buffer (job b) = buf_add (job_buffer (job a)) (n * block_size A)"

definition tab_advance :: "nat set \<Rightarrow> nat \<Rightarrow> lane_table \<Rightarrow> lane_table" where
  "tab_advance P n t = (\<lambda>i. if i \<in> P then map_option (\<lambda>(j, m). (j, m - n)) (t i) else t i)"

definition store_advance ::
  "'w::len hash_alg \<Rightarrow> nat set \<Rightarrow> nat \<Rightarrow> lane_table \<Rightarrow> ('w, 'l::len) store \<Rightarrow> ('w, 'l) store \<Rightarrow> bool" where
  "store_advance A P n t st st' \<longleftrightarrow>
     (\<forall>j. if \<exists>i\<in>P. \<exists>m. t i = Some (j, m) then advanced A n (st j) (st' j) else st' j = st j)"

lemma tab_advance:
  assumes ok: "tab_ok A mx t st" and P: "\<And>i j m. i \<in> P \<Longrightarrow> t i = Some (j, m) \<Longrightarrow> n \<le> m"
    and st': "store_advance A P n t st st'"
  defines "t' \<equiv> tab_advance P n t"
  shows "tab_ok A mx t' st'" "tab_jobs t' = tab_jobs t"
    "sched_post (tab_jobs t) (tab_fin A t st) st (tab_jobs t') (tab_fin A t' st') st' None"
proof -
  have st'j: "if i \<in> P then advanced A n (st j) (st' j) else st' j = st j" if "t i = Some (j, m)" for i j m
  proof -
    have "(\<exists>k\<in>P. \<exists>m. t k = Some (j, m)) \<longleftrightarrow> i \<in> P" using tab_okD(3)[OF ok that] that by blast
    then show ?thesis using st'[unfolded store_advance_def, rule_format, of j] by (simp only:)
  qed
  have bytes: "buf_bytes b p = buf_bytes a p" if "same_frame a b" for a b :: "('a, 'b) hash_ctx" and p
    using same_frame_simps(6)[OF that] by (cases p) simp_all
  have t'D: "\<exists>m. t i = Some (j, m) \<and> k = (if i \<in> P then m - n else m)" if "t' i = Some (j, k)" for i j k
    using that by (auto simp: t'_def tab_advance_def split: if_splits)
  have len: "k * block_size A \<le> length (buf_bytes (st' j) (job_buffer (job (st' j)))) \<and>
      hash_nblocks (block_size A) (single A) k (buf_bytes (st' j) (job_buffer (job (st' j)))) (digest (st' j))
        = hash_nblocks (block_size A) (single A) m (buf_bytes (st j) (job_buffer (job (st j)))) (digest (st j))"
    if i: "t i = Some (j, m)" and k: "k = (if i \<in> P then m - n else m)" for i j k m
  proof (cases "i \<in> P")
    case True
    then have a: "advanced A n (st j) (st' j)" and le: "n \<le> m" using st'j[OF i] P i by auto
    note b = a[unfolded advanced_def]
    have "k + n = m" using True le k by simp
    moreover have "hash_nblocks (block_size A) (single A) (n + k) xs d =
      hash_nblocks (block_size A) (single A) k (drop (n * block_size A) xs) (hash_nblocks (block_size A) (single A) n xs d)" for xs d
      by (rule hash_nblocks_add)
    ultimately show ?thesis
      using b tab_okD(2)[OF ok i] by (auto simp: bytes diff_mult_distrib add.commute add_mult_distrib)
  next
    case False
    then show ?thesis using st'j[OF i] tab_okD(2)[OF ok i] k by simp
  qed
  show ok': "tab_ok A mx t' st'"
  proof (rule tab_okI)
    show "finite (dom t')"
      using ok by (auto simp: tab_ok_def t'_def tab_advance_def dom_def elim!: finite_subset[rotated] split: if_splits)
    fix i j k assume i: "t' i = Some (j, k)"
    from t'D[OF i] obtain m where m: "t i = Some (j, m)" "k = (if i \<in> P then m - n else m)" by blast
    show "k < mx" using tab_okD(1)[OF ok m(1)] m(2) by (auto split: if_splits)
    show "k * block_size A \<le> length (buf_bytes (st' j) (job_buffer (job (st' j))))" using len[OF m] ..
    show "l = i" if "t' l = Some (j, k')" for l k'
      using t'D[OF that] tab_okD(3)[OF ok m(1)] by blast
  qed
  have t'I: "t' i = Some (j, if i \<in> P then m - n else m)" if "t i = Some (j, m)" for i j m
    using that by (simp add: t'_def tab_advance_def)
  show jobs: "tab_jobs t' = tab_jobs t"
    unfolding set_eq_iff tab_jobs_iff using t'D t'I by blast
  have "job_result A st' (tab_work t' j) j = job_result A st (tab_work t j) j" if "j \<in> tab_jobs t" for j
  proof -
    from that obtain i m where i: "t i = Some (j, m)" by (auto simp: tab_jobs_iff)
    show ?thesis
      unfolding job_result_def tab_work_eq[OF ok i] tab_work_eq[OF ok' t'I[OF i]]
      using len[OF i refl] ..
  qed
  moreover have "same_frame (st j) (st' j)" for j
    using st'[unfolded store_advance_def, rule_format, of j] by (auto simp: advanced_def split: if_splits)
  moreover have "st' j = st j" if "j \<notin> tab_jobs t" for j
    using st'[unfolded store_advance_def, rule_format, of j] that by (auto simp: tab_jobs_iff split: if_splits)
  ultimately show "sched_post (tab_jobs t) (tab_fin A t st) st (tab_jobs t') (tab_fin A t' st') st' None"
    by (simp add: sched_post_def jobs)
qed

end
