(* ===== verification/SveMgr.thy ===== *)
theory SveMgr
  imports LaneKernels LaneTable ReadyScheduler Md5
begin

text \<open>
  The MD5 scheduler for SVE, \<open>md5_mb/aarch64/md5_mb_mgr_aarch64_sve.c\<close> (and \<open>_sve2.c\<close>, which
  repeats it). With up to 32 lanes, the free ones are kept in four stacks of eight, one byte
  each, and a length word has the lane in its low eight bits. \<open>vl\<close> is the number of lanes that
  \<open>md5_mb_sve_max_lanes\<close> reports for the machine; the kernels are assembly.
\<close>

section \<open>State and operations\<close>

record sve_mgr =
  sve_unused_lanes :: "u64 list"
  sve_lens :: "u32 list"
  sve_ldata :: "nat option list"
  sve_num_lanes_inuse :: u32

definition sve_is_not_finished :: "sve_mgr \<Rightarrow> nat \<Rightarrow> bool" where
  "sve_is_not_finished s i \<longleftrightarrow> sve_lens s ! i AND NOT 0xff \<noteq> 0 \<and> sve_ldata s ! i \<noteq> None"

definition sve_is_finished :: "sve_mgr \<Rightarrow> nat \<Rightarrow> bool" where
  "sve_is_finished s i \<longleftrightarrow> sve_lens s ! i AND NOT 0xff = 0 \<and> sve_ldata s ! i \<noteq> None"

definition sve_is_free :: "sve_mgr \<Rightarrow> nat \<Rightarrow> bool" where
  "sve_is_free s i \<longleftrightarrow> sve_lens s ! i AND NOT 0xff = 0 \<and> sve_ldata s ! i = None"

definition sve_init :: sve_mgr where
  "sve_init =
     \<lparr>sve_unused_lanes = [0x0706050403020100, 0x0f0e0d0c0b0a0908, 0x1716151413121110, 0x1f1e1d1c1b1a1918],
      sve_lens = map of_nat [0..<32], sve_ldata = replicate 32 None, sve_num_lanes_inuse = 0\<rparr>"

definition sve_insert_job :: "sve_mgr \<Rightarrow> (32, 32) store \<Rightarrow> nat \<Rightarrow> sve_mgr" where
  "sve_insert_job s st c =
     (let grp = (case List.find (sve_is_free s) [0..<32] of None \<Rightarrow> 0 | Some i \<Rightarrow> i div 8);
          lane_idx = unat (sve_unused_lanes s ! grp AND 0xff)
      in s\<lparr>sve_lens := (sve_lens s)[lane_idx := push_bit 8 (job_len (job (st c))) OR of_nat lane_idx],
           sve_ldata := (sve_ldata s)[lane_idx := Some c],
           sve_unused_lanes := (sve_unused_lanes s)[grp := drop_bit 8 (sve_unused_lanes s ! grp)],
           sve_num_lanes_inuse := sve_num_lanes_inuse s + 1\<rparr>)"

definition sve_free_lane :: "sve_mgr \<Rightarrow> (32, 32) store \<Rightarrow> sve_mgr \<times> (32, 32) store \<times> nat option" where
  "sve_free_lane s st =
     (case List.find (sve_is_finished s) [0..<32] of
        None \<Rightarrow> (s, st, None)
      | Some i \<Rightarrow>
          let grp = i div 8; ret = the (sve_ldata s ! i)
          in (s\<lparr>sve_unused_lanes := (sve_unused_lanes s)[grp := push_bit 8 (sve_unused_lanes s ! grp) OR of_nat i],
                sve_num_lanes_inuse := sve_num_lanes_inuse s - 1,
                sve_ldata := (sve_ldata s)[i := None]\<rparr>,
              st(ret := (st ret)\<lparr>job := (job (st ret))\<lparr>job_status := STS_COMPLETED\<rparr>\<rparr>),
              Some ret))"

text \<open>
  The code keeps the least length word in an \<open>int\<close>, so the shift that gives the number of blocks
  is arithmetic. (\<open>job.len\<close> counts blocks while bytes are subtracted; the field is not read again.)
\<close>

definition sve_advance ::
  "u32 \<Rightarrow> nat \<Rightarrow> nat \<Rightarrow> sve_mgr \<times> (32, 32) store \<Rightarrow> sve_mgr \<times> (32, 32) store" where
  "sve_advance len blocks i = (\<lambda>(s, st).
     if sve_is_not_finished s i then
       let j = the (sve_ldata s ! i); jb = job (st j)
       in (s\<lparr>sve_lens := (sve_lens s)[i := sve_lens s ! i - len]\<rparr>,
           st(j := (st j)\<lparr>job := jb\<lparr>job_len := job_len jb - of_nat (blocks * 64),
                                    job_buffer := buf_add (job_buffer jb) (blocks * 64)\<rparr>\<rparr>))
     else (s, st))"

definition sve_do_jobs ::
  "nat \<Rightarrow> 32 kernel \<Rightarrow> sve_mgr \<Rightarrow> (32, 32) store \<Rightarrow> sve_mgr \<times> (32, 32) store" where
  "sve_do_jobs vl kern s st =
     (if sve_num_lanes_inuse s = 0 then (s, st)
      else
        let maxjobs = min vl 32;
            is = take (unat (sve_num_lanes_inuse s)) (filter (sve_is_not_finished s) [0..<32])
        in if is = [] then (s, st)
           else
             let len = Min (set (map ((!) (sve_lens s)) is)) AND NOT 0xff;
                 blocks = unat (signed_drop_bit 8 len);
                 lanes = length is;
                 job_vecs = map (\<lambda>i. the (sve_ldata s ! i)) is;
                 st = (if 4 \<le> lanes \<and> int (maxjobs div 2) - 2 \<le> int lanes
                       then kernel_jobs kern lanes blocks job_vecs st
                       else kernel_groups kern blocks job_vecs st)
             in fold (sve_advance len blocks) [0..<32] (s, st))"

definition sve_submit :: "nat \<Rightarrow> 32 kernel \<Rightarrow> (sve_mgr, 32, 32) job_submit_fun" where
  "sve_submit vl kern s st c =
     (let maxjobs = min vl 32;
          s = sve_insert_job s st c;
          (s, st, ret) = sve_free_lane s st
      in if ret \<noteq> None then (s, st, ret)
         else if sve_num_lanes_inuse s < of_nat maxjobs then (s, st, None)
         else let (s, st) = sve_do_jobs vl kern s st in sve_free_lane s st)"

definition sve_flush :: "nat \<Rightarrow> 32 kernel \<Rightarrow> (sve_mgr, 32, 32) job_flush_fun" where
  "sve_flush vl kern s st =
     (let (s, st, ret) = sve_free_lane s st
      in if ret \<noteq> None then (s, st, ret)
         else let (s, st) = sve_do_jobs vl kern s st in sve_free_lane s st)"

section \<open>The invariant\<close>

text \<open>The table of the state, and what holds of the state beside it.\<close>

definition sve_tab :: "sve_mgr \<Rightarrow> lane_table" where
  "sve_tab s i =
     (if i < 32 then map_option (\<lambda>j. (j, unat (sve_lens s ! i) div 256)) (sve_ldata s ! i) else None)"

definition sve_core :: "(nat \<Rightarrow> nat list) \<Rightarrow> sve_mgr \<Rightarrow> (32, 32) store \<Rightarrow> bool" where
  "sve_core gs s st \<longleftrightarrow>
     length (sve_unused_lanes s) = 4 \<and> length (sve_lens s) = 32 \<and> length (sve_ldata s) = 32 \<and>
     tab_ok md5_alg (2 ^ 23) (sve_tab s) st \<and>
     (\<forall>i<32. sve_ldata s ! i = None \<longrightarrow> unat (sve_lens s ! i) div 256 = 0) \<and>
     (\<forall>g<4. distinct (gs g) \<and> set (gs g) = {i. i div 8 = g \<and> sve_ldata s ! i = None} \<and>
        lane_stack 8 (gs g) (sve_unused_lanes s ! g)) \<and>
     unat (sve_num_lanes_inuse s) = card (dom (sve_tab s))"

definition sve_inv :: "nat \<Rightarrow> sve_mgr \<Rightarrow> (32, 32) store \<Rightarrow> bool" where
  "sve_inv vl s st \<longleftrightarrow> (\<exists>gs. sve_core gs s st) \<and> card (dom (sve_tab s)) < min vl 32"

lemma byte_mask: "(0xff :: 'a::len word) = mask 8"
  by (simp add: mask_eq_exp_minus_1)

lemma not_byte_zero: "(x :: 'a::len word) AND NOT 0xff = 0 \<longleftrightarrow> unat x div 256 = 0"
  by (simp only: byte_mask not_mask_zero) simp

lemma sve_coreD:
  assumes "sve_core gs s st"
  shows "length (sve_unused_lanes s) = 4" "length (sve_lens s) = 32" "length (sve_ldata s) = 32"
    "tab_ok md5_alg (2 ^ 23) (sve_tab s) st"
    "\<And>i. i < 32 \<Longrightarrow> sve_ldata s ! i = None \<Longrightarrow> unat (sve_lens s ! i) div 256 = 0"
    "\<And>g. g < 4 \<Longrightarrow> distinct (gs g)"
    "\<And>g. g < 4 \<Longrightarrow> set (gs g) = {i. i div 8 = g \<and> sve_ldata s ! i = None}"
    "\<And>g. g < 4 \<Longrightarrow> lane_stack 8 (gs g) (sve_unused_lanes s ! g)"
    "unat (sve_num_lanes_inuse s) = card (dom (sve_tab s))"
  using assms unfolding sve_core_def by blast+

lemma sve_tab_dom: "dom (sve_tab s) = {i. i < 32 \<and> sve_ldata s ! i \<noteq> None}"
  by (auto simp: sve_tab_def dom_def split: if_splits)

lemma sve_tab_eq: "sve_tab s i = Some (j, n) \<longleftrightarrow> i < 32 \<and> sve_ldata s ! i = Some j \<and> n = unat (sve_lens s ! i) div 256"
  by (auto simp: sve_tab_def)

lemma sve_finished: "sve_is_finished s i \<longleftrightarrow> sve_ldata s ! i \<noteq> None \<and> unat (sve_lens s ! i) div 256 = 0"
  unfolding sve_is_finished_def not_byte_zero by blast

lemma sve_free_iff: "sve_is_free s i \<longleftrightarrow> sve_ldata s ! i = None \<and> unat (sve_lens s ! i) div 256 = 0"
  unfolding sve_is_free_def not_byte_zero by blast

lemma sve_not_finished: "sve_is_not_finished s i \<longleftrightarrow> sve_ldata s ! i \<noteq> None \<and> unat (sve_lens s ! i) div 256 \<noteq> 0"
  unfolding sve_is_not_finished_def not_byte_zero by blast

section \<open>Inserting and freeing\<close>

lemma card_group: "card {i. i div 8 = (g :: nat)} = 8" "finite {i. i div 8 = (g :: nat)}"
proof -
  have "{i. i div 8 = g} = {8 * g..<8 * g + 8}" by auto
  then show "card {i. i div 8 = (g :: nat)} = 8" "finite {i. i div 8 = (g :: nat)}" by simp_all
qed

lemma sve_insert:
  assumes core: "sve_core gs s st" and room: "card (dom (sve_tab s)) < 32"
    and c: "c \<notin> tab_jobs (sve_tab s)" and n: "n < 2 ^ 23" "unat (job_len (job (st c))) = n"
      "n * block_size md5_alg \<le> length (buf_bytes (st c) (job_buffer (job (st c))))"
  obtains x gs' where "x < 32" "sve_tab s x = None" "sve_core gs' (sve_insert_job s st c) st"
    "sve_tab (sve_insert_job s st c) = (sve_tab s)(x \<mapsto> (c, n))"
proof -
  note d = sve_coreD[OF core]
  let ?s = "sve_insert_job s st c"
  have "\<exists>i<32. sve_ldata s ! i = None"
  proof (rule ccontr)
    assume "\<not> (\<exists>i<32. sve_ldata s ! i = None)"
    then have "dom (sve_tab s) = {..<32}" unfolding sve_tab_dom by auto
    then show False using room by simp
  qed
  then have "List.find (sve_is_free s) [0..<32] \<noteq> None"
    using d(5) by (auto simp: find_None_iff sve_free_iff)
  then obtain i where f: "List.find (sve_is_free s) [0..<32] = Some i" by blast
  then have i: "i < 32" "sve_ldata s ! i = None" by (auto simp: find_Some_iff sve_free_iff)
  define g where "g = i div 8"
  have g: "g < 4" using i(1) by (simp add: g_def)
  have "i \<in> set (gs g)" using d(7)[OF g] i(2) by (simp add: g_def)
  then obtain x xs where xs: "gs g = x # xs" by (cases "gs g") auto
  have x: "unat (sve_unused_lanes s ! g AND 0xff) = x" "lane_stack 8 xs (drop_bit 8 (sve_unused_lanes s ! g))"
    using d(8)[OF g] unfolding xs byte_mask by simp_all
  have setg: "insert x (set xs) = {i. i div 8 = g \<and> sve_ldata s ! i = None}" "x \<notin> set xs" "distinct xs"
    using d(6,7)[OF g] unfolding xs by simp_all
  then have xg: "x div 8 = g" "sve_ldata s ! x = None" by blast+
  then have x32: "x < 32" using g by linarith
  have jl: "job_len (job (st c)) = of_nat n" using n(2) by (metis of_nat_unat ucast_id)
  have lw: "push_bit 8 (of_nat n :: u32) OR of_nat x = of_nat (256 * n + x)"
    using or_low_bits[of x 8 "of_nat n :: u32"] x32 by (simp add: push_bit_eq_mult mult.commute)
  have "256 * n + x < 2 ^ LENGTH(32)" using n(1) x32 by simp
  then have "unat (of_nat (256 * n + x) :: u32) = 256 * n + x" by (rule unat_of_nat_small)
  then have left: "unat (of_nat (256 * n + x) :: u32) div 256 = n"
    unfolding \<open>unat (of_nat (256 * n + x) :: u32) = 256 * n + x\<close> using x32 by simp
  have s: "?s = s\<lparr>sve_lens := (sve_lens s)[x := of_nat (256 * n + x)], sve_ldata := (sve_ldata s)[x := Some c],
      sve_unused_lanes := (sve_unused_lanes s)[g := drop_bit 8 (sve_unused_lanes s ! g)],
      sve_num_lanes_inuse := sve_num_lanes_inuse s + 1\<rparr>"
    by (simp only: sve_insert_job_def f option.case Let_def g_def[symmetric] x(1) jl lw)
  have ld: "sve_ldata ?s ! k = (if k = x then Some c else sve_ldata s ! k)" for k
    using x32 d(3) by (simp add: s nth_list_update)
  have tab: "sve_tab ?s = (sve_tab s)(x \<mapsto> (c, n))"
    using x32 d(2,3) left by (auto simp: fun_eq_iff sve_tab_def s nth_list_update)
  have none: "sve_tab s x = None" using xg(2) by (simp add: sve_tab_def)
  have "card (dom (sve_tab ?s)) = Suc (card (dom (sve_tab s)))"
    using none d(4) by (simp add: tab tab_ok_def domIff)
  moreover have "unat (sve_num_lanes_inuse s + 1) = Suc (unat (sve_num_lanes_inuse s))"
    using d(9) room by (simp add: unat_word_ariths)
  ultimately have num: "unat (sve_num_lanes_inuse ?s) = card (dom (sve_tab ?s))"
    using d(9) by (simp add: s)
  have "sve_core (gs(g := xs)) ?s st"
    unfolding sve_core_def
  proof (intro conjI allI impI)
    show "length (sve_unused_lanes ?s) = 4" "length (sve_lens ?s) = 32" "length (sve_ldata ?s) = 32"
      using d(1-3) by (simp_all add: s)
    show "tab_ok md5_alg (2 ^ 23) (sve_tab ?s) st"
      unfolding tab by (rule tab_insert(1)[OF d(4) none c n(1,3)])
    show "unat (sve_lens ?s ! k) div 256 = 0" if "k < 32" "sve_ldata ?s ! k = None" for k
      using that d(5)[of k] d(2) ld[of k] by (auto simp: s nth_list_update split: if_splits)
    fix h :: nat assume h: "h < 4"
    show "distinct ((gs(g := xs)) h)" using setg(3) d(6)[OF h] by simp
    show "set ((gs(g := xs)) h) = {i. i div 8 = h \<and> sve_ldata ?s ! i = None}"
    proof (cases "h = g")
      case True
      then show ?thesis using setg(1,2) by (auto simp: ld split: if_splits)
    next
      case False
      then show ?thesis using d(7)[OF h] xg(1) by (auto simp: ld split: if_splits)
    qed
    show "lane_stack 8 ((gs(g := xs)) h) (sve_unused_lanes ?s ! h)"
      using x(2) d(1) d(8)[OF h] g by (cases "h = g") (simp_all add: s nth_list_update)
  qed (rule num)
  from that[OF x32 none this tab] show thesis .
qed

lemma sve_free:
  assumes core: "sve_core gs s st" and res: "sve_free_lane s st = (s', st', r)"
  shows "r = None \<longleftrightarrow> (\<forall>i j. sve_tab s i \<noteq> Some (j, 0))"
    and "r = None \<Longrightarrow> s' = s \<and> st' = st"
    and "r \<noteq> None \<Longrightarrow> \<exists>gs' i j. r = Some j \<and> sve_tab s i = Some (j, 0) \<and> sve_core gs' s' st' \<and>
      sve_tab s' = (sve_tab s)(i := None) \<and>
      st' = st(j := (st j)\<lparr>job := (job (st j))\<lparr>job_status := STS_COMPLETED\<rparr>\<rparr>)"
proof -
  note d = sve_coreD[OF core]
  let ?find = "List.find (sve_is_finished s) [0..<32]"
  have r: "r = None \<longleftrightarrow> ?find = None"
    using res by (auto simp: sve_free_lane_def Let_def split: option.splits)
  have "?find = None \<longleftrightarrow> (\<forall>i<32. sve_ldata s ! i \<noteq> None \<longrightarrow> unat (sve_lens s ! i) div 256 \<noteq> 0)"
    unfolding find_None_iff sve_finished by auto
  also have "\<dots> \<longleftrightarrow> (\<forall>i j. sve_tab s i \<noteq> Some (j, 0))"
    unfolding sve_tab_eq by force
  finally show "r = None \<longleftrightarrow> (\<forall>i j. sve_tab s i \<noteq> Some (j, 0))" unfolding r .
  show "s' = s \<and> st' = st" if "r = None"
    using that res r by (simp add: sve_free_lane_def)
  assume "r \<noteq> None"
  then obtain i where f: "?find = Some i" using r by auto
  then have "i < 32" "sve_is_finished s i" by (auto simp: find_Some_iff)
  then obtain j where i: "i < 32" "sve_ldata s ! i = Some j" "unat (sve_lens s ! i) div 256 = 0"
    unfolding sve_finished by auto
  define g where "g = i div 8"
  have g: "g < 4" using i(1) by (simp add: g_def)
  have s': "s' = s\<lparr>sve_unused_lanes := (sve_unused_lanes s)[g := push_bit 8 (sve_unused_lanes s ! g) OR of_nat i],
      sve_num_lanes_inuse := sve_num_lanes_inuse s - 1, sve_ldata := (sve_ldata s)[i := None]\<rparr>"
    and st': "st' = st(j := (st j)\<lparr>job := (job (st j))\<lparr>job_status := STS_COMPLETED\<rparr>\<rparr>)" and rj: "r = Some j"
    using res i(2) by (auto simp: sve_free_lane_def f Let_def g_def)
  have tabi: "sve_tab s i = Some (j, 0)" using i by (simp add: sve_tab_eq)
  have tab: "sve_tab s' = (sve_tab s)(i := None)"
    using i(1) d(3) by (auto simp: fun_eq_iff sve_tab_def s' nth_list_update)
  have ld: "sve_ldata s' ! k = (if k = i then None else sve_ldata s ! k)" for k
    using i(1) d(3) by (simp add: s' nth_list_update)
  have notin: "i \<notin> set (gs g)" using d(7)[OF g] i(2) by simp
  have "length (gs g) < 8"
  proof -
    have "insert i (set (gs g)) \<subseteq> {k. k div 8 = g}" using d(7)[OF g] by (auto simp: g_def)
    from card_mono[OF card_group(2) this] show ?thesis
      using notin distinct_card[OF d(6)[OF g]] by (simp add: card_group(1))
  qed
  then have stack: "lane_stack 8 (i # gs g) (push_bit 8 (sve_unused_lanes s ! g) OR of_nat i)"
    using d(8)[OF g] i(1) by (intro lane_stack_push) simp_all
  have "i \<in> dom (sve_tab s)" using tabi by (simp add: domIff)
  moreover have "finite (dom (sve_tab s))" using d(4) by (simp add: tab_ok_def)
  ultimately have card: "card (dom (sve_tab s)) = Suc (card (dom (sve_tab s')))"
    by (simp add: tab card_Suc_Diff1[symmetric] del: card_Diff_insert)
  then have "sve_num_lanes_inuse s \<noteq> 0" using d(9) by auto
  then have num: "unat (sve_num_lanes_inuse s - 1) = card (dom (sve_tab s'))"
    using card d(9) by (simp add: unat_minus_one)
  have "sve_core (gs(g := i # gs g)) s' st'"
    unfolding sve_core_def
  proof (intro conjI allI impI)
    show "length (sve_unused_lanes s') = 4" "length (sve_lens s') = 32" "length (sve_ldata s') = 32"
      using d(1-3) by (simp_all add: s')
    show "tab_ok md5_alg (2 ^ 23) (sve_tab s') st'"
      unfolding tab st' by (rule tab_free(1)[OF d(4) tabi])
    show "unat (sve_lens s' ! k) div 256 = 0" if "k < 32" "sve_ldata s' ! k = None" for k
      using that d(5)[of k] i(3) ld[of k] by (cases "k = i") (simp_all add: s')
    show "unat (sve_num_lanes_inuse s') = card (dom (sve_tab s'))" using num by (simp add: s')
    fix h :: nat assume h: "h < 4"
    show "distinct ((gs(g := i # gs g)) h)" using d(6)[OF h] d(6)[OF g] notin by simp
    show "set ((gs(g := i # gs g)) h) = {k. k div 8 = h \<and> sve_ldata s' ! k = None}"
      using d(7)[OF h] by (auto simp: ld g_def split: if_splits)
    show "lane_stack 8 ((gs(g := i # gs g)) h) (sve_unused_lanes s' ! h)"
      using stack d(1) d(8)[OF h] g
      by (cases "h = g") (simp_all add: s' nth_list_update del: lane_stack.simps)
  qed
  then show "\<exists>gs' i j. r = Some j \<and> sve_tab s i = Some (j, 0) \<and> sve_core gs' s' st' \<and>
      sve_tab s' = (sve_tab s)(i := None) \<and>
      st' = st(j := (st j)\<lparr>job := (job (st j))\<lparr>job_status := STS_COMPLETED\<rparr>\<rparr>)"
    using rj tabi tab st' by blast
qed

section \<open>Running the kernels\<close>

text \<open>The loop that advances the lanes: every unfinished lane and its job, once.\<close>

definition sve_adv_job :: "nat \<Rightarrow> (32, 32) hash_ctx \<Rightarrow> (32, 32) hash_ctx" where
  "sve_adv_job blocks ctx =
     ctx\<lparr>job := (job ctx)\<lparr>job_len := job_len (job ctx) - of_nat (blocks * 64),
                         job_buffer := buf_add (job_buffer (job ctx)) (blocks * 64)\<rparr>\<rparr>"

lemma sve_advance_lanes:
  assumes "length (sve_lens s) = 32" "k \<le> 32"
    and uniq: "\<forall>i<32. \<forall>l<32. \<forall>j. sve_ldata s ! i = Some j \<longrightarrow> sve_ldata s ! l = Some j \<longrightarrow> i = l"
    and "fold (sve_advance len blocks) [0..<k] (s, st) = (s', st')"
  shows "s' = s\<lparr>sve_lens := map (\<lambda>i. if i < k \<and> sve_is_not_finished s i then sve_lens s ! i - len
                                   else sve_lens s ! i) [0..<32]\<rparr> \<and>
    (\<forall>j. st' j = (if \<exists>i<k. sve_is_not_finished s i \<and> sve_ldata s ! i = Some j
                   then sve_adv_job blocks (st j) else st j))"
  using assms(2,4)
proof (induction k arbitrary: s' st')
  case 0
  have "map ((!) (sve_lens s)) [0..<32] = sve_lens s" using assms(1) by (metis map_nth)
  then show ?case using 0 by simp
next
  case (Suc k)
  let ?lens = "\<lambda>k. map (\<lambda>i. if i < k \<and> sve_is_not_finished s i then sve_lens s ! i - len
                          else sve_lens s ! i) [0..<32]"
  obtain s1 st1 where f: "fold (sve_advance len blocks) [0..<k] (s, st) = (s1, st1)" by fastforce
  have IH: "s1 = s\<lparr>sve_lens := ?lens k\<rparr>"
    "st1 j = (if \<exists>i<k. sve_is_not_finished s i \<and> sve_ldata s ! i = Some j
               then sve_adv_job blocks (st j) else st j)" for j
    using Suc.IH[OF _ f] Suc.prems(1) by auto
  have k: "k < 32" using Suc.prems(1) by simp
  have lk: "sve_lens s1 ! k = sve_lens s ! k" using k by (simp add: IH(1))
  then have nf: "sve_is_not_finished s1 k = sve_is_not_finished s k"
    by (simp add: sve_not_finished IH(1))
  have step: "sve_advance len blocks k (s1, st1) = (s', st')" using Suc.prems(2) f by simp
  show ?case
  proof (cases "sve_is_not_finished s k")
    case False
    then have "s' = s1" "st' = st1" using step nf by (auto simp: sve_advance_def)
    moreover have "?lens (Suc k) = ?lens k" using False by (intro map_cong refl) (auto simp: less_Suc_eq)
    moreover have "(\<exists>i<Suc k. sve_is_not_finished s i \<and> sve_ldata s ! i = Some j) \<longleftrightarrow>
        (\<exists>i<k. sve_is_not_finished s i \<and> sve_ldata s ! i = Some j)" for j
      using False by (auto simp: less_Suc_eq)
    ultimately show ?thesis using IH by presburger
  next
    case True
    then obtain j where j: "sve_ldata s ! k = Some j" by (auto simp: sve_not_finished)
    have "\<not> (\<exists>i<k. sve_is_not_finished s i \<and> sve_ldata s ! i = Some j)"
      using uniq k j by (metis less_irrefl less_trans)
    then have stj: "st1 j = st j" unfolding IH(2)[of j] by (rule if_not_P)
    have s': "s' = s1\<lparr>sve_lens := (sve_lens s1)[k := sve_lens s ! k - len]\<rparr>"
      and st': "st' = st1(j := sve_adv_job blocks (st j))"
      using step True nf j lk stj by (auto simp: sve_advance_def IH(1) Let_def sve_adv_job_def)
    have "(?lens k)[k := sve_lens s ! k - len] = ?lens (Suc k)"
      using k True by (intro nth_equalityI) (auto simp: nth_list_update less_Suc_eq)
    then have "s' = s\<lparr>sve_lens := ?lens (Suc k)\<rparr>" unfolding s' by (simp add: IH(1))
    moreover have "st' l = (if \<exists>i<Suc k. sve_is_not_finished s i \<and> sve_ldata s ! i = Some l
        then sve_adv_job blocks (st l) else st l)" for l
      using IH(2)[of l] True j unfolding st' by (auto simp: less_Suc_eq)
    ultimately show ?thesis by blast
  qed
qed

lemma signed_drop_bit_small:
  assumes "unat (w :: u32) < 2 ^ 31"
  shows "signed_drop_bit k w = drop_bit k w"
proof -
  have "bit w 31 \<longleftrightarrow> bit (unat w) 31" by (simp add: bit_unsigned_iff)
  also have "\<dots> \<longleftrightarrow> odd (unat w div 2 ^ 31)" by (rule bit_iff_odd)
  also have "unat w div 2 ^ 31 = 0" using assms by (rule div_less)
  finally have "\<not> bit w 31" by simp
  then show ?thesis by (intro bit_word_eqI) (auto simp: bit_signed_drop_bit_iff bit_drop_bit_eq dest: bit_imp_le_length)
qed

text \<open>
  A round: the unfinished lanes \<open>P\<close> are advanced by \<open>n\<close> blocks, as many as the shortest of them has
  left.
\<close>

lemma sve_round:
  assumes kern: "kernel_ok md5_alg kern" and core: "sve_core gs s st"
    and busy: "dom (sve_tab s) \<noteq> {}" and nf: "\<And>i j. sve_tab s i \<noteq> Some (j, 0)"
    and res: "sve_do_jobs vl kern s st = (s', st')"
  obtains n where "sve_core gs s' st'" "sve_tab s' = tab_advance (dom (sve_tab s)) n (sve_tab s)"
    "store_advance md5_alg (dom (sve_tab s)) n (sve_tab s) st st'"
    "\<And>i j m. sve_tab s i = Some (j, m) \<Longrightarrow> n \<le> m" "\<exists>i j. sve_tab s i = Some (j, n)"
proof -
  note d = sve_coreD[OF core]
  let ?P = "dom (sve_tab s)"
  define ls where "ls = filter (sve_is_not_finished s) [0..<32]"
  have nfP: "i < 32 \<and> sve_is_not_finished s i \<longleftrightarrow> i \<in> ?P" for i
    using nf[of i] unfolding sve_tab_dom sve_not_finished by (auto simp: sve_tab_eq)
  then have setls: "set ls = ?P" "distinct ls" by (auto simp: ls_def)
  have use: "unat (sve_num_lanes_inuse s) = length ls"
    using d(9) distinct_card[OF setls(2)] setls(1) by simp
  then have takels: "take (unat (sve_num_lanes_inuse s)) (filter (sve_is_not_finished s) [0..<32]) = ls"
    by (simp add: ls_def)
  have ls: "ls \<noteq> []" using busy setls(1) by (metis set_empty)
  then have nz: "sve_num_lanes_inuse s \<noteq> 0" using use by auto
  define w where "w = Min (set (map ((!) (sve_lens s)) ls))"
  define n where "n = unat w div 256"
  define len where "len = w AND NOT 0xff"
  have "w \<in> set (map ((!) (sve_lens s)) ls)" unfolding w_def using ls by (intro Min_in) auto
  then obtain i0 where i0: "i0 \<in> ?P" "w = sve_lens s ! i0" using setls(1) by auto
  then obtain j0 where j0: "sve_tab s i0 = Some (j0, n)" "sve_ldata s ! i0 = Some j0" "i0 < 32"
    unfolding sve_tab_dom by (auto simp: sve_tab_eq n_def)
  have min: "n \<le> m" if "sve_tab s i = Some (j, m)" for i j m
  proof -
    have "i \<in> set ls" using that setls(1) by (simp add: domIff)
    then have "w \<le> sve_lens s ! i" unfolding w_def by (intro Min_le) auto
    then show ?thesis using that unfolding sve_tab_eq n_def by (auto intro: div_le_mono simp: word_le_nat_alt)
  qed
  have "n < 2 ^ 23" using tab_okD(1)[OF d(4) j0(1)] .
  have len: "unat len = 256 * n" unfolding len_def n_def byte_mask unat_and_not_mask by simp
  then have "len = of_nat (256 * n)" by (metis of_nat_unat ucast_id)
  have "unat len < 2 ^ 31" using len \<open>n < 2 ^ 23\<close> by simp
  then have blocks: "unat (signed_drop_bit 8 len) = n"
    unfolding signed_drop_bit_small[OF \<open>unat len < 2 ^ 31\<close>] by (simp add: unat_drop_bit len)
  define js where "js = map (\<lambda>i. the (sve_ldata s ! i)) ls"
  have lsD: "\<exists>j m. sve_tab s i = Some (j, m) \<and> sve_ldata s ! i = Some j" if "i \<in> set ls" for i
    using that unfolding setls(1) sve_tab_dom by (auto simp: sve_tab_eq)
  have uniq: "\<forall>i<32. \<forall>l<32. \<forall>j. sve_ldata s ! i = Some j \<longrightarrow> sve_ldata s ! l = Some j \<longrightarrow> i = l"
    using tab_okD(3)[OF d(4)] by (auto simp: sve_tab_eq)
  have js: "distinct js"
    unfolding js_def distinct_map
  proof (intro conjI inj_onI)
    fix x y assume xy: "x \<in> set ls" "y \<in> set ls" "the (sve_ldata s ! x) = the (sve_ldata s ! y)"
    have "x < 32" "y < 32" using xy(1,2) by (simp_all add: ls_def)
    then show "x = y" using xy(3) lsD[OF xy(1)] lsD[OF xy(2)] uniq by force
  qed (rule setls(2))
  have setjs: "j \<in> set js \<longleftrightarrow> (\<exists>i\<in>?P. \<exists>m. sve_tab s i = Some (j, m))" for j
    unfolding setls(1)[symmetric] js_def using lsD by (force simp: sve_tab_eq image_iff)
  have en: "enough md5_alg n (set js) st"
    unfolding enough_def
  proof
    fix j assume "j \<in> set js"
    then obtain i m where i: "sve_tab s i = Some (j, m)" unfolding setjs by blast
    show "n * block_size md5_alg \<le> length (buf_bytes (st j) (job_buffer (job (st j))))"
      using tab_okD(2)[OF d(4) i] min[OF i] by (meson le_trans mult_le_mono1)
  qed
  have fold: "fold (sve_advance len n) [0..<32] (s, hashed md5_alg n (set js) st) = (s', st')"
    using res[unfolded sve_do_jobs_def Let_def takels w_def[symmetric] len_def[symmetric] blocks
        js_def[symmetric] kernel_jobs_ok[OF kern js en] kernel_groups_ok[OF kern js en] if_cancel] nz ls
    by simp
  note a = sve_advance_lanes[OF d(2) order_refl uniq fold]
  have "map (\<lambda>i. if i < 32 \<and> sve_is_not_finished s i then sve_lens s ! i - len else sve_lens s ! i) [0..<32]
      = map (\<lambda>i. if i \<in> ?P then sve_lens s ! i - len else sve_lens s ! i) [0..<32]"
    by (simp only: nfP)
  then have s': "s' = s\<lparr>sve_lens := map (\<lambda>i. if i \<in> ?P then sve_lens s ! i - len else sve_lens s ! i) [0..<32]\<rparr>"
    using a[THEN conjunct1] by (rule subst)
  have lens': "sve_lens s' ! i = (if i \<in> ?P then sve_lens s ! i - len else sve_lens s ! i)" if "i < 32" for i
    using that by (simp add: s')
  have sub: "unat (sve_lens s ! i - len) div 256 = unat (sve_lens s ! i) div 256 - n" if "i \<in> ?P" for i
  proof -
    from that obtain j m where "sve_tab s i = Some (j, m)" by (auto simp: dom_def)
    then have "n \<le> unat (sve_lens s ! i) div 256" using min by (auto simp: sve_tab_eq)
    then have le: "256 * n \<le> unat (sve_lens s ! i)" by linarith
    then have "unat (sve_lens s ! i - len) = unat (sve_lens s ! i) - 256 * n"
      by (simp add: unat_sub_small word_le_nat_alt len)
    then show ?thesis using le by simp
  qed
  have tab: "sve_tab s' = tab_advance ?P n (sve_tab s)"
  proof
    fix i
    show "sve_tab s' i = tab_advance ?P n (sve_tab s) i"
    proof (cases "i \<in> ?P")
      case True
      then have "i < 32" unfolding sve_tab_dom by simp
      then show ?thesis using True lens'[of i] sub[OF True]
        by (cases "sve_ldata s ! i") (auto simp: tab_advance_def sve_tab_def s')
    next
      case False
      then have "sve_tab s i = None" unfolding domIff by blast
      then show ?thesis using False by (auto simp: tab_advance_def sve_tab_def s')
    qed
  qed
  have store: "store_advance md5_alg ?P n (sve_tab s) st st'"
    unfolding store_advance_def
  proof
    fix j
    have sel: "(\<exists>i<32. sve_is_not_finished s i \<and> sve_ldata s ! i = Some j) \<longleftrightarrow> j \<in> set js"
      unfolding setjs using nfP by (auto simp: sve_tab_eq)
    have "st' j = (if j \<in> set js then sve_adv_job n (hashed md5_alg n (set js) st j) else st j)"
      using a[THEN conjunct2, rule_format, of j] by (simp add: sel hashed_def)
    moreover have "advanced md5_alg n (st j) (sve_adv_job n (hashed md5_alg n (set js) st j))" if "j \<in> set js"
      using that by (simp add: advanced_def same_frame_def sve_adv_job_def hashed_def set_digest_def md5_alg_def)
    ultimately show "if \<exists>i\<in>?P. \<exists>m. sve_tab s i = Some (j, m) then advanced md5_alg n (st j) (st' j) else st' j = st j"
      unfolding setjs by (auto split: if_splits)
  qed
  have "sve_core gs s' st'"
    unfolding sve_core_def
  proof (intro conjI allI impI)
    show "length (sve_unused_lanes s') = 4" "length (sve_lens s') = 32" "length (sve_ldata s') = 32"
      using d(1-3) by (simp_all add: s')
    show "tab_ok md5_alg (2 ^ 23) (sve_tab s') st'"
      unfolding tab by (rule tab_advance(1)[OF d(4) min store])
    show "unat (sve_lens s' ! i) div 256 = 0" if "i < 32" "sve_ldata s' ! i = None" for i
      using that d(5)[of i] lens'[of i] by (auto simp: s' sve_tab_dom)
    have "dom (tab_advance ?P n (sve_tab s)) = ?P" by (auto simp: tab_advance_def dom_def split: if_splits)
    then show "unat (sve_num_lanes_inuse s') = card (dom (sve_tab s'))" using d(9) by (simp add: tab, simp add: s')
    fix g :: nat assume g: "g < 4"
    show "distinct (gs g)" "set (gs g) = {i. i div 8 = g \<and> sve_ldata s' ! i = None}"
      "lane_stack 8 (gs g) (sve_unused_lanes s' ! g)"
      using d(6-8)[OF g] by (simp_all add: s')
  qed
  then show thesis using tab store min j0(1) that by blast
qed

section \<open>The laws of a scheduler\<close>

abbreviation sve_jobs :: "sve_mgr \<Rightarrow> nat set" where
  "sve_jobs s \<equiv> tab_jobs (sve_tab s)"

abbreviation sve_work :: "sve_mgr \<Rightarrow> nat \<Rightarrow> nat" where
  "sve_work s \<equiv> tab_work (sve_tab s)"

lemma sve_jobs_empty: "dom (sve_tab s) = {} \<longleftrightarrow> sve_jobs s = {}"
  by (auto simp: tab_jobs_def ran_def dom_def)

text \<open>Freeing a lane, and running the kernels and then freeing one.\<close>

lemma sve_free_post:
  assumes core: "sve_core gs s st" and res: "sve_free_lane s st = (s', st', r)"
  shows "\<exists>gs. sve_core gs s' st'"
    and "sched_post (sve_jobs s) (tab_fin md5_alg (sve_tab s) st) st (sve_jobs s') (tab_fin md5_alg (sve_tab s') st') st' r"
    and "r \<noteq> None \<Longrightarrow> card (dom (sve_tab s')) < card (dom (sve_tab s))"
proof -
  note d = sve_coreD[OF core] and f = sve_free[OF core res]
  have "(\<exists>gs. sve_core gs s' st') \<and>
    sched_post (sve_jobs s) (tab_fin md5_alg (sve_tab s) st) st (sve_jobs s') (tab_fin md5_alg (sve_tab s') st') st' r \<and>
    (r \<noteq> None \<longrightarrow> card (dom (sve_tab s')) < card (dom (sve_tab s)))"
  proof (cases r)
    case None
    then show ?thesis using core f(2) by (auto simp: sched_post_def)
  next
    case (Some j)
    then obtain gs' i where x: "sve_tab s i = Some (j, 0)" "sve_core gs' s' st'" "sve_tab s' = (sve_tab s)(i := None)"
      "st' = st(j := (st j)\<lparr>job := (job (st j))\<lparr>job_status := STS_COMPLETED\<rparr>\<rparr>)" using f(3) by auto
    have "finite (dom (sve_tab s))" "i \<in> dom (sve_tab s)" using d(4) x(1) by (auto simp: tab_ok_def)
    then have "card (dom (sve_tab s')) < card (dom (sve_tab s))"
      unfolding x(3) dom_fun_upd if_P[OF refl] by (rule card_Diff1_less)
    then show ?thesis using tab_free(3)[OF d(4) x(1)] x(2) unfolding Some x(3,4) by blast
  qed
  then show "\<exists>gs. sve_core gs s' st'"
    "sched_post (sve_jobs s) (tab_fin md5_alg (sve_tab s) st) st (sve_jobs s') (tab_fin md5_alg (sve_tab s') st') st' r"
    "r \<noteq> None \<Longrightarrow> card (dom (sve_tab s')) < card (dom (sve_tab s))" by blast+
qed

lemma sve_round_post:
  assumes kern: "kernel_ok md5_alg kern" and core: "sve_core gs s st"
    and busy: "dom (sve_tab s) \<noteq> {}" and nf: "\<And>i j. sve_tab s i \<noteq> Some (j, 0)"
    and res: "sve_do_jobs vl kern s st = (s1, st1)" "sve_free_lane s1 st1 = (s', st', r)"
  shows "r \<noteq> None" "\<exists>gs. sve_core gs s' st'" "card (dom (sve_tab s')) < card (dom (sve_tab s))"
    and "sched_post (sve_jobs s) (tab_fin md5_alg (sve_tab s) st) st (sve_jobs s') (tab_fin md5_alg (sve_tab s') st') st' r"
proof -
  obtain n where x: "sve_core gs s1 st1" "sve_tab s1 = tab_advance (dom (sve_tab s)) n (sve_tab s)"
    "store_advance md5_alg (dom (sve_tab s)) n (sve_tab s) st st1"
    "\<And>i j m. sve_tab s i = Some (j, m) \<Longrightarrow> n \<le> m" "\<exists>i j. sve_tab s i = Some (j, n)"
    using sve_round[OF kern core busy nf res(1)] by metis
  note f = sve_free_post[OF x(1) res(2)]
  from x(5) obtain i j where "sve_tab s i = Some (j, n)" by blast
  then have "sve_tab s1 i = Some (j, 0)" unfolding x(2) by (auto simp: tab_advance_def)
  then show r: "r \<noteq> None" using sve_free(1)[OF x(1) res(2)] by blast
  show "\<exists>gs. sve_core gs s' st'" by (rule f(1))
  have "dom (sve_tab s1) = dom (sve_tab s)" unfolding x(2) by (auto simp: tab_advance_def dom_def split: if_splits)
  then show "card (dom (sve_tab s')) < card (dom (sve_tab s))" using f(3)[OF r] by simp
  have "sched_post (sve_jobs s) (tab_fin md5_alg (sve_tab s) st) st (sve_jobs s1) (tab_fin md5_alg (sve_tab s1) st1) st1 None"
    unfolding x(2) by (rule tab_advance(3)[OF sve_coreD(4)[OF core] x(4) x(3)])
  from sched_post_trans[OF this f(2)]
  show "sched_post (sve_jobs s) (tab_fin md5_alg (sve_tab s) st) st (sve_jobs s') (tab_fin md5_alg (sve_tab s') st') st' r" .
qed

lemma sve_submit_law:
  assumes kern: "kernel_ok md5_alg kern" and inv: "sve_inv vl s st" and c: "c \<notin> sve_jobs s"
    and n: "n < 2 ^ 23" "unat (job_len (job (st c))) = n"
      "n * block_size md5_alg \<le> length (buf_bytes (st c) (job_buffer (job (st c))))"
    and res: "sve_submit vl kern s st c = (s', st', r)"
  shows "sve_inv vl s' st' \<and>
    sched_post (insert c (sve_jobs s)) (\<lambda>j. job_result md5_alg st (if j = c then n else sve_work s j) j) st
      (sve_jobs s') (tab_fin md5_alg (sve_tab s') st') st' r"
proof -
  from inv obtain gs where core: "sve_core gs s st" and room: "card (dom (sve_tab s)) < min vl 32"
    unfolding sve_inv_def by blast
  have ok: "tab_ok md5_alg (2 ^ 23) (sve_tab s) st" by (rule sve_coreD(4)[OF core])
  have "card (dom (sve_tab s)) < 32" using room by simp
  let ?s = "sve_insert_job s st c"
  obtain x gs' where x: "sve_tab s x = None" "sve_core gs' ?s st" "sve_tab ?s = (sve_tab s)(x \<mapsto> (c, n))"
    using sve_insert[OF core \<open>card (dom (sve_tab s)) < 32\<close> c n] by metis
  note i = tab_insert[OF ok x(1) c n(1,3), folded x(3)]
  have card: "card (dom (sve_tab ?s)) = Suc (card (dom (sve_tab s)))"
    using x(1) ok by (simp add: x(3) tab_ok_def domIff)
  have works: "job_result md5_alg st (if j = c then n else sve_work s j) j = tab_fin md5_alg (sve_tab ?s) st j"
    if "j \<in> sve_jobs ?s" for j
    using that i(2,3,4) by auto
  have post: "sched_post (insert c (sve_jobs s)) (\<lambda>j. job_result md5_alg st (if j = c then n else sve_work s j) j) st
      (sve_jobs s') (tab_fin md5_alg (sve_tab s') st') st' r"
    if "sched_post (sve_jobs ?s) (tab_fin md5_alg (sve_tab ?s) st) st (sve_jobs s') (tab_fin md5_alg (sve_tab s') st') st' r"
    using sched_post_cong[OF works that] by (simp only: i(2))
  obtain s1 st1 r1 where f1: "sve_free_lane ?s st = (s1, st1, r1)" by (metis prod_cases3)
  note f = sve_free_post[OF x(2) f1]
  show ?thesis
  proof (cases "r1 = None")
    case False
    then have "s' = s1" "st' = st1" "r = r1" using res f1 by (simp_all add: sve_submit_def Let_def)
    then show ?thesis using f(1) f(3)[OF False] post[OF] f(2) card room unfolding sve_inv_def by auto
  next
    case True
    then have s1: "s1 = ?s" "st1 = st" and nf: "\<And>i j. sve_tab ?s i \<noteq> Some (j, 0)"
      using sve_free(1,2)[OF x(2) f1] by auto
    have "unat (of_nat (min vl 32) :: u32) = min vl 32" by (intro unat_of_nat_small) simp
    then have less: "sve_num_lanes_inuse ?s < of_nat (min vl 32) \<longleftrightarrow> card (dom (sve_tab ?s)) < min vl 32"
      unfolding word_less_nat_alt sve_coreD(9)[OF x(2)] by simp
    show ?thesis
    proof (cases "card (dom (sve_tab ?s)) < min vl 32")
      case True
      then have eq: "s' = ?s" "st' = st" "r = None"
        using res f1 less \<open>r1 = None\<close> unfolding s1 by (auto simp: sve_submit_def Let_def)
      then show ?thesis using x(2) True f(2) post unfolding sve_inv_def eq
        by (auto simp: \<open>r1 = None\<close> s1)
    next
      case False
      obtain s2 st2 where d: "sve_do_jobs vl kern ?s st = (s2, st2)" by fastforce
      have f2: "sve_free_lane s2 st2 = (s', st', r)"
        using res f1 \<open>r1 = None\<close> s1 d
        by (simp only: sve_submit_def Let_def less False split_conv simp_thms if_False prod.case)
      have "dom (sve_tab ?s) \<noteq> {}" by (simp add: x(3))
      note p = sve_round_post[OF kern x(2) this nf d f2]
      have "card (dom (sve_tab s')) < min vl 32" using p(3) card room by simp
      then show ?thesis using p(2) post[OF p(4)] unfolding sve_inv_def by blast
    qed
  qed
qed

lemma sve_flush_law:
  assumes kern: "kernel_ok md5_alg kern" and inv: "sve_inv vl s st" and res: "sve_flush vl kern s st = (s', st', r)"
  shows "sve_inv vl s' st' \<and>
    sched_post (sve_jobs s) (tab_fin md5_alg (sve_tab s) st) st (sve_jobs s') (tab_fin md5_alg (sve_tab s') st') st' r \<and>
    (r = None \<longrightarrow> sve_jobs s = {})"
proof -
  from inv obtain gs where core: "sve_core gs s st" and room: "card (dom (sve_tab s)) < min vl 32"
    unfolding sve_inv_def by blast
  obtain s1 st1 r1 where f1: "sve_free_lane s st = (s1, st1, r1)" by (metis prod_cases3)
  note f = sve_free_post[OF core f1]
  show ?thesis
  proof (cases "r1 = None")
    case False
    then have "s' = s1" "st' = st1" "r = r1" using res f1 by (simp_all add: sve_flush_def Let_def)
    then show ?thesis using f(1) f(3)[OF False] f(2) False room unfolding sve_inv_def by auto
  next
    case True
    then have s1: "s1 = s" "st1 = st" and nf: "\<And>i j. sve_tab s i \<noteq> Some (j, 0)"
      using sve_free(1,2)[OF core f1] by auto
    obtain s2 st2 where d: "sve_do_jobs vl kern s st = (s2, st2)" by fastforce
    have f2: "sve_free_lane s2 st2 = (s', st', r)"
      using res f1 True s1 d by (simp add: sve_flush_def Let_def)
    show ?thesis
    proof (cases "dom (sve_tab s) = {}")
      case True
      then have "unat (sve_num_lanes_inuse s) = 0" using sve_coreD(9)[OF core] by simp
      then have "s2 = s" "st2 = st" using d by (auto simp: sve_do_jobs_def unat_eq_0)
      then have "s' = s" "st' = st" "r = None" using f1 f2 s1 \<open>r1 = None\<close> by auto
      then show ?thesis using inv f(2) s1 \<open>r1 = None\<close> True sve_jobs_empty[of s] by auto
    next
      case False
      note p = sve_round_post[OF kern core False nf d f2]
      then show ?thesis using room unfolding sve_inv_def by auto
    qed
  qed
qed

lemma sve_init_stack:
  assumes "g < 4"
  shows "lane_stack 8 [8 * g..<8 * g + 8] (sve_unused_lanes sve_init ! g)"
proof -
  have "g = 0 \<or> g = 1 \<or> g = 2 \<or> g = 3" using assms by linarith
  then show ?thesis by (elim disjE) (simp_all add: sve_init_def upt_rec drop_bit_eq_div unat_and_mask)
qed

lemma sve_init_inv:
  assumes "0 < vl"
  shows "sve_inv vl sve_init st" "sve_jobs sve_init = {}"
proof -
  have none: "sve_ldata sve_init ! i = None" if "i < 32" for i using that by (simp add: sve_init_def)
  have tab: "sve_tab sve_init = Map.empty" using none by (auto simp: sve_tab_def fun_eq_iff)
  then show "sve_jobs sve_init = {}" by (simp add: tab_jobs_def)
  define gs :: "nat \<Rightarrow> nat list" where "gs = (\<lambda>g. [8 * g..<8 * g + 8])"
  have "sve_core gs sve_init st"
    unfolding sve_core_def
  proof (intro conjI allI impI)
    show "length (sve_unused_lanes sve_init) = 4" "length (sve_lens sve_init) = 32" "length (sve_ldata sve_init) = 32"
      by (simp_all add: sve_init_def)
    show "tab_ok md5_alg (2 ^ 23) (sve_tab sve_init) st" by (simp add: tab tab_ok_def)
    show "unat (sve_num_lanes_inuse sve_init) = card (dom (sve_tab sve_init))" by (simp add: tab, simp add: sve_init_def)
    show "unat (sve_lens sve_init ! i) div 256 = 0" if "i < 32" for i
      using that by (simp add: sve_init_def unat_of_nat_small)
    fix g :: nat assume g: "g < 4"
    show "distinct (gs g)" by (simp add: gs_def)
    show "set (gs g) = {i. i div 8 = g \<and> sve_ldata sve_init ! i = None}"
    proof (rule set_eqI)
      fix i
      have "i \<in> set (gs g) \<longleftrightarrow> i div 8 = g" unfolding gs_def by auto
      moreover have "i div 8 = g \<Longrightarrow> i < 32" using g by linarith
      ultimately show "i \<in> set (gs g) \<longleftrightarrow> i \<in> {i. i div 8 = g \<and> sve_ldata sve_init ! i = None}"
        using none by auto
    qed
    show "lane_stack 8 (gs g) (sve_unused_lanes sve_init ! g)" unfolding gs_def by (rule sve_init_stack[OF g])
  qed
  then show "sve_inv vl sve_init st" using assms unfolding sve_inv_def by (auto simp: tab)
qed

lemma sve_scheduler:
  assumes kern: "kernel_ok md5_alg kern"
  shows "job_scheduler md5_alg (sve_submit vl kern) (sve_flush vl kern) sve_jobs sve_work (sve_inv vl) (2 ^ 23)"
proof (intro job_scheduler.intro job_scheduler_axioms.intro md5.hash_algorithm_axioms)
  fix s and st st' :: "(32, 32) store"
  assume inv: "sve_inv vl s st"
    and same: "\<And>j. j \<in> sve_jobs s \<Longrightarrow> job (st' j) = job (st j) \<and> partial_block_buffer (st' j) = partial_block_buffer (st j)"
  from inv obtain gs where core: "sve_core gs s st" and room: "card (dom (sve_tab s)) < min vl 32"
    unfolding sve_inv_def by blast
  have "tab_ok md5_alg (2 ^ 23) (sve_tab s) st'"
    by (rule tab_ok_cong[OF sve_coreD(4)[OF core]]) (rule same)
  then have "sve_core gs s st'" using core unfolding sve_core_def by blast
  then show "sve_inv vl s st'" using room unfolding sve_inv_def by blast
next
  fix s and st :: "(32, 32) store"
  assume "sve_inv vl s st"
  then obtain gs where "sve_core gs s st" unfolding sve_inv_def by blast
  from tab_jobs_finite[OF sve_coreD(4)[OF this]] show "finite (sve_jobs s)" .
next
  show "(2 :: nat) < 2 ^ 23" "(2 :: nat) ^ 23 \<le> 2 ^ LENGTH(32)" by simp_all
qed (rule sve_submit_law[OF kern] sve_flush_law[OF kern]; assumption)+

lemma sve_ready:
  assumes "kernel_ok md5_alg kern" "0 < vl"
  shows "ready_scheduler md5_alg (sve_submit vl kern) (sve_flush vl kern) sve_jobs sve_work (sve_inv vl) (2 ^ 23) sve_init"
  by (intro ready_scheduler.intro ready_scheduler_axioms.intro sve_scheduler sve_init_inv[OF assms(2)] assms(1))

section \<open>Jobs too long for a length word\<close>

text \<open>
  A length word has 24 bits for the number of blocks. Of a job of 2^24 blocks nothing is left, so the
  lane counts as finished as soon as it is filled.
\<close>

lemma sve_submit_long:
  assumes "unat (job_len (job (st c))) = 2 ^ 24" "sve_submit vl kern sve_init st c = (s', st', r)"
  shows "r = Some c \<and> st' = st(c := (st c)\<lparr>job := (job (st c))\<lparr>job_status := STS_COMPLETED\<rparr>\<rparr>)"
proof -
  have "job_len (job (st c)) = of_nat (2 ^ 24)" using assms(1) by (metis of_nat_unat ucast_id)
  then have jl: "job_len (job (st c)) = 0x1000000" by simp
  have "sve_is_free sve_init 0" by (simp add: sve_is_free_def sve_init_def)
  then have f: "List.find (sve_is_free sve_init) [0..<32] = Some 0" by (simp add: upt_rec)
  let ?s = "sve_insert_job sve_init st c"
  have lane: "sve_lens ?s ! 0 = 0" "sve_ldata ?s ! 0 = Some c"
    by (simp_all add: sve_insert_job_def f jl) (simp_all add: sve_init_def)
  then have "List.find (sve_is_finished ?s) [0..<32] = Some 0" by (simp add: upt_rec sve_is_finished_def)
  then show ?thesis using assms(2) lane(2) by (auto simp: sve_submit_def sve_free_lane_def Let_def)
qed

text \<open>Each job is in one lane.\<close>

lemma sve_card_jobs:
  assumes "sve_core gs s st"
  shows "card (dom (sve_tab s)) = card (sve_jobs s)"
proof -
  note ok = sve_coreD(4)[OF assms]
  let ?f = "\<lambda>i. fst (the (sve_tab s i))"
  have "bij_betw ?f (dom (sve_tab s)) (sve_jobs s)"
    unfolding bij_betw_def
  proof
    show "inj_on ?f (dom (sve_tab s))"
    proof (rule inj_onI)
      fix i k assume "i \<in> dom (sve_tab s)" "k \<in> dom (sve_tab s)" "?f i = ?f k"
      then obtain j n m where "sve_tab s i = Some (j, n)" "sve_tab s k = Some (j, m)" by force
      then show "i = k" using tab_okD(3)[OF ok] by blast
    qed
    show "?f ` dom (sve_tab s) = sve_jobs s"
      by (force simp: set_eq_iff image_iff tab_jobs_iff)
  qed
  then show ?thesis by (rule bij_betw_same_card)
qed

end
