(* ===== verification/Md5SveCtx.thy ===== *)
theory Md5SveCtx
  imports SveMgr Md5Ctx
begin

text \<open>
  MD5 on SVE and SVE2: the scheduler of \<open>SveMgr\<close> and the context layer of \<open>CtxMgr\<close> on it, as the
  files of the two instruction sets have them. They differ in the kernel only.
\<close>

section \<open>SVE\<close>

text \<open>\<open>md5_mb/aarch64/md5_mb_mgr_aarch64_sve.c\<close>.\<close>

definition md5_mb_mgr_init_sve :: sve_mgr where
  "md5_mb_mgr_init_sve = sve_init"

definition md5_mb_mgr_do_jobs_sve ::
  "nat \<Rightarrow> 32 kernel \<Rightarrow> sve_mgr \<Rightarrow> (32, 32) store \<Rightarrow> sve_mgr \<times> (32, 32) store" where
  "md5_mb_mgr_do_jobs_sve vl kern = sve_do_jobs vl kern"

definition md5_mb_mgr_free_lane_sve ::
  "sve_mgr \<Rightarrow> (32, 32) store \<Rightarrow> sve_mgr \<times> (32, 32) store \<times> nat option" where
  "md5_mb_mgr_free_lane_sve = sve_free_lane"

definition md5_mb_mgr_insert_job_sve ::
  "sve_mgr \<Rightarrow> (32, 32) store \<Rightarrow> nat \<Rightarrow> sve_mgr" where
  "md5_mb_mgr_insert_job_sve = sve_insert_job"

definition md5_mb_mgr_submit_sve ::
  "nat \<Rightarrow> 32 kernel \<Rightarrow> (sve_mgr, 32, 32) job_submit_fun" where
  "md5_mb_mgr_submit_sve vl kern = sve_submit vl kern"

definition md5_mb_mgr_flush_sve ::
  "nat \<Rightarrow> 32 kernel \<Rightarrow> (sve_mgr, 32, 32) job_flush_fun" where
  "md5_mb_mgr_flush_sve vl kern = sve_flush vl kern"

text \<open>\<open>md5_mb/aarch64/md5_ctx_aarch64_sve.c\<close>.\<close>

definition md5_hash_pad_sve ::
  "byte list \<Rightarrow> u64 \<Rightarrow> byte list \<times> u32" where
  "md5_hash_pad_sve =
     hash_pad md5_alg 0"

definition md5_ctx_mgr_resubmit_sve ::
  "nat \<Rightarrow> 32 kernel \<Rightarrow> sve_mgr \<Rightarrow> (32, 32) store \<Rightarrow> nat option \<Rightarrow>
   (sve_mgr \<times> (32, 32) store \<times> nat option) option" where
  "md5_ctx_mgr_resubmit_sve vl kern =
     ctx_mgr_resubmit md5_alg 0 (md5_mb_mgr_submit_sve vl kern)"

definition md5_ctx_mgr_submit_sve ::
  "nat \<Rightarrow> 32 kernel \<Rightarrow> sve_mgr \<Rightarrow> (32, 32) store \<Rightarrow> nat \<Rightarrow> byte list \<Rightarrow> u32 \<Rightarrow> u32 \<Rightarrow>
   (sve_mgr \<times> (32, 32) store \<times> nat option) option" where
  "md5_ctx_mgr_submit_sve vl kern =
     ctx_mgr_submit md5_alg 0 (md5_mb_mgr_submit_sve vl kern)"

definition md5_ctx_mgr_flush_sve ::
  "nat \<Rightarrow> 32 kernel \<Rightarrow> sve_mgr \<Rightarrow> (32, 32) store \<Rightarrow>
   (sve_mgr \<times> (32, 32) store \<times> nat option) option" where
  "md5_ctx_mgr_flush_sve vl kern =
     ctx_mgr_flush md5_alg 0 (md5_mb_mgr_submit_sve vl kern) (md5_mb_mgr_flush_sve vl kern)"

section \<open>SVE2\<close>

text \<open>\<open>md5_mb/aarch64/md5_mb_mgr_aarch64_sve2.c\<close>.\<close>

definition md5_mb_mgr_init_sve2 :: sve_mgr where
  "md5_mb_mgr_init_sve2 = sve_init"

definition md5_mb_mgr_do_jobs_sve2 ::
  "nat \<Rightarrow> 32 kernel \<Rightarrow> sve_mgr \<Rightarrow> (32, 32) store \<Rightarrow> sve_mgr \<times> (32, 32) store" where
  "md5_mb_mgr_do_jobs_sve2 vl kern = sve_do_jobs vl kern"

definition md5_mb_mgr_free_lane_sve2 ::
  "sve_mgr \<Rightarrow> (32, 32) store \<Rightarrow> sve_mgr \<times> (32, 32) store \<times> nat option" where
  "md5_mb_mgr_free_lane_sve2 = sve_free_lane"

definition md5_mb_mgr_insert_job_sve2 ::
  "sve_mgr \<Rightarrow> (32, 32) store \<Rightarrow> nat \<Rightarrow> sve_mgr" where
  "md5_mb_mgr_insert_job_sve2 = sve_insert_job"

definition md5_mb_mgr_submit_sve2 ::
  "nat \<Rightarrow> 32 kernel \<Rightarrow> (sve_mgr, 32, 32) job_submit_fun" where
  "md5_mb_mgr_submit_sve2 vl kern = sve_submit vl kern"

definition md5_mb_mgr_flush_sve2 ::
  "nat \<Rightarrow> 32 kernel \<Rightarrow> (sve_mgr, 32, 32) job_flush_fun" where
  "md5_mb_mgr_flush_sve2 vl kern = sve_flush vl kern"

text \<open>\<open>md5_mb/aarch64/md5_ctx_aarch64_sve2.c\<close>.\<close>

definition md5_hash_pad_sve2 ::
  "byte list \<Rightarrow> u64 \<Rightarrow> byte list \<times> u32" where
  "md5_hash_pad_sve2 =
     hash_pad md5_alg 0"

definition md5_ctx_mgr_resubmit_sve2 ::
  "nat \<Rightarrow> 32 kernel \<Rightarrow> sve_mgr \<Rightarrow> (32, 32) store \<Rightarrow> nat option \<Rightarrow>
   (sve_mgr \<times> (32, 32) store \<times> nat option) option" where
  "md5_ctx_mgr_resubmit_sve2 vl kern =
     ctx_mgr_resubmit md5_alg 0 (md5_mb_mgr_submit_sve2 vl kern)"

definition md5_ctx_mgr_submit_sve2 ::
  "nat \<Rightarrow> 32 kernel \<Rightarrow> sve_mgr \<Rightarrow> (32, 32) store \<Rightarrow> nat \<Rightarrow> byte list \<Rightarrow> u32 \<Rightarrow> u32 \<Rightarrow>
   (sve_mgr \<times> (32, 32) store \<times> nat option) option" where
  "md5_ctx_mgr_submit_sve2 vl kern =
     ctx_mgr_submit md5_alg 0 (md5_mb_mgr_submit_sve2 vl kern)"

definition md5_ctx_mgr_flush_sve2 ::
  "nat \<Rightarrow> 32 kernel \<Rightarrow> sve_mgr \<Rightarrow> (32, 32) store \<Rightarrow>
   (sve_mgr \<times> (32, 32) store \<times> nat option) option" where
  "md5_ctx_mgr_flush_sve2 vl kern =
     ctx_mgr_flush md5_alg 0 (md5_mb_mgr_submit_sve2 vl kern) (md5_mb_mgr_flush_sve2 vl kern)"

section \<open>The laws of a scheduler\<close>

lemma md5_sve_scheduler:
  assumes "kernel_ok md5_alg kern" "0 < vl"
  shows "ready_scheduler md5_alg (md5_mb_mgr_submit_sve vl kern) (md5_mb_mgr_flush_sve vl kern)
      sve_jobs sve_work (sve_inv vl) (2 ^ 23) md5_mb_mgr_init_sve"
    and "ready_scheduler md5_alg (md5_mb_mgr_submit_sve2 vl kern) (md5_mb_mgr_flush_sve2 vl kern)
      sve_jobs sve_work (sve_inv vl) (2 ^ 23) md5_mb_mgr_init_sve2"
  using sve_ready[OF assms]
  by (simp_all only: md5_mb_mgr_submit_sve_def md5_mb_mgr_flush_sve_def md5_mb_mgr_init_sve_def
      md5_mb_mgr_submit_sve2_def md5_mb_mgr_flush_sve2_def md5_mb_mgr_init_sve2_def)

text \<open>A machine with vectors of 256 bits, which reports sixteen lanes.\<close>

interpretation md5_sve: ready_scheduler md5_alg "md5_mb_mgr_submit_sve 16 (ref_kernel md5_alg)"
  "md5_mb_mgr_flush_sve 16 (ref_kernel md5_alg)" sve_jobs sve_work "sve_inv 16" "2 ^ 23" md5_mb_mgr_init_sve
  by (rule md5_sve_scheduler) simp_all

end
