(* ===== verification/Sm3.thy ===== *)
theory Sm3
  imports Rounds
begin

text \<open>
  SM3, \<open>sm3_mb/sm3_ctx_base.c\<close>. This file is written as the standard (GB/T 32905) is, with
  the whole expanded message in two arrays. Unlike the others it stores the digest words
  byte-swapped when the hash is complete.
\<close>

section \<open>The compression function\<close>

text \<open>
  The rotation macro, joined by \<open>|\<close>. The calls with \<open>r = 0\<close> (rounds 0 and 32) shift right by
  32, which C leaves undefined; whatever is or-ed in is 0 or \<open>x\<close> on the machines the library
  runs on, and the value is \<open>x\<close> in both cases.
\<close>

definition sm3_rol32 :: "u32 \<Rightarrow> nat \<Rightarrow> u32" where
  "sm3_rol32 x r = push_bit r x OR drop_bit (32 - r) x"

definition sm3_P0 :: "u32 \<Rightarrow> u32" where
  "sm3_P0 X = X XOR sm3_rol32 X 9 XOR sm3_rol32 X 17"

definition sm3_P1 :: "u32 \<Rightarrow> u32" where
  "sm3_P1 X = X XOR sm3_rol32 X 15 XOR sm3_rol32 X 23"

definition sm3_ff :: "nat \<Rightarrow> u32 \<Rightarrow> u32 \<Rightarrow> u32 \<Rightarrow> u32" where
  "sm3_ff j x y z = (if j < 16 then x XOR y XOR z else (x AND y) OR (x AND z) OR (y AND z))"

definition sm3_gg :: "nat \<Rightarrow> u32 \<Rightarrow> u32 \<Rightarrow> u32 \<Rightarrow> u32" where
  "sm3_gg j x y z = (if j < 16 then x XOR y XOR z else (x AND y) OR (NOT x AND z))"

text \<open>The loops that fill \<open>W[68]\<close> and \<open>W_bar[64]\<close>.\<close>

definition sm3_expand :: "nat \<Rightarrow> u32 list \<Rightarrow> u32 list" where
  "sm3_expand j W =
     (let tmp = W ! (j - 16) XOR W ! (j - 9) XOR sm3_rol32 (W ! (j - 3)) 15
      in W @ [sm3_P1 tmp XOR sm3_rol32 (W ! (j - 13)) 7 XOR W ! (j - 6)])"

definition sm3_message_schedule :: "byte list \<Rightarrow> u32 list \<times> u32 list" where
  "sm3_message_schedule bi =
     (let W = map (\<lambda>j. to_be32 (ld32 bi j)) [0..<16];
          W = fold sm3_expand [16..<68] W
      in (W, map (\<lambda>j. W ! j XOR W ! (j + 4)) [0..<64]))"

type_synonym sm3_regs = "u32 \<times> u32 \<times> u32 \<times> u32 \<times> u32 \<times> u32 \<times> u32 \<times> u32"

definition sm3_compress_step_func :: "u32 list \<Rightarrow> u32 list \<Rightarrow> nat \<Rightarrow> sm3_regs \<Rightarrow> sm3_regs" where
  "sm3_compress_step_func W W_B j = (\<lambda>(a, b, c, d, e, f, g, h).
     let T = (if j < 16 then 0x79cc4519 else 0x7a879d8a);
         SS1 = sm3_rol32 (sm3_rol32 a 12 + e + sm3_rol32 T (j mod 32)) 7;
         SS2 = SS1 XOR sm3_rol32 a 12;
         TT1 = sm3_ff j a b c + d + SS2 + W_B ! j;
         TT2 = sm3_gg j e f g + h + SS1 + W ! j
     in (TT1, a, sm3_rol32 b 9, c, sm3_P0 TT2, e, sm3_rol32 f 19, g))"

definition sm3_single :: "byte list \<Rightarrow> u32 list \<Rightarrow> u32 list" where
  "sm3_single data dgst =
     (let (W, W_bar) = sm3_message_schedule data;
          (a, b, c, d, e, f, g, h) =
            fold (sm3_compress_step_func W W_bar) [0..<64]
              (dgst ! 0, dgst ! 1, dgst ! 2, dgst ! 3, dgst ! 4, dgst ! 5, dgst ! 6, dgst ! 7)
      in map2 (XOR) dgst [a, b, c, d, e, f, g, h])"

definition sm3_initial_digest :: "u32 list" where
  "sm3_initial_digest =
     [0x7380166f, 0x4914b2b9, 0x172442d7, 0xda8a0600,
      0xa96f30bc, 0x163138aa, 0xe38dee4d, 0xb0fb0e4e]"

definition sm3_alg :: "32 hash_alg" where
  "sm3_alg =
     \<lparr>block_size = 64, log2_block_size = 6, pad_field_size = 8,
      initial_digest = sm3_initial_digest, single = sm3_single,
      len_field = (\<lambda>n. store_le 8 (to_be64 n)), output_digest = map byteswap32\<rparr>"

interpretation sm3: hash_algorithm sm3_alg
  by unfold_locales (simp_all add: sm3_alg_def)

section \<open>The portable operations\<close>

type_synonym sm3_ctx = "(32, 64) hash_ctx"

definition sm3_init :: "sm3_ctx \<Rightarrow> sm3_ctx" where
  "sm3_init = base_init sm3_alg"

definition sm3_update :: "sm3_ctx \<Rightarrow> byte list \<Rightarrow> u32 \<Rightarrow> sm3_ctx" where
  "sm3_update = base_update sm3_alg"

definition sm3_final :: "sm3_ctx \<Rightarrow> sm3_ctx" where
  "sm3_final = base_final sm3_alg"

definition sm3_ctx_mgr_submit_base :: "sm3_ctx \<Rightarrow> byte list \<Rightarrow> u32 \<Rightarrow> u32 \<Rightarrow> sm3_ctx" where
  "sm3_ctx_mgr_submit_base = base_submit sm3_alg"

definition sm3_ctx_mgr_flush_base :: "sm3_ctx option" where
  "sm3_ctx_mgr_flush_base = base_flush"

section \<open>Agreement with GB/T 32905\<close>

lemma sm3_rol32_rotl: "r < 32 \<Longrightarrow> sm3_rol32 x r = word_rotl r x"
proof (cases "r = 0")
  case True
  have "drop_bit 32 x = 0" by (rule bit_word_eqI) (auto simp: bit_simps dest: bit_imp_le_length)
  moreover have "word_rotl 0 x = x" by (rule bit_word_eqI) (auto simp: bit_word_rotl_iff)
  ultimately show ?thesis by (simp add: sm3_rol32_def True)
qed (use shifts_rotl(2)[of r x] in \<open>simp add: sm3_rol32_def\<close>)

text \<open>Every rotation the standard asks for, rounds 0 and 32 included.\<close>

lemma sm3_step_rotations:
  "sm3_compress_step_func W W_B j (a, b, c, d, e, f, g, h) =
     (let T = (if j < 16 then 0x79cc4519 else 0x7a879d8a);
          SS1 = word_rotl 7 (word_rotl 12 a + e + word_rotl (j mod 32) T);
          SS2 = SS1 XOR word_rotl 12 a;
          TT1 = sm3_ff j a b c + d + SS2 + W_B ! j;
          TT2 = sm3_gg j e f g + h + SS1 + W ! j
      in (TT1, a, word_rotl 9 b, c,
          TT2 XOR word_rotl 9 TT2 XOR word_rotl 17 TT2, e, word_rotl 19 f, g))"
  by (simp add: sm3_compress_step_func_def sm3_rol32_rotl sm3_P0_def Let_def)

text \<open>The standard's compression function: expansion of the message, 64 rounds, exclusive or.\<close>

primrec gbt_words :: "byte list \<Rightarrow> nat \<Rightarrow> u32 list" where
  "gbt_words data 0 = []"
| "gbt_words data (Suc j) =
     (let W = gbt_words data j;
          X = W ! (j - 16) XOR W ! (j - 9) XOR word_rotl 15 (W ! (j - 3))
      in W @ [if j < 16 then load_be (take 4 (drop (4 * j) data))
              else X XOR word_rotl 15 X XOR word_rotl 23 X XOR word_rotl 7 (W ! (j - 13)) XOR W ! (j - 6)])"

definition gbt_round :: "u32 list \<Rightarrow> nat \<Rightarrow> sm3_regs \<Rightarrow> sm3_regs" where
  "gbt_round W j = (\<lambda>(A, B, C, D, E, F, G, H).
     let FF = (if j < 16 then A XOR B XOR C else (A AND B) OR (A AND C) OR (B AND C));
         GG = (if j < 16 then E XOR F XOR G else (E AND F) OR (NOT E AND G));
         T = (if j < 16 then 0x79cc4519 else 0x7a879d8a);
         SS1 = word_rotl 7 (word_rotl 12 A + E + word_rotl (j mod 32) T);
         SS2 = SS1 XOR word_rotl 12 A;
         TT1 = FF + D + SS2 + (W ! j XOR W ! (j + 4));
         TT2 = GG + H + SS1 + W ! j
     in (TT1, A, word_rotl 9 B, C, TT2 XOR word_rotl 9 TT2 XOR word_rotl 17 TT2, E, word_rotl 19 F, G))"

definition gbt_compress :: "byte list \<Rightarrow> u32 list \<Rightarrow> u32 list" where
  "gbt_compress data V =
     (let (A, B, C, D, E, F, G, H) = fold (gbt_round (gbt_words data 68)) [0..<64]
            (V ! 0, V ! 1, V ! 2, V ! 3, V ! 4, V ! 5, V ! 6, V ! 7)
      in map2 (XOR) V [A, B, C, D, E, F, G, H])"

lemma length_gbt_words [simp]: "length (gbt_words data n) = n"
  by (induction n) (simp_all add: Let_def)

lemma sm3_expand_gbt:
  assumes "length data = 64"
  shows "fold sm3_expand [16..<16 + n] (map (\<lambda>j. to_be32 (ld32 data j)) [0..<16]) = gbt_words data (16 + n)"
proof (induction n)
  case 0
  have "map (\<lambda>j. to_be32 (ld32 data j)) [0..<k] = gbt_words data k" if "k \<le> 16" for k
    using that assms by (induction k) (simp_all add: Let_def ld32_def to_be32_def byteswap32_load_le)
  then show ?case by (simp del: gbt_words.simps)
next
  case (Suc n)
  have "[16..<16 + Suc n] = [16..<16 + n] @ [16 + n]"
    by (simp only: add_Suc_right upt_Suc le_add1 if_True)
  then have "fold sm3_expand [16..<16 + Suc n] (map (\<lambda>j. to_be32 (ld32 data j)) [0..<16])
      = sm3_expand (16 + n) (gbt_words data (16 + n))"
    using Suc by (simp del: gbt_words.simps upt_Suc)
  also have "\<dots> = gbt_words data (Suc (16 + n))"
    unfolding gbt_words.simps(2)[of data "16 + n"]
    by (simp add: sm3_expand_def Let_def sm3_rol32_rotl sm3_P1_def xor.assoc)
  also have "Suc (16 + n) = 16 + Suc n" by simp
  finally show ?case .
qed

theorem sm3_single_gbt:
  assumes "length data = 64"
  shows "sm3_single data V = gbt_compress data V"
proof -
  let ?W = "gbt_words data 68"
  have sched: "sm3_message_schedule data = (?W, map (\<lambda>j. ?W ! j XOR ?W ! (j + 4)) [0..<64])"
    using sm3_expand_gbt[OF assms, of 52] by (simp add: sm3_message_schedule_def Let_def del: upt_conv_Cons_Cons)
  have round: "sm3_compress_step_func ?W (map (\<lambda>j. ?W ! j XOR ?W ! (j + 4)) [0..<64]) j x = gbt_round ?W j x"
    if "j < 64" for j x
  proof -
    obtain a b c d e f g h where x: "x = (a, b, c, d, e, f, g, h)" by (cases x) auto
    show ?thesis
      using that unfolding x
      by (simp add: sm3_step_rotations gbt_round_def sm3_ff_def sm3_gg_def Let_def del: gbt_words.simps)
  qed
  have "fold (sm3_compress_step_func ?W (map (\<lambda>j. ?W ! j XOR ?W ! (j + 4)) [0..<64])) [0..<64] x
      = fold (gbt_round ?W) [0..<64] x" for x
    by (rule fold_cong) (simp_all add: round fun_eq_iff del: gbt_words.simps)
  then show ?thesis by (simp only: sm3_single_def sched gbt_compress_def Let_def prod.case)
qed

text \<open>The hash the standard defines, its words stored as the library stores them.\<close>

definition gbt_sm3 :: "byte list \<Rightarrow> u32 list" where
  "gbt_sm3 m = md_hash (sm3_alg\<lparr>single := gbt_compress\<rparr>) m"

lemma sm3_hash_gbt: "md_hash sm3_alg m = gbt_sm3 m"
  unfolding gbt_sm3_def
proof (rule md_hash_cong[where k = 8])
  show "length (initial_digest sm3_alg) = 8" by (simp add: sm3_alg_def sm3_initial_digest_def)
  fix xs :: "byte list" and d :: "u32 list" assume "length xs = block_size sm3_alg" "length d = 8"
  then show "single sm3_alg xs d = gbt_compress xs d \<and> length (gbt_compress xs d) = 8"
    using sm3_single_gbt[of xs d] by (simp add: sm3_alg_def) (simp add: gbt_compress_def split: prod.splits)
qed

end
