(* ===== verification/Sm3Ctx.thy ===== *)
theory Sm3Ctx
  imports Sm3 LaneReach
begin

text \<open>
  SM3 in the context layers of the architectures: the functions of every
  \<open>sm3_mb/sm3_ctx_<arch>.c\<close> are the ones of \<open>CtxMgr\<close> over the algorithm's constants. On x86
  the scheduler is assembly and is an argument; on aarch64 it is the C code of \<open>LaneMgr\<close>
  over the kernels, which are assembly and the argument \<open>kern\<close>.
\<close>

section \<open>x86\<close>

text \<open>\<open>sm3_mb/sm3_ctx_avx2.c\<close>.\<close>

definition sm3_hash_pad_avx2 ::
  "byte list \<Rightarrow> u64 \<Rightarrow> byte list \<times> u32" where
  "sm3_hash_pad_avx2 =
     hash_pad sm3_alg 0"

definition sm3_ctx_mgr_resubmit_avx2 ::
  "('s, 32, 64) job_submit_fun \<Rightarrow> 's \<Rightarrow> (32, 64) store \<Rightarrow> nat option \<Rightarrow>
   ('s \<times> (32, 64) store \<times> nat option) option" where
  "sm3_ctx_mgr_resubmit_avx2 mb_submit =
     ctx_mgr_resubmit sm3_alg 0 mb_submit"

definition sm3_ctx_mgr_submit_avx2 ::
  "('s, 32, 64) job_submit_fun \<Rightarrow> 's \<Rightarrow> (32, 64) store \<Rightarrow> nat \<Rightarrow> byte list \<Rightarrow> u32 \<Rightarrow> u32 \<Rightarrow>
   ('s \<times> (32, 64) store \<times> nat option) option" where
  "sm3_ctx_mgr_submit_avx2 mb_submit =
     ctx_mgr_submit sm3_alg 0 mb_submit"

definition sm3_ctx_mgr_flush_avx2 ::
  "('s, 32, 64) job_submit_fun \<Rightarrow> ('s, 32, 64) job_flush_fun \<Rightarrow> 's \<Rightarrow> (32, 64) store \<Rightarrow>
   ('s \<times> (32, 64) store \<times> nat option) option" where
  "sm3_ctx_mgr_flush_avx2 mb_submit mb_flush =
     ctx_mgr_flush sm3_alg 0 mb_submit mb_flush"

text \<open>\<open>sm3_mb/sm3_ctx_avx2_ni.c\<close>.\<close>

definition sm3_hash_pad_avx2_ni ::
  "byte list \<Rightarrow> u64 \<Rightarrow> byte list \<times> u32" where
  "sm3_hash_pad_avx2_ni =
     hash_pad sm3_alg 1"

definition sm3_ctx_mgr_resubmit_avx2_ni ::
  "('s, 32, 64) job_submit_fun \<Rightarrow> 's \<Rightarrow> (32, 64) store \<Rightarrow> nat option \<Rightarrow>
   ('s \<times> (32, 64) store \<times> nat option) option" where
  "sm3_ctx_mgr_resubmit_avx2_ni mb_submit =
     ctx_mgr_resubmit sm3_alg 1 mb_submit"

definition sm3_ctx_mgr_submit_avx2_ni ::
  "('s, 32, 64) job_submit_fun \<Rightarrow> 's \<Rightarrow> (32, 64) store \<Rightarrow> nat \<Rightarrow> byte list \<Rightarrow> u32 \<Rightarrow> u32 \<Rightarrow>
   ('s \<times> (32, 64) store \<times> nat option) option" where
  "sm3_ctx_mgr_submit_avx2_ni mb_submit =
     ctx_mgr_submit sm3_alg 1 mb_submit"

definition sm3_ctx_mgr_flush_avx2_ni ::
  "('s, 32, 64) job_submit_fun \<Rightarrow> ('s, 32, 64) job_flush_fun \<Rightarrow> 's \<Rightarrow> (32, 64) store \<Rightarrow>
   ('s \<times> (32, 64) store \<times> nat option) option" where
  "sm3_ctx_mgr_flush_avx2_ni mb_submit mb_flush =
     ctx_mgr_flush sm3_alg 1 mb_submit mb_flush"

text \<open>\<open>sm3_mb/sm3_ctx_avx512.c\<close>.\<close>

definition sm3_hash_pad_avx512 ::
  "byte list \<Rightarrow> u64 \<Rightarrow> byte list \<times> u32" where
  "sm3_hash_pad_avx512 =
     hash_pad sm3_alg 0"

definition sm3_ctx_mgr_resubmit_avx512 ::
  "('s, 32, 64) job_submit_fun \<Rightarrow> 's \<Rightarrow> (32, 64) store \<Rightarrow> nat option \<Rightarrow>
   ('s \<times> (32, 64) store \<times> nat option) option" where
  "sm3_ctx_mgr_resubmit_avx512 mb_submit =
     ctx_mgr_resubmit sm3_alg 0 mb_submit"

definition sm3_ctx_mgr_submit_avx512 ::
  "('s, 32, 64) job_submit_fun \<Rightarrow> 's \<Rightarrow> (32, 64) store \<Rightarrow> nat \<Rightarrow> byte list \<Rightarrow> u32 \<Rightarrow> u32 \<Rightarrow>
   ('s \<times> (32, 64) store \<times> nat option) option" where
  "sm3_ctx_mgr_submit_avx512 mb_submit =
     ctx_mgr_submit sm3_alg 0 mb_submit"

definition sm3_ctx_mgr_flush_avx512 ::
  "('s, 32, 64) job_submit_fun \<Rightarrow> ('s, 32, 64) job_flush_fun \<Rightarrow> 's \<Rightarrow> (32, 64) store \<Rightarrow>
   ('s \<times> (32, 64) store \<times> nat option) option" where
  "sm3_ctx_mgr_flush_avx512 mb_submit mb_flush =
     ctx_mgr_flush sm3_alg 0 mb_submit mb_flush"

section \<open>The byte order on aarch64\<close>

text \<open>
  The aarch64 files keep the digest words big-endian in memory from the start: the initial
  digest is stored byte-swapped, the kernels load and store it so, and nothing is swapped at
  the end. \<open>single\<close> is the effect of a kernel on one block of one job.
\<close>

definition sm3_be_alg :: "32 hash_alg" where
  "sm3_be_alg = sm3_alg
     \<lparr>initial_digest := map to_be32 sm3_initial_digest,
      single := (\<lambda>data d. map byteswap32 (sm3_single data (map byteswap32 d))),
      output_digest := (\<lambda>d. d)\<rparr>"

interpretation sm3_be: hash_algorithm sm3_be_alg
  by unfold_locales (simp_all add: sm3_be_alg_def sm3_alg_def)

text \<open>Both byte orders end with the same words.\<close>

lemma hash_nblocks_byteswap:
  "hash_nblocks B (\<lambda>xs d. map byteswap32 (f xs (map byteswap32 d))) n xs (map byteswap32 d)
    = map byteswap32 (hash_nblocks B f n xs d)"
proof (induction n arbitrary: xs d)
  case (Suc n)
  have "map byteswap32 (map byteswap32 d) = d" by (simp add: comp_def)
  then show ?case by (simp only: hash_nblocks.simps Suc.IH)
qed simp

lemma sm3_be_hash: "md_hash sm3_be_alg m = md_hash sm3_alg m"
proof -
  have e: "to_be32 = byteswap32" by (rule ext) (rule to_be32_def)
  show ?thesis
    by (simp add: md_hash_def md_blocks_def hash_blocks_def sm3_be_alg_def sm3_alg_def md_padding_def
        e hash_nblocks_byteswap)
qed

section \<open>aarch64\<close>

text \<open>\<open>sm3_mb/aarch64/sm3_mb_mgr_sm_aarch64.c\<close>.\<close>

definition sm3_mb_mgr_init_sm ::
  "32 lane_mgr" where
  "sm3_mb_mgr_init_sm = mgr_init 4 16"

definition sm3_mb_mgr_do_jobs_sm ::
  "32 kernel \<Rightarrow> (32, 32, 64) do_jobs_fun" where
  "sm3_mb_mgr_do_jobs_sm kern = do_jobs_ce 2 4 kern"

definition sm3_mb_mgr_free_lane_sm ::
  "32 lane_mgr \<Rightarrow> (32, 64) store \<Rightarrow> 32 lane_mgr \<times> (32, 64) store \<times> nat option" where
  "sm3_mb_mgr_free_lane_sm = free_lane 4"

definition sm3_mb_mgr_insert_job_sm ::
  "32 lane_mgr \<Rightarrow> (32, 64) store \<Rightarrow> nat \<Rightarrow> 32 lane_mgr" where
  "sm3_mb_mgr_insert_job_sm = insert_job"

definition sm3_mb_mgr_submit_sm ::
  "32 kernel \<Rightarrow> (32 lane_mgr, 32, 64) job_submit_fun" where
  "sm3_mb_mgr_submit_sm kern = mgr_submit 4 4 (sm3_mb_mgr_do_jobs_sm kern)"

definition sm3_mb_mgr_flush_sm ::
  "32 kernel \<Rightarrow> (32 lane_mgr, 32, 64) job_flush_fun" where
  "sm3_mb_mgr_flush_sm kern = mgr_flush 4 (sm3_mb_mgr_do_jobs_sm kern)"

text \<open>\<open>sm3_mb/aarch64/sm3_mb_ctx_sm_aarch64.c\<close>.\<close>

definition sm3_hash_pad_sm ::
  "byte list \<Rightarrow> u64 \<Rightarrow> byte list \<times> u32" where
  "sm3_hash_pad_sm =
     hash_pad sm3_be_alg 0"

definition sm3_ctx_mgr_resubmit_sm ::
  "32 kernel \<Rightarrow> 32 lane_mgr \<Rightarrow> (32, 64) store \<Rightarrow> nat option \<Rightarrow>
   (32 lane_mgr \<times> (32, 64) store \<times> nat option) option" where
  "sm3_ctx_mgr_resubmit_sm kern =
     ctx_mgr_resubmit sm3_be_alg 0 (sm3_mb_mgr_submit_sm kern)"

definition sm3_ctx_mgr_submit_sm ::
  "32 kernel \<Rightarrow> 32 lane_mgr \<Rightarrow> (32, 64) store \<Rightarrow> nat \<Rightarrow> byte list \<Rightarrow> u32 \<Rightarrow> u32 \<Rightarrow>
   (32 lane_mgr \<times> (32, 64) store \<times> nat option) option" where
  "sm3_ctx_mgr_submit_sm kern =
     ctx_mgr_submit sm3_be_alg 0 (sm3_mb_mgr_submit_sm kern)"

definition sm3_ctx_mgr_flush_sm ::
  "32 kernel \<Rightarrow> 32 lane_mgr \<Rightarrow> (32, 64) store \<Rightarrow>
   (32 lane_mgr \<times> (32, 64) store \<times> nat option) option" where
  "sm3_ctx_mgr_flush_sm kern =
     ctx_mgr_flush sm3_be_alg 0 (sm3_mb_mgr_submit_sm kern) (sm3_mb_mgr_flush_sm kern)"

text \<open>\<open>sm3_mb/aarch64/sm3_mb_mgr_asimd_aarch64.c\<close>.\<close>

definition sm3_mb_mgr_init_asimd ::
  "32 lane_mgr" where
  "sm3_mb_mgr_init_asimd = mgr_init 4 16"

definition sm3_mb_mgr_do_jobs_asimd ::
  "32 kernel \<Rightarrow> (32, 32, 64) do_jobs_fun" where
  "sm3_mb_mgr_do_jobs_asimd kern = do_jobs_asimd 2 kern"

definition sm3_mb_mgr_free_lane_asimd ::
  "32 lane_mgr \<Rightarrow> (32, 64) store \<Rightarrow> 32 lane_mgr \<times> (32, 64) store \<times> nat option" where
  "sm3_mb_mgr_free_lane_asimd = free_lane 4"

definition sm3_mb_mgr_insert_job_asimd ::
  "32 lane_mgr \<Rightarrow> (32, 64) store \<Rightarrow> nat \<Rightarrow> 32 lane_mgr" where
  "sm3_mb_mgr_insert_job_asimd = insert_job"

definition sm3_mb_mgr_submit_asimd ::
  "32 kernel \<Rightarrow> (32 lane_mgr, 32, 64) job_submit_fun" where
  "sm3_mb_mgr_submit_asimd kern = mgr_submit 4 4 (sm3_mb_mgr_do_jobs_asimd kern)"

definition sm3_mb_mgr_flush_asimd ::
  "32 kernel \<Rightarrow> (32 lane_mgr, 32, 64) job_flush_fun" where
  "sm3_mb_mgr_flush_asimd kern = mgr_flush 4 (sm3_mb_mgr_do_jobs_asimd kern)"

text \<open>\<open>sm3_mb/aarch64/sm3_mb_ctx_asimd_aarch64.c\<close>.\<close>

definition sm3_hash_pad_asimd ::
  "byte list \<Rightarrow> u64 \<Rightarrow> byte list \<times> u32" where
  "sm3_hash_pad_asimd =
     hash_pad sm3_be_alg 0"

definition sm3_ctx_mgr_resubmit_asimd ::
  "32 kernel \<Rightarrow> 32 lane_mgr \<Rightarrow> (32, 64) store \<Rightarrow> nat option \<Rightarrow>
   (32 lane_mgr \<times> (32, 64) store \<times> nat option) option" where
  "sm3_ctx_mgr_resubmit_asimd kern =
     ctx_mgr_resubmit sm3_be_alg 0 (sm3_mb_mgr_submit_asimd kern)"

definition sm3_ctx_mgr_submit_asimd ::
  "32 kernel \<Rightarrow> 32 lane_mgr \<Rightarrow> (32, 64) store \<Rightarrow> nat \<Rightarrow> byte list \<Rightarrow> u32 \<Rightarrow> u32 \<Rightarrow>
   (32 lane_mgr \<times> (32, 64) store \<times> nat option) option" where
  "sm3_ctx_mgr_submit_asimd kern =
     ctx_mgr_submit sm3_be_alg 0 (sm3_mb_mgr_submit_asimd kern)"

definition sm3_ctx_mgr_flush_asimd ::
  "32 kernel \<Rightarrow> 32 lane_mgr \<Rightarrow> (32, 64) store \<Rightarrow>
   (32 lane_mgr \<times> (32, 64) store \<times> nat option) option" where
  "sm3_ctx_mgr_flush_asimd kern =
     ctx_mgr_flush sm3_be_alg 0 (sm3_mb_mgr_submit_asimd kern) (sm3_mb_mgr_flush_asimd kern)"

text \<open>\<open>sm3_mb/aarch64/sm3_mb_mgr_sve.c\<close>.\<close>

definition sm3_mb_mgr_init_sve ::
  "nat \<Rightarrow> 32 lane_mgr" where
  "sm3_mb_mgr_init_sve maxjobs = mgr_init maxjobs 16"

definition sm3_mb_mgr_do_jobs_sve ::
  "nat \<Rightarrow> 32 kernel \<Rightarrow> (32, 32, 64) do_jobs_fun" where
  "sm3_mb_mgr_do_jobs_sve maxjobs kern = do_jobs_sve 2 maxjobs kern"

definition sm3_mb_mgr_free_lane_sve ::
  "32 lane_mgr \<Rightarrow> (32, 64) store \<Rightarrow> 32 lane_mgr \<times> (32, 64) store \<times> nat option" where
  "sm3_mb_mgr_free_lane_sve = free_lane 16"

definition sm3_mb_mgr_insert_job_sve ::
  "32 lane_mgr \<Rightarrow> (32, 64) store \<Rightarrow> nat \<Rightarrow> 32 lane_mgr" where
  "sm3_mb_mgr_insert_job_sve = insert_job"

definition sm3_mb_mgr_submit_sve ::
  "nat \<Rightarrow> 32 kernel \<Rightarrow> (32 lane_mgr, 32, 64) job_submit_fun" where
  "sm3_mb_mgr_submit_sve maxjobs kern = mgr_submit 16 maxjobs (sm3_mb_mgr_do_jobs_sve maxjobs kern)"

definition sm3_mb_mgr_flush_sve ::
  "nat \<Rightarrow> 32 kernel \<Rightarrow> (32 lane_mgr, 32, 64) job_flush_fun" where
  "sm3_mb_mgr_flush_sve maxjobs kern = mgr_flush 16 (sm3_mb_mgr_do_jobs_sve maxjobs kern)"

text \<open>\<open>sm3_mb/aarch64/sm3_mb_ctx_sve.c\<close>.\<close>

definition sm3_hash_pad_sve ::
  "byte list \<Rightarrow> u64 \<Rightarrow> byte list \<times> u32" where
  "sm3_hash_pad_sve =
     hash_pad sm3_be_alg 0"

definition sm3_ctx_mgr_resubmit_sve ::
  "nat \<Rightarrow> 32 kernel \<Rightarrow> 32 lane_mgr \<Rightarrow> (32, 64) store \<Rightarrow> nat option \<Rightarrow>
   (32 lane_mgr \<times> (32, 64) store \<times> nat option) option" where
  "sm3_ctx_mgr_resubmit_sve maxjobs kern =
     ctx_mgr_resubmit sm3_be_alg 0 (sm3_mb_mgr_submit_sve maxjobs kern)"

definition sm3_ctx_mgr_submit_sve ::
  "nat \<Rightarrow> 32 kernel \<Rightarrow> 32 lane_mgr \<Rightarrow> (32, 64) store \<Rightarrow> nat \<Rightarrow> byte list \<Rightarrow> u32 \<Rightarrow> u32 \<Rightarrow>
   (32 lane_mgr \<times> (32, 64) store \<times> nat option) option" where
  "sm3_ctx_mgr_submit_sve maxjobs kern =
     ctx_mgr_submit sm3_be_alg 0 (sm3_mb_mgr_submit_sve maxjobs kern)"

definition sm3_ctx_mgr_flush_sve ::
  "nat \<Rightarrow> 32 kernel \<Rightarrow> 32 lane_mgr \<Rightarrow> (32, 64) store \<Rightarrow>
   (32 lane_mgr \<times> (32, 64) store \<times> nat option) option" where
  "sm3_ctx_mgr_flush_sve maxjobs kern =
     ctx_mgr_flush sm3_be_alg 0 (sm3_mb_mgr_submit_sve maxjobs kern) (sm3_mb_mgr_flush_sve maxjobs kern)"

text \<open>\<open>sm3_mb/aarch64/sm3_mb_mgr_sve2.c\<close>.\<close>

definition sm3_mb_mgr_init_sve2 ::
  "nat \<Rightarrow> 32 lane_mgr" where
  "sm3_mb_mgr_init_sve2 maxjobs = mgr_init maxjobs 16"

definition sm3_mb_mgr_do_jobs_sve2 ::
  "nat \<Rightarrow> 32 kernel \<Rightarrow> (32, 32, 64) do_jobs_fun" where
  "sm3_mb_mgr_do_jobs_sve2 maxjobs kern = do_jobs_sve 2 maxjobs kern"

definition sm3_mb_mgr_free_lane_sve2 ::
  "32 lane_mgr \<Rightarrow> (32, 64) store \<Rightarrow> 32 lane_mgr \<times> (32, 64) store \<times> nat option" where
  "sm3_mb_mgr_free_lane_sve2 = free_lane 16"

definition sm3_mb_mgr_insert_job_sve2 ::
  "32 lane_mgr \<Rightarrow> (32, 64) store \<Rightarrow> nat \<Rightarrow> 32 lane_mgr" where
  "sm3_mb_mgr_insert_job_sve2 = insert_job"

definition sm3_mb_mgr_submit_sve2 ::
  "nat \<Rightarrow> 32 kernel \<Rightarrow> (32 lane_mgr, 32, 64) job_submit_fun" where
  "sm3_mb_mgr_submit_sve2 maxjobs kern = mgr_submit 16 maxjobs (sm3_mb_mgr_do_jobs_sve2 maxjobs kern)"

definition sm3_mb_mgr_flush_sve2 ::
  "nat \<Rightarrow> 32 kernel \<Rightarrow> (32 lane_mgr, 32, 64) job_flush_fun" where
  "sm3_mb_mgr_flush_sve2 maxjobs kern = mgr_flush 16 (sm3_mb_mgr_do_jobs_sve2 maxjobs kern)"

text \<open>\<open>sm3_mb/aarch64/sm3_mb_ctx_sve2.c\<close>.\<close>

definition sm3_hash_pad_sve2 ::
  "byte list \<Rightarrow> u64 \<Rightarrow> byte list \<times> u32" where
  "sm3_hash_pad_sve2 =
     hash_pad sm3_be_alg 0"

definition sm3_ctx_mgr_resubmit_sve2 ::
  "nat \<Rightarrow> 32 kernel \<Rightarrow> 32 lane_mgr \<Rightarrow> (32, 64) store \<Rightarrow> nat option \<Rightarrow>
   (32 lane_mgr \<times> (32, 64) store \<times> nat option) option" where
  "sm3_ctx_mgr_resubmit_sve2 maxjobs kern =
     ctx_mgr_resubmit sm3_be_alg 0 (sm3_mb_mgr_submit_sve2 maxjobs kern)"

definition sm3_ctx_mgr_submit_sve2 ::
  "nat \<Rightarrow> 32 kernel \<Rightarrow> 32 lane_mgr \<Rightarrow> (32, 64) store \<Rightarrow> nat \<Rightarrow> byte list \<Rightarrow> u32 \<Rightarrow> u32 \<Rightarrow>
   (32 lane_mgr \<times> (32, 64) store \<times> nat option) option" where
  "sm3_ctx_mgr_submit_sve2 maxjobs kern =
     ctx_mgr_submit sm3_be_alg 0 (sm3_mb_mgr_submit_sve2 maxjobs kern)"

definition sm3_ctx_mgr_flush_sve2 ::
  "nat \<Rightarrow> 32 kernel \<Rightarrow> 32 lane_mgr \<Rightarrow> (32, 64) store \<Rightarrow>
   (32 lane_mgr \<times> (32, 64) store \<times> nat option) option" where
  "sm3_ctx_mgr_flush_sve2 maxjobs kern =
     ctx_mgr_flush sm3_be_alg 0 (sm3_mb_mgr_submit_sve2 maxjobs kern) (sm3_mb_mgr_flush_sve2 maxjobs kern)"

section \<open>The schedulers keep the laws\<close>

text \<open>
  For any kernels that hash, and so for the compression function itself. A job of
  fewer than 2^25 blocks is below 2^31 bytes, so the \<open>int\<close> the code keeps the least length in
  stays positive and counts the bytes the job's pointer moves on without an overflow.
\<close>

lemma sm3_sm_layout:
  "lane_layout TYPE(64) TYPE(32) sm3_be_alg 4 4 16 (2 ^ 25)"
  by (intro lane_layout.intro lane_layout_axioms.intro sm3_be.hash_algorithm_axioms) (simp_all add: sm3_be_alg_def sm3_alg_def)

lemma sm3_sm_scheduler:
  assumes "kernel_ok sm3_be_alg kern"
  shows "lane_scheduler sm3_be_alg 4 4 16 (2 ^ 25) (sm3_mb_mgr_do_jobs_sm kern)"
proof -
  have "16 * 2 ^ 2 = block_size sm3_be_alg" by (simp add: sm3_be_alg_def sm3_alg_def)
  from lane_schedulers(1)[OF assms(1) this sm3_sm_layout]
  show ?thesis by (simp only: sm3_mb_mgr_do_jobs_sm_def)
qed

interpretation sm3_sm: lane_scheduler sm3_be_alg 4 4 16 "2 ^ 25"
  "sm3_mb_mgr_do_jobs_sm (ref_kernel sm3_be_alg)"
  by (rule sm3_sm_scheduler) simp_all

lemma sm3_asimd_layout:
  "lane_layout TYPE(64) TYPE(32) sm3_be_alg 4 4 16 (2 ^ 25)"
  by (intro lane_layout.intro lane_layout_axioms.intro sm3_be.hash_algorithm_axioms) (simp_all add: sm3_be_alg_def sm3_alg_def)

lemma sm3_asimd_scheduler:
  assumes "kernel_ok sm3_be_alg kern"
  shows "lane_scheduler sm3_be_alg 4 4 16 (2 ^ 25) (sm3_mb_mgr_do_jobs_asimd kern)"
proof -
  have "16 * 2 ^ 2 = block_size sm3_be_alg" by (simp add: sm3_be_alg_def sm3_alg_def)
  from lane_schedulers(3)[OF assms(1) this sm3_asimd_layout, OF refl]
  show ?thesis by (simp only: sm3_mb_mgr_do_jobs_asimd_def)
qed

interpretation sm3_asimd: lane_scheduler sm3_be_alg 4 4 16 "2 ^ 25"
  "sm3_mb_mgr_do_jobs_asimd (ref_kernel sm3_be_alg)"
  by (rule sm3_asimd_scheduler) simp_all

lemma sm3_sve_layout:
  "0 < maxjobs \<Longrightarrow> maxjobs \<le> 16 \<Longrightarrow> lane_layout TYPE(64) TYPE(32) sm3_be_alg maxjobs 16 16 (2 ^ 25)"
  by (intro lane_layout.intro lane_layout_axioms.intro sm3_be.hash_algorithm_axioms) (simp_all add: sm3_be_alg_def sm3_alg_def)

lemma sm3_sve_scheduler:
  assumes "kernel_ok sm3_be_alg kern" "0 < maxjobs" "maxjobs \<le> 16"
  shows "lane_scheduler sm3_be_alg maxjobs 16 16 (2 ^ 25) (sm3_mb_mgr_do_jobs_sve maxjobs kern)"
proof -
  have "16 * 2 ^ 2 = block_size sm3_be_alg" by (simp add: sm3_be_alg_def sm3_alg_def)
  from lane_schedulers(2)[OF assms(1) this sm3_sve_layout[OF assms(2,3)]]
  show ?thesis by (simp only: sm3_mb_mgr_do_jobs_sve_def)
qed

interpretation sm3_sve: lane_scheduler sm3_be_alg 16 16 16 "2 ^ 25"
  "sm3_mb_mgr_do_jobs_sve 16 (ref_kernel sm3_be_alg)"
  by (rule sm3_sve_scheduler) simp_all

lemma sm3_sve2_layout:
  "0 < maxjobs \<Longrightarrow> maxjobs \<le> 16 \<Longrightarrow> lane_layout TYPE(64) TYPE(32) sm3_be_alg maxjobs 16 16 (2 ^ 25)"
  by (intro lane_layout.intro lane_layout_axioms.intro sm3_be.hash_algorithm_axioms) (simp_all add: sm3_be_alg_def sm3_alg_def)

lemma sm3_sve2_scheduler:
  assumes "kernel_ok sm3_be_alg kern" "0 < maxjobs" "maxjobs \<le> 16"
  shows "lane_scheduler sm3_be_alg maxjobs 16 16 (2 ^ 25) (sm3_mb_mgr_do_jobs_sve2 maxjobs kern)"
proof -
  have "16 * 2 ^ 2 = block_size sm3_be_alg" by (simp add: sm3_be_alg_def sm3_alg_def)
  from lane_schedulers(2)[OF assms(1) this sm3_sve2_layout[OF assms(2,3)]]
  show ?thesis by (simp only: sm3_mb_mgr_do_jobs_sve2_def)
qed

interpretation sm3_sve2: lane_scheduler sm3_be_alg 16 16 16 "2 ^ 25"
  "sm3_mb_mgr_do_jobs_sve2 16 (ref_kernel sm3_be_alg)"
  by (rule sm3_sve2_scheduler) simp_all

end
