(* ===== verification/X86Mgr.thy ===== *)
theory X86Mgr
  imports SveMgr Sha512
begin

text \<open>
  What the library has in C of the x86 schedulers: the functions that initialise their states
  (\<open><alg>_mb/<alg>_mb_mgr_init_<arch>.c\<close> and \<open>sm3_mb/sm3_ctx_<arch>.c\<close>), and the single-buffer
  scheduler of SHA-512 (\<open>sha512_mb/sha512_sb_mgr_*_sse4.c\<close>), which hashes a job when it is submitted.
  \<open>memset\<close> clears the state first, so lanes beyond the loops hold zero and no job. The arguments
  of the kernels (\<open>args\<close>), which only assembly reads, are left out.
\<close>

section \<open>Initial states\<close>

text \<open>\<open>M\<close> lanes in the arrays, the first of which have the length words \<open>ls\<close>.\<close>

definition x86_init :: "nat \<Rightarrow> u64 \<Rightarrow> 'n::len word list \<Rightarrow> 'n lane_mgr" where
  "x86_init M u ls =
     \<lparr>unused_lanes = u, lens = ls @ replicate (M - length ls) 0, ldata = replicate M None, num_lanes_inuse = 0\<rparr>"

text \<open>The state of the MD5 managers has four words for the free lanes.\<close>

definition x86_md5_init :: "u64 list \<Rightarrow> nat \<Rightarrow> sve_mgr" where
  "x86_md5_init us L =
     \<lparr>sve_unused_lanes = us @ replicate (4 - length us) 0,
      sve_lens = replicate L 0xFFFFFFFF @ replicate (32 - L) 0,
      sve_ldata = replicate 32 None, sve_num_lanes_inuse = 0\<rparr>"

definition md5_mb_mgr_init_sse :: sve_mgr where
  "md5_mb_mgr_init_sse = x86_md5_init [0xF76543210] 8"

definition md5_mb_mgr_init_avx2 :: sve_mgr where
  "md5_mb_mgr_init_avx2 = x86_md5_init [0xfedcba9876543210] 16"

definition md5_mb_mgr_init_avx512 :: sve_mgr where
  "md5_mb_mgr_init_avx512 =
     x86_md5_init [0x0706050403020100, 0x0f0e0d0c0b0a0908, 0x1716151413121110, 0x1f1e1d1c1b1a1918] 32"

definition sha1_mb_mgr_init_sse :: "32 lane_mgr" where
  "sha1_mb_mgr_init_sse = x86_init 16 0xF3210 (replicate 4 0)"

definition sha1_mb_mgr_init_avx2 :: "32 lane_mgr" where
  "sha1_mb_mgr_init_avx2 = x86_init 16 0xF76543210 (replicate 8 0)"

definition sha1_mb_mgr_init_avx512 :: "32 lane_mgr" where
  "sha1_mb_mgr_init_avx512 = x86_init 16 0xfedcba9876543210 (replicate 16 0)"

definition sha256_mb_mgr_init_sse :: "32 lane_mgr" where
  "sha256_mb_mgr_init_sse = x86_init 16 0xF3210 (replicate 4 0)"

definition sha256_mb_mgr_init_avx2 :: "32 lane_mgr" where
  "sha256_mb_mgr_init_avx2 = x86_init 16 0xF76543210 (replicate 8 0)"

definition sha256_mb_mgr_init_avx512 :: "32 lane_mgr" where
  "sha256_mb_mgr_init_avx512 = x86_init 16 0xfedcba9876543210 (replicate 16 0)"

definition sha512_mb_mgr_init_sse :: "64 lane_mgr" where
  "sha512_mb_mgr_init_sse = x86_init 8 0xFF0100 [0, 1]"

definition sha512_mb_mgr_init_avx2 :: "64 lane_mgr" where
  "sha512_mb_mgr_init_avx2 = x86_init 8 0xFF03020100 [0, 1, 2, 3]"

definition sha512_mb_mgr_init_avx512 :: "64 lane_mgr" where
  "sha512_mb_mgr_init_avx512 = x86_init 8 0x0706050403020100 (map of_nat [0..<8])"

definition sm3_mb_mgr_init_avx2 :: "32 lane_mgr" where
  "sm3_mb_mgr_init_avx2 = x86_init 16 0xF76543210 (replicate 8 0)"

definition sm3_mb_mgr_init_avx2_ni :: "32 lane_mgr" where
  "sm3_mb_mgr_init_avx2_ni = x86_init 16 0xF76543210 (replicate 8 0)"

definition sm3_mb_mgr_init_avx512 :: "32 lane_mgr" where
  "sm3_mb_mgr_init_avx512 = x86_init 16 0xfedcba9876543210 (replicate 16 0)"

text \<open>The stacks hold the lanes in order, four or (SHA-512 and 32 lanes of MD5) eight bits each.\<close>

lemma x86_init_stacks:
  "lane_stack 4 [0..<8] (sve_unused_lanes md5_mb_mgr_init_sse ! 0)"
  "lane_stack 4 [0..<16] (sve_unused_lanes md5_mb_mgr_init_avx2 ! 0)"
  "g < 4 \<Longrightarrow> lane_stack 8 [8 * g..<8 * g + 8] (sve_unused_lanes md5_mb_mgr_init_avx512 ! g)"
  "lane_stack 4 [0..<4] (unused_lanes sha1_mb_mgr_init_sse)"
  "lane_stack 4 [0..<8] (unused_lanes sha1_mb_mgr_init_avx2)"
  "lane_stack 4 [0..<16] (unused_lanes sha1_mb_mgr_init_avx512)"
  "lane_stack 4 [0..<4] (unused_lanes sha256_mb_mgr_init_sse)"
  "lane_stack 4 [0..<8] (unused_lanes sha256_mb_mgr_init_avx2)"
  "lane_stack 4 [0..<16] (unused_lanes sha256_mb_mgr_init_avx512)"
  "lane_stack 8 [0..<2] (unused_lanes sha512_mb_mgr_init_sse)"
  "lane_stack 8 [0..<4] (unused_lanes sha512_mb_mgr_init_avx2)"
  "lane_stack 8 [0..<8] (unused_lanes sha512_mb_mgr_init_avx512)"
  "lane_stack 4 [0..<8] (unused_lanes sm3_mb_mgr_init_avx2)"
  "lane_stack 4 [0..<8] (unused_lanes sm3_mb_mgr_init_avx2_ni)"
  "lane_stack 4 [0..<16] (unused_lanes sm3_mb_mgr_init_avx512)"
proof -
  have u: "sve_unused_lanes md5_mb_mgr_init_avx512 = sve_unused_lanes sve_init"
    by (simp add: md5_mb_mgr_init_avx512_def x86_md5_init_def sve_init_def)
  show "lane_stack 8 [8 * g..<8 * g + 8] (sve_unused_lanes md5_mb_mgr_init_avx512 ! g)" if "g < 4"
    unfolding u using sve_init_stack[OF that] .
qed (simp_all add: x86_init_def x86_md5_init_def upt_rec drop_bit_eq_div unat_and_mask
    md5_mb_mgr_init_sse_def md5_mb_mgr_init_avx2_def sha1_mb_mgr_init_sse_def sha1_mb_mgr_init_avx2_def sha1_mb_mgr_init_avx512_def sha256_mb_mgr_init_sse_def sha256_mb_mgr_init_avx2_def sha256_mb_mgr_init_avx512_def sha512_mb_mgr_init_sse_def sha512_mb_mgr_init_avx2_def sha512_mb_mgr_init_avx512_def sm3_mb_mgr_init_avx2_def sm3_mb_mgr_init_avx2_ni_def sm3_mb_mgr_init_avx512_def)

section \<open>The single-buffer scheduler of SHA-512\<close>

text \<open>\<open>_sha512_sse4\<close> is assembly: \<open>kern\<close>, called for one lane.\<close>

definition sha512_sb_mgr_init_sse4 :: "64 lane_mgr \<Rightarrow> 64 lane_mgr" where
  "sha512_sb_mgr_init_sse4 state = state"

definition sha512_sb_mgr_submit_sse4 :: "64 kernel \<Rightarrow> (64 lane_mgr, 64, 64) job_submit_fun" where
  "sha512_sb_mgr_submit_sse4 kern state st c =
     (let len = unat (job_len (job (st c))) in (state, kernel_job kern 1 len c st, Some c))"

definition sha512_sb_mgr_flush_sse4 :: "(64 lane_mgr, 64, 64) job_flush_fun" where
  "sha512_sb_mgr_flush_sse4 state st = (state, st, None)"

text \<open>It is a scheduler that never has a job in flight.\<close>

lemma sha512_sb_scheduler:
  assumes kern: "kernel_ok sha512_alg kern"
  shows "job_scheduler sha512_alg (sha512_sb_mgr_submit_sse4 kern) sha512_sb_mgr_flush_sse4
    (\<lambda>_. {}) (\<lambda>_ _. 0) (\<lambda>_ _. True) (2 ^ 57)"
proof (intro job_scheduler.intro job_scheduler_axioms.intro sha512.hash_algorithm_axioms)
  fix s s' :: "64 lane_mgr" and st st' :: "(64, 64) store" and c n r
  assume n: "unat (job_len (job (st c))) = n"
      "n * block_size sha512_alg \<le> length (buf_bytes (st c) (job_buffer (job (st c))))"
    and res: "sha512_sb_mgr_submit_sse4 kern s st c = (s', st', r)"
  have "enough sha512_alg n {c} st" using n(2) by (simp add: enough_def)
  then have "st' = hashed sha512_alg n {c} st" "r = Some c"
    using res kernel_job_ok[OF kern, of n c st 1] by (auto simp: sha512_sb_mgr_submit_sse4_def n(1))
  then show "True \<and> sched_post (insert c {}) (\<lambda>j. job_result sha512_alg st (if j = c then n else 0) j) st
      {} (\<lambda>j. job_result sha512_alg st' 0 j) st' r"
    by (simp add: sched_post_def hashed_def job_result_def same_frame_def set_digest_def)
qed (auto simp: sha512_sb_mgr_flush_sse4_def sched_post_def)

lemma sha512_sb_ready:
  assumes "kernel_ok sha512_alg kern"
  shows "ready_scheduler sha512_alg (sha512_sb_mgr_submit_sse4 kern) sha512_sb_mgr_flush_sse4
    (\<lambda>_. {}) (\<lambda>_ _. 0) (\<lambda>_ _. True) (2 ^ 57) (sha512_sb_mgr_init_sse4 s)"
  by (intro ready_scheduler.intro ready_scheduler_axioms.intro sha512_sb_scheduler[OF assms]) simp_all

interpretation sha512_sb: ready_scheduler sha512_alg "sha512_sb_mgr_submit_sse4 (ref_kernel sha512_alg)"
  sha512_sb_mgr_flush_sse4 "\<lambda>_. {}" "\<lambda>_ _. 0" "\<lambda>_ _. True" "2 ^ 57" "sha512_sb_mgr_init_sse4 sha512_mb_mgr_init_sse"
  by (rule sha512_sb_ready) simp

end
