(* ===== verification/Memcpy.thy ===== *)
theory Memcpy
  imports Prelude
begin

text \<open>
  The inline copying and clearing routines of \<open>include/internal/memcpy_inline.h\<close> (x86). They move
  registers of 1, 2, 4, 8 or 16 bytes, and cover a length that is no multiple of the register by a
  last move that ends where the buffer ends and may overlap the one before. A load from an address
  and the store of the register are \<open>load_intrinreg\<close> and \<open>store_intrinreg\<close>; the buffers do not
  overlap, and lengths, \<open>size_t\<close> in the code, are natural numbers.
\<close>

section \<open>The routines\<close>

definition load_intrinreg :: "nat \<Rightarrow> byte list \<Rightarrow> nat \<Rightarrow> byte list" where
  "load_intrinreg N src off = take N (drop off src)"

definition store_intrinreg :: "nat \<Rightarrow> byte list \<Rightarrow> nat \<Rightarrow> byte list \<Rightarrow> byte list" where
  "store_intrinreg N dst off val = memcpy_at dst off val N"

definition memcpy_between_n_and_2n_bytes :: "nat \<Rightarrow> bool \<Rightarrow> byte list \<Rightarrow> byte list \<Rightarrow> nat \<Rightarrow> byte list" where
  "memcpy_between_n_and_2n_bytes N fixedwidth dst src nbytes =
     (if N = 1 \<or> fixedwidth \<and> nbytes = N then store_intrinreg N dst 0 (load_intrinreg N src 0)
      else
        let head = load_intrinreg N src 0;
            tail = load_intrinreg N src (nbytes - N);
            dst = store_intrinreg N dst 0 head
        in store_intrinreg N dst (nbytes - N) tail)"

definition memclr_between_n_and_2n_bytes :: "nat \<Rightarrow> bool \<Rightarrow> byte list \<Rightarrow> nat \<Rightarrow> byte list" where
  "memclr_between_n_and_2n_bytes N fixedwidth dst nbytes =
     (let zero = replicate N 0
      in if N = 1 \<or> fixedwidth \<and> nbytes = N then store_intrinreg N dst 0 zero
         else let dst = store_intrinreg N dst 0 zero in store_intrinreg N dst (nbytes - N) zero)"

text \<open>\<open>fixedwidth\<close> is 1 in the routines for fixed lengths and 0 in those for variable ones.\<close>

definition memcpy_lte32_sse :: "bool \<Rightarrow> byte list \<Rightarrow> byte list \<Rightarrow> nat \<Rightarrow> byte list" where
  "memcpy_lte32_sse fixedwidth dst src nbytes =
     (if 16 \<le> nbytes then memcpy_between_n_and_2n_bytes 16 fixedwidth dst src nbytes
      else if 8 \<le> nbytes then memcpy_between_n_and_2n_bytes 8 fixedwidth dst src nbytes
      else if 4 \<le> nbytes then memcpy_between_n_and_2n_bytes 4 fixedwidth dst src nbytes
      else if 2 \<le> nbytes then memcpy_between_n_and_2n_bytes 2 fixedwidth dst src nbytes
      else if 1 \<le> nbytes then memcpy_between_n_and_2n_bytes 1 fixedwidth dst src nbytes
      else dst)"

definition memclr_lte32_sse :: "bool \<Rightarrow> byte list \<Rightarrow> nat \<Rightarrow> byte list" where
  "memclr_lte32_sse fixedwidth dst nbytes =
     (if 16 \<le> nbytes then memclr_between_n_and_2n_bytes 16 fixedwidth dst nbytes
      else if 8 \<le> nbytes then memclr_between_n_and_2n_bytes 8 fixedwidth dst nbytes
      else if 4 \<le> nbytes then memclr_between_n_and_2n_bytes 4 fixedwidth dst nbytes
      else if 2 \<le> nbytes then memclr_between_n_and_2n_bytes 2 fixedwidth dst nbytes
      else if 1 \<le> nbytes then memclr_between_n_and_2n_bytes 1 fixedwidth dst nbytes
      else dst)"

text \<open>The routines for 16 bytes and more get the addresses as offsets \<open>o\<close> into the buffers.\<close>

function copy_fours :: "byte list \<Rightarrow> byte list \<Rightarrow> nat \<Rightarrow> nat \<Rightarrow> nat \<Rightarrow> byte list \<times> nat" where
  "copy_fours dst src off nbytes i =
     (if i + 16 * 4 \<le> nbytes then
        let pool = map (\<lambda>j. load_intrinreg 16 src (off + i + 16 * j)) [0..<4];
            dst = fold (\<lambda>j dst. store_intrinreg 16 dst (off + i + 16 * j) (pool ! j)) [0..<4] dst
        in copy_fours dst src off nbytes (i + 16 * 4)
      else (dst, i))"
  by pat_completeness auto
termination by (relation "measure (\<lambda>(dst, src, off, nbytes, i). nbytes - i)") auto

definition memcpy_gte16_sse_fixedlen :: "byte list \<Rightarrow> byte list \<Rightarrow> nat \<Rightarrow> nat \<Rightarrow> byte list" where
  "memcpy_gte16_sse_fixedlen dst src off nbytes =
     (let (dst, i) = copy_fours dst src off nbytes 0;
          remaining_moves = (nbytes - i) div 16;
          tail_offset = nbytes - 16;
          do_tail = (tail_offset mod 16 \<noteq> 0);
          pool = map (\<lambda>j. load_intrinreg 16 src (off + i + 16 * j)) [0..<remaining_moves] @
                 (if do_tail then [load_intrinreg 16 src (off + tail_offset)] else []);
          dst = fold (\<lambda>j dst. store_intrinreg 16 dst (off + i + 16 * j) (pool ! j)) [0..<remaining_moves] dst
      in if do_tail then store_intrinreg 16 dst (off + tail_offset) (pool ! remaining_moves) else dst)"

function clear_fours :: "byte list \<Rightarrow> nat \<Rightarrow> nat \<Rightarrow> nat \<Rightarrow> byte list \<times> nat" where
  "clear_fours dst off nbytes i =
     (if i + 16 * 4 \<le> nbytes then
        let dst = fold (\<lambda>j dst. store_intrinreg 16 dst (off + i + 16 * j) (replicate 16 0)) [0..<4] dst
        in clear_fours dst off nbytes (i + 16 * 4)
      else (dst, i))"
  by pat_completeness auto
termination by (relation "measure (\<lambda>(dst, off, nbytes, i). nbytes - i)") auto

definition memclr_gte16_sse_fixedlen :: "byte list \<Rightarrow> nat \<Rightarrow> nat \<Rightarrow> byte list" where
  "memclr_gte16_sse_fixedlen dst off nbytes =
     (let zero = replicate 16 0;
          (dst, i) = clear_fours dst off nbytes 0;
          remaining_moves = (nbytes - i) div 16;
          tail_offset = nbytes - 16;
          do_tail = (tail_offset mod 16 \<noteq> 0);
          dst = fold (\<lambda>j dst. store_intrinreg 16 dst (off + i + 16 * j) zero) [0..<remaining_moves] dst
      in if do_tail then store_intrinreg 16 dst (off + tail_offset) zero else dst)"

function copy_128s :: "byte list \<Rightarrow> byte list \<Rightarrow> nat \<Rightarrow> nat \<Rightarrow> byte list \<times> nat" where
  "copy_128s dst src nbytes i =
     (if i + 128 \<le> nbytes then copy_128s (memcpy_gte16_sse_fixedlen dst src i 128) src nbytes (i + 128)
      else (dst, i))"
  by pat_completeness auto
termination by (relation "measure (\<lambda>(dst, src, nbytes, i). nbytes - i)") auto

definition memcpy_gte16_sse_varlen :: "byte list \<Rightarrow> byte list \<Rightarrow> nat \<Rightarrow> byte list" where
  "memcpy_gte16_sse_varlen dst src nbytes =
     (let (dst, i) = copy_128s dst src nbytes 0;
          (dst, i) = (if i + 64 \<le> nbytes then (memcpy_gte16_sse_fixedlen dst src i 64, i + 64) else (dst, i));
          (dst, i) = (if i + 32 \<le> nbytes then (memcpy_gte16_sse_fixedlen dst src i 32, i + 32) else (dst, i));
          dst = (if i + 16 \<le> nbytes then memcpy_gte16_sse_fixedlen dst src i 16 else dst);
          i = nbytes - 16;
          tail = load_intrinreg 16 src i
      in store_intrinreg 16 dst i tail)"

function clear_128s :: "byte list \<Rightarrow> nat \<Rightarrow> nat \<Rightarrow> byte list \<times> nat" where
  "clear_128s dst nbytes i =
     (if i + 128 \<le> nbytes then clear_128s (memclr_gte16_sse_fixedlen dst i 128) nbytes (i + 128)
      else (dst, i))"
  by pat_completeness auto
termination by (relation "measure (\<lambda>(dst, nbytes, i). nbytes - i)") auto

definition memclr_gte16_sse_varlen :: "byte list \<Rightarrow> nat \<Rightarrow> byte list" where
  "memclr_gte16_sse_varlen dst nbytes =
     (let (dst, i) = clear_128s dst nbytes 0;
          (dst, i) = (if i + 64 \<le> nbytes then (memclr_gte16_sse_fixedlen dst i 64, i + 64) else (dst, i));
          (dst, i) = (if i + 32 \<le> nbytes then (memclr_gte16_sse_fixedlen dst i 32, i + 32) else (dst, i));
          dst = (if i + 16 \<le> nbytes then memclr_gte16_sse_fixedlen dst i 16 else dst)
      in store_intrinreg 16 dst (nbytes - 16) (replicate 16 0))"

definition memcpy_sse_fixedlen :: "byte list \<Rightarrow> byte list \<Rightarrow> nat \<Rightarrow> byte list" where
  "memcpy_sse_fixedlen dst src nbytes =
     (if 16 \<le> nbytes then memcpy_gte16_sse_fixedlen dst src 0 nbytes else memcpy_lte32_sse True dst src nbytes)"

definition memclr_sse_fixedlen :: "byte list \<Rightarrow> nat \<Rightarrow> byte list" where
  "memclr_sse_fixedlen dst nbytes =
     (if 16 \<le> nbytes then memclr_gte16_sse_fixedlen dst 0 nbytes else memclr_lte32_sse True dst nbytes)"

definition memcpy_sse_varlen :: "byte list \<Rightarrow> byte list \<Rightarrow> nat \<Rightarrow> byte list" where
  "memcpy_sse_varlen dst src nbytes =
     (if 16 \<le> nbytes then memcpy_gte16_sse_varlen dst src nbytes else memcpy_lte32_sse False dst src nbytes)"

definition memclr_sse_varlen :: "byte list \<Rightarrow> nat \<Rightarrow> byte list" where
  "memclr_sse_varlen dst nbytes =
     (if 16 \<le> nbytes then memclr_gte16_sse_varlen dst nbytes else memclr_lte32_sse False dst nbytes)"

declare copy_fours.simps [simp del] clear_fours.simps [simp del] copy_128s.simps [simp del] clear_128s.simps [simp del]

section \<open>Copying a set of positions\<close>

text \<open>
  Every move copies an interval of positions to the same positions, so whatever the moves overlap,
  their effect is that of copying the union of the intervals.
\<close>

definition copied :: "byte list \<Rightarrow> byte list \<Rightarrow> nat set \<Rightarrow> byte list" where
  "copied src dst P = map (\<lambda>k. if k \<in> P then src ! k else dst ! k) [0..<length dst]"

lemma length_copied [simp]: "length (copied src dst P) = length dst"
  by (simp add: copied_def)

lemma copied_empty [simp]: "copied src dst {} = dst"
  by (simp add: copied_def map_nth)

lemma copied_copied: "copied src (copied src dst P) Q = copied src dst (P \<union> Q)"
  by (auto simp: copied_def)

lemma copied_memcpy_at:
  assumes "off + n \<le> length src" "off + n \<le> length dst"
  shows "memcpy_at dst off (drop off src) n = copied src dst {off..<off + n}"
  using assms by (intro nth_equalityI) (auto simp: nth_memcpy_at copied_def)

lemma move_copied:
  assumes "off + N \<le> length src" "off + N \<le> length dst"
  shows "store_intrinreg N dst off (load_intrinreg N src off) = copied src dst {off..<off + N}"
  using copied_memcpy_at[OF assms] assms by (simp add: store_intrinreg_def load_intrinreg_def memcpy_at_def min_def)

lemma between_copied:
  assumes "0 < N" "N \<le> n" "n \<le> 2 * N" "n < 2 \<or> N \<noteq> 1" "n \<le> length src" "n \<le> length dst"
  shows "memcpy_between_n_and_2n_bytes N fixedwidth dst src n = copied src dst {..<n}"
proof (cases "N = 1 \<or> fixedwidth \<and> n = N")
  case True
  then have "n = N" using assms(1-4) by linarith
  then show ?thesis using True assms(5,6)
    by (simp add: memcpy_between_n_and_2n_bytes_def move_copied atLeast0LessThan)
next
  case False
  have "{..<N} \<union> {n - N..<n} = {..<n}" using assms(1-3) by auto
  then show ?thesis using assms False
    by (simp add: memcpy_between_n_and_2n_bytes_def Let_def move_copied copied_copied atLeast0LessThan)
qed

lemma lte32_copied:
  assumes "n \<le> 32" "n \<le> length src" "n \<le> length dst"
  shows "memcpy_lte32_sse fixedwidth dst src n = copied src dst {..<n}"
  using assms by (auto simp: memcpy_lte32_sse_def between_copied not_le)

text \<open>A row of moves of 16 bytes.\<close>

lemma moves_copied:
  assumes "off + 16 * m \<le> length src" "off + 16 * m \<le> length dst" "m \<le> length pool"
    "\<And>j. j < m \<Longrightarrow> pool ! j = load_intrinreg 16 src (off + 16 * j)"
  shows "fold (\<lambda>j dst. store_intrinreg 16 dst (off + 16 * j) (pool ! j)) [0..<m] dst
    = copied src dst {off..<off + 16 * m}"
  using assms
proof (induction m)
  case (Suc m)
  have "{off..<off + 16 * m} \<union> {off + 16 * m..<off + 16 * m + 16} = {off..<off + 16 * Suc m}" by auto
  then show ?case using Suc by (simp add: move_copied copied_copied)
qed simp

lemma copy_fours_copied:
  assumes "off + n \<le> length src" "off + n \<le> length dst" "i \<le> n" "copy_fours dst src off n i = (dst', i')"
  shows "dst' = copied src dst {off + i..<off + i'} \<and> i \<le> i' \<and> i' \<le> n \<and> n - i' < 64 \<and> i' mod 16 = i mod 16"
  using assms(2-4)
proof (induction "n - i" arbitrary: dst i rule: less_induct)
  case less
  show ?case
  proof (cases "i + 64 \<le> n")
    case True
    let ?dst = "copied src dst {off + i..<off + i + 64}"
    have "fold (\<lambda>j dst. store_intrinreg 16 dst (off + i + 16 * j)
        (map (\<lambda>j. load_intrinreg 16 src (off + i + 16 * j)) [0..<4] ! j)) [0..<4] dst = ?dst"
      using moves_copied[of "off + i" 4 src dst "map (\<lambda>j. load_intrinreg 16 src (off + i + 16 * j)) [0..<4]"]
        True assms(1) less.prems(1) by (simp del: upt_Suc)
    then have r: "copy_fours ?dst src off n (i + 64) = (dst', i')"
      using less.prems(3) True by (simp add: copy_fours.simps[of dst src off n i] Let_def)
    have "dst' = copied src ?dst {off + (i + 64)..<off + i'} \<and> i + 64 \<le> i' \<and> i' \<le> n \<and> n - i' < 64 \<and>
        i' mod 16 = (i + 64) mod 16"
      using True less.prems by (intro less.hyps[OF _ _ _ r]) simp_all
    moreover from this have "{off + i..<off + i + 64} \<union> {off + (i + 64)..<off + i'} = {off + i..<off + i'}" by auto
    moreover have "(i + 64) mod 16 = i mod 16" using mod_mult_self2[of i 16 4] by simp
    ultimately show ?thesis by (simp add: copied_copied)
  next
    case False
    then have "dst' = dst" "i' = i" using less.prems(3) by (simp_all add: copy_fours.simps[of dst src off n i])
    then show ?thesis using False less.prems(2) by simp
  qed
qed

lemma gte16_fixedlen_copied:
  assumes "16 \<le> n" "off + n \<le> length src" "off + n \<le> length dst"
  shows "memcpy_gte16_sse_fixedlen dst src off n = copied src dst {off..<off + n}"
proof -
  obtain dst' i where f: "copy_fours dst src off n 0 = (dst', i)" by fastforce
  from copy_fours_copied[OF assms(2,3) _ f] have i: "dst' = copied src dst {off..<off + i}" "i \<le> n" "i mod 16 = 0"
    by simp_all
  define m where "m = (n - i) div 16"
  have "n - i = 16 * m + (n - i) mod 16" "(n - i) mod 16 < 16" by (simp_all add: m_def)
  then have m: "i + 16 * m \<le> n" "n < i + 16 * m + 16" using i(2) by linarith+
  define t where "t = ((n - 16) mod 16 \<noteq> 0)"
  define pool where "pool = map (\<lambda>j. load_intrinreg 16 src (off + i + 16 * j)) [0..<m] @
      (if t then [load_intrinreg 16 src (off + (n - 16))] else [])"
  have "fold (\<lambda>j dst. store_intrinreg 16 dst (off + i + 16 * j) (pool ! j)) [0..<m] dst'
      = copied src dst' {off + i..<off + i + 16 * m}"
    using m(1) assms(2,3) i(1) by (intro moves_copied) (auto simp: pool_def nth_append)
  also have "\<dots> = copied src dst ({off..<off + i} \<union> {off + i..<off + i + 16 * m})"
    unfolding i(1) copied_copied ..
  also have "{off..<off + i} \<union> {off + i..<off + i + 16 * m} = {off..<off + i + 16 * m}" by auto
  finally have e: "memcpy_gte16_sse_fixedlen dst src off n =
      (let dst = copied src dst {off..<off + i + 16 * m}
       in if t then store_intrinreg 16 dst (off + (n - 16)) (pool ! m) else dst)"
    by (simp only: memcpy_gte16_sse_fixedlen_def f Let_def prod.case m_def[symmetric] t_def[symmetric]
        pool_def[symmetric])
  show ?thesis
  proof (cases t)
    case True
    have "pool ! m = load_intrinreg 16 src (off + (n - 16))" using True by (simp add: pool_def nth_append)
    moreover have "{off..<off + i + 16 * m} \<union> {off + (n - 16)..<off + n} = {off..<off + n}"
      using m assms(1) by auto
    ultimately show ?thesis using e True assms by (simp add: Let_def move_copied copied_copied)
  next
    case False
    then have "n mod 16 = 0" using assms(1) unfolding t_def by (simp add: le_mod_geq)
    then have "16 dvd n" "16 dvd i" using i(3) by (simp_all only: dvd_eq_mod_eq_0)
    then obtain a b where "n = 16 * a" "i = 16 * b" by (elim dvdE)
    then have "i + 16 * m = n" using m by arith
    then show ?thesis using e False by (simp add: Let_def add.assoc)
  qed
qed

lemma copy_128s_copied:
  assumes "n \<le> length src" "n \<le> length dst" "i \<le> n" "copy_128s dst src n i = (dst', i')"
  shows "dst' = copied src dst {i..<i'} \<and> i \<le> i' \<and> i' \<le> n \<and> n - i' < 128"
  using assms(2-4)
proof (induction "n - i" arbitrary: dst i rule: less_induct)
  case less
  show ?case
  proof (cases "i + 128 \<le> n")
    case True
    let ?dst = "copied src dst {i..<i + 128}"
    have r: "copy_128s ?dst src n (i + 128) = (dst', i')"
      using less.prems(1,3) True assms(1)
      by (simp add: copy_128s.simps[of dst src n i] gte16_fixedlen_copied)
    have "dst' = copied src ?dst {i + 128..<i'} \<and> i + 128 \<le> i' \<and> i' \<le> n \<and> n - i' < 128"
      using True less.prems by (intro less.hyps[OF _ _ _ r]) simp_all
    moreover from this have "{i..<i + 128} \<union> {i + 128..<i'} = {i..<i'}" by auto
    ultimately show ?thesis by (simp add: copied_copied)
  next
    case False
    then have "dst' = dst" "i' = i" using less.prems(3) by (simp_all add: copy_128s.simps[of dst src n i])
    then show ?thesis using False less.prems(2) by simp
  qed
qed

text \<open>One of the moves of \<open>w\<close> bytes that the remaining length decides on.\<close>

lemma optional_copied:
  assumes "16 \<le> w" "n \<le> length src" "n \<le> length dst" "i \<le> n"
    "(if i + w \<le> n then (memcpy_gte16_sse_fixedlen (copied src dst {..<i}) src i w, i + w)
      else (copied src dst {..<i}, i)) = (d, k)"
  shows "d = copied src dst {..<k} \<and> k \<le> n \<and> (n < i + 2 * w \<longrightarrow> n < k + w)"
proof -
  have "{..<i} \<union> {i..<i + w} = {..<i + w}" by auto
  then show ?thesis using assms by (auto simp: gte16_fixedlen_copied copied_copied split: if_splits)
qed

lemma gte16_varlen_copied:
  assumes "16 \<le> n" "n \<le> length src" "n \<le> length dst"
  shows "memcpy_gte16_sse_varlen dst src n = copied src dst {..<n}"
proof -
  obtain d i where f: "copy_128s dst src n 0 = (d, i)" by fastforce
  from copy_128s_copied[OF assms(2,3) _ f] have i: "d = copied src dst {..<i}" "i \<le> n" "n < i + 128"
    by (simp_all add: atLeast0LessThan, linarith)
  let ?move = "\<lambda>i w. if i + w \<le> n then (memcpy_gte16_sse_fixedlen (copied src dst {..<i}) src i w, i + w)
      else (copied src dst {..<i}, i)"
  obtain d1 i1 where f1: "?move i 64 = (d1, i1)" by fastforce
  from optional_copied[OF _ assms(2,3) i(2) f1] i(3)
  have i1: "d1 = copied src dst {..<i1}" "i1 \<le> n" "n < i1 + 64" by simp_all
  obtain d2 i2 where f2: "?move i1 32 = (d2, i2)" by fastforce
  from optional_copied[OF _ assms(2,3) i1(2) f2] i1(3)
  have i2: "d2 = copied src dst {..<i2}" "i2 \<le> n" "n < i2 + 32" by simp_all
  obtain d3 i3 where f3: "?move i2 16 = (d3, i3)" by fastforce
  from optional_copied[OF _ assms(2,3) i2(2) f3] i2(3)
  have i3: "d3 = copied src dst {..<i3}" "i3 \<le> n" "n < i3 + 16" by simp_all
  have "memcpy_gte16_sse_varlen dst src n =
      store_intrinreg 16 (fst (?move i2 16)) (n - 16) (load_intrinreg 16 src (n - 16))"
    unfolding memcpy_gte16_sse_varlen_def f Let_def prod.case i(1) f1 i1(1) f2 i2(1)
    by (simp only: if_distrib[of fst] fst_conv)
  also have "\<dots> = copied src dst ({..<i3} \<union> {n - 16..<n})"
    using assms unfolding f3 i3(1) by (simp add: move_copied copied_copied)
  also have "{..<i3} \<union> {n - 16..<n} = {..<n}" using i3(2,3) assms(1) by auto
  finally show ?thesis .
qed

lemma copied_take: "n \<le> length src \<Longrightarrow> n \<le> length dst \<Longrightarrow> copied src dst {..<n} = take n src @ drop n dst"
  by (intro nth_equalityI) (auto simp: copied_def nth_append)

lemma memcpy_sse:
  assumes "n \<le> length src" "n \<le> length dst"
  shows "memcpy_sse_varlen dst src n = take n src @ drop n dst"
    "memcpy_sse_fixedlen dst src n = take n src @ drop n dst"
  using assms copied_take[OF assms]
  by (simp_all add: memcpy_sse_varlen_def memcpy_sse_fixedlen_def gte16_varlen_copied lte32_copied
      gte16_fixedlen_copied atLeast0LessThan)

section \<open>Clearing is copying zeros\<close>

lemma load_zeros: "off + N \<le> L \<Longrightarrow> load_intrinreg N (replicate L 0) off = replicate N 0"
  by (simp add: load_intrinreg_def)

lemma between_zeros:
  "N \<le> n \<Longrightarrow> n \<le> L \<Longrightarrow>
   memclr_between_n_and_2n_bytes N fw dst n = memcpy_between_n_and_2n_bytes N fw dst (replicate L 0) n"
  by (simp add: memclr_between_n_and_2n_bytes_def memcpy_between_n_and_2n_bytes_def load_zeros Let_def)

lemma lte32_zeros: "n \<le> L \<Longrightarrow> memclr_lte32_sse fw dst n = memcpy_lte32_sse fw dst (replicate L 0) n"
  by (auto simp: memclr_lte32_sse_def memcpy_lte32_sse_def between_zeros)

lemma fours_zeros:
  "off + n \<le> L \<Longrightarrow> clear_fours dst off n i = copy_fours dst (replicate L 0) off n i"
proof (induction "n - i" arbitrary: dst i rule: less_induct)
  case less
  show ?case
  proof (cases "i + 64 \<le> n")
    case True
    have "fold (\<lambda>j dst. store_intrinreg 16 dst (off + i + 16 * j) (replicate 16 0)) [0..<4] dst =
        fold (\<lambda>j dst. store_intrinreg 16 dst (off + i + 16 * j)
          (map (\<lambda>j. load_intrinreg 16 (replicate L 0) (off + i + 16 * j)) [0..<4] ! j)) [0..<4] dst"
      using True less.prems by (intro fold_cong) (auto simp: load_zeros simp del: upt_Suc)
    then show ?thesis using True less.hyps[of "i + 64"] less.prems
      by (simp add: clear_fours.simps[of dst off n i] copy_fours.simps[of dst _ off n i] Let_def)
  qed (simp add: clear_fours.simps[of dst off n i] copy_fours.simps[of dst _ off n i])
qed

lemma gte16_fixedlen_zeros:
  assumes "16 \<le> n" "off + n \<le> L" "off + n \<le> length dst"
  shows "memclr_gte16_sse_fixedlen dst off n = memcpy_gte16_sse_fixedlen dst (replicate L 0) off n"
proof -
  obtain dst' i where f: "copy_fours dst (replicate L 0) off n 0 = (dst', i)" by fastforce
  have i: "i \<le> n" using copy_fours_copied[OF _ assms(3) _ f] assms(2) by simp
  let ?pool = "map (\<lambda>j. load_intrinreg 16 (replicate L 0) (off + i + 16 * j)) [0..<(n - i) div 16] @
      (if (n - 16) mod 16 \<noteq> 0 then [load_intrinreg 16 (replicate L 0) (off + (n - 16))] else [])"
  have "off + i + 16 * j + 16 \<le> L" if "j < (n - i) div 16" for j
  proof -
    have "16 * Suc j \<le> 16 * ((n - i) div 16)" using that by (intro mult_le_mono2) simp
    also have "\<dots> \<le> n - i" by simp
    finally show ?thesis using i assms(2) by simp
  qed
  then have "fold (\<lambda>j dst. store_intrinreg 16 dst (off + i + 16 * j) (replicate 16 0)) [0..<(n - i) div 16] dst' =
      fold (\<lambda>j dst. store_intrinreg 16 dst (off + i + 16 * j) (?pool ! j)) [0..<(n - i) div 16] dst'"
    by (intro fold_cong) (auto simp: load_zeros nth_append)
  moreover have "?pool ! ((n - i) div 16) = replicate 16 0" if "(n - 16) mod 16 \<noteq> 0"
    using that assms by (simp add: nth_append load_zeros)
  ultimately show ?thesis
    by (simp add: memclr_gte16_sse_fixedlen_def memcpy_gte16_sse_fixedlen_def fours_zeros[OF assms(2)] f Let_def)
qed

lemma copy_128s_zeros:
  "n \<le> L \<Longrightarrow> n \<le> length dst \<Longrightarrow> clear_128s dst n i = copy_128s dst (replicate L 0) n i"
proof (induction "n - i" arbitrary: dst i rule: less_induct)
  case less
  show ?case
  proof (cases "i + 128 \<le> n")
    case True
    have "length (memcpy_gte16_sse_fixedlen dst (replicate L 0) i 128) = length dst"
      using True less.prems by (simp add: gte16_fixedlen_copied)
    then show ?thesis using True less.hyps[of "i + 128"] less.prems gte16_fixedlen_zeros[of 128 i L dst]
      by (simp add: clear_128s.simps[of dst n i] copy_128s.simps[of dst _ n i])
  qed (simp add: clear_128s.simps[of dst n i] copy_128s.simps[of dst _ n i])
qed

lemma gte16_varlen_zeros:
  assumes "16 \<le> n" "n \<le> L" "n \<le> length dst"
  shows "memclr_gte16_sse_varlen dst n = memcpy_gte16_sse_varlen dst (replicate L 0) n"
proof -
  obtain dst' i where f: "copy_128s dst (replicate L 0) n 0 = (dst', i)" by fastforce
  have i: "length dst' = length dst" "i \<le> n" using copy_128s_copied[OF _ assms(3) _ f] assms(2) by auto
  have z: "memclr_gte16_sse_fixedlen d k w = memcpy_gte16_sse_fixedlen d (replicate L 0) k w"
    "length (memcpy_gte16_sse_fixedlen d (replicate L 0) k w) = length dst"
    if "16 \<le> w" "k + w \<le> n" "length d = length dst" for d k w
  proof -
    show "memclr_gte16_sse_fixedlen d k w = memcpy_gte16_sse_fixedlen d (replicate L 0) k w"
      by (rule gte16_fixedlen_zeros) (use that assms in simp_all)
    show "length (memcpy_gte16_sse_fixedlen d (replicate L 0) k w) = length dst"
      using that assms by (simp add: gte16_fixedlen_copied)
  qed
  show ?thesis
    using i assms by (simp add: memclr_gte16_sse_varlen_def memcpy_gte16_sse_varlen_def
        copy_128s_zeros[OF assms(2,3)] f Let_def z load_zeros)
qed

lemma memclr_sse:
  assumes "n \<le> length dst"
  shows "memclr_sse_varlen dst n = replicate n 0 @ drop n dst"
    "memclr_sse_fixedlen dst n = replicate n 0 @ drop n dst"
proof -
  have "memclr_sse_varlen dst n = memcpy_sse_varlen dst (replicate n 0) n"
    "memclr_sse_fixedlen dst n = memcpy_sse_fixedlen dst (replicate n 0) n"
    using assms gte16_varlen_zeros[of n n dst] lte32_zeros[of n n _ dst] gte16_fixedlen_zeros[of n 0 n dst]
    by (simp_all add: memclr_sse_varlen_def memcpy_sse_varlen_def memclr_sse_fixedlen_def memcpy_sse_fixedlen_def)
  then show "memclr_sse_varlen dst n = replicate n 0 @ drop n dst"
    "memclr_sse_fixedlen dst n = replicate n 0 @ drop n dst"
    using memcpy_sse[of n "replicate n 0" dst] assms by simp_all
qed

end
