(* ===== verification/ShaVectors.thy ===== *)
theory ShaVectors
  imports Sha1 Sha256 Sha512
begin

text \<open>
  The known answers of the FIPS self tests (\<open>fips/sha_self_tests.c\<close>): the messages, the expected
  digests, and the proof by rewriting, a few steps at a time, that they are the values of the
  hashes. The constant tables of the code are pinned down by these lemmas.
\<close>

definition kat_msg :: "byte list" where
  "kat_msg =
    [0x61, 0x62, 0x63, 0x64, 0x62, 0x63, 0x64, 0x65, 0x63, 0x64, 0x65, 0x66, 0x64, 0x65,
    0x66, 0x67, 0x65, 0x66, 0x67, 0x68, 0x66, 0x67, 0x68, 0x69, 0x67, 0x68, 0x69, 0x6a,
    0x68, 0x69, 0x6a, 0x6b, 0x69, 0x6a, 0x6b, 0x6c, 0x6a, 0x6b, 0x6c, 0x6d, 0x6b, 0x6c,
    0x6d, 0x6e, 0x6c, 0x6d, 0x6e, 0x6f, 0x6d, 0x6e, 0x6f, 0x70, 0x6e, 0x6f, 0x70, 0x71]"

definition kat_msg_sha512 :: "byte list" where
  "kat_msg_sha512 =
    [0x54, 0x68, 0x65, 0x20, 0x71, 0x75, 0x69, 0x63, 0x6b, 0x20, 0x62, 0x72, 0x6f, 0x77,
    0x6e, 0x20, 0x66, 0x6f, 0x78, 0x20, 0x6a, 0x75, 0x6d, 0x70, 0x73, 0x20, 0x6f, 0x76,
    0x65, 0x72, 0x20, 0x74, 0x68, 0x65, 0x20, 0x6c, 0x61, 0x7a, 0x79, 0x20, 0x64, 0x6f,
    0x67]"

text \<open>The messages are the string literals of the code.\<close>

lemma kat_msg_string:
  "kat_msg = map of_char ''abcdbcdecdefdefgefghfghighijhijkijkljklmklmnlmnomnopnopq''"
  "kat_msg_sha512 = map of_char ''The quick brown fox jumps over the lazy dog''"
  by (simp_all add: kat_msg_def kat_msg_sha512_def)

definition sha1_kat_digest :: "u32 list" where
  "sha1_kat_digest =
    [0x84983e44, 0x1c3bd26e, 0xbaae4aa1, 0xf95129e5, 0xe54670f1]"

definition sha256_kat_digest :: "u32 list" where
  "sha256_kat_digest =
    [0x248d6a61, 0xd20638b8, 0xe5c02693, 0x0c3e6039, 0xa33ce459, 0x64ff2167, 0xf6ecedd4,
      0x19db06c1]"

definition sha512_kat_digest :: "u64 list" where
  "sha512_kat_digest =
    [0x07e547d9586f6a73, 0xf73fbac0435ed769, 0x51218fb7d0c8d788, 0xa309d785436bbb64,
      0x2e93a252a954f239, 0x12547d1e8a3b5ed6, 0xe1bfd7097821233f, 0xa0538f3db854fee6]"

lemma rounds_sha256: "rounds sha256_macros = 64"
  by (simp add: sha256_macros_def)

lemma rounds_sha512: "rounds sha512_macros = 80"
  by (simp add: sha512_macros_def)

section \<open>SHA-1\<close>

definition sha1_kat_block0 :: "byte list" where
  "sha1_kat_block0 =
    [0x61, 0x62, 0x63, 0x64, 0x62, 0x63, 0x64, 0x65, 0x63, 0x64, 0x65, 0x66, 0x64, 0x65,
    0x66, 0x67, 0x65, 0x66, 0x67, 0x68, 0x66, 0x67, 0x68, 0x69, 0x67, 0x68, 0x69, 0x6a,
    0x68, 0x69, 0x6a, 0x6b, 0x69, 0x6a, 0x6b, 0x6c, 0x6a, 0x6b, 0x6c, 0x6d, 0x6b, 0x6c,
    0x6d, 0x6e, 0x6c, 0x6d, 0x6e, 0x6f, 0x6d, 0x6e, 0x6f, 0x70, 0x6e, 0x6f, 0x70, 0x71,
    0x80, 0, 0, 0, 0, 0, 0, 0]"

lemma sha1_kat_0_0:
  "fold (sha1_step sha1_kat_block0) [0..<20]
     ([0x67452301, 0xefcdab89, 0x98badcfe, 0x10325476, 0xc3d2e1f0],
      [0, 0, 0, 0, 0, 0, 0, 0, 0, 0, 0, 0, 0, 0, 0, 0]) =
     ([0x6c445652, 0x944b1bd1, 0x509ae70d, 0x1ac1a012, 0x5098df8e],
      [0x0a063a3e, 0xd8dadcdf, 0xdadcdec0, 0xc8d2b4be, 0x65666768, 0x66676869, 0x6768696a,
      0x68696a6b, 0x696a6b6c, 0x6a6b6c6d, 0x6b6c6d6e, 0x6c6d6e6f, 0x6d6e6f70,
      0x6e6f7071, 0x80000000, 0])"
  by code_simp

lemma sha1_kat_0_20:
  "fold (sha1_step sha1_kat_block0) [20..<40]
     ([0x6c445652, 0x944b1bd1, 0x509ae70d, 0x1ac1a012, 0x5098df8e],
      [0x0a063a3e, 0xd8dadcdf, 0xdadcdec0, 0xc8d2b4be, 0x65666768, 0x66676869, 0x6768696a,
      0x68696a6b, 0x696a6b6c, 0x6a6b6c6d, 0x6b6c6d6e, 0x6c6d6e6f, 0x6d6e6f70,
      0x6e6f7071, 0x80000000, 0]) =
     ([0xadeb7478, 0x24957f22, 0x50fe1eba, 0x564cff26, 0xaadf0cbb],
      [0x0989cbe8, 0xf24843fe, 0x5c40d0ba, 0xa8d9cc3b, 0xb2b9666e, 0xba7b71b7, 0x20b28a72,
      0xb28af500, 0xfaf6cab6, 0xa6fb675a, 0x0c604cc8, 0x604cc02c, 0x49c0e6e2,
      0x2ee8cbbc, 0xcfd72ec4, 0x97e9810e])"
  by code_simp

lemma sha1_kat_0_40:
  "fold (sha1_step sha1_kat_block0) [40..<60]
     ([0xadeb7478, 0x24957f22, 0x50fe1eba, 0x564cff26, 0xaadf0cbb],
      [0x0989cbe8, 0xf24843fe, 0x5c40d0ba, 0xa8d9cc3b, 0xb2b9666e, 0xba7b71b7, 0x20b28a72,
      0xb28af500, 0xfaf6cab6, 0xa6fb675a, 0x0c604cc8, 0x604cc02c, 0x49c0e6e2,
      0x2ee8cbbc, 0xcfd72ec4, 0x97e9810e]) =
     ([0x9ef775c3, 0xf03d3782, 0xeb029e53, 0xe9a06dc8, 0x1ddb0e44],
      [0xe8be56b0, 0x1a0ae652, 0xcd5611c8, 0x46ef29dc, 0x60d3da6d, 0xddf3ba6e, 0x2737f5e9,
      0x4888a710, 0xd2a1177b, 0x9999633b, 0xd6c69d03, 0xccf6127b, 0x3868e778,
      0xab5e4848, 0x7f0e2118, 0xde87a111])"
  by code_simp

lemma sha1_kat_0_60:
  "fold (sha1_step sha1_kat_block0) [60..<80]
     ([0x9ef775c3, 0xf03d3782, 0xeb029e53, 0xe9a06dc8, 0x1ddb0e44],
      [0xe8be56b0, 0x1a0ae652, 0xcd5611c8, 0x46ef29dc, 0x60d3da6d, 0xddf3ba6e, 0x2737f5e9,
      0x4888a710, 0xd2a1177b, 0x9999633b, 0xd6c69d03, 0xccf6127b, 0x3868e778,
      0xab5e4848, 0x7f0e2118, 0xde87a111]) =
     ([0x8ce34517, 0xd3ad7c25, 0x6b4e1883, 0x74351cd2, 0x86838382],
      [0x152198d6, 0x7b3f1982, 0x37f2d5b7, 0x8596323e, 0x810790d6, 0xbea0a942, 0x11c7e1b1,
      0x6158d101, 0x5fcd77d9, 0x7f2f12e6, 0xf868cfb1, 0xd6e997e9, 0xf526b852,
      0xb7578dcc, 0x55d99df4, 0x1ff69958])"
  by code_simp

lemma sha1_kat_single0:
  "sha1_single sha1_kat_block0 [0x67452301, 0xefcdab89, 0x98badcfe, 0x10325476, 0xc3d2e1f0] =
     [0xf4286818, 0xc37b27ae, 0x0408f581, 0x84677148, 0x4a566572]"
proof -
  have "[0..<80] = [0..<20] @ [20..<40] @ [40..<60] @ [60..<(80 :: nat)]" by code_simp
  moreover have "replicate 16 0 = [0, 0, 0, 0, 0, 0, 0, 0, 0, 0, 0, 0, 0, 0, 0, 0 :: u32]"
    by (simp add: numeral_eq_Suc)
  ultimately have "sha1_single sha1_kat_block0 [0x67452301, 0xefcdab89, 0x98badcfe, 0x10325476, 0xc3d2e1f0] =
      map2 (+) [0x67452301, 0xefcdab89, 0x98badcfe, 0x10325476, 0xc3d2e1f0] [0x8ce34517, 0xd3ad7c25, 0x6b4e1883, 0x74351cd2, 0x86838382]"
    by (simp only: sha1_single_def fold_append comp_apply Let_def case_prod_conv
        sha1_kat_0_0 sha1_kat_0_20 sha1_kat_0_40 sha1_kat_0_60)
  then show ?thesis by simp
qed

definition sha1_kat_block1 :: "byte list" where
  "sha1_kat_block1 =
    [0, 0, 0, 0, 0, 0, 0, 0, 0, 0, 0, 0, 0, 0, 0, 0, 0, 0, 0, 0, 0, 0, 0, 0, 0, 0, 0, 0, 0,
    0, 0, 0, 0, 0, 0, 0, 0, 0, 0, 0, 0, 0, 0, 0, 0, 0, 0, 0, 0, 0, 0, 0, 0, 0, 0, 0, 0,
    0, 0, 0, 0, 0, 0x01, 0xc0]"

lemma sha1_kat_1_0:
  "fold (sha1_step sha1_kat_block1) [0..<20]
     ([0xf4286818, 0xc37b27ae, 0x0408f581, 0x84677148, 0x4a566572],
      [0, 0, 0, 0, 0, 0, 0, 0, 0, 0, 0, 0, 0, 0, 0, 0]) =
     ([0xd8992153, 0xc2eb709f, 0x2946d62f, 0x9541f6db, 0x365dc8d8],
      [0, 0, 0x00000380, 0, 0, 0, 0, 0, 0, 0, 0, 0, 0, 0, 0, 0x000001c0])"
  by code_simp

lemma sha1_kat_1_20:
  "fold (sha1_step sha1_kat_block1) [20..<40]
     ([0xd8992153, 0xc2eb709f, 0x2946d62f, 0x9541f6db, 0x365dc8d8],
      [0, 0, 0x00000380, 0, 0, 0, 0, 0, 0, 0, 0, 0, 0, 0, 0, 0x000001c0]) =
     ([0x03bb6310, 0x84e2a5f2, 0x21f56e03, 0xb3bd6b84, 0x1a5b6901],
      [0, 0x00007000, 0x00000e00, 0x00003600, 0x0000e000, 0x00000e00, 0, 0x0001ce00,
      0x00000e00, 0, 0, 0x00001c00, 0, 0x00000d80, 0x00003800, 0x00000480])"
  by code_simp

lemma sha1_kat_1_40:
  "fold (sha1_step sha1_kat_block1) [40..<60]
     ([0x03bb6310, 0x84e2a5f2, 0x21f56e03, 0xb3bd6b84, 0x1a5b6901],
      [0, 0x00007000, 0x00000e00, 0x00003600, 0x0000e000, 0x00000e00, 0, 0x0001ce00,
      0x00000e00, 0, 0, 0x00001c00, 0, 0x00000d80, 0x00003800, 0x00000480]) =
     ([0xa65818f7, 0x5b086c42, 0xb9e15956, 0xea1256a6, 0xdb69cb9f],
      [0x000e0000, 0x0000e000, 0x00003600, 0x001cee00, 0, 0x000df000, 0x00380000, 0x0004c600,
      0x0000e000, 0x0070ee00, 0x000ee000, 0x00369e00, 0, 0x00070e00, 0x0000ee00,
      0x00037500])"
  by code_simp

lemma sha1_kat_1_60:
  "fold (sha1_step sha1_kat_block1) [60..<80]
     ([0xa65818f7, 0x5b086c42, 0xb9e15956, 0xea1256a6, 0xdb69cb9f],
      [0x000e0000, 0x0000e000, 0x00003600, 0x001cee00, 0, 0x000df000, 0x00380000, 0x0004c600,
      0x0000e000, 0x0070ee00, 0x000ee000, 0x00369e00, 0, 0x00070e00, 0x0000ee00,
      0x00037500]) =
     ([0x906fd62c, 0x58c0aac0, 0xb6a55520, 0x74e9b89d, 0x9af00b7f],
      [0, 0x00d80000, 0x0380e000, 0x004f0000, 0, 0x070e0000, 0x00ee0000, 0x03751c00,
      0x0e000000, 0x00e0e000, 0x00363800, 0x1cee9000, 0, 0x0df09000, 0x3800e000,
      0x04c77400])"
  by code_simp

lemma sha1_kat_single1:
  "sha1_single sha1_kat_block1 [0xf4286818, 0xc37b27ae, 0x0408f581, 0x84677148, 0x4a566572] =
     [0x84983e44, 0x1c3bd26e, 0xbaae4aa1, 0xf95129e5, 0xe54670f1]"
proof -
  have "[0..<80] = [0..<20] @ [20..<40] @ [40..<60] @ [60..<(80 :: nat)]" by code_simp
  moreover have "replicate 16 0 = [0, 0, 0, 0, 0, 0, 0, 0, 0, 0, 0, 0, 0, 0, 0, 0 :: u32]"
    by (simp add: numeral_eq_Suc)
  ultimately have "sha1_single sha1_kat_block1 [0xf4286818, 0xc37b27ae, 0x0408f581, 0x84677148, 0x4a566572] =
      map2 (+) [0xf4286818, 0xc37b27ae, 0x0408f581, 0x84677148, 0x4a566572] [0x906fd62c, 0x58c0aac0, 0xb6a55520, 0x74e9b89d, 0x9af00b7f]"
    by (simp only: sha1_single_def fold_append comp_apply Let_def case_prod_conv
        sha1_kat_1_0 sha1_kat_1_20 sha1_kat_1_40 sha1_kat_1_60)
  then show ?thesis by simp
qed

lemma sha1_kat:
  "md_hash sha1_alg kat_msg = sha1_kat_digest"
proof -
  have len: "length kat_msg = 56" by (simp add: kat_msg_def)
  have pad: "kat_msg @ md_padding sha1_alg 56 = sha1_kat_block0 @ sha1_kat_block1"
    by code_simp
  have bs: "length sha1_kat_block0 = block_size sha1_alg" "length sha1_kat_block1 = block_size sha1_alg"
    by (simp_all add: sha1_kat_block0_def sha1_kat_block1_def sha1_alg_def)
  have split: "md_blocks sha1_alg (sha1_kat_block0 @ sha1_kat_block1) d = md_blocks sha1_alg sha1_kat_block1 (md_blocks sha1_alg sha1_kat_block0 d)" for d
    by (rule sha1.md_blocks_append) (simp add: bs(1))
  show ?thesis
    unfolding md_hash_def len pad split
      sha1.md_blocks_one[OF bs(1)] sha1.md_blocks_one[OF bs(2)]
    by (simp only: sha1_alg_def hash_alg.select_convs sha1_initial_digest_def sha1_kat_single0 sha1_kat_single1 sha1_kat_digest_def)
qed

section \<open>SHA-256\<close>

definition sha256_kat_block0 :: "byte list" where
  "sha256_kat_block0 =
    [0x61, 0x62, 0x63, 0x64, 0x62, 0x63, 0x64, 0x65, 0x63, 0x64, 0x65, 0x66, 0x64, 0x65,
    0x66, 0x67, 0x65, 0x66, 0x67, 0x68, 0x66, 0x67, 0x68, 0x69, 0x67, 0x68, 0x69, 0x6a,
    0x68, 0x69, 0x6a, 0x6b, 0x69, 0x6a, 0x6b, 0x6c, 0x6a, 0x6b, 0x6c, 0x6d, 0x6b, 0x6c,
    0x6d, 0x6e, 0x6c, 0x6d, 0x6e, 0x6f, 0x6d, 0x6e, 0x6f, 0x70, 0x6e, 0x6f, 0x70, 0x71,
    0x80, 0, 0, 0, 0, 0, 0, 0]"

lemma sha256_kat_0_0:
  "fold (sha2_step sha256_macros sha256_kat_block0) [0..<16]
     ([0x6a09e667, 0xbb67ae85, 0x3c6ef372, 0xa54ff53a, 0x510e527f, 0x9b05688c, 0x1f83d9ab,
      0x5be0cd19],
      [0, 0, 0, 0, 0, 0, 0, 0, 0, 0, 0, 0, 0, 0, 0, 0]) =
     ([0xc3486194, 0xdd16cbb3, 0xd68e6457, 0x101a4861, 0x1496a54f, 0x9162aded, 0x9243f8af,
      0x839a0fc9],
      [0x61626364, 0x62636465, 0x63646566, 0x64656667, 0x65666768, 0x66676869, 0x6768696a,
      0x68696a6b, 0x696a6b6c, 0x6a6b6c6d, 0x6b6c6d6e, 0x6c6d6e6f, 0x6d6e6f70,
      0x6e6f7071, 0x80000000, 0])"
  by code_simp

lemma sha256_kat_0_16:
  "fold (sha2_step sha256_macros sha256_kat_block0) [16..<32]
     ([0xc3486194, 0xdd16cbb3, 0xd68e6457, 0x101a4861, 0x1496a54f, 0x9162aded, 0x9243f8af,
      0x839a0fc9],
      [0x61626364, 0x62636465, 0x63646566, 0x64656667, 0x65666768, 0x66676869, 0x6768696a,
      0x68696a6b, 0x696a6b6c, 0x6a6b6c6d, 0x6b6c6d6e, 0x6c6d6e6f, 0x6d6e6f70,
      0x6e6f7071, 0x80000000, 0]) =
     ([0x5581ab07, 0xeb43f3ed, 0xdf7151a0, 0x74bcf468, 0xdf980085, 0x0635d880, 0x7629c961,
      0x72abaecd],
      [0xeb8012ad, 0xa7c3ae92, 0x76e93ba2, 0xba42e743, 0x92a92204, 0xd847e75e, 0x9e160036,
      0xb280a7cb, 0xddeb1516, 0xf36586f4, 0x969cd048, 0xe959d99d, 0x6accc0ec,
      0xf54cb098, 0x2af1b2da, 0xee59c4c9])"
  by code_simp

lemma sha256_kat_0_32:
  "fold (sha2_step sha256_macros sha256_kat_block0) [32..<48]
     ([0x5581ab07, 0xeb43f3ed, 0xdf7151a0, 0x74bcf468, 0xdf980085, 0x0635d880, 0x7629c961,
      0x72abaecd],
      [0xeb8012ad, 0xa7c3ae92, 0x76e93ba2, 0xba42e743, 0x92a92204, 0xd847e75e, 0x9e160036,
      0xb280a7cb, 0xddeb1516, 0xf36586f4, 0x969cd048, 0xe959d99d, 0x6accc0ec,
      0xf54cb098, 0x2af1b2da, 0xee59c4c9]) =
     ([0x13d82741, 0x165be9cd, 0x18f0d19d, 0xde71e2f2, 0xa7802a4d, 0xa483f080, 0x6b88472c,
      0xff61c636],
      [0xa835e16a, 0x1dff4429, 0xd6e15959, 0xc397cd6e, 0x6f1801ca, 0x21574205, 0x35ff7a84,
      0x9743ee78, 0xe44183e7, 0x0d09f00d, 0x9c89af54, 0x042d5bef, 0x71f134d0,
      0x0f94f463, 0x7e49dc63, 0x6f65c997])"
  by code_simp

lemma sha256_kat_0_48:
  "fold (sha2_step sha256_macros sha256_kat_block0) [48..<64]
     ([0x13d82741, 0x165be9cd, 0x18f0d19d, 0xde71e2f2, 0xa7802a4d, 0xa483f080, 0x6b88472c,
      0xff61c636],
      [0xa835e16a, 0x1dff4429, 0xd6e15959, 0xc397cd6e, 0x6f1801ca, 0x21574205, 0x35ff7a84,
      0x9743ee78, 0xe44183e7, 0x0d09f00d, 0x9c89af54, 0x042d5bef, 0x71f134d0,
      0x0f94f463, 0x7e49dc63, 0x6f65c997]) =
     ([0x1bdc6f6f, 0x86126910, 0xf6f443f8, 0xbcfce922, 0x25d2430a, 0x2fc08f85, 0xacc75916,
      0x962d8621],
      [0x0b706583, 0x179312ca, 0x503054e9, 0xba125c39, 0x7e9392c9, 0xd5cbaa1e, 0x78e0585d,
      0xf6e7611c, 0x8ac830ce, 0x8b47a303, 0xfd6e627f, 0x8c6e2c6a, 0x4001adf1,
      0x1a3dd097, 0xa9df6f62, 0x6aa60a39])"
  by code_simp

lemma sha256_kat_single0:
  "sha256_single sha256_kat_block0 [0x6a09e667, 0xbb67ae85, 0x3c6ef372, 0xa54ff53a, 0x510e527f, 0x9b05688c, 0x1f83d9ab,
      0x5be0cd19] =
     [0x85e655d6, 0x417a1795, 0x3363376a, 0x624cde5c, 0x76e09589, 0xcac5f811, 0xcc4b32c1,
      0xf20e533a]"
proof -
  have "[0..<64] = [0..<16] @ [16..<32] @ [32..<48] @ [48..<(64 :: nat)]" by code_simp
  moreover have "replicate 16 0 = [0, 0, 0, 0, 0, 0, 0, 0, 0, 0, 0, 0, 0, 0, 0, 0 :: u32]"
    by (simp add: numeral_eq_Suc)
  ultimately have "sha256_single sha256_kat_block0 [0x6a09e667, 0xbb67ae85, 0x3c6ef372, 0xa54ff53a, 0x510e527f, 0x9b05688c, 0x1f83d9ab,
      0x5be0cd19] =
      map2 (+) [0x6a09e667, 0xbb67ae85, 0x3c6ef372, 0xa54ff53a, 0x510e527f, 0x9b05688c, 0x1f83d9ab,
      0x5be0cd19] [0x1bdc6f6f, 0x86126910, 0xf6f443f8, 0xbcfce922, 0x25d2430a, 0x2fc08f85, 0xacc75916,
      0x962d8621]"
    by (simp only: sha256_single_def sha2_single_def rounds_sha256 fold_append comp_apply Let_def case_prod_conv
        sha256_kat_0_0 sha256_kat_0_16 sha256_kat_0_32 sha256_kat_0_48)
  then show ?thesis by simp
qed

definition sha256_kat_block1 :: "byte list" where
  "sha256_kat_block1 =
    [0, 0, 0, 0, 0, 0, 0, 0, 0, 0, 0, 0, 0, 0, 0, 0, 0, 0, 0, 0, 0, 0, 0, 0, 0, 0, 0, 0, 0,
    0, 0, 0, 0, 0, 0, 0, 0, 0, 0, 0, 0, 0, 0, 0, 0, 0, 0, 0, 0, 0, 0, 0, 0, 0, 0, 0, 0,
    0, 0, 0, 0, 0, 0x01, 0xc0]"

lemma sha256_kat_1_0:
  "fold (sha2_step sha256_macros sha256_kat_block1) [0..<16]
     ([0x85e655d6, 0x417a1795, 0x3363376a, 0x624cde5c, 0x76e09589, 0xcac5f811, 0xcc4b32c1,
      0xf20e533a],
      [0, 0, 0, 0, 0, 0, 0, 0, 0, 0, 0, 0, 0, 0, 0, 0]) =
     ([0x16a8cc79, 0x0cea5cbc, 0xd74080fa, 0x35ee996d, 0x0fcb1f6f, 0x60356548, 0x68aa893f,
      0x5c24e2a2],
      [0, 0, 0, 0, 0, 0, 0, 0, 0, 0, 0, 0, 0, 0, 0, 0x000001c0])"
  by code_simp

lemma sha256_kat_1_16:
  "fold (sha2_step sha256_macros sha256_kat_block1) [16..<32]
     ([0x16a8cc79, 0x0cea5cbc, 0xd74080fa, 0x35ee996d, 0x0fcb1f6f, 0x60356548, 0x68aa893f,
      0x5c24e2a2],
      [0, 0, 0, 0, 0, 0, 0, 0, 0, 0, 0, 0, 0, 0, 0, 0x000001c0]) =
     ([0xb0eab1c5, 0x02ef3a5f, 0x1cfa5eb0, 0xd958b529, 0xf6d93952, 0x5da10665, 0x6c49db9f,
      0xc2fa99b1],
      [0, 0x00d80000, 0, 0x00003677, 0, 0x1df5600d, 0x000001c0, 0x1c00501c, 0x01b00000,
      0x220a8d94, 0x0000a365, 0x177017e7, 0x63d38035, 0x090ab713, 0x4c7539ca,
      0x0f19a8c9])"
  by code_simp

lemma sha256_kat_1_32:
  "fold (sha2_step sha256_macros sha256_kat_block1) [32..<48]
     ([0xb0eab1c5, 0x02ef3a5f, 0x1cfa5eb0, 0xd958b529, 0xf6d93952, 0x5da10665, 0x6c49db9f,
      0xc2fa99b1],
      [0, 0x00d80000, 0, 0x00003677, 0, 0x1df5600d, 0x000001c0, 0x1c00501c, 0x01b00000,
      0x220a8d94, 0x0000a365, 0x177017e7, 0x63d38035, 0x090ab713, 0x4c7539ca,
      0x0f19a8c9]) =
     ([0xd7354d5b, 0x0b3303a7, 0x104a7db4, 0x0f154e11, 0xaad55b6b, 0xbbe1c39a, 0x5348e8f6,
      0x6f9517cb],
      [0x5df4b0c4, 0xe257036a, 0xc97bb6f1, 0xc5b46f4d, 0xf8253c4e, 0xa558d189, 0x78696285,
      0xed07117f, 0x107358f6, 0x390ae496, 0x565010a2, 0xc51d7d44, 0x9e74c972,
      0x6614b561, 0x30fc129d, 0x9ac684a8])"
  by code_simp

lemma sha256_kat_1_48:
  "fold (sha2_step sha256_macros sha256_kat_block1) [48..<64]
     ([0xd7354d5b, 0x0b3303a7, 0x104a7db4, 0x0f154e11, 0xaad55b6b, 0xbbe1c39a, 0x5348e8f6,
      0x6f9517cb],
      [0x5df4b0c4, 0xe257036a, 0xc97bb6f1, 0xc5b46f4d, 0xf8253c4e, 0xa558d189, 0x78696285,
      0xed07117f, 0x107358f6, 0x390ae496, 0x565010a2, 0xc51d7d44, 0x9e74c972,
      0x6614b561, 0x30fc129d, 0x9ac684a8]) =
     ([0x9ea7148b, 0x908c2123, 0xb25cef29, 0xa9f181dd, 0x2c5c4ed0, 0x9a392956, 0x2aa1bb13,
      0x27ccb387],
      [0x2b658dbd, 0xe290f793, 0x9eebb24c, 0x9713b5de, 0x41061ab7, 0xe022e23b, 0x0772079e,
      0x7de22d9c, 0xc8b83778, 0x75a79849, 0xd93dbddb, 0x0a036c9d, 0xcb4f6ac6,
      0x823f97e2, 0xea2f2a7a, 0xb9018b52])"
  by code_simp

lemma sha256_kat_single1:
  "sha256_single sha256_kat_block1 [0x85e655d6, 0x417a1795, 0x3363376a, 0x624cde5c, 0x76e09589, 0xcac5f811, 0xcc4b32c1,
      0xf20e533a] =
     [0x248d6a61, 0xd20638b8, 0xe5c02693, 0x0c3e6039, 0xa33ce459, 0x64ff2167, 0xf6ecedd4,
      0x19db06c1]"
proof -
  have "[0..<64] = [0..<16] @ [16..<32] @ [32..<48] @ [48..<(64 :: nat)]" by code_simp
  moreover have "replicate 16 0 = [0, 0, 0, 0, 0, 0, 0, 0, 0, 0, 0, 0, 0, 0, 0, 0 :: u32]"
    by (simp add: numeral_eq_Suc)
  ultimately have "sha256_single sha256_kat_block1 [0x85e655d6, 0x417a1795, 0x3363376a, 0x624cde5c, 0x76e09589, 0xcac5f811, 0xcc4b32c1,
      0xf20e533a] =
      map2 (+) [0x85e655d6, 0x417a1795, 0x3363376a, 0x624cde5c, 0x76e09589, 0xcac5f811, 0xcc4b32c1,
      0xf20e533a] [0x9ea7148b, 0x908c2123, 0xb25cef29, 0xa9f181dd, 0x2c5c4ed0, 0x9a392956, 0x2aa1bb13,
      0x27ccb387]"
    by (simp only: sha256_single_def sha2_single_def rounds_sha256 fold_append comp_apply Let_def case_prod_conv
        sha256_kat_1_0 sha256_kat_1_16 sha256_kat_1_32 sha256_kat_1_48)
  then show ?thesis by simp
qed

lemma sha256_kat:
  "md_hash sha256_alg kat_msg = sha256_kat_digest"
proof -
  have len: "length kat_msg = 56" by (simp add: kat_msg_def)
  have pad: "kat_msg @ md_padding sha256_alg 56 = sha256_kat_block0 @ sha256_kat_block1"
    by code_simp
  have bs: "length sha256_kat_block0 = block_size sha256_alg" "length sha256_kat_block1 = block_size sha256_alg"
    by (simp_all add: sha256_kat_block0_def sha256_kat_block1_def sha256_alg_def)
  have split: "md_blocks sha256_alg (sha256_kat_block0 @ sha256_kat_block1) d = md_blocks sha256_alg sha256_kat_block1 (md_blocks sha256_alg sha256_kat_block0 d)" for d
    by (rule sha256.md_blocks_append) (simp add: bs(1))
  show ?thesis
    unfolding md_hash_def len pad split
      sha256.md_blocks_one[OF bs(1)] sha256.md_blocks_one[OF bs(2)]
    by (simp only: sha256_alg_def hash_alg.select_convs sha256_initial_digest_def sha256_kat_single0 sha256_kat_single1 sha256_kat_digest_def)
qed

section \<open>SHA-512\<close>

definition sha512_kat_block0 :: "byte list" where
  "sha512_kat_block0 =
    [0x54, 0x68, 0x65, 0x20, 0x71, 0x75, 0x69, 0x63, 0x6b, 0x20, 0x62, 0x72, 0x6f, 0x77,
    0x6e, 0x20, 0x66, 0x6f, 0x78, 0x20, 0x6a, 0x75, 0x6d, 0x70, 0x73, 0x20, 0x6f, 0x76,
    0x65, 0x72, 0x20, 0x74, 0x68, 0x65, 0x20, 0x6c, 0x61, 0x7a, 0x79, 0x20, 0x64, 0x6f,
    0x67, 0x80, 0, 0, 0, 0, 0, 0, 0, 0, 0, 0, 0, 0, 0, 0, 0, 0, 0, 0, 0, 0, 0, 0, 0, 0,
    0, 0, 0, 0, 0, 0, 0, 0, 0, 0, 0, 0, 0, 0, 0, 0, 0, 0, 0, 0, 0, 0, 0, 0, 0, 0, 0, 0,
    0, 0, 0, 0, 0, 0, 0, 0, 0, 0, 0, 0, 0, 0, 0, 0, 0, 0, 0, 0, 0, 0, 0, 0, 0, 0, 0, 0,
    0, 0, 0x01, 0x58]"

lemma sha512_kat_0_0:
  "fold (sha2_step sha512_macros sha512_kat_block0) [0..<8]
     ([0x6a09e667f3bcc908, 0xbb67ae8584caa73b, 0x3c6ef372fe94f82b, 0xa54ff53a5f1d36f1,
      0x510e527fade682d1, 0x9b05688c2b3e6c1f, 0x1f83d9abfb41bd6b, 0x5be0cd19137e2179],
      [0, 0, 0, 0, 0, 0, 0, 0, 0, 0, 0, 0, 0, 0, 0, 0]) =
     ([0xd976b2a84d11ba1a, 0xd4e7089f5d15f145, 0xf0b87f49bfe24527, 0x3560d816edf1e865,
      0xe39b4343bb3fdfa6, 0x8ecaa35a7c46a447, 0xb25e3e487c92ffe8, 0xa8fc806edf4ec957],
      [0x5468652071756963, 0x6b2062726f776e20, 0x666f78206a756d70, 0x73206f7665722074,
      0x6865206c617a7920, 0x646f678000000000, 0, 0, 0, 0, 0, 0, 0, 0, 0, 0])"
  by code_simp

lemma sha512_kat_0_8:
  "fold (sha2_step sha512_macros sha512_kat_block0) [8..<16]
     ([0xd976b2a84d11ba1a, 0xd4e7089f5d15f145, 0xf0b87f49bfe24527, 0x3560d816edf1e865,
      0xe39b4343bb3fdfa6, 0x8ecaa35a7c46a447, 0xb25e3e487c92ffe8, 0xa8fc806edf4ec957],
      [0x5468652071756963, 0x6b2062726f776e20, 0x666f78206a756d70, 0x73206f7665722074,
      0x6865206c617a7920, 0x646f678000000000, 0, 0, 0, 0, 0, 0, 0, 0, 0, 0]) =
     ([0x2bcd160e00932aa7, 0x9363803b14395d45, 0x0ae88d41132ee4a8, 0xaa7977c6e99de822,
      0xfd5353d9400906ee, 0xe7b1fbf055e974c8, 0xdaf337177a2f5904, 0x92af61a32ab46e7b],
      [0x5468652071756963, 0x6b2062726f776e20, 0x666f78206a756d70, 0x73206f7665722074,
      0x6865206c617a7920, 0x646f678000000000, 0, 0, 0, 0, 0, 0, 0, 0, 0,
      0x0000000000000158])"
  by code_simp

lemma sha512_kat_0_16:
  "fold (sha2_step sha512_macros sha512_kat_block0) [16..<24]
     ([0x2bcd160e00932aa7, 0x9363803b14395d45, 0x0ae88d41132ee4a8, 0xaa7977c6e99de822,
      0xfd5353d9400906ee, 0xe7b1fbf055e974c8, 0xdaf337177a2f5904, 0x92af61a32ab46e7b],
      [0x5468652071756963, 0x6b2062726f776e20, 0x666f78206a756d70, 0x73206f7665722074,
      0x6865206c617a7920, 0x646f678000000000, 0, 0, 0, 0, 0, 0, 0, 0, 0,
      0x0000000000000158]) =
     ([0xcd4e9dcbb42fe733, 0x27eeff579ab8b19d, 0xaba5347c8a1af8c3, 0x43a63674758d3784,
      0x67d7431648514836, 0x44d46cf316b8ddc0, 0xb409d75803abca22, 0x0741cc7946b79d52],
      [0x6995b6c0127f9805, 0xaee8700ac4fba1f4, 0x71801d1437f92fce, 0x89716317ec608c4c,
      0x433f49bace2e9553, 0xbc96b39d10d71dd9, 0xca5cd897737b4a62, 0x6f92a8743707a8a5, 0,
      0, 0, 0, 0, 0, 0, 0x0000000000000158])"
  by code_simp

lemma sha512_kat_0_24:
  "fold (sha2_step sha512_macros sha512_kat_block0) [24..<32]
     ([0xcd4e9dcbb42fe733, 0x27eeff579ab8b19d, 0xaba5347c8a1af8c3, 0x43a63674758d3784,
      0x67d7431648514836, 0x44d46cf316b8ddc0, 0xb409d75803abca22, 0x0741cc7946b79d52],
      [0x6995b6c0127f9805, 0xaee8700ac4fba1f4, 0x71801d1437f92fce, 0x89716317ec608c4c,
      0x433f49bace2e9553, 0xbc96b39d10d71dd9, 0xca5cd897737b4a62, 0x6f92a8743707a8a5, 0,
      0, 0, 0, 0, 0, 0, 0x0000000000000158]) =
     ([0xd5a258027ed56878, 0x3064722adc1f71ac, 0x86416133fc139df2, 0xba1f829c746028ef,
      0x7d7222152c6268a5, 0xc4b74b65efaa2d7a, 0xd29ea645586ac04c, 0xd8f40c3d022ae5c7],
      [0x6995b6c0127f9805, 0xaee8700ac4fba1f4, 0x71801d1437f92fce, 0x89716317ec608c4c,
      0x433f49bace2e9553, 0xbc96b39d10d71dd9, 0xca5cd897737b4a62, 0x6f92a8743707a8a5,
      0xe76c5e9d2200f244, 0xf9bfc20675e90d37, 0xb0293c96dbbcc1fa, 0x32fd59c71d0d9889,
      0xd84cc9deb1f1457e, 0xee8cf597d29b5bec, 0xb13b4f4fa37de231, 0xb57cc711c02c88a1])"
  by code_simp

lemma sha512_kat_0_32:
  "fold (sha2_step sha512_macros sha512_kat_block0) [32..<40]
     ([0xd5a258027ed56878, 0x3064722adc1f71ac, 0x86416133fc139df2, 0xba1f829c746028ef,
      0x7d7222152c6268a5, 0xc4b74b65efaa2d7a, 0xd29ea645586ac04c, 0xd8f40c3d022ae5c7],
      [0x6995b6c0127f9805, 0xaee8700ac4fba1f4, 0x71801d1437f92fce, 0x89716317ec608c4c,
      0x433f49bace2e9553, 0xbc96b39d10d71dd9, 0xca5cd897737b4a62, 0x6f92a8743707a8a5,
      0xe76c5e9d2200f244, 0xf9bfc20675e90d37, 0xb0293c96dbbcc1fa, 0x32fd59c71d0d9889,
      0xd84cc9deb1f1457e, 0xee8cf597d29b5bec, 0xb13b4f4fa37de231, 0xb57cc711c02c88a1]) =
     ([0xd20ede14c07d19ae, 0x8801298b9d871d51, 0x30f22f9e7ea29c44, 0x0d9be893b9acecf6,
      0x174e56e13aab2901, 0x83b915daf8a0ad73, 0x374546316a09fe2e, 0x2742c386864fa312],
      [0x3d351ac3522493be, 0x8d8c388ca6e3cfaf, 0x28cc5ee162401604, 0x6bbb1734c92b717e,
      0x7c5c64d5ec7a853a, 0xa69c249cad16e80c, 0x46089c2374822df6, 0xcee21f895e2342fe,
      0xe76c5e9d2200f244, 0xf9bfc20675e90d37, 0xb0293c96dbbcc1fa, 0x32fd59c71d0d9889,
      0xd84cc9deb1f1457e, 0xee8cf597d29b5bec, 0xb13b4f4fa37de231, 0xb57cc711c02c88a1])"
  by code_simp

lemma sha512_kat_0_40:
  "fold (sha2_step sha512_macros sha512_kat_block0) [40..<48]
     ([0xd20ede14c07d19ae, 0x8801298b9d871d51, 0x30f22f9e7ea29c44, 0x0d9be893b9acecf6,
      0x174e56e13aab2901, 0x83b915daf8a0ad73, 0x374546316a09fe2e, 0x2742c386864fa312],
      [0x3d351ac3522493be, 0x8d8c388ca6e3cfaf, 0x28cc5ee162401604, 0x6bbb1734c92b717e,
      0x7c5c64d5ec7a853a, 0xa69c249cad16e80c, 0x46089c2374822df6, 0xcee21f895e2342fe,
      0xe76c5e9d2200f244, 0xf9bfc20675e90d37, 0xb0293c96dbbcc1fa, 0x32fd59c71d0d9889,
      0xd84cc9deb1f1457e, 0xee8cf597d29b5bec, 0xb13b4f4fa37de231, 0xb57cc711c02c88a1]) =
     ([0x71ebadee4fc61b3a, 0x5ffe646707fc3a12, 0x2e52371c905e6e10, 0x5520c34615380bae,
      0xf54bb3702fa7248c, 0xb88ec100574aade8, 0xa2d1006f61c16dd9, 0x39cf865fb95c1fa6],
      [0x3d351ac3522493be, 0x8d8c388ca6e3cfaf, 0x28cc5ee162401604, 0x6bbb1734c92b717e,
      0x7c5c64d5ec7a853a, 0xa69c249cad16e80c, 0x46089c2374822df6, 0xcee21f895e2342fe,
      0xb4afc41933968914, 0xe2c5b3df466f7a33, 0xa29c08216d834358, 0xbd8964c03ccc53ed,
      0x976003c918ea681c, 0x81a530551282aadb, 0xeedd6246b7412151, 0x657ec3d746fd3447])"
  by code_simp

lemma sha512_kat_0_48:
  "fold (sha2_step sha512_macros sha512_kat_block0) [48..<56]
     ([0x71ebadee4fc61b3a, 0x5ffe646707fc3a12, 0x2e52371c905e6e10, 0x5520c34615380bae,
      0xf54bb3702fa7248c, 0xb88ec100574aade8, 0xa2d1006f61c16dd9, 0x39cf865fb95c1fa6],
      [0x3d351ac3522493be, 0x8d8c388ca6e3cfaf, 0x28cc5ee162401604, 0x6bbb1734c92b717e,
      0x7c5c64d5ec7a853a, 0xa69c249cad16e80c, 0x46089c2374822df6, 0xcee21f895e2342fe,
      0xb4afc41933968914, 0xe2c5b3df466f7a33, 0xa29c08216d834358, 0xbd8964c03ccc53ed,
      0x976003c918ea681c, 0x81a530551282aadb, 0xeedd6246b7412151, 0x657ec3d746fd3447]) =
     ([0x9ef2ab4e0e79765c, 0x753fb78b1af26f3f, 0xc97ed05260241325, 0x28cd954e79215e59,
      0xc66404553cca84d0, 0xf2a85f4cd488c845, 0x2c684d570d372340, 0x1030e71897e147c6],
      [0xd9c5b1196bcbaa5a, 0xcd32c55c59769c74, 0xe9b8cf7c66ac8023, 0xc0f26a174c9a59a5,
      0x3b0c3138cf8abf1d, 0xbaebffa5b8d6e7c5, 0xd317a84209bff2d9, 0x017ec871ac2fbf11,
      0xb4afc41933968914, 0xe2c5b3df466f7a33, 0xa29c08216d834358, 0xbd8964c03ccc53ed,
      0x976003c918ea681c, 0x81a530551282aadb, 0xeedd6246b7412151, 0x657ec3d746fd3447])"
  by code_simp

lemma sha512_kat_0_56:
  "fold (sha2_step sha512_macros sha512_kat_block0) [56..<64]
     ([0x9ef2ab4e0e79765c, 0x753fb78b1af26f3f, 0xc97ed05260241325, 0x28cd954e79215e59,
      0xc66404553cca84d0, 0xf2a85f4cd488c845, 0x2c684d570d372340, 0x1030e71897e147c6],
      [0xd9c5b1196bcbaa5a, 0xcd32c55c59769c74, 0xe9b8cf7c66ac8023, 0xc0f26a174c9a59a5,
      0x3b0c3138cf8abf1d, 0xbaebffa5b8d6e7c5, 0xd317a84209bff2d9, 0x017ec871ac2fbf11,
      0xb4afc41933968914, 0xe2c5b3df466f7a33, 0xa29c08216d834358, 0xbd8964c03ccc53ed,
      0x976003c918ea681c, 0x81a530551282aadb, 0xeedd6246b7412151, 0x657ec3d746fd3447]) =
     ([0x678ba62d814e2737, 0xe1180a15af091ed8, 0x90c44f916a17d5ff, 0x466bbfd73e226e18,
      0xb946dc60e43d5259, 0xe12bdbd5d0235d0a, 0x5ed3541dae1416b8, 0xa2053d1641c60771],
      [0xd9c5b1196bcbaa5a, 0xcd32c55c59769c74, 0xe9b8cf7c66ac8023, 0xc0f26a174c9a59a5,
      0x3b0c3138cf8abf1d, 0xbaebffa5b8d6e7c5, 0xd317a84209bff2d9, 0x017ec871ac2fbf11,
      0xaad2478500db5a51, 0xd139bbe8015692b0, 0xd503dc72726a39fe, 0xa77e5b62817feda6,
      0x5911b12b694e4bcf, 0xc0f6a5b2f752b42b, 0xe5fd32261018885d, 0x9a0d30db8c30cdcf])"
  by code_simp

lemma sha512_kat_0_64:
  "fold (sha2_step sha512_macros sha512_kat_block0) [64..<72]
     ([0x678ba62d814e2737, 0xe1180a15af091ed8, 0x90c44f916a17d5ff, 0x466bbfd73e226e18,
      0xb946dc60e43d5259, 0xe12bdbd5d0235d0a, 0x5ed3541dae1416b8, 0xa2053d1641c60771],
      [0xd9c5b1196bcbaa5a, 0xcd32c55c59769c74, 0xe9b8cf7c66ac8023, 0xc0f26a174c9a59a5,
      0x3b0c3138cf8abf1d, 0xbaebffa5b8d6e7c5, 0xd317a84209bff2d9, 0x017ec871ac2fbf11,
      0xaad2478500db5a51, 0xd139bbe8015692b0, 0xd503dc72726a39fe, 0xa77e5b62817feda6,
      0x5911b12b694e4bcf, 0xc0f6a5b2f752b42b, 0xe5fd32261018885d, 0x9a0d30db8c30cdcf]) =
     ([0x0ba6a27325b43526, 0x079e60442e27a157, 0x40c80e312838c7dc, 0x3a859e58d745f1d5,
      0x8a7106d7b76c5c9f, 0x5db03d4eb425c34f, 0x79728825c178547d, 0x4adeeb6d9d716933],
      [0xfc437c2af433f575, 0x44d5921d2d8c68d0, 0x74b3a1c3ed8f2afd, 0x4574f64d8f153853,
      0x56ce08cc11769303, 0x60a027c15c10d136, 0x642cd51855bd3069, 0xa1fe0c2890df56c1,
      0xaad2478500db5a51, 0xd139bbe8015692b0, 0xd503dc72726a39fe, 0xa77e5b62817feda6,
      0x5911b12b694e4bcf, 0xc0f6a5b2f752b42b, 0xe5fd32261018885d, 0x9a0d30db8c30cdcf])"
  by code_simp

lemma sha512_kat_0_72:
  "fold (sha2_step sha512_macros sha512_kat_block0) [72..<80]
     ([0x0ba6a27325b43526, 0x079e60442e27a157, 0x40c80e312838c7dc, 0x3a859e58d745f1d5,
      0x8a7106d7b76c5c9f, 0x5db03d4eb425c34f, 0x79728825c178547d, 0x4adeeb6d9d716933],
      [0xfc437c2af433f575, 0x44d5921d2d8c68d0, 0x74b3a1c3ed8f2afd, 0x4574f64d8f153853,
      0x56ce08cc11769303, 0x60a027c15c10d136, 0x642cd51855bd3069, 0xa1fe0c2890df56c1,
      0xaad2478500db5a51, 0xd139bbe8015692b0, 0xd503dc72726a39fe, 0xa77e5b62817feda6,
      0x5911b12b694e4bcf, 0xc0f6a5b2f752b42b, 0xe5fd32261018885d, 0x9a0d30db8c30cdcf]) =
     ([0x9ddb617164b2a16b, 0x3bd80c3abe94302e, 0x14b29c44d233df5d, 0xfdb9e24ae44e8473,
      0xdd854fd2fb6e6f68, 0x774f14925efcf2b7, 0xc23bfd5d7cdf65d4, 0x4472c224a4d6dd6d],
      [0xfc437c2af433f575, 0x44d5921d2d8c68d0, 0x74b3a1c3ed8f2afd, 0x4574f64d8f153853,
      0x56ce08cc11769303, 0x60a027c15c10d136, 0x642cd51855bd3069, 0xa1fe0c2890df56c1,
      0x5092a7edbd2cf34d, 0xc39bf55583c639af, 0x2a8e61fcf42a8738, 0x3a948b7f92a7ddc4,
      0x882a555610cad826, 0x03eaa794a967d54c, 0xa41aa06be0433f1c, 0x5ab86aa09bcd0fda])"
  by code_simp

lemma sha512_kat_single0:
  "sha512_single sha512_kat_block0 [0x6a09e667f3bcc908, 0xbb67ae8584caa73b, 0x3c6ef372fe94f82b, 0xa54ff53a5f1d36f1,
      0x510e527fade682d1, 0x9b05688c2b3e6c1f, 0x1f83d9abfb41bd6b, 0x5be0cd19137e2179] =
     [0x07e547d9586f6a73, 0xf73fbac0435ed769, 0x51218fb7d0c8d788, 0xa309d785436bbb64,
      0x2e93a252a954f239, 0x12547d1e8a3b5ed6, 0xe1bfd7097821233f, 0xa0538f3db854fee6]"
proof -
  have "[0..<80] = [0..<8] @ [8..<16] @ [16..<24] @ [24..<32] @ [32..<40] @ [40..<48] @ [48..<56] @ [56..<64] @ [64..<72] @ [72..<(80 :: nat)]" by code_simp
  moreover have "replicate 16 0 = [0, 0, 0, 0, 0, 0, 0, 0, 0, 0, 0, 0, 0, 0, 0, 0 :: u64]"
    by (simp add: numeral_eq_Suc)
  ultimately have "sha512_single sha512_kat_block0 [0x6a09e667f3bcc908, 0xbb67ae8584caa73b, 0x3c6ef372fe94f82b, 0xa54ff53a5f1d36f1,
      0x510e527fade682d1, 0x9b05688c2b3e6c1f, 0x1f83d9abfb41bd6b, 0x5be0cd19137e2179] =
      map2 (+) [0x6a09e667f3bcc908, 0xbb67ae8584caa73b, 0x3c6ef372fe94f82b, 0xa54ff53a5f1d36f1,
      0x510e527fade682d1, 0x9b05688c2b3e6c1f, 0x1f83d9abfb41bd6b, 0x5be0cd19137e2179] [0x9ddb617164b2a16b, 0x3bd80c3abe94302e, 0x14b29c44d233df5d, 0xfdb9e24ae44e8473,
      0xdd854fd2fb6e6f68, 0x774f14925efcf2b7, 0xc23bfd5d7cdf65d4, 0x4472c224a4d6dd6d]"
    by (simp only: sha512_single_def sha2_single_def rounds_sha512 fold_append comp_apply Let_def case_prod_conv
        sha512_kat_0_0 sha512_kat_0_8 sha512_kat_0_16 sha512_kat_0_24 sha512_kat_0_32
        sha512_kat_0_40 sha512_kat_0_48 sha512_kat_0_56 sha512_kat_0_64 sha512_kat_0_72)
  then show ?thesis by simp
qed

lemma sha512_kat:
  "md_hash sha512_alg kat_msg_sha512 = sha512_kat_digest"
proof -
  have len: "length kat_msg_sha512 = 43" by (simp add: kat_msg_sha512_def)
  have pad: "kat_msg_sha512 @ md_padding sha512_alg 43 = sha512_kat_block0"
    by code_simp
  have bs: "length sha512_kat_block0 = block_size sha512_alg"
    by (simp_all add: sha512_kat_block0_def sha512_alg_def)
  show ?thesis
    unfolding md_hash_def len pad sha512.md_blocks_one[OF bs]
    by (simp only: sha512_alg_def hash_alg.select_convs sha512_initial_digest_def sha512_kat_single0 sha512_kat_digest_def)
qed

end
