(* ===== verification/TestVectors.thy ===== *)
theory TestVectors
  imports Md5 ShaVectors
begin

text \<open>
  Published test vectors on the one-shot reference functions: the message "abc" for MD5, and for
  the SHA functions the messages of the FIPS self tests. They pin down the constant tables, which
  the theorems about the compression functions take from the code.
\<close>

lemma md5_abc:
  "md5_ref [0x61, 0x62, 0x63] 3 = [0x98500190, 0xb04fd23c, 0x7d3f96d6, 0x727fe128]"
  by code_simp

lemma kat_msg_length: "length kat_msg = 56" "length kat_msg_sha512 = 43"
  by (simp_all add: kat_msg_def kat_msg_sha512_def)

lemma sha1_ref_kat: "sha1_ref kat_msg 56 = sha1_kat_digest"
  using sha1_kat unfolding sha1_ref_eq md_hash_def
  by (subst sha1.ref_hash_eq) (simp_all add: kat_msg_length, simp add: sha1_alg_def)

lemma sha256_ref_kat: "sha256_ref kat_msg 56 = sha256_kat_digest"
  using sha256_kat unfolding sha256_ref_eq md_hash_def
  by (subst sha256.ref_hash_eq) (simp_all add: kat_msg_length, simp add: sha256_alg_def)

lemma sha512_ref_kat: "sha512_ref kat_msg_sha512 43 = sha512_kat_digest"
  using sha512_kat unfolding sha512_ref_eq md_hash_def
  by (subst sha512.ref_hash_eq) (simp_all add: kat_msg_length, simp add: sha512_alg_def)

end
