(* ===== verification/Build.thy ===== *)
theory Build
  imports MultiBuffer "HOL-Library.Monad_Syntax"
begin

text \<open>
  The public functions \<open>isal_*\<close> are wrappers that a build configures: with \<open>SAFE_PARAM\<close> they
  test their pointers first, with \<open>FIPS_MODE\<close> they refuse the algorithms that are not approved
  and run the self tests before the others. A pointer argument is an option, \<open>None\<close> for
  \<open>NULL\<close>; an output pointer carries the value it points to, before and after. A wrapper gives
  \<open>None\<close> where the C code would dereference \<open>NULL\<close>, which only a build without \<open>SAFE_PARAM\<close> does.
\<close>

record build =
  fips_mode :: bool
  safe_param :: bool

text \<open>The first of a list of tests that fails names the code to return.\<close>

fun first_error :: "(bool \<times> isal_error) list \<Rightarrow> isal_error option" where
  "first_error [] = None"
| "first_error ((bad, e) # ts) = (if bad then Some e else first_error ts)"

lemma first_error_None: "first_error ts = None \<longleftrightarrow> (\<forall>t\<in>set ts. \<not> fst t)"
  by (induction ts rule: first_error.induct) auto

lemma first_error_eq_Some:
  "first_error ts = Some e \<Longrightarrow> \<exists>t\<in>set ts. fst t \<and> snd t = e"
  by (induction ts rule: first_error.induct) (auto split: if_splits)

text \<open>
  The common shape of a wrapper: the tests of the parameters, then in a FIPS build its own
  tests (\<open>None\<close> when they dereference \<open>NULL\<close>) and the self tests, whose return value is
  \<open>tests\<close>, then the call. A refused call leaves the outputs \<open>same\<close> as they are.
\<close>

definition checked ::
  "build \<Rightarrow> (bool \<times> isal_error) list \<Rightarrow> (bool \<times> isal_error) list option \<Rightarrow> isal_error \<Rightarrow>
   'a \<Rightarrow> 'a option \<Rightarrow> (isal_error \<times> 'a) option" where
  "checked b params fips tests same call =
     (case (if safe_param b then first_error params else None) of
        Some e \<Rightarrow> Some (e, same)
      | None \<Rightarrow>
          (case (if fips_mode b
                 then map_option (\<lambda>ts. first_error (ts @ [(tests \<noteq> ERR_NONE, ERR_SELF_TEST)])) fips
                 else Some None) of
             None \<Rightarrow> None
           | Some (Some e) \<Rightarrow> Some (e, same)
           | Some None \<Rightarrow> map_option (Pair ERR_NONE) call))"

text \<open>A build with \<open>SAFE_PARAM\<close> whose tests cover the pointers the call dereferences.\<close>

lemma checked_safe:
  assumes "safe_param b" "\<forall>t\<in>set params. snd t \<noteq> ERR_NONE"
    "first_error params = None \<Longrightarrow>
       (\<exists>ts. fips = Some ts \<and> (\<forall>t\<in>set ts. snd t \<noteq> ERR_NONE)) \<and> call \<noteq> None"
  shows "\<exists>e r. checked b params fips tests same call = Some (e, r) \<and> (e \<noteq> ERR_NONE \<longrightarrow> r = same) \<and>
    (e = ERR_NONE \<longleftrightarrow> first_error params = None \<and>
       (fips_mode b \<longrightarrow> first_error (the fips) = None \<and> tests = ERR_NONE)) \<and>
    (e = ERR_NONE \<longrightarrow> call = Some r)"
proof (cases "first_error params")
  case (Some e)
  then have "e \<noteq> ERR_NONE" using assms(2) first_error_eq_Some by blast
  then show ?thesis using Some assms(1) by (simp add: checked_def)
next
  case None
  then obtain ts r where ts: "fips = Some ts" "\<forall>t\<in>set ts. snd t \<noteq> ERR_NONE" "call = Some r"
    using assms(3) by auto
  let ?e = "first_error (ts @ [(tests \<noteq> ERR_NONE, ERR_SELF_TEST)])"
  have app: "?e = None \<longleftrightarrow> first_error ts = None \<and> tests = ERR_NONE"
    by (auto simp: first_error_None)
  have "?e \<noteq> Some ERR_NONE" using ts(2) first_error_eq_Some[of "ts @ [(tests \<noteq> ERR_NONE, ERR_SELF_TEST)]"]
    by fastforce
  then show ?thesis using None ts app assms(1)
    by (cases ?e) (auto simp: checked_def)
qed

text \<open>The same with one condition \<open>ok\<close> on the parameters, in the form the wrappers use.\<close>

lemma checked_safeI:
  assumes "safe_param b" "ok \<longleftrightarrow> (\<forall>t\<in>set params. \<not> fst t)" "\<forall>t\<in>set params. snd t \<noteq> ERR_NONE"
    "ok \<Longrightarrow> fips = Some ts" "\<forall>t\<in>set ts. snd t \<noteq> ERR_NONE" "ok \<Longrightarrow> call \<noteq> None"
  shows "\<exists>e r. checked b params fips tests same call = Some (e, r) \<and> (e \<noteq> ERR_NONE \<longrightarrow> r = same) \<and>
    (e = ERR_NONE \<longleftrightarrow> ok \<and> (fips_mode b \<longrightarrow> (\<forall>t\<in>set ts. \<not> fst t) \<and> tests = ERR_NONE)) \<and>
    (e = ERR_NONE \<longrightarrow> call = Some r)"
proof -
  have "\<exists>e r. checked b params fips tests same call = Some (e, r) \<and> (e \<noteq> ERR_NONE \<longrightarrow> r = same) \<and>
    (e = ERR_NONE \<longleftrightarrow> first_error params = None \<and>
       (fips_mode b \<longrightarrow> first_error (the fips) = None \<and> tests = ERR_NONE)) \<and>
    (e = ERR_NONE \<longrightarrow> call = Some r)"
    by (rule checked_safe[OF assms(1,3)]) (use assms(2,4-6) in \<open>auto simp: first_error_None\<close>)
  then show ?thesis using assms(2,4) by (fastforce simp: first_error_None)
qed

lemma checked_plainI:
  assumes "safe_param b" "ok \<longleftrightarrow> (\<forall>t\<in>set params. \<not> fst t)" "\<forall>t\<in>set params. snd t \<noteq> ERR_NONE"
    "ok \<Longrightarrow> call \<noteq> None"
  shows "\<exists>e r. checked b params (Some []) tests same call = Some (e, r) \<and> (e \<noteq> ERR_NONE \<longrightarrow> r = same) \<and>
    (e = ERR_NONE \<longleftrightarrow> ok \<and> (fips_mode b \<longrightarrow> tests = ERR_NONE)) \<and> (e = ERR_NONE \<longrightarrow> call = Some r)"
  using checked_safeI[OF assms(1-3), of "Some []" "[]" call] assms(4) by simp

section \<open>Library version\<close>

text \<open>\<open>misc/version.c\<close>, over the numbers of \<open>include/isa-l_crypto/isal_crypto_api.h\<close>.\<close>

definition ISAL_CRYPTO_MAKE_VERSION :: "u32 \<Rightarrow> u32 \<Rightarrow> u32 \<Rightarrow> u32" where
  "ISAL_CRYPTO_MAKE_VERSION major minor patch = major * 0x10000 + minor * 0x100 + patch"

definition isal_crypto_get_version :: u32 where
  "isal_crypto_get_version = ISAL_CRYPTO_MAKE_VERSION 2 26 1"

definition isal_crypto_get_version_str :: string where
  "isal_crypto_get_version_str = ''2.26.1''"

text \<open>Versions are compared as numbers: the order is that of the three components.\<close>

lemma version_order:
  assumes "unat major < 2 ^ 15" "unat minor < 2 ^ 8" "unat patch < 2 ^ 8"
    "unat major' < 2 ^ 15" "unat minor' < 2 ^ 8" "unat patch' < 2 ^ 8"
  shows "ISAL_CRYPTO_MAKE_VERSION major minor patch < ISAL_CRYPTO_MAKE_VERSION major' minor' patch' \<longleftrightarrow>
    unat major < unat major' \<or> unat major = unat major' \<and>
      (unat minor < unat minor' \<or> unat minor = unat minor' \<and> unat patch < unat patch')"
proof -
  have u: "unat (ISAL_CRYPTO_MAKE_VERSION a b c) = unat a * 65536 + unat b * 256 + unat c"
    if "unat a < 2 ^ 15" "unat b < 2 ^ 8" "unat c < 2 ^ 8" for a b c
    using that by (simp add: ISAL_CRYPTO_MAKE_VERSION_def unat_word_ariths)
  show ?thesis
    unfolding word_less_nat_alt u[OF assms(1-3)] u[OF assms(4-6)] using assms by auto
qed

end
