(* ===== verification/RollingHash.thy ===== *)
theory RollingHash
  imports Rounds Build
begin

text \<open>
  The rolling hash of \<open>rolling_hash/rolling_hash2.c\<close> and the mask generator of
  \<open>rolling_hashx_base.c\<close>: a 64-bit hash of the last \<open>w\<close> bytes of a stream, updated byte by
  byte, and the search for the first position where its masked bits equal a trigger. The
  reference for the search recomputes the hash of every window from scratch; the lemmas show
  that the incremental code, its split into a part that still reads the saved history and a part
  that reads only the buffer, and its early returns find the same position.
  \<open>_rolling_hash2_run_until\<close> is the portable function, as in \<open>rolling_hash2_base_aliases.c\<close>.
\<close>

section \<open>State and operations\<close>

datatype fingerprint_ret = RET_HIT | RET_MAX | RET_OTHER

record rh_state2 =
  rh_history :: "byte list"
  rh_table1 :: "u64 list"
  rh_table2 :: "u64 list"
  rh_hash :: u64
  rh_w :: u32

definition rolling_hash2_table1 :: "u64 list" where
  "rolling_hash2_table1 =
    [0x243F6A8885A308D3, 0x13198A2E03707344, 0xA4093822299F31D0, 0x082EFA98EC4E6C89,
     0x452821E638D01377, 0xBE5466CF34E90C6C, 0xC0AC29B7C97C50DD, 0x3F84D5B5B5470917,
     0x9216D5D98979FB1B, 0xD1310BA698DFB5AC, 0x2FFD72DBD01ADFB7, 0xB8E1AFED6A267E96,
     0xBA7C9045F12C7F99, 0x24A19947B3916CF7, 0x0801F2E2858EFC16, 0x636920D871574E69,
     0xA458FEA3F4933D7E, 0x0D95748F728EB658, 0x718BCD5882154AEE, 0x7B54A41DC25A59B5,
     0x9C30D5392AF26013, 0xC5D1B023286085F0, 0xCA417918B8DB38EF, 0x8E79DCB0603A180E,
     0x6C9E0E8BB01E8A3E, 0xD71577C1BD314B27, 0x78AF2FDA55605C60, 0xE65525F3AA55AB94,
     0x5748986263E81440, 0x55CA396A2AAB10B6, 0xB4CC5C341141E8CE, 0xA15486AF7C72E993,
     0xB3EE1411636FBC2A, 0x2BA9C55D741831F6, 0xCE5C3E169B87931E, 0xAFD6BA336C24CF5C,
     0x7A32538128958677, 0x3B8F48986B4BB9AF, 0xC4BFE81B66282193, 0x61D809CCFB21A991,
     0x487CAC605DEC8032, 0xEF845D5DE98575B1, 0xDC262302EB651B88, 0x23893E81D396ACC5,
     0x0F6D6FF383F44239, 0x2E0B4482A4842004, 0x69C8F04A9E1F9B5E, 0x21C66842F6E96C9A,
     0x670C9C61ABD388F0, 0x6A51A0D2D8542F68, 0x960FA728AB5133A3, 0x6EEF0B6C137A3BE4,
     0xBA3BF0507EFB2A98, 0xA1F1651D39AF0176, 0x66CA593E82430E88, 0x8CEE8619456F9FB4,
     0x7D84A5C33B8B5EBE, 0xE06F75D885C12073, 0x401A449F56C16AA6, 0x4ED3AA62363F7706,
     0x1BFEDF72429B023D, 0x37D0D724D00A1248, 0xDB0FEAD349F1C09B, 0x075372C980991B7B,
     0x25D479D8F6E8DEF7, 0xE3FE501AB6794C3B, 0x976CE0BD04C006BA, 0xC1A94FB6409F60C4,
     0x5E5C9EC2196A2463, 0x68FB6FAF3E6C53B5, 0x1339B2EB3B52EC6F, 0x6DFC511F9B30952C,
     0xCC814544AF5EBD09, 0xBEE3D004DE334AFD, 0x660F2807192E4BB3, 0xC0CBA85745C8740F,
     0xD20B5F39B9D3FBDB, 0x5579C0BD1A60320A, 0xD6A100C6402C7279, 0x679F25FEFB1FA3CC,
     0x8EA5E9F8DB3222F8, 0x3C7516DFFD616B15, 0x2F501EC8AD0552AB, 0x323DB5FAFD238760,
     0x53317B483E00DF82, 0x9E5C57BBCA6F8CA0, 0x1A87562EDF1769DB, 0xD542A8F6287EFFC3,
     0xAC6732C68C4F5573, 0x695B27B0BBCA58C8, 0xE1FFA35DB8F011A0, 0x10FA3D98FD2183B8,
     0x4AFCB56C2DD1D35B, 0x9A53E479B6F84565, 0xD28E49BC4BFB9790, 0xE1DDF2DAA4CB7E33,
     0x62FB1341CEE4C6E8, 0xEF20CADA36774C01, 0xD07E9EFE2BF11FB4, 0x95DBDA4DAE909198,
     0xEAAD8E716B93D5A0, 0xD08ED1D0AFC725E0, 0x8E3C5B2F8E7594B7, 0x8FF6E2FBF2122B64,
     0x8888B812900DF01C, 0x4FAD5EA0688FC31C, 0xD1CFF191B3A8C1AD, 0x2F2F2218BE0E1777,
     0xEA752DFE8B021FA1, 0xE5A0CC0FB56F74E8, 0x18ACF3D6CE89E299, 0xB4A84FE0FD13E0B7,
     0x7CC43B81D2ADA8D9, 0x165FA26680957705, 0x93CC7314211A1477, 0xE6AD206577B5FA86,
     0xC75442F5FB9D35CF, 0xEBCDAF0C7B3E89A0, 0xD6411BD3AE1E7E49, 0x00250E2D2071B35E,
     0x226800BB57B8E0AF, 0x2464369BF009B91E, 0x5563911D59DFA6AA, 0x78C14389D95A537F,
     0x207D5BA202E5B9C5, 0x832603766295CFA9, 0x11C819684E734A41, 0xB3472DCA7B14A94A,
     0x1B5100529A532915, 0xD60F573FBC9BC6E4, 0x2B60A47681E67400, 0x08BA6FB5571BE91F,
     0xF296EC6B2A0DD915, 0xB6636521E7B9F9B6, 0xFF34052EC5855664, 0x53B02D5DA99F8FA1,
     0x08BA47996E85076A, 0x4B7A70E9B5B32944, 0xDB75092EC4192623, 0xAD6EA6B049A7DF7D,
     0x9CEE60B88FEDB266, 0xECAA8C71699A17FF, 0x5664526CC2B19EE1, 0x193602A575094C29,
     0xA0591340E4183A3E, 0x3F54989A5B429D65, 0x6B8FE4D699F73FD6, 0xA1D29C07EFE830F5,
     0x4D2D38E6F0255DC1, 0x4CDD20868470EB26, 0x6382E9C6021ECC5E, 0x09686B3F3EBAEFC9,
     0x3C9718146B6A70A1, 0x687F358452A0E286, 0xB79C5305AA500737, 0x3E07841C7FDEAE5C,
     0x8E7D44EC5716F2B8, 0xB03ADA37F0500C0D, 0xF01C1F040200B3FF, 0xAE0CF51A3CB574B2,
     0x25837A58DC0921BD, 0xD19113F97CA92FF6, 0x9432477322F54701, 0x3AE5E58137C2DADC,
     0xC8B576349AF3DDA7, 0xA94461460FD0030E, 0xECC8C73EA4751E41, 0xE238CD993BEA0E2F,
     0x3280BBA1183EB331, 0x4E548B384F6DB908, 0x6F420D03F60A04BF, 0x2CB8129024977C79,
     0x5679B072BCAF89AF, 0xDE9A771FD9930810, 0xB38BAE12DCCF3F2E, 0x5512721F2E6B7124,
     0x501ADDE69F84CD87, 0x7A5847187408DA17, 0xBC9F9ABCE94B7D8C, 0xEC7AEC3ADB851DFA,
     0x63094366C464C3D2, 0xEF1C18473215D908, 0xDD433B3724C2BA16, 0x12A14D432A65C451,
     0x50940002133AE4DD, 0x71DFF89E10314E55, 0x81AC77D65F11199B, 0x043556F1D7A3C76B,
     0x3C11183B5924A509, 0xF28FE6ED97F1FBFA, 0x9EBABF2C1E153C6E, 0x86E34570EAE96FB1,
     0x860E5E0A5A3E2AB3, 0x771FE71C4E3D06FA, 0x2965DCB999E71D0F, 0x803E89D65266C825,
     0x2E4CC9789C10B36A, 0xC6150EBA94E2EA78, 0xA5FC3C531E0A2DF4, 0xF2F74EA7361D2B3D,
     0x1939260F19C27960, 0x5223A708F71312B6, 0xEBADFE6EEAC31F66, 0xE3BC4595A67BC883,
     0xB17F37D1018CFF28, 0xC332DDEFBE6C5AA5, 0x6558218568AB9802, 0xEECEA50FDB2F953B,
     0x2AEF7DAD5B6E2F84, 0x1521B62829076170, 0xECDD4775619F1510, 0x13CCA830EB61BD96,
     0x0334FE1EAA0363CF, 0xB5735C904C70A239, 0xD59E9E0BCBAADE14, 0xEECC86BC60622CA7,
     0x9CAB5CABB2F3846E, 0x648B1EAF19BDF0CA, 0xA02369B9655ABB50, 0x40685A323C2AB4B3,
     0x319EE9D5C021B8F7, 0x9B540B19875FA099, 0x95F7997E623D7DA8, 0xF837889A97E32D77,
     0x11ED935F16681281, 0x0E358829C7E61FD6, 0x96DEDFA17858BA99, 0x57F584A51B227263,
     0x9B83C3FF1AC24696, 0xCDB30AEB532E3054, 0x8FD948E46DBC3128, 0x58EBF2EF34C6FFEA,
     0xFE28ED61EE7C3C73, 0x5D4A14D9E864B7E3, 0x42105D14203E13E0, 0x45EEE2B6A3AAABEA,
     0xDB6C4F15FACB4FD0, 0xC742F442EF6ABBB5, 0x654F3B1D41CD2105, 0xD81E799E86854DC7,
     0xE44B476A3D816250, 0xCF62A1F25B8D2646, 0xFC8883A0C1C7B6A3, 0x7F1524C369CB7492,
     0x47848A0B5692B285, 0x095BBF00AD19489D, 0x1462B17423820E00, 0x58428D2A0C55F5EA,
     0x1DADF43E233F7061, 0x3372F0928D937E41, 0xD65FECF16C223BDB, 0x7CDE3759CBEE7460,
     0x4085F2A7CE77326E, 0xA607808419F8509E, 0xE8EFD85561D99735, 0xA969A7AAC50C06C2]"

text \<open>
  \<open>_rolling_hash2_init\<close>, with the value it returns. For \<open>w = 0\<close> the C code shifts a 64-bit
  word by 64, which C leaves undefined; the theorems ask for \<open>0 < w\<close>.
\<close>

definition rolling_hash2_init :: "rh_state2 \<Rightarrow> u32 \<Rightarrow> int \<times> rh_state2" where
  "rolling_hash2_init st w =
     (if 48 < w then (-1, st)
      else (0, st\<lparr>rh_table1 := map (\<lambda>i. rolling_hash2_table1 ! i) [0..<256],
                  rh_table2 := map (\<lambda>i. let v = rolling_hash2_table1 ! i
                    in push_bit (unat w) v OR drop_bit (64 - unat w) v) [0..<256],
                  rh_w := w\<rparr>))"

definition rh_rol1 :: "u64 \<Rightarrow> u64" where
  "rh_rol1 h = push_bit 1 h OR drop_bit (64 - 1) h"

definition rolling_hash2_reset :: "rh_state2 \<Rightarrow> byte list \<Rightarrow> rh_state2" where
  "rolling_hash2_reset st init_bytes =
     (let w = unat (rh_w st);
          hash = fold (\<lambda>i hash. rh_rol1 hash XOR rh_table1 st ! unat (init_bytes ! i)) [0..<w] 0
      in st\<lparr>rh_hash := hash, rh_history := memcpy_at (rh_history st) 0 init_bytes w\<rparr>)"

definition hash_fn :: "rh_state2 \<Rightarrow> u64 \<Rightarrow> byte \<Rightarrow> byte \<Rightarrow> u64" where
  "hash_fn st h new_char old_char =
     rh_rol1 h XOR (rh_table1 st ! unat new_char XOR rh_table2 st ! unat old_char)"

text \<open>
  The two loops of \<open>_rolling_hash2_run_until_base\<close> differ in the test \<open>hit\<close> only. A pointer
  that is indexed is the function from the index to the byte read.
\<close>

function until_loop ::
  "(u64 \<Rightarrow> bool) \<Rightarrow> int \<Rightarrow> u64 list \<Rightarrow> u64 list \<Rightarrow> (int \<Rightarrow> byte) \<Rightarrow> (int \<Rightarrow> byte) \<Rightarrow>
   int \<Rightarrow> u64 \<Rightarrow> int \<times> u64" where
  "until_loop hit max_idx t1 t2 b1 b2 i h =
     (if i < max_idx then
        let h = rh_rol1 h XOR (t1 ! unat (b1 i) XOR t2 ! unat (b2 i))
        in if hit h then (i, h) else until_loop hit max_idx t1 t2 b1 b2 (i + 1) h
      else (i, h))"
  by pat_completeness auto
termination
  by (relation "measure (\<lambda>(hit, max_idx, t1, t2, b1, b2, i, h). nat (max_idx - i))") auto

declare until_loop.simps [simp del]

definition rolling_hash2_run_until_base ::
  "u32 \<Rightarrow> int \<Rightarrow> u64 list \<Rightarrow> u64 list \<Rightarrow> (int \<Rightarrow> byte) \<Rightarrow> (int \<Rightarrow> byte) \<Rightarrow>
   u64 \<Rightarrow> u64 \<Rightarrow> u64 \<Rightarrow> u32 \<times> u64" where
  "rolling_hash2_run_until_base idx max_idx t1 t2 b1 b2 h msk trigger =
     (let (i, h) =
        (if trigger = 0
         then until_loop (\<lambda>h. h AND msk = 0) max_idx t1 t2 b1 b2 (sint idx) h
         else until_loop (\<lambda>h. h AND msk = trigger) max_idx t1 t2 b1 b2 (sint idx) h)
      in (word_of_int i, h))"

text \<open>
  \<open>_rolling_hash2_run\<close>. Its first loop either returns (with the code it returns) or
  falls through; both returns move the history up by \<open>i\<close> bytes and append \<open>i\<close> bytes of the buffer.
\<close>

function run_head ::
  "rh_state2 \<Rightarrow> byte list \<Rightarrow> u32 \<Rightarrow> u64 \<Rightarrow> u64 \<Rightarrow> nat \<Rightarrow> u64 \<Rightarrow> fingerprint_ret option \<times> nat \<times> u64"
where
  "run_head st buffer buffer_length msk trigger i hash =
     (if i < unat (rh_w st) then
        if i = unat buffer_length then (Some RET_MAX, i, hash)
        else let hash = hash_fn st hash (buffer ! i) (rh_history st ! i)
             in if hash AND msk = trigger then (Some RET_HIT, i + 1, hash)
                else run_head st buffer buffer_length msk trigger (i + 1) hash
      else (None, i, hash))"
  by pat_completeness auto
termination
  by (relation "measure (\<lambda>(st, buffer, n, msk, trigger, i, h). unat (rh_w st) - i)") auto

declare run_head.simps [simp del]

definition slide_history :: "rh_state2 \<Rightarrow> byte list \<Rightarrow> nat \<Rightarrow> byte list" where
  "slide_history st buffer i =
     (let w = unat (rh_w st); history = rh_history st;
          history = memcpy_at history 0 (drop i history) (w - i)
      in memcpy_at history (w - i) buffer i)"

definition rolling_hash2_run ::
  "rh_state2 \<Rightarrow> byte list \<Rightarrow> u32 \<Rightarrow> u32 \<Rightarrow> u32 \<Rightarrow> fingerprint_ret \<times> u32 \<times> rh_state2" where
  "rolling_hash2_run st buffer buffer_length msk trigger =
     (let w = unat (rh_w st); msk = ucast msk; trigger = ucast trigger
      in case run_head st buffer buffer_length msk trigger 0 (rh_hash st) of
           (Some r, i, hash) \<Rightarrow>
             (r, of_nat i, st\<lparr>rh_history := slide_history st buffer i, rh_hash := hash\<rparr>)
         | (None, i, hash) \<Rightarrow>
             (let (i, hash) = rolling_hash2_run_until_base (of_nat i) (sint buffer_length)
                    (rh_table1 st) (rh_table2 st) (\<lambda>k. buffer ! nat k) (\<lambda>k. buffer ! nat (k - int w))
                    hash msk trigger;
                  found = (hash AND msk = trigger);
                  i = (if found then i + 1 else i)
              in (if found then RET_HIT else RET_MAX, i,
                  st\<lparr>rh_history := memcpy_at (rh_history st) 0 (drop (unat i - w) buffer) w,
                     rh_hash := hash\<rparr>)))"

text \<open>
  \<open>rolling_hashx_base.c\<close>. The result of \<open>floor_pow2\<close> is an \<open>int\<close>, \<open>mean\<close> is a \<open>long\<close>, and \<open>None\<close>
  stands for what C leaves undefined: a shift by 32 bits or by a negative number, and the
  subtraction from the least \<open>int\<close>.
\<close>

function floor_pow2_loop :: "u32 \<Rightarrow> u32 \<Rightarrow> u32" where
  "floor_pow2_loop m x =
     (if m \<noteq> 0 then floor_pow2_loop (m AND (m - 1)) m else x)"
  by pat_completeness auto

lemma floor_pow2_dec_less: "(x :: u32) \<noteq> 0 \<Longrightarrow> x AND (x - 1) < x"
proof -
  assume "x \<noteq> 0"
  then have "0 < unat x" by (simp add: unat_gt_0)
  then have "x - 1 < x" using \<open>x \<noteq> 0\<close> by (simp add: word_less_nat_alt unat_minus_one)
  moreover have "x AND (x - 1) \<le> x - 1" by (rule word_and_le1)
  ultimately show ?thesis by simp
qed

termination floor_pow2_loop
  by (relation "measure (\<lambda>(i, x). unat i)") (auto simp: floor_pow2_dec_less simp flip: word_less_nat_alt)

declare floor_pow2_loop.simps [simp del]

definition floor_pow2 :: "u32 \<Rightarrow> int" where
  "floor_pow2 m = sint (floor_pow2_loop m m)"

definition rh_rol :: "u32 \<Rightarrow> int \<Rightarrow> u32 option" where
  "rh_rol x i =
     (if 0 < i \<and> i < 8 * 4 then Some (push_bit (nat i) x OR drop_bit (8 * 4 - nat i) x) else None)"

definition rolling_hashx_mask_gen :: "int \<Rightarrow> int \<Rightarrow> u32 option" where
  "rolling_hashx_mask_gen mean shift =
     (let mean = (if mean \<le> 2 then 2 else mean);
          p = floor_pow2 (word_of_int mean)
      in if p = - (2 ^ 31) then None else rh_rol (word_of_int (p - 1)) shift)"


section \<open>Public functions\<close>

definition isal_rolling_hash2_init ::
  "build \<Rightarrow> rh_state2 option \<Rightarrow> u32 \<Rightarrow> (isal_error \<times> rh_state2 option) option" where
  "isal_rolling_hash2_init b state w =
     (if fips_mode b then Some (ERR_FIPS_INVALID_ALGO, state)
      else if safe_param b \<and> state = None then Some (ERR_NULL_CTX, state)
      else case state of
          None \<Rightarrow> if 48 < w then Some (ERR_WINDOW_SIZE, None) else None
        | Some st \<Rightarrow>
            let (r, st) = rolling_hash2_init st w
            in Some (if r < 0 then ERR_WINDOW_SIZE else ERR_NONE, Some st))"

definition isal_rolling_hash2_reset ::
  "build \<Rightarrow> rh_state2 option \<Rightarrow> byte list option \<Rightarrow> (isal_error \<times> rh_state2 option) option" where
  "isal_rolling_hash2_reset b state init_bytes =
     (if fips_mode b then Some (ERR_FIPS_INVALID_ALGO, state)
      else case (if safe_param b
                 then first_error [(state = None, ERR_NULL_CTX), (init_bytes = None, ERR_NULL_INIT_VAL)]
                 else None) of
          Some e \<Rightarrow> Some (e, state)
        | None \<Rightarrow> do { st \<leftarrow> state; bs \<leftarrow> init_bytes; Some (ERR_NONE, Some (rolling_hash2_reset st bs)) })"

definition isal_rolling_hash2_run ::
  "build \<Rightarrow> rh_state2 option \<Rightarrow> byte list option \<Rightarrow> u32 \<Rightarrow> u32 \<Rightarrow> u32 \<Rightarrow> u32 option \<Rightarrow>
   fingerprint_ret option \<Rightarrow> (isal_error \<times> rh_state2 option \<times> u32 option \<times> fingerprint_ret option) option"
where
  "isal_rolling_hash2_run b state buffer max_len msk trigger offset match =
     (if fips_mode b then Some (ERR_FIPS_INVALID_ALGO, state, offset, match)
      else case (if safe_param b
                 then first_error [(state = None, ERR_NULL_CTX), (buffer = None, ERR_NULL_SRC),
                        (offset = None, ERR_NULL_OFFSET), (match = None, ERR_NULL_MATCH)]
                 else None) of
          Some e \<Rightarrow> Some (e, state, offset, match)
        | None \<Rightarrow> do {
            st \<leftarrow> state; bs \<leftarrow> buffer; _ \<leftarrow> offset; _ \<leftarrow> match;
            let (r, i, st) = rolling_hash2_run st bs max_len msk trigger;
            Some (ERR_NONE, Some st, Some i, Some r) })"

definition isal_rolling_hashx_mask_gen ::
  "build \<Rightarrow> u32 \<Rightarrow> u32 \<Rightarrow> u32 option \<Rightarrow> (isal_error \<times> u32 option) option" where
  "isal_rolling_hashx_mask_gen b mean shift msk =
     (if fips_mode b then Some (ERR_FIPS_INVALID_ALGO, msk)
      else if safe_param b \<and> msk = None then Some (ERR_NULL_MASK, msk)
      else do { _ \<leftarrow> msk; x \<leftarrow> rolling_hashx_mask_gen (uint mean) (sint shift); Some (ERR_NONE, Some x) })"

section \<open>The hash of a window\<close>

text \<open>The window hash computed from scratch, oldest byte first.\<close>

definition window_hash :: "u64 list \<Rightarrow> byte list \<Rightarrow> u64" where
  "window_hash T bs = fold (\<lambda>b h. rh_rol1 h XOR T ! unat b) bs 0"

lemma rh_rol1_rotl: "rh_rol1 h = word_rotl 1 h"
  using shifts_rotl(2)[of 1 h] by (simp add: rh_rol1_def)

lemma rotl_rotl: "word_rotl m (word_rotl n x) = word_rotl (m + n) (x :: 'a::len word)"
proof -
  have "word_rotr (m + n) (word_rotl m (word_rotl n x)) = x"
    by (simp flip: word_rotr_word_rotr_eq add: add.commute[of m n])
  then show ?thesis by (metis word_rot_rl)
qed

lemma window_hash_snoc: "window_hash T (bs @ [b]) = word_rotl 1 (window_hash T bs) XOR T ! unat b"
  by (simp add: window_hash_def rh_rol1_rotl)

lemma feed_split:
  "fold (\<lambda>b h. rh_rol1 h XOR T ! unat b) bs h = word_rotl (length bs) h XOR window_hash T bs"
proof (induction bs arbitrary: h rule: rev_induct)
  case (snoc b bs)
  have "fold (\<lambda>b h. rh_rol1 h XOR T ! unat b) (bs @ [b]) h =
      word_rotl 1 (word_rotl (length bs) h XOR window_hash T bs) XOR T ! unat b"
    by (simp only: fold_append fold_simps comp_apply snoc) (simp only: rh_rol1_rotl)
  also have "\<dots> = word_rotl (length (bs @ [b])) h XOR window_hash T (bs @ [b])"
    by (simp only: word_rot_logs rotl_rotl window_hash_snoc xor.assoc length_append_singleton plus_1_eq_Suc)
  finally show ?case .
qed (rule bit_word_eqI, simp add: window_hash_def bit_word_rotl_iff)

text \<open>Well-formed states: the tables belong to the window size and the hash to the window.\<close>

definition rh_window :: "rh_state2 \<Rightarrow> byte list" where
  "rh_window st = take (unat (rh_w st)) (rh_history st)"

definition rh_tables :: "rh_state2 \<Rightarrow> bool" where
  "rh_tables st \<longleftrightarrow> 0 < rh_w st \<and> rh_w st \<le> 48 \<and> length (rh_history st) = 48 \<and>
     rh_table1 st = rolling_hash2_table1 \<and>
     rh_table2 st = map (word_rotl (unat (rh_w st))) rolling_hash2_table1"

definition rh_ok :: "rh_state2 \<Rightarrow> bool" where
  "rh_ok st \<longleftrightarrow> rh_tables st \<and> rh_hash st = window_hash rolling_hash2_table1 (rh_window st)"

lemma length_rolling_hash2_table1: "length rolling_hash2_table1 = 256"
proof -
  have *: "length (a # b # c # d # xs) = 4 + length xs" for a b c d :: u64 and xs by simp
  show ?thesis unfolding rolling_hash2_table1_def by (simp only: * list.size)
qed

lemma unat_byte_less: "unat (b :: byte) < 256"
  using unsigned_less[of b] by simp

lemma rh_w_bounds:
  assumes "rh_tables st"
  shows "0 < unat (rh_w st)" "unat (rh_w st) \<le> 48" "length (rh_window st) = unat (rh_w st)"
proof -
  show *: "0 < unat (rh_w st)" "unat (rh_w st) \<le> 48"
    using assms by (simp_all add: rh_tables_def word_less_nat_alt word_le_nat_alt)
  then show "length (rh_window st) = unat (rh_w st)"
    using assms by (simp add: rh_window_def rh_tables_def)
qed

text \<open>One step of \<open>hash_fn\<close> moves the window by one byte: the old byte cancels.\<close>

lemma hash_fn_window:
  assumes "rh_tables st" "length bs + 1 = unat (rh_w st)"
  shows "hash_fn st (window_hash rolling_hash2_table1 (b # bs)) c b =
    window_hash rolling_hash2_table1 (bs @ [c])"
proof -
  let ?T = rolling_hash2_table1
  have "window_hash ?T (b # bs) = word_rotl (length bs) (?T ! unat b) XOR window_hash ?T bs"
    using feed_split[of ?T bs "?T ! unat b"] by (simp add: window_hash_def rh_rol1_rotl)
  moreover have "rh_table2 st ! unat b = word_rotl (length bs + 1) (?T ! unat b)"
    using assms by (simp add: rh_tables_def length_rolling_hash2_table1 unat_byte_less)
  moreover have "window_hash ?T (bs @ [c]) = rh_rol1 (window_hash ?T bs) XOR ?T ! unat c"
    by (simp add: window_hash_def)
  moreover have "rh_table1 st = ?T" using assms by (simp add: rh_tables_def)
  ultimately show ?thesis
    by (simp add: hash_fn_def rh_rol1_rotl word_rot_logs rotl_rotl ac_simps)
qed

text \<open>The hash after \<open>k\<close> bytes of the stream, which starts with the saved window.\<close>

definition hash_at :: "nat \<Rightarrow> byte list \<Rightarrow> nat \<Rightarrow> u64" where
  "hash_at w s k = window_hash rolling_hash2_table1 (take w (drop k s))"

lemma hash_fn_at:
  assumes "rh_tables st" "unat (rh_w st) + k < length s"
  shows "hash_fn st (hash_at (unat (rh_w st)) s k) (s ! (unat (rh_w st) + k)) (s ! k) =
    hash_at (unat (rh_w st)) s (Suc k)"
proof -
  obtain v where w: "unat (rh_w st) = Suc v" using rh_w_bounds(1)[OF assms(1)] gr0_implies_Suc by blast
  have k: "k < length s" using assms by simp
  have "take (Suc v) (drop k s) = s ! k # take v (drop (Suc k) s)"
    using k by (simp flip: Cons_nth_drop_Suc)
  moreover have "take (Suc v) (drop (Suc k) s) = take v (drop (Suc k) s) @ [s ! (Suc v + k)]"
    using assms w by (simp add: take_Suc_conv_app_nth add.commute)
  moreover have "length (take v (drop (Suc k) s)) + 1 = unat (rh_w st)" using assms w by simp
  ultimately show ?thesis using hash_fn_window[OF assms(1)] by (simp only: hash_at_def w)
qed

section \<open>The search\<close>

definition first_hit :: "(nat \<Rightarrow> bool) \<Rightarrow> nat \<Rightarrow> nat option" where
  "first_hit P n = find P [1..<Suc n]"

lemma first_hit_Some:
  assumes "P k" "\<forall>j. 0 < j \<and> j < k \<longrightarrow> \<not> P j" "0 < k" "k \<le> n"
  shows "first_hit P n = Some k"
proof -
  have *: "\<forall>x\<in>set xs. \<not> P x \<Longrightarrow> find P (xs @ k # ys) = Some k" for xs ys
    using assms(1) by (induction xs) auto
  have "[1..<Suc n] = [1..<k] @ k # [Suc k..<Suc n]"
    using assms(3,4) upt_add_eq_append[of 1 k "Suc n - k"] by (simp add: upt_conv_Cons)
  then show ?thesis using *[of "[1..<k]"] assms(2) by (simp only: first_hit_def) auto
qed

lemma first_hit_None: "\<forall>j. 0 < j \<and> j \<le> n \<longrightarrow> \<not> P j \<Longrightarrow> first_hit P n = None"
  by (auto simp: first_hit_def find_None_iff)

lemma first_hit_NoneD:
  assumes "first_hit P n = None" "0 < j" "j \<le> n"
  shows "\<not> P j"
proof -
  have "j \<in> set [1..<Suc n]" using assms(2,3) by auto
  with assms(1) show ?thesis unfolding first_hit_def find_None_iff by blast
qed

lemma first_hit_SomeD:
  assumes "first_hit P n = Some k"
  shows "0 < k" "k \<le> n" "P k" "\<forall>j. 0 < j \<and> j < k \<longrightarrow> \<not> P j"
proof -
  obtain i where i: "i < n" "P (1 + i)" "k = 1 + i" "\<forall>j<i. \<not> P (1 + j)"
    using assms unfolding first_hit_def find_Some_iff by (auto simp del: upt_Suc)
  then show "0 < k" "k \<le> n" "P k" by simp_all
  show "\<forall>j. 0 < j \<and> j < k \<longrightarrow> \<not> P j"
  proof safe
    fix j assume "0 < j" "j < k" "P j"
    then show False using i(3,4) by (cases j) auto
  qed
qed

text \<open>Both loops, for a stream \<open>s\<close> made of the window and the buffer.\<close>

definition run_setup :: "rh_state2 \<Rightarrow> byte list \<Rightarrow> nat \<Rightarrow> nat \<Rightarrow> byte list \<Rightarrow> bool" where
  "run_setup st buffer n w s \<longleftrightarrow> rh_tables st \<and> w = unat (rh_w st) \<and> n \<le> length buffer \<and>
     s = rh_window st @ buffer"

definition rh_hit :: "nat \<Rightarrow> byte list \<Rightarrow> u64 \<Rightarrow> u64 \<Rightarrow> nat \<Rightarrow> bool" where
  "rh_hit w s msk trigger k \<longleftrightarrow> hash_at w s k AND msk = trigger"

lemma run_setupD:
  assumes "run_setup st buffer n w s"
  shows "rh_tables st" "w = unat (rh_w st)" "n \<le> length buffer" "s = rh_window st @ buffer"
    "0 < w" "w \<le> 48" "length (rh_window st) = w"
  using assms rh_w_bounds by (auto simp: run_setup_def)

lemma s_new:
  assumes "run_setup st buffer n w s"
  shows "s ! (w + k) = buffer ! k"
  using run_setupD[OF assms] by (simp add: nth_append)

lemma s_old:
  assumes "run_setup st buffer n w s" "k < w"
  shows "s ! k = rh_history st ! k"
proof -
  have "s ! k = rh_window st ! k" using run_setupD[OF assms(1)] assms(2) by (simp add: nth_append)
  then show ?thesis using run_setupD[OF assms(1)] assms(2) by (simp add: rh_window_def)
qed

lemma hash_fn_step:
  assumes "run_setup st buffer n w s" "k < n"
  shows "hash_fn st (hash_at w s k) (buffer ! k) (s ! k) = hash_at w s (Suc k)"
proof -
  note D = run_setupD[OF assms(1)]
  have "unat (rh_w st) + k < length s" using assms(2) D by simp
  from hash_fn_at[OF D(1) this] show ?thesis using s_new[OF assms(1)] by (simp flip: D(2))
qed

lemma step_head:
  assumes "run_setup st buffer n w s" "k < w" "k < n"
  shows "hash_fn st (hash_at w s k) (buffer ! k) (rh_history st ! k) = hash_at w s (Suc k)"
  using hash_fn_step[OF assms(1,3)] s_old[OF assms(1,2)] by simp

lemma step_tail:
  assumes "run_setup st buffer n w s" "w \<le> k" "k < n"
  shows "rh_rol1 (hash_at w s k) XOR (rh_table1 st ! unat (buffer ! k) XOR
    rh_table2 st ! unat (buffer ! (k - w))) = hash_at w s (Suc k)"
  using hash_fn_step[OF assms(1,3)] s_new[OF assms(1), of "k - w"] assms(2) by (simp add: hash_fn_def)

abbreviation (input) "no_hit_upto P i \<equiv> \<forall>j. 0 < j \<and> j \<le> (i :: nat) \<longrightarrow> \<not> P j"

lemma run_head_hits:
  assumes "run_setup st buffer (unat bl) w s" "i \<le> w" "i \<le> unat bl"
    "no_hit_upto (rh_hit w s msk trigger) i"
  shows "\<exists>r k. run_head st buffer bl msk trigger i (hash_at w s i) = (r, k, hash_at w s k) \<and>
    k \<le> w \<and> k \<le> unat bl \<and>
    (case r of None \<Rightarrow> k = w \<and> no_hit_upto (rh_hit w s msk trigger) k
     | Some r \<Rightarrow> r = RET_HIT \<and> first_hit (rh_hit w s msk trigger) (unat bl) = Some k \<or>
         r = RET_MAX \<and> k = unat bl \<and> first_hit (rh_hit w s msk trigger) (unat bl) = None)"
  using assms(2-4)
proof (induction "w - i" arbitrary: i)
  case 0
  then have "run_head st buffer bl msk trigger i (hash_at w s i) = (None, i, hash_at w s i)"
    by (subst run_head.simps) (simp flip: run_setupD(2)[OF assms(1)])
  then show ?case using 0 by (intro exI[of _ None] exI[of _ i]) simp
next
  case (Suc d)
  then have i: "i < w" "i < unat (rh_w st)" by (simp_all flip: run_setupD(2)[OF assms(1)])
  show ?case
  proof (cases "i = unat bl")
    case True
    then have "first_hit (rh_hit w s msk trigger) (unat bl) = None"
      using Suc.prems(3) by (intro first_hit_None) simp
    moreover have "run_head st buffer bl msk trigger i (hash_at w s i) = (Some RET_MAX, i, hash_at w s i)"
      using i True by (subst run_head.simps) simp
    ultimately show ?thesis using True i by (intro exI[of _ "Some RET_MAX"] exI[of _ i]) simp
  next
    case False
    then have less: "i < unat bl" using Suc.prems(2) by simp
    have eq: "run_head st buffer bl msk trigger i (hash_at w s i) =
      (if rh_hit w s msk trigger (Suc i) then (Some RET_HIT, Suc i, hash_at w s (Suc i))
       else run_head st buffer bl msk trigger (Suc i) (hash_at w s (Suc i)))"
      using i False by (subst run_head.simps) (simp add: step_head[OF assms(1) i(1) less] rh_hit_def)
    show ?thesis
    proof (cases "rh_hit w s msk trigger (Suc i)")
      case True
      then have "first_hit (rh_hit w s msk trigger) (unat bl) = Some (Suc i)"
        using Suc.prems(3) less by (intro first_hit_Some) (auto simp: less_Suc_eq_le)
      then show ?thesis using True less i(1)
        by (intro exI[of _ "Some RET_HIT"] exI[of _ "Suc i"]) (simp add: eq)
    next
      case nohit: False
      have "no_hit_upto (rh_hit w s msk trigger) (Suc i)"
        using nohit Suc.prems(3) by (auto simp: le_Suc_eq)
      with Suc.hyps(1)[of "Suc i"] Suc.hyps(2) less i(1) show ?thesis by (simp add: eq nohit)
    qed
  qed
qed

text \<open>The loop of \<open>run_until\<close> returns the index of the byte that completes the hit.\<close>

lemma until_loop_hits:
  assumes "run_setup st buffer n w s" "w \<le> i" "i \<le> n" "no_hit_upto (rh_hit w s msk trigger) i"
  shows "\<exists>k. until_loop (\<lambda>h. h AND msk = trigger) (int n) (rh_table1 st) (rh_table2 st)
      (\<lambda>k. buffer ! nat k) (\<lambda>k. buffer ! nat (k - int w)) (int i) (hash_at w s i) =
      (int k, if k < n then hash_at w s (Suc k) else hash_at w s k) \<and> i \<le> k \<and> k \<le> n \<and>
      (if k < n then first_hit (rh_hit w s msk trigger) n = Some (Suc k) \<and> rh_hit w s msk trigger (Suc k)
       else first_hit (rh_hit w s msk trigger) n = None \<and> \<not> rh_hit w s msk trigger n)"
  using assms(2-4)
proof (induction "n - i" arbitrary: i)
  case 0
  then have "i = n" "0 < n" using run_setupD(5)[OF assms(1)] by simp_all
  moreover from this 0 have "first_hit (rh_hit w s msk trigger) n = None" "\<not> rh_hit w s msk trigger n"
    by (simp_all add: first_hit_None)
  ultimately show ?case by (intro exI[of _ n]) (simp add: until_loop.simps)
next
  case (Suc d)
  then have i: "i < n" by simp
  have *: "rh_rol1 (hash_at w s i) XOR (rh_table1 st ! unat (buffer ! nat (int i)) XOR
      rh_table2 st ! unat (buffer ! nat (int i - int w))) = hash_at w s (Suc i)"
    using step_tail[OF assms(1) Suc.prems(1) i] Suc.prems(1) by (simp add: nat_diff_distrib)
  have eq: "until_loop (\<lambda>h. h AND msk = trigger) (int n) (rh_table1 st) (rh_table2 st)
      (\<lambda>k. buffer ! nat k) (\<lambda>k. buffer ! nat (k - int w)) (int i) (hash_at w s i) =
      (if rh_hit w s msk trigger (Suc i) then (int i, hash_at w s (Suc i))
       else until_loop (\<lambda>h. h AND msk = trigger) (int n) (rh_table1 st) (rh_table2 st)
         (\<lambda>k. buffer ! nat k) (\<lambda>k. buffer ! nat (k - int w)) (int (Suc i)) (hash_at w s (Suc i)))"
    using i by (subst until_loop.simps) (simp only: * rh_hit_def Let_def of_nat_less_iff if_True of_nat_Suc add.commute)
  show ?case
  proof (cases "rh_hit w s msk trigger (Suc i)")
    case True
    then have "first_hit (rh_hit w s msk trigger) n = Some (Suc i)"
      using Suc.prems i by (intro first_hit_Some) (auto simp: less_Suc_eq_le)
    then show ?thesis using i True by (intro exI[of _ i]) (simp add: eq)
  next
    case nohit: False
    have "no_hit_upto (rh_hit w s msk trigger) (Suc i)"
      using nohit Suc.prems(3) by (auto simp: le_Suc_eq)
    moreover have "d = n - Suc i" "w \<le> Suc i" "Suc i \<le> n" using Suc.hyps(2) Suc.prems(1) i by simp_all
    ultimately obtain k where
      "until_loop (\<lambda>h. h AND msk = trigger) (int n) (rh_table1 st) (rh_table2 st)
        (\<lambda>k. buffer ! nat k) (\<lambda>k. buffer ! nat (k - int w)) (int (Suc i)) (hash_at w s (Suc i)) =
        (int k, if k < n then hash_at w s (Suc k) else hash_at w s k)" "Suc i \<le> k" "k \<le> n"
      "if k < n then first_hit (rh_hit w s msk trigger) n = Some (Suc k) \<and> rh_hit w s msk trigger (Suc k)
       else first_hit (rh_hit w s msk trigger) n = None \<and> \<not> rh_hit w s msk trigger n"
      using Suc.hyps(1)[of "Suc i"] by blast
    then show ?thesis by (intro exI[of _ k]) (simp only: eq nohit if_False Suc_leD simp_thms)
  qed
qed

lemma window_slide:
  assumes "run_setup st buffer n w s" "i \<le> w" "i \<le> n"
  shows "take w (slide_history st buffer i) = take w (drop i s)" "length (slide_history st buffer i) = 48"
proof -
  note D = run_setupD[OF assms(1)]
  have h: "length (rh_history st) = 48" using D(1) by (simp add: rh_tables_def)
  have l: "i \<le> length buffer" using assms D by simp
  have m: "memcpy_at (rh_history st) 0 (drop i (rh_history st)) (w - i) =
      take (w - i) (drop i (rh_history st)) @ drop (w - i) (rh_history st)"
    by (simp add: memcpy_at_def)
  have len: "length (take (w - i) (drop i (rh_history st))) = w - i" using h D(6) assms(2) by simp
  have "slide_history st buffer i =
      (take (w - i) (drop i (rh_history st)) @ take i buffer) @ drop w (rh_history st)"
    unfolding slide_history_def Let_def D(2)[symmetric] m
    using len assms(2) by (simp add: memcpy_at_def)
  moreover have "length (take (w - i) (drop i (rh_history st)) @ take i buffer) = w"
    using len l assms(2) by simp
  moreover have "take (w - i) (drop i (rh_history st)) @ take i buffer = take w (drop i s)"
    using D l assms(2) by (simp add: rh_window_def drop_take)
  ultimately show "take w (slide_history st buffer i) = take w (drop i s)"
    "length (slide_history st buffer i) = 48"
    using D(6) h by (simp_all del: append_assoc)
qed

lemma window_copy:
  assumes "run_setup st buffer n w s" "w \<le> i" "i \<le> n"
  shows "take w (memcpy_at (rh_history st) 0 (drop (i - w) buffer) w) = take w (drop i s)"
    "length (memcpy_at (rh_history st) 0 (drop (i - w) buffer) w) = 48"
  using run_setupD[OF assms(1)] assms(2,3) by (simp_all add: memcpy_at_def rh_tables_def)

section \<open>The operations\<close>

lemma rolling_hash2_init_tables:
  assumes "0 < w" "length (rh_history st) = 48"
  shows "rolling_hash2_init st w = (-1, st) \<and> 48 < w \<or>
    fst (rolling_hash2_init st w) = 0 \<and> rh_tables (snd (rolling_hash2_init st w)) \<and> w \<le> 48 \<and>
    rh_w (snd (rolling_hash2_init st w)) = w"
proof (cases "48 < w")
  case False
  then have w: "w \<le> 48" by simp
  then have "unat w < 64" "0 < unat w" using assms(1) by (simp_all add: word_le_nat_alt word_less_nat_alt)
  then have "push_bit (unat w) v OR drop_bit (64 - unat w) v = word_rotl (unat w) v" for v :: u64
    using shifts_rotl(2)[of "unat w" v] by simp
  moreover have "map (\<lambda>i. f (rolling_hash2_table1 ! i)) [0..<256] = map f rolling_hash2_table1" for f :: "u64 \<Rightarrow> u64"
    using map_nth[of rolling_hash2_table1] unfolding length_rolling_hash2_table1
    by (metis (no_types, lifting) comp_apply map_eq_conv map_map)
  moreover have tab: "map ((!) rolling_hash2_table1) [0..<256] = rolling_hash2_table1"
    using map_nth[of rolling_hash2_table1] unfolding length_rolling_hash2_table1 .
  ultimately show ?thesis using False assms w
    by (simp only: rolling_hash2_init_def Let_def if_False) (simp add: rh_tables_def tab)
qed (simp add: rolling_hash2_init_def)

lemma rolling_hash2_reset_ok:
  assumes "rh_tables st" "unat (rh_w st) \<le> length init_bytes"
  shows "rh_ok (rolling_hash2_reset st init_bytes)"
    "rh_window (rolling_hash2_reset st init_bytes) = take (unat (rh_w st)) init_bytes"
    "rh_w (rolling_hash2_reset st init_bytes) = rh_w st"
proof -
  let ?w = "unat (rh_w st)"
  have h: "length (rh_history st) = 48" "?w \<le> 48" using assms(1) rh_w_bounds by (auto simp: rh_tables_def)
  show w: "rh_window (rolling_hash2_reset st init_bytes) = take ?w init_bytes"
    using assms(2) h by (simp add: rh_window_def rolling_hash2_reset_def memcpy_at_def Let_def)
  show "rh_w (rolling_hash2_reset st init_bytes) = rh_w st" by (simp add: rolling_hash2_reset_def Let_def)
  have "fold (\<lambda>i hash. rh_rol1 hash XOR T ! unat (init_bytes ! i)) [0..<n] h =
      fold (\<lambda>b hash. rh_rol1 hash XOR T ! unat b) (take n init_bytes) h" if "n \<le> length init_bytes" for n T h
    using that by (induction n) (simp_all add: take_Suc_conv_app_nth)
  from this[OF assms(2)] have "rh_hash (rolling_hash2_reset st init_bytes) = window_hash rolling_hash2_table1 (take ?w init_bytes)"
    using assms(1) by (simp add: rolling_hash2_reset_def Let_def window_hash_def rh_tables_def)
  moreover have "rh_tables (rolling_hash2_reset st init_bytes)"
    using assms h by (simp add: rh_tables_def rolling_hash2_reset_def Let_def)
  ultimately show "rh_ok (rolling_hash2_reset st init_bytes)" by (simp add: rh_ok_def w)
qed

text \<open>
  One run: the code returns the first position at which the hash of the last \<open>w\<close> bytes meets the
  trigger, with the state of that position; without one it consumes the whole buffer.
\<close>

definition run_result ::
  "rh_state2 \<Rightarrow> byte list \<Rightarrow> u32 \<Rightarrow> u32 \<Rightarrow> u32 \<Rightarrow> fingerprint_ret \<times> nat" where
  "run_result st buffer n msk trigger =
     (case first_hit (rh_hit (unat (rh_w st)) (rh_window st @ buffer) (ucast msk) (ucast trigger)) (unat n) of
        Some k \<Rightarrow> (RET_HIT, k) | None \<Rightarrow> (RET_MAX, unat n))"

definition moved :: "rh_state2 \<Rightarrow> byte list \<Rightarrow> nat \<Rightarrow> rh_state2 \<Rightarrow> bool" where
  "moved st buffer k st' \<longleftrightarrow> rh_ok st' \<and> rh_w st' = rh_w st \<and>
     rh_window st' = take (unat (rh_w st)) (drop k (rh_window st @ buffer))"

lemma movedI:
  assumes "run_setup st buffer n w s" "take w H = take w (drop k s)" "length H = 48"
  shows "moved st buffer k (st\<lparr>rh_history := H, rh_hash := hash_at w s k\<rparr>)"
  using run_setupD[OF assms(1)] assms(2,3)
  by (simp add: moved_def rh_ok_def rh_tables_def hash_at_def) (simp add: rh_window_def)


lemma sint_small:
  assumes "unat (x :: u32) < 2 ^ 31"
  shows "sint x = int (unat x)"
proof -
  have "int (unat x) < int (2 ^ 31)" using assms by (simp only: of_nat_less_iff)
  then have "uint x < 2 ^ 31" by simp
  moreover have "- (2 ^ 31) \<le> uint x"
    by (rule order_trans[of _ 0]) simp_all
  ultimately have "signed_take_bit 31 (uint x) = uint x" by (rule signed_take_bit_int_eq_self[rotated])
  then show ?thesis by (simp add: sint_uint)
qed

lemma rolling_hash2_run_spec:
  assumes "rh_ok st" "unat n \<le> length buffer" "unat n < 2 ^ 31"
  shows "\<exists>st'. rolling_hash2_run st buffer n msk trigger =
      (fst (run_result st buffer n msk trigger), of_nat (snd (run_result st buffer n msk trigger)), st') \<and>
    moved st buffer (snd (run_result st buffer n msk trigger)) st'"
proof -
  define w where "w = unat (rh_w st)"
  define s where "s = rh_window st @ buffer"
  define m t where "m = (ucast msk :: u64)" and "t = (ucast trigger :: u64)"
  have S: "run_setup st buffer (unat n) w s"
    using assms by (simp add: run_setup_def rh_ok_def w_def s_def)
  note D = run_setupD[OF S]
  have at0: "rh_hash st = hash_at w s 0"
    using assms(1) D by (simp add: rh_ok_def hash_at_def)
  have R: "run_result st buffer n msk trigger =
      (case first_hit (rh_hit w s m t) (unat n) of Some k \<Rightarrow> (RET_HIT, k) | None \<Rightarrow> (RET_MAX, unat n))"
    by (simp add: run_result_def w_def s_def m_def t_def)
  obtain r k where head: "run_head st buffer n m t 0 (rh_hash st) = (r, k, hash_at w s k)"
      "k \<le> w" "k \<le> unat n"
      "case r of None \<Rightarrow> k = w \<and> no_hit_upto (rh_hit w s m t) k
       | Some r \<Rightarrow> r = RET_HIT \<and> first_hit (rh_hit w s m t) (unat n) = Some k \<or>
           r = RET_MAX \<and> k = unat n \<and> first_hit (rh_hit w s m t) (unat n) = None"
    using run_head_hits[OF S, of 0 m t] unfolding at0 by auto
  show ?thesis
  proof (cases r)
    case (Some x)
    then have "run_result st buffer n msk trigger = (x, k)" using head(4) by (auto simp: R)
    moreover have "rolling_hash2_run st buffer n msk trigger =
        (x, of_nat k, st\<lparr>rh_history := slide_history st buffer k, rh_hash := hash_at w s k\<rparr>)"
      using head(1) Some by (simp add: rolling_hash2_run_def m_def t_def)
    ultimately show ?thesis using movedI[OF S window_slide[OF S head(2,3)]] by simp
  next
    case None
    with head have k: "k = w" "no_hit_upto (rh_hit w s m t) w" by simp_all
    obtain j where j: "until_loop (\<lambda>h. h AND m = t) (int (unat n)) (rh_table1 st) (rh_table2 st)
        (\<lambda>k. buffer ! nat k) (\<lambda>k. buffer ! nat (k - int w)) (int w) (hash_at w s w) =
        (int j, if j < unat n then hash_at w s (Suc j) else hash_at w s j)" "w \<le> j" "j \<le> unat n"
      "if j < unat n then first_hit (rh_hit w s m t) (unat n) = Some (Suc j) \<and> rh_hit w s m t (Suc j)
       else first_hit (rh_hit w s m t) (unat n) = None \<and> \<not> rh_hit w s m t (unat n)"
      using until_loop_hits[OF S _ _ k(2)] head(3) k(1) by blast
    let ?k = "if j < unat n then Suc j else j"
    have sn: "sint n = int (unat n)" "sint (of_nat w :: u32) = int w"
      using assms(3) D(6) by (simp_all add: sint_small unat_of_nat_small)
    have "rolling_hash2_run_until_base (of_nat w) (sint n) (rh_table1 st) (rh_table2 st)
        (\<lambda>k. buffer ! nat k) (\<lambda>k. buffer ! nat (k - int w)) (hash_at w s w) m t =
        (of_nat j, hash_at w s ?k)"
      using j(1) unfolding rolling_hash2_run_until_base_def sn by (auto simp: Let_def)
    moreover have "(hash_at w s ?k AND m = t) = (j < unat n)"
      using j(3,4) by (auto simp: rh_hit_def split: if_splits)
    moreover have "unat (of_nat j + 1 :: u32) = Suc j" if "j < unat n"
      using that assms(3) by (simp add: unat_of_nat_small unat_add_small)
    moreover have "unat (of_nat j :: u32) = j" using j(3) assms(3) by (simp add: unat_of_nat_small)
    ultimately have run: "rolling_hash2_run st buffer n msk trigger =
        (if j < unat n then RET_HIT else RET_MAX, of_nat ?k,
         st\<lparr>rh_history := memcpy_at (rh_history st) 0 (drop (?k - w) buffer) w, rh_hash := hash_at w s ?k\<rparr>)"
      using head(1) None k(1) D(2)
      by (simp add: rolling_hash2_run_def Let_def flip: m_def t_def)
    have "run_result st buffer n msk trigger = (if j < unat n then RET_HIT else RET_MAX, ?k)"
      using j(3,4) by (auto simp: R)
    with run movedI[OF S window_copy[OF S], of ?k] j(2,3) show ?thesis by simp
  qed
qed


lemma sint_large:
  assumes "2 ^ 31 \<le> unat (x :: u32)"
  shows "sint x < 0"
proof -
  have "int (2 ^ 31) \<le> int (unat x)" using assms by (simp only: of_nat_le_iff)
  then have "2 ^ 31 \<le> uint x" by simp
  moreover have "uint x < 2 ^ 32" using unsigned_less[of x] by simp
  ultimately have "uint x div 2 ^ 31 = 1" by (simp add: div_pos_geq)
  then have "bit (uint x) 31" by (simp add: bit_iff_odd)
  then show ?thesis using \<open>uint x < 2 ^ 32\<close>
    by (simp add: sint_uint signed_take_bit_eq_take_bit_minus take_bit_int_eq_self)
qed

section \<open>Consequences\<close>

text \<open>A length of 2^31 or more is negative as the \<open>int max_idx\<close>: the second loop is skipped.\<close>

lemma rolling_hash2_run_negative:
  assumes "rh_ok st" "unat n \<le> length buffer" "2 ^ 31 \<le> unat n"
    "no_hit_upto (rh_hit (unat (rh_w st)) (rh_window st @ buffer) (ucast msk) (ucast trigger)) (unat (rh_w st))"
  shows "\<exists>st'. rolling_hash2_run st buffer n msk trigger = (RET_MAX, rh_w st, st')"
proof -
  define w where "w = unat (rh_w st)"
  define s where "s = rh_window st @ buffer"
  have S: "run_setup st buffer (unat n) w s"
    using assms by (simp add: run_setup_def rh_ok_def w_def s_def)
  note D = run_setupD[OF S]
  have at0: "rh_hash st = hash_at w s 0"
    using assms(1) D by (simp add: rh_ok_def hash_at_def)
  have nh: "no_hit_upto (rh_hit w s (ucast msk) (ucast trigger)) w"
    using assms(4) by (simp add: w_def s_def)
  obtain r k where head: "run_head st buffer n (ucast msk) (ucast trigger) 0 (rh_hash st) = (r, k, hash_at w s k)"
      "k \<le> w" "k \<le> unat n"
      "case r of None \<Rightarrow> k = w \<and> no_hit_upto (rh_hit w s (ucast msk) (ucast trigger)) k
       | Some r \<Rightarrow> r = RET_HIT \<and> first_hit (rh_hit w s (ucast msk) (ucast trigger)) (unat n) = Some k \<or>
           r = RET_MAX \<and> k = unat n \<and> first_hit (rh_hit w s (ucast msk) (ucast trigger)) (unat n) = None"
    using run_head_hits[OF S, of 0 "ucast msk" "ucast trigger"] unfolding at0 by auto
  have wn: "w < unat n" using D(6) assms(3) by simp
  have "first_hit (rh_hit w s (ucast msk) (ucast trigger)) (unat n) \<noteq> Some k"
  proof
    assume "first_hit (rh_hit w s (ucast msk) (ucast trigger)) (unat n) = Some k"
    from first_hit_SomeD[OF this] nh head(2) show False by blast
  qed
  with head wn have r: "r = None" "k = w" by (cases r; auto)+
  have neg: "sint n < 0" using assms(3) by (rule sint_large)
  have sw: "sint (of_nat w :: u32) = int w"
    using D(6) by (simp add: sint_small unat_of_nat_small)
  have "rolling_hash2_run_until_base (of_nat w) (sint n) (rh_table1 st) (rh_table2 st) b1 b2
      (hash_at w s w) m t = (of_nat w, hash_at w s w)" for b1 b2 m t
    using neg unfolding rolling_hash2_run_until_base_def sw by (simp add: until_loop.simps)
  moreover have "hash_at w s w AND ucast msk \<noteq> ucast trigger"
    using nh D(5) by (auto simp: rh_hit_def)
  ultimately show ?thesis
    using head(1) r D(2) by (simp add: rolling_hash2_run_def Let_def)
qed

text \<open>A run that ends without a hit can be continued with the next buffer.\<close>

lemma hash_at_moved:
  assumes "length v = w"
  shows "hash_at w (take w (drop (length xs) (v @ xs)) @ ys) k = hash_at w (v @ xs @ ys) (length xs + k)"
proof -
  have "length (drop (length xs) (v @ xs)) = w" using assms by simp
  then have "take w (drop (length xs) (v @ xs)) = drop (length xs) (v @ xs)" by simp
  moreover have "drop (length xs) (v @ xs) @ ys = drop (length xs) (v @ xs @ ys)" by (simp add: drop_append)
  ultimately show ?thesis by (simp only: hash_at_def drop_drop add.commute[of k])
qed

lemma first_hit_shift:
  assumes "no_hit_upto P m" "\<And>k. 0 < k \<Longrightarrow> k \<le> n \<Longrightarrow> Q k = P (m + k)"
  shows "first_hit P (m + n) = map_option ((+) m) (first_hit Q n)"
proof (cases "first_hit Q n")
  case None
  have "\<not> P j" if "0 < j" "j \<le> m + n" for j
  proof (cases "j \<le> m")
    case False
    then have "Q (j - m) = P j" using assms(2)[of "j - m"] that by simp
    with first_hit_NoneD[OF None, of "j - m"] False that show ?thesis by simp
  qed (use assms(1) that in simp)
  with None show ?thesis by (simp add: first_hit_None)
next
  case (Some k)
  note k = first_hit_SomeD[OF Some]
  have "\<not> P j" if "0 < j" "j < m + k" for j
  proof (cases "j \<le> m")
    case False
    then have "Q (j - m) = P j" using assms(2)[of "j - m"] that k(2) by simp
    with k(4) False that show ?thesis by auto
  qed (use assms(1) that in simp)
  then have "first_hit P (m + n) = Some (m + k)"
    using k assms(2)[of k] by (intro first_hit_Some) auto
  with Some show ?thesis by simp
qed

lemma run_result_append:
  assumes "rh_ok st" "unat n = length xs" "unat k \<le> length ys" "unat n + unat k < 2 ^ 32"
    "run_result st xs n msk trigger = (RET_MAX, unat n)" "moved st xs (unat n) st'"
  shows "run_result st (xs @ ys) (n + k) msk trigger =
    (fst (run_result st' ys k msk trigger), unat n + snd (run_result st' ys k msk trigger))"
proof -
  define w where "w = unat (rh_w st)"
  define v where "v = rh_window st"
  have v: "length v = w" using assms(1) rh_w_bounds(3) by (simp add: v_def w_def rh_ok_def)
  have w': "unat (rh_w st') = w" and v': "rh_window st' = take w (drop (length xs) (v @ xs))"
    using assms(2,6) by (simp_all add: moved_def w_def v_def)
  let ?P = "rh_hit w (v @ xs @ ys) (ucast msk) (ucast trigger)"
  let ?Q = "rh_hit w (rh_window st' @ ys) (ucast msk) (ucast trigger)"
  have "hash_at w (v @ xs) j = hash_at w (v @ xs @ ys) j" if "j \<le> length xs" for j
    using that v by (simp add: hash_at_def)
  then have same: "rh_hit w (v @ xs) (ucast msk) (ucast trigger) j = ?P j" if "j \<le> length xs" for j
    using that by (simp add: rh_hit_def)
  have "first_hit (rh_hit w (v @ xs) (ucast msk) (ucast trigger)) (unat n) = None"
    using assms(5) by (auto simp: run_result_def v_def w_def split: option.splits)
  from first_hit_NoneD[OF this] have no: "no_hit_upto ?P (unat n)" using same assms(2) by auto
  have "?Q j = ?P (unat n + j)" for j
    using hash_at_moved[OF v, of xs ys j] by (simp add: rh_hit_def v' assms(2))
  from first_hit_shift[of "unat n" ?P "unat k" ?Q, OF no this]
  have "first_hit ?P (unat n + unat k) = map_option ((+) (unat n)) (first_hit ?Q (unat k))" .
  moreover have "unat (n + k) = unat n + unat k" using assms(4) by (simp add: unat_add_small)
  ultimately show ?thesis
    by (simp add: run_result_def w' flip: v_def w_def split: option.splits)
qed

lemma moved_append:
  assumes "rh_ok st" "moved st xs (length xs) st1" "moved st1 ys k st2" "moved st (xs @ ys) (length xs + k) st3"
  shows "rh_window st3 = rh_window st2 \<and> rh_hash st3 = rh_hash st2"
proof -
  define w where "w = unat (rh_w st)"
  have v: "length (rh_window st) = w" using assms(1) rh_w_bounds(3) by (simp add: w_def rh_ok_def)
  define D where "D = drop (length xs) (rh_window st @ xs)"
  have "length D = w" using v by (simp add: D_def)
  then have "take w D = D" by simp
  with assms(2) have w1: "rh_window st1 = D" "rh_w st1 = rh_w st"
    by (simp_all only: moved_def D_def w_def)
  have "D @ ys = drop (length xs) (rh_window st @ xs @ ys)" by (simp add: D_def drop_append)
  then have "drop k (D @ ys) = drop (length xs + k) (rh_window st @ xs @ ys)"
    by (simp only: drop_drop add.commute[of k])
  with assms(3,4) w1 have "rh_window st3 = rh_window st2" by (simp only: moved_def)
  then show ?thesis using assms(3,4) by (simp add: moved_def rh_ok_def)
qed

lemma rolling_hash2_run_append:
  assumes "rh_ok st" "unat n = length xs" "unat k \<le> length ys" "unat n + unat k < 2 ^ 31"
    "rolling_hash2_run st xs n msk trigger = (RET_MAX, i, st1)"
  shows "\<exists>r j st2 st3. rolling_hash2_run st1 ys k msk trigger = (r, j, st2) \<and>
    rolling_hash2_run st (xs @ ys) (n + k) msk trigger = (r, n + j, st3) \<and>
    rh_window st3 = rh_window st2 \<and> rh_hash st3 = rh_hash st2"
proof -
  obtain st1' where 1: "rolling_hash2_run st xs n msk trigger =
      (fst (run_result st xs n msk trigger), of_nat (snd (run_result st xs n msk trigger)), st1')"
    "moved st xs (snd (run_result st xs n msk trigger)) st1'"
    using rolling_hash2_run_spec[OF assms(1), of n xs] assms(2,4) by auto
  with assms(5) have "fst (run_result st xs n msk trigger) = RET_MAX" "st1' = st1" by simp_all
  then have R: "run_result st xs n msk trigger = (RET_MAX, unat n)"
    by (auto simp: run_result_def split: option.splits)
  with 1 \<open>st1' = st1\<close> have m1: "moved st xs (unat n) st1" by simp
  then have ok1: "rh_ok st1" by (simp add: moved_def)
  define Q where "Q = run_result st1 ys k msk trigger"
  have Q: "snd Q \<le> unat k"
    by (auto simp: Q_def run_result_def split: option.splits dest: first_hit_SomeD(2))
  obtain st2 where 2: "rolling_hash2_run st1 ys k msk trigger = (fst Q, of_nat (snd Q), st2)"
    "moved st1 ys (snd Q) st2"
    using rolling_hash2_run_spec[OF ok1 assms(3)] assms(4) by (auto simp: Q_def)
  have nk: "unat (n + k) = unat n + unat k" using assms(4) by (simp add: unat_add_small)
  have A: "run_result st (xs @ ys) (n + k) msk trigger = (fst Q, unat n + snd Q)"
    using run_result_append[OF assms(1-3) _ R m1] assms(4) by (simp add: Q_def)
  have n: "word_of_nat (length xs) = n" using assms(2) by (metis of_nat_unat ucast_id)
  obtain st3 where 3: "rolling_hash2_run st (xs @ ys) (n + k) msk trigger = (fst Q, n + of_nat (snd Q), st3)"
    "moved st (xs @ ys) (unat n + snd Q) st3"
    using rolling_hash2_run_spec[OF assms(1), of "n + k" "xs @ ys" msk trigger] assms(2-4) n by (auto simp: A nk)
  from moved_append[OF assms(1) _ 2(2)] m1 3(2) assms(2) 2(1) 3(1) show ?thesis by auto
qed

section \<open>Public functions, totality\<close>

text \<open>With \<open>SAFE_PARAM\<close> no argument leads to a dereference of \<open>NULL\<close>; a refused call changes nothing.\<close>

lemma isal_rolling_hash2_run_safe:
  assumes "safe_param b"
  shows "\<exists>e st' i r. isal_rolling_hash2_run b state buffer n msk trigger offset match = Some (e, st', i, r) \<and>
    (e \<noteq> ERR_NONE \<longrightarrow> st' = state \<and> i = offset \<and> r = match) \<and>
    (e = ERR_NONE \<longleftrightarrow> \<not> fips_mode b \<and> state \<noteq> None \<and> buffer \<noteq> None \<and> offset \<noteq> None \<and> match \<noteq> None)"
  using assms
  by (cases state; cases buffer; cases offset; cases match)
    (auto simp: isal_rolling_hash2_run_def split: prod.splits)

section \<open>Masks\<close>

lemma bit_top:
  assumes "2 ^ k \<le> (n :: nat)" "n < 2 ^ Suc k"
  shows "bit n k"
proof -
  have "n div 2 ^ k = 1" using assms by (simp add: div_nat_eqI)
  then show ?thesis by (simp add: bit_iff_odd)
qed

lemma bit_top_le: "bit (n :: nat) k \<Longrightarrow> 2 ^ k \<le> n"
  by (auto simp: bit_iff_odd intro: ccontr)

text \<open>Clearing the lowest bit keeps the highest one, or leaves nothing.\<close>

lemma clear_lowest:
  assumes "2 ^ k \<le> unat (m :: u32)" "unat m < 2 ^ Suc k"
  shows "unat m = 2 ^ k \<and> m AND (m - 1) = 0 \<or>
    2 ^ k \<le> unat (m AND (m - 1)) \<and> unat (m AND (m - 1)) < 2 ^ Suc k"
proof -
  have "(0 :: nat) < 2 ^ k" by simp
  with assms(1) have pos: "0 < unat m" by (rule less_le_trans[rotated])
  then have u: "unat (m AND (m - 1)) = unat m AND (unat m - 1)"
    by (simp add: unsigned_and_eq unat_minus_one unat_gt_0)
  show ?thesis
  proof (cases "unat m = 2 ^ k")
    case True
    then have "unat (m AND (m - 1)) = 2 ^ k AND mask k" using u by (simp add: mask_eq_exp_minus_1)
    also have "\<dots> = 0" by (simp flip: take_bit_eq_mask)
    finally have "m AND (m - 1) = 0" by (simp add: unsigned_eq_0_iff)
    with True show ?thesis by simp
  next
    case False
    then have "bit (unat m) k" "bit (unat m - 1) k" using assms by (auto intro!: bit_top)
    then have "2 ^ k \<le> unat (m AND (m - 1))" unfolding u by (intro bit_top_le) (simp add: bit_and_iff)
    moreover have "unat (m AND (m - 1)) \<le> unat m"
      by (simp add: word_and_le2 flip: word_le_nat_alt)
    ultimately show ?thesis using assms by simp
  qed
qed

lemma floor_pow2_loop_eq:
  assumes "2 ^ k \<le> unat m" "unat m < 2 ^ Suc k"
  shows "floor_pow2_loop m x = 2 ^ k"
  using assms
proof (induction m x rule: floor_pow2_loop.induct)
  case (1 m x)
  from 1(2) have m: "m \<noteq> 0" by auto
  then have s: "floor_pow2_loop m x = floor_pow2_loop (m AND (m - 1)) m" by (subst floor_pow2_loop.simps) simp
  from clear_lowest[OF 1(2,3)] show ?case
  proof (elim disjE)
    assume *: "unat m = 2 ^ k \<and> m AND (m - 1) = 0"
    then have "m = of_nat (2 ^ k)" by (metis of_nat_unat ucast_id)
    then have "m = 2 ^ k" by simp
    moreover have "floor_pow2_loop m x = m" unfolding s using * by (subst floor_pow2_loop.simps) simp
    ultimately show ?thesis by simp
  next
    assume "2 ^ k \<le> unat (m AND (m - 1)) \<and> unat (m AND (m - 1)) < 2 ^ Suc k"
    with 1(1)[OF m] show ?thesis unfolding s by blast
  qed
qed

lemma rh_rol_rotl: "rh_rol x i = (if 0 < i \<and> i < 32 then Some (word_rotl (nat i) x) else None)"
proof (cases "0 < i \<and> i < 32")
  case True
  then have "0 < nat i" "nat i < LENGTH(32)" by (simp_all add: nat_less_iff)
  from shifts_rotl(2)[OF this] True show ?thesis by (simp add: rh_rol_def)
qed (auto simp: rh_rol_def)

lemma floor_pow2_eq:
  assumes "2 ^ k \<le> mean" "mean < 2 ^ Suc k" "k < 32"
  shows "floor_pow2 (word_of_int mean) = (if k = 31 then - (2 ^ 31) else 2 ^ k)"
proof -
  have "(2 :: int) ^ Suc k \<le> 2 ^ 32" using assms(3) by (intro power_increasing) simp_all
  moreover have "0 \<le> mean" using assms(1) by (rule order_trans[rotated]) simp
  ultimately have u: "unat (word_of_int mean :: u32) = nat mean"
    using assms(1,2) by (simp add: unsigned_of_int take_bit_int_eq_self)
  have "2 ^ k \<le> nat mean" "nat mean < 2 ^ Suc k"
    using assms(1,2) \<open>0 \<le> mean\<close> by (simp_all add: nat_le_iff le_nat_iff nat_less_iff)
  then have e: "floor_pow2 (word_of_int mean) = sint (2 ^ k :: u32)"
    unfolding floor_pow2_def by (subst floor_pow2_loop_eq) (simp_all only: u)
  show ?thesis
  proof (cases "k = 31")
    case True
    then show ?thesis unfolding e by simp
  next
    case False
    then have "(2 :: int) ^ k \<le> 2 ^ 30" using assms(3) by (intro power_increasing) simp_all
    then have "signed_take_bit 31 ((2 :: int) ^ k) = 2 ^ k" 
      by (intro signed_take_bit_int_eq_self order_trans[OF _ zero_le_power]) simp_all
    moreover have "(2 ^ k :: u32) = word_of_int (2 ^ k)" by simp
    ultimately show ?thesis unfolding e using False by (simp only: sint_sbintrunc') simp
  qed
qed

lemma rolling_hashx_mask_gen_eq:
  assumes "2 ^ k \<le> max 2 mean" "max 2 mean < 2 ^ Suc k" "k < 32"
  shows "rolling_hashx_mask_gen mean shift =
    (if k < 31 \<and> 0 < shift \<and> shift < 32 then Some (word_rotl (nat shift) (mask k)) else None)"
proof -
  have m: "(if mean \<le> 2 then 2 else mean) = max 2 mean" by auto
  have "word_of_int (2 ^ k - 1) = (mask k :: u32)" by (simp add: mask_eq_exp_minus_1)
  moreover have "(2 :: int) ^ k \<noteq> - (2 ^ 31)" using zero_less_power[of "2 :: int" k] by (auto simp del: zero_less_power)
  ultimately show ?thesis
    using assms(3) unfolding rolling_hashx_mask_gen_def m Let_def floor_pow2_eq[OF assms] by (simp add: rh_rol_rotl)
qed

end
