(* ===== verification/BlockStream.thy ===== *)
theory BlockStream
  imports BaseCtx
begin

text \<open>
  The context of the multi-hash functions and its \<open>update\<close>, which \<open>mh_sha1\<close>, \<open>mh_sha256\<close> and
  \<open>mh_sha1_murmur3_x64_128\<close> share line by line (line numbers of the map are those of
  \<open>mh_sha1\<close>): the message is collected in blocks of 1024 bytes, and a block function of the
  instruction set absorbs whole blocks. The type of what it updates is a parameter: the interim
  digests, or these and the murmur3 hash. The locale states what the context layer needs of a
  block function and proves that any sequence of updates absorbs the concatenation.
\<close>

section \<open>Context and update\<close>

type_synonym 'd block_fun = "byte list \<Rightarrow> 'd \<Rightarrow> nat \<Rightarrow> 'd"

text \<open>\<open>frame_buffer\<close> is scratch memory of the block function and is left out.\<close>

record 'd mh_ctx =
  mh_digest :: "u32 list"
  mh_total_length :: u64
  mh_partial :: "byte list"
  mh_interim :: 'd

datatype mh_ctx_error = CTX_ERROR_NONE | CTX_ERROR_NULL

text \<open>
  \<open>MH_SHA1_UPDATE_FUNCTION\<close> on a context that is not \<open>NULL\<close>; its second half, from
  \<open>num_blocks\<close> on, is \<open>mh_absorb_blocks\<close>.
\<close>

definition mh_absorb_blocks :: "'d block_fun \<Rightarrow> 'd mh_ctx \<Rightarrow> byte list \<Rightarrow> u32 \<Rightarrow> 'd mh_ctx" where
  "mh_absorb_blocks blk ctx input_data len =
     (let num_blocks = len div 1024;
          (ctx, input_data, len) =
            (if 0 < num_blocks then
               (ctx\<lparr>mh_interim := blk input_data (mh_interim ctx) (unat num_blocks)\<rparr>,
                drop (unat (num_blocks * 1024)) input_data, len - num_blocks * 1024)
             else (ctx, input_data, len))
      in if len \<noteq> 0
         then ctx\<lparr>mh_partial := memcpy_at (mh_partial ctx) 0 input_data (unat len)\<rparr>
         else ctx)"

definition mh_absorb :: "'d block_fun \<Rightarrow> 'd mh_ctx \<Rightarrow> byte list \<Rightarrow> u32 \<Rightarrow> 'd mh_ctx" where
  "mh_absorb blk ctx input_data len =
     (if len = 0 then ctx
      else
        let partial_block_len = (ucast (mh_total_length ctx mod 1024) :: u32);
            ctx = ctx\<lparr>mh_total_length := mh_total_length ctx + ucast len\<rparr>
        in if len < 1024 - partial_block_len then
             ctx\<lparr>mh_partial := memcpy_at (mh_partial ctx) (unat partial_block_len) input_data (unat len)\<rparr>
           else if partial_block_len \<noteq> 0 then
             let k = 1024 - partial_block_len;
                 partial = memcpy_at (mh_partial ctx) (unat partial_block_len) input_data (unat k);
                 ctx = ctx\<lparr>mh_interim := blk partial (mh_interim ctx) 1,
                           mh_partial := memset_at partial 0 0 1024\<rparr>
             in mh_absorb_blocks blk ctx (drop (unat k) input_data) (len - k)
           else mh_absorb_blocks blk ctx input_data len)"

definition mh_update ::
  "'d block_fun \<Rightarrow> 'd mh_ctx option \<Rightarrow> byte list \<Rightarrow> u32 \<Rightarrow> mh_ctx_error \<times> 'd mh_ctx option" where
  "mh_update blk ctx buffer len =
     (case ctx of None \<Rightarrow> (CTX_ERROR_NULL, None)
      | Some ctx \<Rightarrow> (CTX_ERROR_NONE, Some (mh_absorb blk ctx buffer len)))"


section \<open>Words and padding\<close>

lemma unat_split_1024:
  "unat (len div 1024 :: u32) = unat len div 1024"
  "unat (len div 1024 * 1024) = unat len div 1024 * 1024"
  "unat (len - len div 1024 * 1024) = unat len mod 1024"
proof -
  show d: "unat (len div 1024 :: u32) = unat len div 1024" by (simp add: unat_div)
  have "unat len div 1024 * 1024 < 2 ^ 32"
    by (rule le_less_trans[OF div_times_less_eq_dividend]) (use unsigned_less[of len] in simp)
  then show m: "unat (len div 1024 * 1024) = unat len div 1024 * 1024"
    by (simp add: unat_word_ariths d)
  then have "len div 1024 * 1024 \<le> len" by (simp add: word_le_nat_alt)
  then show "unat (len - len div 1024 * 1024) = unat len mod 1024"
    by (simp add: unat_sub_small m modulo_nat_def)
qed

lemma unat_mod_1024: "unat (ucast ((of_nat n :: u64) mod 1024) :: u32) = n mod 1024"
proof -
  have "unat ((of_nat n :: u64) mod 1024) = n mod 2 ^ 64 mod 1024"
    by (simp add: unat_mod unat_of_nat take_bit_eq_mod)
  also have "\<dots> = n mod 1024" by (rule mod_mod_cancel) simp
  finally have u: "unat ((of_nat n :: u64) mod 1024) = n mod 1024" .
  then have "unat ((of_nat n :: u64) mod 1024) < 2 ^ 32"
    by (simp add: less_trans[OF mod_less_divisor])
  then show ?thesis by (simp add: unsigned_ucast_eq u take_bit_nat_eq_self)
qed

lemma pad_zeros_1024:
  assumes "1024 dvd n" "p < 1024"
  shows "pad_zeros 1024 8 (n + p) = (if p + 9 \<le> 1024 then 1024 - (p + 9) else 2048 - (p + 9))"
proof -
  obtain k where "n = 1024 * k" using assms(1) by (auto elim: dvdE)
  then have "n + p + 1 + 8 = p + 9 + 1024 * k" by simp
  then have e: "(n + p + 1 + 8) mod 1024 = (p + 9) mod 1024" by (simp only: mod_mult_self2)
  consider "p + 9 < 1024" | "p + 9 = 1024" | "1024 < p + 9" by linarith
  then show ?thesis
  proof cases
    case 3
    then have "(p + 9) mod 1024 = p + 9 - 1024" using assms(2) by (simp add: le_mod_geq)
    then show ?thesis unfolding pad_zeros_def e using 3 assms(2) by simp
  next
    case 2
    then show ?thesis unfolding pad_zeros_def e by simp
  next
    case 1
    then show ?thesis unfolding pad_zeros_def e by simp
  qed
qed

section \<open>Any block function\<close>

locale block_stream =
  fixes f :: "byte list \<Rightarrow> 'd \<Rightarrow> 'd" and wf :: "'d \<Rightarrow> bool" and d0 :: 'd
    and blk :: "byte list \<Rightarrow> 'd \<Rightarrow> nat \<Rightarrow> 'd"
  assumes blk_spec: "wf d \<Longrightarrow> n * 1024 \<le> length data \<Longrightarrow> blk data d n = hash_nblocks 1024 f n data d"
    and wf_step: "wf d \<Longrightarrow> wf (f block d)"
    and wf_init [simp]: "wf d0"
begin

lemma wf_nblocks: "wf d \<Longrightarrow> wf (hash_nblocks 1024 f n xs d)"
  by (induction n arbitrary: xs d) (simp_all add: wf_step)

lemma wf_blocks [simp]: "wf d \<Longrightarrow> wf (hash_blocks 1024 f xs d)"
  by (simp add: hash_blocks_def wf_nblocks)

lemma blk_eq:
  assumes "wf segs" "n * 1024 \<le> length data"
  shows "blk data segs n = hash_blocks 1024 f (take (n * 1024) data) segs"
proof -
  have "length (take (n * 1024) data) = n * 1024" using assms by simp
  from hash_nblocks_eq_blocks[OF this] show ?thesis
    using assms by (simp add: blk_spec hash_nblocks_take)
qed

text \<open>A context that has absorbed \<open>m\<close>: whole blocks in the digests, the rest in the buffer.\<close>

definition split_holds :: "byte list \<Rightarrow> byte list \<Rightarrow> 'd mh_ctx \<Rightarrow> bool" where
  "split_holds pre part ctx \<longleftrightarrow> 1024 dvd length pre \<and> length part < 1024 \<and>
     length (mh_partial ctx) = 2048 \<and> take (length part) (mh_partial ctx) = part \<and>
     mh_interim ctx = hash_blocks 1024 f pre d0"

definition holds :: "byte list \<Rightarrow> 'd mh_ctx \<Rightarrow> bool" where
  "holds m ctx \<longleftrightarrow> mh_total_length ctx = of_nat (length m) \<and>
     (\<exists>pre part. m = pre @ part \<and> split_holds pre part ctx)"

lemma absorb_blocks_split:
  assumes "split_holds pre [] ctx" "unat len \<le> length bs"
  shows "split_holds (pre @ take (unat len div 1024 * 1024) bs)
      (take (unat len mod 1024) (drop (unat len div 1024 * 1024) bs)) (mh_absorb_blocks blk ctx bs len)"
    and "mh_total_length (mh_absorb_blocks blk ctx bs len) = mh_total_length ctx"
proof -
  let ?q = "unat len div 1024 * 1024" and ?r = "unat len mod 1024"
  have qr: "?q + ?r = unat len" by (rule div_mult_mod_eq)
  have q: "?q \<le> length bs" and r: "?r \<le> length bs - ?q" using qr assms(2) by linarith+
  have S: "1024 dvd length pre" "length (mh_partial ctx) = 2048"
      "mh_interim ctx = hash_blocks 1024 f pre d0"
    using assms(1) by (simp_all add: split_holds_def)
  have d: "1024 dvd length (pre @ take ?q bs)" using S(1) q by simp
  have blk: "blk bs (mh_interim ctx) (unat len div 1024) =
      hash_blocks 1024 f (pre @ take ?q bs) d0"
    using blk_eq[of "mh_interim ctx" "unat len div 1024" bs] q S by (simp add: hash_blocks_append)
  have z: "len div 1024 = 0 \<longleftrightarrow> unat len div 1024 = 0"
    by (simp add: unat_split_1024(1) flip: unat_eq_0)
  have lz: "len - len div 1024 * 1024 = 0 \<longleftrightarrow> ?r = 0"
    by (simp add: unat_split_1024(3) flip: unat_eq_0)
  have eq: "mh_absorb_blocks blk ctx bs len = ctx\<lparr>
      mh_interim := hash_blocks 1024 f (pre @ take ?q bs) d0,
      mh_partial := memcpy_at (mh_partial ctx) 0 (drop ?q bs) ?r\<rparr>"
  proof (cases "unat len div 1024 = 0")
    case True
    then have "len div 1024 = 0" "?q = 0" using z by simp_all
    then show ?thesis using S lz unat_split_1024(3)[of len]
      by (auto simp: mh_absorb_blocks_def)
  next
    case False
    then have "0 < len div 1024" using z by (simp add: word_neq_0_conv)
    then show ?thesis using lz
      by (auto simp: mh_absorb_blocks_def Let_def blk unat_split_1024)
  qed
  have "take ?r (memcpy_at (mh_partial ctx) 0 (drop ?q bs) ?r) = take ?r (drop ?q bs)"
    using take_memcpy_at[of ?r "drop ?q bs" 0 "mh_partial ctx"] r by simp
  moreover have "length (take ?r (drop ?q bs)) = ?r" "?r < 1024" using r by simp_all
  moreover have "length (memcpy_at (mh_partial ctx) 0 (drop ?q bs) ?r) = 2048"
    using r S(2) \<open>?r < 1024\<close> by (subst length_memcpy_at) simp_all
  ultimately show "split_holds (pre @ take ?q bs) (take ?r (drop ?q bs)) (mh_absorb_blocks blk ctx bs len)"
    unfolding split_holds_def eq using d by simp
  show "mh_total_length (mh_absorb_blocks blk ctx bs len) = mh_total_length ctx" by (simp add: eq)
qed

lemma absorb_holds:
  assumes "holds m ctx" "unat len \<le> length bs"
  shows "holds (m @ take (unat len) bs) (mh_absorb blk ctx bs len)"
proof (cases "len = 0")
  case True
  then show ?thesis using assms(1) by (simp add: mh_absorb_def)
next
  case False
  from assms(1) obtain pre part where m: "m = pre @ part" and S: "split_holds pre part ctx"
    and tot: "mh_total_length ctx = of_nat (length m)" by (auto simp: holds_def)
  define p where "p = length part"
  define pbl where "pbl = (ucast (mh_total_length ctx mod 1024) :: u32)"
  define ctx1 where "ctx1 = ctx\<lparr>mh_total_length := mh_total_length ctx + ucast len\<rparr>"
  have p: "p < 1024" "1024 dvd length pre" using S by (simp_all add: split_holds_def p_def)
  then have pbl: "unat pbl = p"
    unfolding pbl_def tot unat_mod_1024 m by (auto simp: p_def elim!: dvdE)
  have k: "unat (1024 - pbl) = 1024 - p"
    using p(1) pbl by (subst unat_sub_small) (simp_all add: word_le_nat_alt)
  have tot1: "mh_total_length ctx1 = of_nat (length (m @ take (unat len) bs))"
    using assms(2) by (simp add: ctx1_def tot)
  have S1: "split_holds pre part ctx1" using S by (simp add: split_holds_def ctx1_def)
  have lp: "length (mh_partial ctx) = 2048" using S by (simp add: split_holds_def)
  show ?thesis
  proof (cases "len < 1024 - pbl")
    case True
    then have less: "p + unat len < 1024" using k p(1) by (simp add: word_less_nat_alt)
    have eq: "mh_absorb blk ctx bs len = ctx1\<lparr>mh_partial := memcpy_at (mh_partial ctx) p bs (unat len)\<rparr>"
      using False True pbl unfolding mh_absorb_def Let_def pbl_def[symmetric] ctx1_def by simp
    have "take (p + unat len) (memcpy_at (mh_partial ctx) p bs (unat len)) = part @ take (unat len) bs"
      using S less assms(2) by (subst take_memcpy_at) (simp_all add: split_holds_def p_def)
    then have "split_holds pre (part @ take (unat len) bs) (mh_absorb blk ctx bs len)"
      using S1 less assms(2) lp unfolding eq split_holds_def
      by (simp add: p_def min_absorb2)
    then show ?thesis using tot1 by (auto simp: holds_def m eq)
  next
    case nl: False
    then have ge: "1024 - p \<le> unat len" using k by (simp add: word_less_nat_alt)
    show ?thesis
    proof (cases "pbl = 0")
      case True
      then have "part = []" using pbl by (simp add: p_def)
      then have "split_holds pre [] ctx1" using S1 by simp
      note A = absorb_blocks_split[OF this assms(2)]
      have "mh_absorb blk ctx bs len = mh_absorb_blocks blk ctx1 bs len"
        using False nl True unfolding mh_absorb_def Let_def pbl_def[symmetric] ctx1_def by simp
      moreover have "take (unat len div 1024 * 1024) bs @ take (unat len mod 1024) (drop (unat len div 1024 * 1024) bs)
          = take (unat len) bs"
        by (simp only: take_add[symmetric] div_mult_mod_eq)
      ultimately show ?thesis using A tot1 \<open>part = []\<close> unfolding holds_def m
        by (metis append.assoc append_Nil2)
    next
      case pos: False
      define k where "k = 1024 - p"
      define partial where "partial = memcpy_at (mh_partial ctx) p bs k"
      define ctx2 where "ctx2 = ctx1\<lparr>mh_interim := blk partial (mh_interim ctx1) 1,
          mh_partial := memset_at partial 0 0 1024\<rparr>"
      have kb: "k \<le> length bs" "k \<le> unat len" "p + k = 1024"
        using ge assms(2) p(1) by (simp_all add: k_def)
      have lpar: "length partial = 2048" unfolding partial_def using kb lp by simp
      have "take 1024 partial = part @ take k bs"
        using take_memcpy_at[of k bs p "mh_partial ctx"] kb lp S
        by (simp add: partial_def split_holds_def p_def)
      moreover have W: "wf (mh_interim ctx1)" using S1 by (simp add: split_holds_def)
      ultimately have "blk partial (mh_interim ctx1) 1 =
          hash_blocks 1024 f (part @ take k bs) (mh_interim ctx1)"
        using blk_eq[OF W, of 1 partial] lpar by simp
      then have "mh_interim ctx2 = hash_blocks 1024 f (pre @ part @ take k bs) d0"
        using S1 p(2) by (simp add: ctx2_def split_holds_def hash_blocks_append)
      then have "split_holds (pre @ part @ take k bs) [] ctx2"
        using p(2) kb lpar by (simp add: split_holds_def ctx2_def) (simp add: p_def dvd_add_right_iff)
      moreover have kl: "unat (len - (1024 - pbl)) = unat len - k"
        using nl \<open>unat (1024 - pbl) = 1024 - p\<close> by (simp add: unat_sub_small k_def)
      moreover have "unat len - k \<le> length (drop k bs)" using assms(2) by simp
      ultimately have A: "split_holds ((pre @ part @ take k bs) @ take ((unat len - k) div 1024 * 1024) (drop k bs))
          (take ((unat len - k) mod 1024) (drop ((unat len - k) div 1024 * 1024) (drop k bs)))
          (mh_absorb_blocks blk ctx2 (drop k bs) (len - (1024 - pbl)))"
        "mh_total_length (mh_absorb_blocks blk ctx2 (drop k bs) (len - (1024 - pbl))) = mh_total_length ctx2"
        using absorb_blocks_split[of "pre @ part @ take k bs" ctx2 "len - (1024 - pbl)" "drop k bs"] by simp_all
      have "mh_absorb blk ctx bs len = mh_absorb_blocks blk ctx2 (drop k bs) (len - (1024 - pbl))"
        using False nl pos \<open>unat (1024 - pbl) = 1024 - p\<close> pbl
        unfolding mh_absorb_def Let_def pbl_def[symmetric] ctx1_def[symmetric] ctx2_def partial_def k_def
        by (simp add: ctx1_def)
      moreover have "take k bs @ take ((unat len - k) div 1024 * 1024) (drop k bs) @
          take ((unat len - k) mod 1024) (drop ((unat len - k) div 1024 * 1024) (drop k bs)) = take (unat len) bs"
        unfolding take3 div_mult_mod_eq using kb by simp
      moreover have "mh_total_length ctx2 = mh_total_length ctx1" by (simp add: ctx2_def)
      ultimately show ?thesis using A tot1 unfolding holds_def m
        by (metis append.assoc)
    qed
  qed
qed

lemma updates_hold:
  assumes "holds m ctx" "\<forall>bs\<in>set bss. length bs < 2 ^ 32"
  shows "\<exists>ctx'. fold (\<lambda>bs c. snd (mh_update blk c bs (of_nat (length bs)))) bss (Some ctx) = Some ctx' \<and>
    holds (m @ concat bss) ctx'"
  using assms
proof (induction bss arbitrary: m ctx)
  case (Cons bs bss)
  then have "unat (of_nat (length bs) :: u32) = length bs" by (simp add: unat_of_nat_small)
  then have "holds (m @ bs) (mh_absorb blk ctx bs (of_nat (length bs)))"
    using absorb_holds[OF Cons.prems(1), of "of_nat (length bs)" bs] by simp
  from Cons.IH[OF this] Cons.prems(2) show ?case by (simp add: mh_update_def)
qed simp

end

end
