(* ===== verification/MultiHash.thy ===== *)
theory MultiHash
  imports BlockStream Build
begin

text \<open>
  The multi-hash construction of \<open>mh_sha1\<close> and \<open>mh_sha256\<close>: sixteen independent segments
  hash the 32-bit words of the message in turn, and the hash of the sixteen interim digests is
  the result. The two directories hold the same code at different digest sizes (line numbers of
  the map are those of \<open>mh_sha1\<close>); the block function, of which the library has one per
  instruction set, is an argument. The theory holds the context operations, the one-shot
  reference of \<open>mh_sha1_ref.c\<close>, and the proof that any block function that hashes sixteen
  columns gives a streaming hash that agrees with the specification.
\<close>

section \<open>Data\<close>

text \<open>
  An algorithm: its initial words, the compression of one segment
  (\<open>_sha1_single_for_mh_sha1\<close>) and the one-shot hash of the last step
  (\<open>_sha1_for_mh_sha1\<close>). The interim digests are \<open>uint32_t [DIGEST_WORDS][HASH_SEGS]\<close>.
\<close>

record mh_alg =
  mh_H :: "u32 list"
  mh_one_seg :: "byte list \<Rightarrow> u32 list \<Rightarrow> u32 list"
  mh_for :: "byte list \<Rightarrow> u32 \<Rightarrow> u32 list"

type_synonym segs = "u32 list list"
type_synonym mh_block_fun = "segs block_fun"

type_synonym mh_sha_ctx = "segs mh_ctx"

section \<open>Context operations\<close>

definition mh_init_segs :: "mh_alg \<Rightarrow> segs" where
  "mh_init_segs A = map (\<lambda>h. replicate 16 h) (mh_H A)"

definition mh_init :: "mh_alg \<Rightarrow> mh_sha_ctx option \<Rightarrow> mh_ctx_error \<times> mh_sha_ctx option" where
  "mh_init A ctx =
     (if ctx = None then (CTX_ERROR_NULL, None)
      else (CTX_ERROR_NONE,
        Some \<lparr>mh_digest = replicate (length (mh_H A)) 0, mh_total_length = 0,
              mh_partial = replicate 2048 0, mh_interim = mh_init_segs A\<rparr>))"

text \<open>The interim digests, read as the bytes of a \<open>uint8_t *\<close>.\<close>

definition segs_bytes :: "segs \<Rightarrow> byte list" where
  "segs_bytes segs = concat (map (\<lambda>row. concat (map (store_le 4) row)) segs)"

definition mh_tail ::
  "mh_alg \<Rightarrow> mh_block_fun \<Rightarrow> byte list \<Rightarrow> u32 \<Rightarrow> segs \<Rightarrow> u32 list \<times> byte list \<times> segs" where
  "mh_tail A blk partial_buffer total_len segs =
     (let n = unat (total_len mod 1024);
          partial_buffer = partial_buffer[n := 0x80];
          n = n + 1;
          partial_buffer = memset_at partial_buffer n 0 (1024 - n);
          (partial_buffer, segs) =
            (if 1024 - 8 < n
             then (memset_at partial_buffer 0 0 1024, blk partial_buffer segs 1)
             else (partial_buffer, segs));
          len_in_bit = to_be64 (ucast total_len * 8);
          partial_buffer = memcpy_at partial_buffer (1024 - 8) (store_le 8 len_in_bit) 8;
          segs = blk partial_buffer segs 1
      in (mh_for A (segs_bytes segs) (of_nat (4 * length (mh_H A) * 16)), partial_buffer, segs))"

definition mh_final :: "mh_alg \<Rightarrow> mh_block_fun \<Rightarrow> mh_sha_ctx \<Rightarrow> mh_sha_ctx" where
  "mh_final A blk ctx =
     (let (d, partial, segs) =
        mh_tail A blk (mh_partial ctx) (ucast (mh_total_length ctx)) (mh_interim ctx)
      in ctx\<lparr>mh_digest := d, mh_partial := partial, mh_interim := segs\<rparr>)"

definition mh_finalize ::
  "mh_alg \<Rightarrow> mh_block_fun \<Rightarrow> mh_sha_ctx option \<Rightarrow> u32 list option \<Rightarrow>
   mh_ctx_error \<times> mh_sha_ctx option \<times> u32 list option" where
  "mh_finalize A blk ctx out =
     (case ctx of None \<Rightarrow> (CTX_ERROR_NULL, None, out)
      | Some ctx \<Rightarrow>
          let ctx = mh_final A blk ctx
          in (CTX_ERROR_NONE, Some ctx, map_option (\<lambda>_. mh_digest ctx) out))"

text \<open>A stream: \<open>init\<close>, any number of \<open>update\<close>s, \<open>finalize\<close>.\<close>

definition mh_stream :: "mh_alg \<Rightarrow> mh_block_fun \<Rightarrow> mh_sha_ctx \<Rightarrow> byte list list \<Rightarrow> u32 list option" where
  "mh_stream A blk ctx bss =
     (let ctx = snd (mh_init A (Some ctx));
          ctx = fold (\<lambda>bs c. snd (mh_update blk c bs (of_nat (length bs)))) bss ctx
      in snd (snd (mh_finalize A blk ctx (Some []))))"

section \<open>The reference\<close>

text \<open>
  \<open>mh_sha1_block_ref\<close>: the words of each segment are gathered
  (\<open>transform_input\<close>), the digests are transposed to one row per segment and back.
\<close>

definition transform_input_single :: "byte list \<Rightarrow> nat \<Rightarrow> byte list" where
  "transform_input_single input segment =
     concat (map (\<lambda>k. take 4 (drop (4 * (16 * k + segment)) input)) [0..<16])"

definition transform_input :: "byte list \<Rightarrow> nat \<Rightarrow> byte list" where
  "transform_input input block =
     (let current_input = drop (block * 1024) input
      in concat (map (transform_input_single current_input) [0..<16]))"

definition update_all_segs :: "mh_alg \<Rightarrow> byte list \<Rightarrow> segs \<Rightarrow> segs" where
  "update_all_segs A new_data rows =
     map (\<lambda>j. mh_one_seg A (take 64 (drop (64 * j) new_data)) (rows ! j)) [0..<16]"

definition mh_block_ref :: "mh_alg \<Rightarrow> mh_block_fun" where
  "mh_block_ref A input_data digests num_blocks =
     (let W = length (mh_H A);
          rows = map (\<lambda>j. map (\<lambda>i. digests ! i ! j) [0..<W]) [0..<16];
          rows = fold (\<lambda>i. update_all_segs A (transform_input input_data i)) [0..<num_blocks] rows
      in map (\<lambda>i. map (\<lambda>j. rows ! j ! i) [0..<16]) [0..<W])"

definition mh_ref :: "mh_alg \<Rightarrow> byte list \<Rightarrow> u32 \<Rightarrow> u32 list" where
  "mh_ref A input_data len =
     (let segs = mh_init_segs A;
          total_len = len;
          num_blocks = len div 1024;
          (segs, input_data, len) =
            (if 0 < num_blocks then
               (mh_block_ref A input_data segs (unat num_blocks),
                drop (unat (num_blocks * 1024)) input_data, len - num_blocks * 1024)
             else (segs, input_data, len));
          partial = replicate 2048 0;
          partial = (if len \<noteq> 0 then memcpy_at partial 0 input_data (unat len) else partial)
      in fst (mh_tail A (mh_block_ref A) partial total_len segs))"

section \<open>Specification\<close>

text \<open>One block: each of the sixteen columns of digests absorbs its own words.\<close>

definition column :: "segs \<Rightarrow> nat \<Rightarrow> u32 list" where
  "column segs s = map (\<lambda>row. row ! s) segs"

definition mh_block_spec :: "mh_alg \<Rightarrow> byte list \<Rightarrow> segs \<Rightarrow> segs" where
  "mh_block_spec A block segs =
     map (\<lambda>i. map (\<lambda>s. mh_one_seg A (transform_input_single block s) (column segs s) ! i) [0..<16])
       [0..<length segs]"

text \<open>
  The padding of a message of \<open>n\<close> bytes whose length field says \<open>L\<close>, and the hash: the two
  differ in the code when \<open>n\<close> is 2^32 or more.
\<close>

definition mh_pad :: "nat \<Rightarrow> nat \<Rightarrow> byte list" where
  "mh_pad n L = 0x80 # replicate (pad_zeros 1024 8 n) 0 @ store_be 8 (of_nat L * 8 :: u64)"

definition mh_segments :: "mh_alg \<Rightarrow> byte list \<Rightarrow> nat \<Rightarrow> segs" where
  "mh_segments A m L = hash_blocks 1024 (mh_block_spec A) (m @ mh_pad (length m) L) (mh_init_segs A)"

definition mh_hash_len :: "mh_alg \<Rightarrow> byte list \<Rightarrow> nat \<Rightarrow> u32 list" where
  "mh_hash_len A m L = mh_for A (segs_bytes (mh_segments A m L)) (of_nat (4 * length (mh_H A) * 16))"

definition mh_hash :: "mh_alg \<Rightarrow> byte list \<Rightarrow> u32 list" where
  "mh_hash A m = mh_hash_len A m (length m)"

definition wf_segs :: "mh_alg \<Rightarrow> segs \<Rightarrow> bool" where
  "wf_segs A segs \<longleftrightarrow> length segs = length (mh_H A) \<and> (\<forall>row\<in>set segs. length row = 16)"

lemma wf_mh_init_segs [simp]: "wf_segs A (mh_init_segs A)"
  by (simp add: wf_segs_def mh_init_segs_def)

lemma wf_mh_block_spec [simp]: "wf_segs A segs \<Longrightarrow> wf_segs A (mh_block_spec A block segs)"
  by (auto simp: wf_segs_def mh_block_spec_def)

lemma wf_hash_nblocks: "wf_segs A segs \<Longrightarrow> wf_segs A (hash_nblocks 1024 (mh_block_spec A) n xs segs)"
  by (induction n arbitrary: xs segs) simp_all

lemma wf_hash_blocks [simp]: "wf_segs A segs \<Longrightarrow> wf_segs A (hash_blocks 1024 (mh_block_spec A) xs segs)"
  by (simp add: hash_blocks_def wf_hash_nblocks)

lemma mh_block_spec_cong:
  assumes "length segs = length segs'" "\<And>s. s < 16 \<Longrightarrow> column segs s = column segs' s"
  shows "mh_block_spec A block segs = mh_block_spec A block segs'"
  using assms by (simp add: mh_block_spec_def)

section \<open>Any block function that hashes the columns\<close>

locale mh_block =
  fixes A :: mh_alg and blk :: mh_block_fun
  assumes blk_columns: "wf_segs A segs \<Longrightarrow> n * 1024 \<le> length data \<Longrightarrow>
      blk data segs n = hash_nblocks 1024 (mh_block_spec A) n data segs"

sublocale mh_block \<subseteq> block_stream "mh_block_spec A" "wf_segs A" "mh_init_segs A" blk
  by unfold_locales (simp_all add: blk_columns)

context mh_block
begin

lemmas blk_blocks = blk_eq

lemma init_holds: "holds [] (the (snd (mh_init A (Some ctx))))"
  by (simp add: holds_def split_holds_def mh_init_def)

text \<open>The tail appends the padding of the specification to the bytes in the buffer.\<close>

lemma tail_segments:
  assumes "1024 dvd length pre" "length part < 1024" "length partial = 2048"
    "take (length part) partial = part" "wf_segs A segs" "unat total_len mod 1024 = length part"
  shows "fst (mh_tail A blk partial total_len segs) =
    mh_for A (segs_bytes (hash_blocks 1024 (mh_block_spec A)
        (part @ mh_pad (length (pre @ part)) (unat total_len)) segs))
      (of_nat (4 * length (mh_H A) * 16))"
proof -
  let ?f = "mh_block_spec A" and ?p = "length part"
  let ?L = "store_be 8 (of_nat (unat total_len) * 8 :: u64)"
  define z where "z = replicate (1024 - (?p + 1)) (0 :: byte)"
  define P where "P = memset_at (partial[?p := 0x80]) (?p + 1) 0 (1024 - (?p + 1))"
  have n: "unat (total_len mod 1024) = ?p" using assms(6) by (simp add: unat_mod)
  have L: "store_le 8 (to_be64 (ucast total_len * 8)) = ?L"
    by (simp add: to_be64_def store_le_byteswap64)
  have upd: "partial[?p := 0x80] = part @ 0x80 # drop (Suc ?p) partial"
    using assms(2-4) by (simp add: upd_conv_take_nth_drop)
  obtain R where R: "P = (part @ 0x80 # z) @ R"
    unfolding P_def upd memset_at_def memcpy_at_def z_def by simp
  have "length (part @ 0x80 # z) = 1024" using assms(2) by (simp add: z_def)
  then have "take 1024 P = part @ 0x80 # z" unfolding R by (simp only: take_append) simp
  moreover have "length P = 2048" using assms(2,3) by (simp add: P_def)
  ultimately have P: "take 1024 P = part @ 0x80 # z" "length P = 2048" by simp_all
  have last: "take 1024 (memcpy_at Q 1016 ?L 8) = take 1016 Q @ ?L" "length (memcpy_at Q 1016 ?L 8) = 2048"
    if "length Q = 2048" for Q
    using that by (simp_all add: memcpy_at_def)
  have one: "blk Q S 1 = hash_blocks 1024 ?f (take 1024 Q) S" if "wf_segs A S" "length Q = 2048" for Q S
    using blk_eq[OF that(1), of 1 Q] that(2) by simp
  have zeros: "pad_zeros 1024 8 (length (pre @ part)) =
      (if ?p + 9 \<le> 1024 then 1024 - (?p + 9) else 2048 - (?p + 9))"
    using pad_zeros_1024[OF assms(1,2)] by simp
  have k16: "1024 - 8 = (1016 :: nat)" by simp
  let ?R = "\<lambda>S. mh_for A (segs_bytes S) (of_nat (4 * length (mh_H A) * 16))"
  show ?thesis
  proof (cases "1024 - 8 < ?p + 1")
    case True
    define Z where "Z = replicate 1016 (0 :: byte)"
    define Q where "Q = memset_at P 0 0 1024"
    have Q: "length Q = 2048" "take 1016 Q = Z"
      using P(2) by (simp_all only: Q_def memset_at_def memcpy_at_def Z_def) simp_all
    have "fst (mh_tail A blk partial total_len segs) =
        ?R (blk (memcpy_at Q 1016 ?L 8) (blk P segs 1) 1)"
      using True by (simp only: mh_tail_def Let_def n P_def[symmetric] L Q_def[symmetric] k16
          if_True case_prod_conv fst_conv)
    also have "blk P segs 1 = hash_blocks 1024 ?f (part @ 0x80 # z) segs"
      using one[OF assms(5) P(2)] P(1) by simp
    also have "blk (memcpy_at Q 1016 ?L 8) (hash_blocks 1024 ?f (part @ 0x80 # z) segs) 1 =
        hash_blocks 1024 ?f (Z @ ?L) (hash_blocks 1024 ?f (part @ 0x80 # z) segs)"
      using one[of "hash_blocks 1024 ?f (part @ 0x80 # z) segs", OF _ last(2)[OF Q(1)]] last(1)[OF Q(1)] Q(2) assms(5)
      by simp
    also have "\<dots> = hash_blocks 1024 ?f ((part @ 0x80 # z) @ Z @ ?L) segs"
      using assms(2) by (intro hash_blocks_append[symmetric]) (simp add: z_def)
    also have "(part @ 0x80 # z) @ Z @ ?L = part @ mh_pad (length (pre @ part)) (unat total_len)"
    proof -
      have "pad_zeros 1024 8 (length (pre @ part)) = (1024 - (?p + 1)) + 1016"
        unfolding zeros using True assms(2) by simp
      then show ?thesis unfolding mh_pad_def z_def Z_def by (simp only: replicate_add append.assoc append_Cons)
    qed
    finally show ?thesis .
  next
    case False
    have "fst (mh_tail A blk partial total_len segs) = ?R (blk (memcpy_at P 1016 ?L 8) segs 1)"
      using False by (simp only: mh_tail_def Let_def n P_def[symmetric] L k16 if_False case_prod_conv fst_conv)
    also have "blk (memcpy_at P 1016 ?L 8) segs 1 = hash_blocks 1024 ?f (take 1016 P @ ?L) segs"
      using one[OF assms(5) last(2)[OF P(2)]] last(1)[OF P(2)] by simp
    also have "take 1016 P = part @ 0x80 # replicate (1024 - (?p + 9)) 0"
    proof -
      have "take 1016 P = take 1016 (take 1024 P)" by simp
      then show ?thesis using False unfolding P(1) by (simp add: z_def take_Cons' min_def)
    qed
    also have "(part @ 0x80 # replicate (1024 - (?p + 9)) 0) @ ?L = part @ mh_pad (length (pre @ part)) (unat total_len)"
      using False unfolding mh_pad_def zeros by simp
    finally show ?thesis .
  qed
qed

lemma final_digest:
  assumes "holds m ctx"
  shows "mh_digest (mh_final A blk ctx) = mh_hash_len A m (length m mod 2 ^ 32)"
proof -
  from assms obtain pre part where m: "m = pre @ part" and S: "split_holds pre part ctx"
    and tot: "mh_total_length ctx = of_nat (length m)" by (auto simp: holds_def)
  define L where "L = (ucast (mh_total_length ctx) :: u32)"
  have uL: "unat L = length m mod 2 ^ 32"
    unfolding L_def tot by (simp add: ucast_of_nat_down unat_of_nat take_bit_eq_mod)
  then have "unat L mod 1024 = length m mod 1024" by (simp add: mod_mod_cancel)
  also have "\<dots> = length part" using S by (auto simp: m split_holds_def elim!: dvdE)
  finally have "unat L mod 1024 = length part" .
  then have "fst (mh_tail A blk (mh_partial ctx) L (mh_interim ctx)) =
      mh_for A (segs_bytes (hash_blocks 1024 (mh_block_spec A) (part @ mh_pad (length m) (unat L)) (mh_interim ctx)))
        (of_nat (4 * length (mh_H A) * 16))"
    using S unfolding m by (intro tail_segments) (simp_all add: split_holds_def)
  moreover have "mh_interim ctx = hash_blocks 1024 (mh_block_spec A) pre (mh_init_segs A)" "1024 dvd length pre"
    using S by (simp_all add: split_holds_def)
  moreover have "mh_digest (mh_final A blk ctx) = fst (mh_tail A blk (mh_partial ctx) L (mh_interim ctx))"
    by (simp add: mh_final_def L_def split: prod.split)
  ultimately show ?thesis
    unfolding mh_hash_len_def mh_segments_def by (simp add: uL m hash_blocks_append)
qed

lemma stream_eq:
  assumes "\<forall>bs\<in>set bss. length bs < 2 ^ 32"
  shows "mh_stream A blk ctx bss = Some (mh_hash_len A (concat bss) (length (concat bss) mod 2 ^ 32))"
proof -
  obtain c where c: "snd (mh_init A (Some ctx)) = Some c" "holds [] c"
    using init_holds[of ctx] by (simp add: mh_init_def)
  from updates_hold[OF c(2) assms] final_digest c(1) show ?thesis
    by (auto simp: mh_stream_def mh_finalize_def Let_def)
qed

end

section \<open>The reference block function\<close>

lemma take_concat:
  "\<forall>x\<in>set xs. length x = n \<Longrightarrow> j < length xs \<Longrightarrow> take n (drop (n * j) (concat xs)) = xs ! j"
proof (induction xs arbitrary: j)
  case (Cons x xs)
  then show ?case by (cases j) simp_all
qed simp

lemma length_concat_eq: "\<forall>x\<in>set xs. length x = n \<Longrightarrow> length (concat xs) = n * length xs"
  by (induction xs) simp_all

lemma length_transform_input_single [simp]:
  "1024 \<le> length input \<Longrightarrow> s < 16 \<Longrightarrow> length (transform_input_single input s) = 64"
  unfolding transform_input_single_def by (subst length_concat_eq[where n = 4]) auto

lemma transform_input_single_take:
  assumes "s < 16"
  shows "transform_input_single (take 1024 input) s = transform_input_single input s"
proof -
  have "take 4 (drop (4 * (16 * k + s)) (take 1024 input)) = take 4 (drop (4 * (16 * k + s)) input)"
    if "k < 16" for k
  proof -
    have "4 * (16 * k + s) + 4 \<le> 1024" using that assms by simp
    then show ?thesis by (simp add: drop_take min_def)
  qed
  then show ?thesis unfolding transform_input_single_def by (intro arg_cong[where f = concat] map_cong refl) simp
qed

definition rows_of :: "nat \<Rightarrow> segs \<Rightarrow> segs" where
  "rows_of W segs = map (\<lambda>j. map (\<lambda>i. segs ! i ! j) [0..<W]) [0..<16]"

lemma column_nth: "length segs = W \<Longrightarrow> column segs j = map (\<lambda>i. segs ! i ! j) [0..<W]"
  by (rule nth_equalityI) (simp_all add: column_def)

lemma rows_of_step:
  assumes "wf_segs A segs" "\<And>d x. length x = length (mh_H A) \<Longrightarrow> length (mh_one_seg A d x) = length (mh_H A)"
    and "(i + 1) * 1024 \<le> length input"
  shows "update_all_segs A (transform_input input i) (rows_of (length (mh_H A)) segs) =
    rows_of (length (mh_H A)) (mh_block_spec A (take 1024 (drop (i * 1024) input)) segs)"
proof (rule nth_equalityI)
  let ?W = "length (mh_H A)" and ?in = "drop (i * 1024) input"
  show "length (update_all_segs A (transform_input input i) (rows_of ?W segs)) =
      length (rows_of ?W (mh_block_spec A (take 1024 ?in) segs))"
    by (simp add: update_all_segs_def rows_of_def)
  fix j assume "j < length (update_all_segs A (transform_input input i) (rows_of ?W segs))"
  then have j: "j < 16" by (simp add: update_all_segs_def)
  have W: "length segs = ?W" using assms(1) by (simp add: wf_segs_def)
  have "1024 \<le> length ?in" using assms(3) by simp
  then have "take 64 (drop (64 * j) (transform_input input i)) = transform_input_single ?in j"
    using take_concat[of "map (transform_input_single ?in) [0..<16]" 64 j] j
    by (simp add: transform_input_def del: upt_rec_numeral)
  then have l: "update_all_segs A (transform_input input i) (rows_of ?W segs) ! j =
      mh_one_seg A (transform_input_single ?in j) (column segs j)"
    using j W by (simp add: update_all_segs_def rows_of_def column_nth del: upt_rec_numeral)
  have len: "length (mh_one_seg A (transform_input_single ?in j) (column segs j)) = ?W"
    using W by (intro assms(2)) (simp add: column_def)
  have "mh_block_spec A (take 1024 ?in) segs ! i ! j =
      mh_one_seg A (transform_input_single ?in j) (column segs j) ! i" if "i < ?W" for i
    using that W j by (simp add: mh_block_spec_def transform_input_single_take)
  then have "rows_of ?W (mh_block_spec A (take 1024 ?in) segs) ! j =
      mh_one_seg A (transform_input_single ?in j) (column segs j)"
    using j len by (intro nth_equalityI) (simp_all add: rows_of_def)
  then show "update_all_segs A (transform_input input i) (rows_of ?W segs) ! j =
      rows_of ?W (mh_block_spec A (take 1024 ?in) segs) ! j" by (simp add: l)
qed

lemma mh_block_ref_block:
  assumes "\<And>d x. length x = length (mh_H A) \<Longrightarrow> length (mh_one_seg A d x) = length (mh_H A)"
  shows "mh_block A (mh_block_ref A)"
proof
  fix segs n and data :: "byte list"
  let ?W = "length (mh_H A)"
  assume wf: "wf_segs A segs" and n: "n * 1024 \<le> length data"
  have "fold (\<lambda>i. update_all_segs A (transform_input data i)) [0..<n] (rows_of ?W segs) =
      rows_of ?W (hash_nblocks 1024 (mh_block_spec A) n data segs)" if "n * 1024 \<le> length data" for n
    using that
  proof (induction n)
    case (Suc n)
    have "hash_nblocks 1024 (mh_block_spec A) (Suc n) data segs =
        mh_block_spec A (take 1024 (drop (n * 1024) data)) (hash_nblocks 1024 (mh_block_spec A) n data segs)"
      using hash_nblocks_add[of 1024 "mh_block_spec A" n 1 data segs] by simp
    with Suc rows_of_step[OF wf_hash_nblocks[OF wf] assms, of n data] show ?case by simp
  qed simp
  from this[OF n] have "mh_block_ref A data segs n =
      map (\<lambda>i. map (\<lambda>j. rows_of ?W (hash_nblocks 1024 (mh_block_spec A) n data segs) ! j ! i) [0..<16]) [0..<?W]"
    unfolding mh_block_ref_def Let_def rows_of_def by simp
  also have "\<dots> = hash_nblocks 1024 (mh_block_spec A) n data segs" (is "_ = ?S")
  proof -
    have S: "length ?S = ?W" "\<And>i. i < ?W \<Longrightarrow> length (?S ! i) = 16"
      using wf_hash_nblocks[OF wf, of n data] by (simp_all add: wf_segs_def)
    have "map (\<lambda>j. rows_of ?W ?S ! j ! i) [0..<16] = ?S ! i" if "i < ?W" for i
      by (rule nth_equalityI) (use S that in \<open>simp_all add: rows_of_def del: upt_rec_numeral\<close>)
    then show ?thesis using S by (intro nth_equalityI) simp_all
  qed
  finally show "mh_block_ref A data segs n = hash_nblocks 1024 (mh_block_spec A) n data segs" .
qed

text \<open>The one-shot reference computes the specified hash.\<close>

lemma mh_ref_eq:
  assumes "\<And>d x. length x = length (mh_H A) \<Longrightarrow> length (mh_one_seg A d x) = length (mh_H A)"
    and "unat len \<le> length bs"
  shows "mh_ref A bs len = mh_hash A (take (unat len) bs)"
proof -
  let ?q = "unat len div 1024 * 1024" and ?r = "unat len mod 1024" and ?f = "mh_block_spec A"
  define partial where "partial = memcpy_at (replicate 2048 0) 0 (drop ?q bs) ?r"
  note blk = mh_block_ref_block[of A, OF assms(1)]
  note U = unat_split_1024[of len]
  have qr: "?q + ?r = unat len" by (rule div_mult_mod_eq)
  have q: "?q \<le> length bs" "?r \<le> length bs - ?q" using qr assms(2) by linarith+
  have "mh_block_ref A bs (mh_init_segs A) (unat len div 1024) =
      hash_blocks 1024 ?f (take ?q bs) (mh_init_segs A)"
    using mh_block.blk_blocks[OF blk, of "mh_init_segs A" "unat len div 1024" bs] q by simp
  moreover have "0 < len div 1024 \<longleftrightarrow> 0 < unat len div 1024"
    by (simp add: word_less_nat_alt U(1))
  moreover have "len = len div 1024 * 1024 \<longleftrightarrow> ?r = 0"
    using U(3) by (metis eq_iff_diff_eq_0 unat_eq_0)
  ultimately have "mh_ref A bs len = fst (mh_tail A (mh_block_ref A) partial len
      (hash_blocks 1024 ?f (take ?q bs) (mh_init_segs A)))"
    unfolding mh_ref_def Let_def partial_def using U
    by (cases "unat len div 1024 = 0"; cases "?r = 0") simp_all
  also have "\<dots> = mh_for A (segs_bytes (hash_blocks 1024 ?f
      (take ?r (drop ?q bs) @ mh_pad (length (take ?q bs @ take ?r (drop ?q bs))) (unat len))
      (hash_blocks 1024 ?f (take ?q bs) (mh_init_segs A)))) (of_nat (4 * length (mh_H A) * 16))"
    by (rule mh_block.tail_segments[OF blk])
      (use q in \<open>simp_all add: partial_def memcpy_at_def\<close>)
  also have "take ?q bs @ take ?r (drop ?q bs) = take (unat len) bs"
    by (simp only: take_add[symmetric] qr)
  also have "hash_blocks 1024 ?f (take ?r (drop ?q bs) @ mh_pad (length (take (unat len) bs)) (unat len))
      (hash_blocks 1024 ?f (take ?q bs) (mh_init_segs A)) =
      mh_segments A (take (unat len) bs) (unat len)"
  proof -
    have "1024 dvd length (take ?q bs)" using q by simp
    then show ?thesis unfolding mh_segments_def
      by (subst hash_blocks_append[symmetric]) (simp_all only: append.assoc[symmetric] take_add[symmetric] qr)
  qed
  finally show ?thesis using assms(2) by (simp add: mh_hash_def mh_hash_len_def)
qed

text \<open>Two algorithms that agree on columns of the right length give the same hash.\<close>

lemma length_segs_bytes: "wf_segs A segs \<Longrightarrow> length (segs_bytes segs) = 64 * length (mh_H A)"
proof -
  assume wf: "wf_segs A segs"
  have "length (concat (map (store_le 4) row)) = 64" if "row \<in> set segs" for row
    using that wf by (subst length_concat_eq[where n = 4]) (auto simp: wf_segs_def)
  then show ?thesis using wf unfolding segs_bytes_def
    by (subst length_concat_eq[where n = 64]) (auto simp: wf_segs_def)
qed

lemma mh_hash_cong:
  assumes "mh_H B = mh_H A"
    and "\<And>bs. length bs = 64 * length (mh_H A) \<Longrightarrow>
      mh_for B bs (of_nat (4 * length (mh_H A) * 16)) = mh_for A bs (of_nat (4 * length (mh_H A) * 16))"
    and "\<And>d x. length d = 64 \<Longrightarrow> length x = length (mh_H A) \<Longrightarrow> mh_one_seg B d x = mh_one_seg A d x"
  shows "mh_hash_len B m L = mh_hash_len A m L"
proof -
  have step: "mh_block_spec B block segs = mh_block_spec A block segs"
    if "wf_segs A segs" "1024 \<le> length block" for block segs
    using that assms(3) by (simp add: mh_block_spec_def wf_segs_def column_def)
  have "hash_nblocks 1024 (mh_block_spec B) n xs segs = hash_nblocks 1024 (mh_block_spec A) n xs segs"
    if "wf_segs A segs" "n * 1024 \<le> length xs" for n xs segs
    using that by (induction n arbitrary: xs segs) (simp_all add: step)
  from this[OF wf_mh_init_segs] have "mh_segments B m L = mh_segments A m L"
    by (simp add: mh_segments_def hash_blocks_def mh_init_segs_def assms(1))
  moreover have "wf_segs A (mh_segments A m L)" by (simp add: mh_segments_def)
  ultimately show ?thesis unfolding mh_hash_len_def assms(1) by (simp only: assms(2) length_segs_bytes)
qed

section \<open>Columns\<close>

text \<open>
  A routine on arrays of sixteen words that acts on each position as another acts on single
  words. The state is the pair of the variables and the ring of the message schedule.
\<close>

definition lanes :: "nat \<Rightarrow> segs \<Rightarrow> bool" where
  "lanes n v \<longleftrightarrow> length v = n \<and> (\<forall>row\<in>set v. length row = 16)"

lemma wf_segs_lanes: "wf_segs A segs \<longleftrightarrow> lanes (length (mh_H A)) segs"
  by (simp add: wf_segs_def lanes_def)

lemma lanes_update [simp]: "lanes n v \<Longrightarrow> length row = 16 \<Longrightarrow> lanes n (v[k := row])"
  by (auto simp: lanes_def dest: set_update_subset_insert[THEN subsetD])

lemma lanes_nth: "lanes n v \<Longrightarrow> k < n \<Longrightarrow> length (v ! k) = 16"
  by (simp add: lanes_def)

lemma length_column [simp]: "length (column v s) = length v"
  by (simp add: column_def)

lemma column_nth_row [simp]: "k < length v \<Longrightarrow> column v s ! k = v ! k ! s"
  by (simp add: column_def)

lemma column_update: "column (v[k := row]) s = (column v s)[k := row ! s]"
  by (simp add: column_def map_update)

lemma columns_fold:
  assumes "\<And>i v w. i < N \<Longrightarrow> lanes n v \<Longrightarrow> lanes 16 w \<Longrightarrow>
      lanes n (fst (M i (v, w))) \<and> lanes 16 (snd (M i (v, w))) \<and>
      (\<forall>s<16. S s i (column v s, column w s) = (column (fst (M i (v, w))) s, column (snd (M i (v, w))) s))"
    and "lanes n v" "lanes 16 w" "k \<le> N"
  shows "lanes n (fst (fold M [0..<k] (v, w))) \<and> lanes 16 (snd (fold M [0..<k] (v, w))) \<and>
    (\<forall>s<16. fold (S s) [0..<k] (column v s, column w s) =
      (column (fst (fold M [0..<k] (v, w))) s, column (snd (fold M [0..<k] (v, w))) s))"
  using assms(4)
proof (induction k)
  case (Suc k)
  then show ?case
    using assms(1)[of k "fst (fold M [0..<k] (v, w))" "snd (fold M [0..<k] (v, w))"] by simp
qed (use assms(2,3) in simp)

lemma column_map2:
  assumes "lanes n d" "lanes n v" "s < 16"
  shows "column (map2 (map2 f) d v) s = map2 f (column d s) (column v s)"
  using assms by (intro nth_equalityI) (simp_all add: lanes_def)

text \<open>Words of a segment, and the specified block from its columns.\<close>

lemma ld32_segment:
  assumes "1024 \<le> length block" "s < 16" "i < 16"
  shows "ld32 (transform_input_single block s) i = ld32 block (16 * i + s)"
proof -
  have "\<forall>x\<in>set (map (\<lambda>k. take 4 (drop (4 * (16 * k + s)) block)) [0..<16]). length x = 4"
    using assms by auto
  from take_concat[OF this, of i] assms(3) show ?thesis
    by (simp add: ld32_def transform_input_single_def del: upt_rec_numeral)
qed

lemma mh_block_spec_columns:
  assumes "lanes (length segs) segs" "lanes (length segs) segs'"
    and "\<And>s. s < 16 \<Longrightarrow> column segs' s = mh_one_seg A (transform_input_single block s) (column segs s)"
  shows "segs' = mh_block_spec A block segs"
proof (rule nth_equalityI)
  show len: "length segs' = length (mh_block_spec A block segs)"
    using assms(2) by (simp add: lanes_def mh_block_spec_def)
  fix i assume i: "i < length segs'"
  then have "i < length segs" using len by (simp add: mh_block_spec_def)
  moreover have "segs' ! i ! s = column segs' s ! i" if "s < 16" for s using i by simp
  ultimately show "segs' ! i = mh_block_spec A block segs ! i"
    using lanes_nth[OF assms(2)] assms(3)
    by (intro nth_equalityI) (simp_all add: mh_block_spec_def)
qed

lemma lanes_map2: "lanes n a \<Longrightarrow> lanes n b \<Longrightarrow> lanes n (map2 (map2 f) a b)"
  by (auto simp: lanes_def in_set_zip)

end
