(* ===== verification/MhSha256.thy ===== *)
theory MhSha256
  imports MultiHash Sha256
begin

text \<open>
  The multi-hash SHA-256 of \<open>mh_sha256/\<close>: the portable block function
  (\<open>mh_sha256_block_base.c\<close>) on arrays of sixteen words compresses each column as
  \<open>sha256_for_mh_sha256.c\<close> does one, and so as FIPS 180-4.
\<close>

section \<open>The block function\<close>

text \<open>The macros of the steps, with the arrays \<open>t1\<close>, \<open>t2\<close>; \<open>k\<close> is the table of the function.\<close>

definition mh_sha256_k :: "u32 list" where
  "mh_sha256_k = concat
    [[0x428a2f98, 0x71374491, 0xb5c0fbcf, 0xe9b5dba5],
      [0x3956c25b, 0x59f111f1, 0x923f82a4, 0xab1c5ed5],
      [0xd807aa98, 0x12835b01, 0x243185be, 0x550c7dc3],
      [0x72be5d74, 0x80deb1fe, 0x9bdc06a7, 0xc19bf174],
      [0xe49b69c1, 0xefbe4786, 0x0fc19dc6, 0x240ca1cc],
      [0x2de92c6f, 0x4a7484aa, 0x5cb0a9dc, 0x76f988da],
      [0x983e5152, 0xa831c66d, 0xb00327c8, 0xbf597fc7],
      [0xc6e00bf3, 0xd5a79147, 0x06ca6351, 0x14292967],
      [0x27b70a85, 0x2e1b2138, 0x4d2c6dfc, 0x53380d13],
      [0x650a7354, 0x766a0abb, 0x81c2c92e, 0x92722c85],
      [0xa2bfe8a1, 0xa81a664b, 0xc24b8b70, 0xc76c51a3],
      [0xd192e819, 0xd6990624, 0xf40e3585, 0x106aa070],
      [0x19a4c116, 0x1e376c08, 0x2748774c, 0x34b0bcb5],
      [0x391c0cb3, 0x4ed8aa4a, 0x5b9cca4f, 0x682e6ff3],
      [0x748f82ee, 0x78a5636f, 0x84c87814, 0x8cc70208],
      [0x90befffa, 0xa4506ceb, 0xbef9a3f7, 0xc67178f2]]"

definition mh_sha256_ring :: "byte list \<Rightarrow> nat \<Rightarrow> segs \<Rightarrow> segs" where
  "mh_sha256_ring ww i w =
     (if i < 16 then w[i mod 16 := map (\<lambda>s. to_be32 (ld32 ww (i * 16 + s))) [0..<16]]
      else w[i mod 16 := map (\<lambda>s. w ! ((i - 16) mod 16) ! s + sha256_S0 (w ! ((i - 15) mod 16) ! s)
               + w ! ((i - 7) mod 16) ! s + sha256_S1 (w ! ((i - 2) mod 16) ! s)) [0..<16]])"

definition mh_sha256_vars :: "nat \<Rightarrow> u32 \<Rightarrow> u32 list \<Rightarrow> segs \<Rightarrow> segs" where
  "mh_sha256_vars i k wi v =
     (let a = v ! role 8 0 i; b = v ! role 8 1 i; c = v ! role 8 2 i; d = v ! role 8 3 i;
          e = v ! role 8 4 i; f = v ! role 8 5 i; g = v ! role 8 6 i; h = v ! role 8 7 i;
          t2 = map (\<lambda>s. sha256_s0 (a ! s) + maj (a ! s) (b ! s) (c ! s)) [0..<16];
          t1 = map (\<lambda>s. h ! s + sha256_s1 (e ! s) + ch (e ! s) (f ! s) (g ! s) + k + wi ! s) [0..<16];
          d = map (\<lambda>s. d ! s + t1 ! s) [0..<16];
          h = map (\<lambda>s. t1 ! s + t2 ! s) [0..<16]
      in v[role 8 3 i := d, role 8 7 i := h])"

definition mh_sha256_step :: "byte list \<Rightarrow> nat \<Rightarrow> segs \<times> segs \<Rightarrow> segs \<times> segs" where
  "mh_sha256_step ww i = (\<lambda>(v, w).
     let w = mh_sha256_ring ww i w in (mh_sha256_vars i (mh_sha256_k ! i) (w ! (i mod 16)) v, w))"

definition mh_sha256_single :: "byte list \<Rightarrow> segs \<Rightarrow> segs" where
  "mh_sha256_single input digests =
     (let (v, w) = fold (mh_sha256_step input) [0..<64] (digests, replicate 16 (replicate 16 0))
      in map2 (map2 (+)) digests v)"

definition mh_sha256_block_base :: mh_block_fun where
  "mh_sha256_block_base input_data digests num_blocks =
     hash_nblocks 1024 mh_sha256_single num_blocks input_data digests"

text \<open>\<open>sha256_for_mh_sha256.c\<close> and \<open>mh_sha256_ref.c\<close> repeat the macros and the padding of SHA-256.\<close>

definition sha256_single_for_mh_sha256 :: "byte list \<Rightarrow> u32 list \<Rightarrow> u32 list" where
  "sha256_single_for_mh_sha256 = sha256_single"

definition sha256_for_mh_sha256 :: "byte list \<Rightarrow> u32 \<Rightarrow> u32 list" where
  "sha256_for_mh_sha256 = ref_hash sha256_alg"

definition mh_sha256_alg :: mh_alg where
  "mh_sha256_alg = \<lparr>mh_H = [0x6a09e667, 0xbb67ae85, 0x3c6ef372, 0xa54ff53a,
       0x510e527f, 0x9b05688c, 0x1f83d9ab, 0x5be0cd19],
     mh_one_seg = sha256_single_for_mh_sha256, mh_for = sha256_for_mh_sha256\<rparr>"

definition mh_sha256_init :: "mh_sha_ctx option \<Rightarrow> mh_ctx_error \<times> mh_sha_ctx option" where
  "mh_sha256_init = mh_init mh_sha256_alg"

definition mh_sha256_update_base ::
  "mh_sha_ctx option \<Rightarrow> byte list \<Rightarrow> u32 \<Rightarrow> mh_ctx_error \<times> mh_sha_ctx option" where
  "mh_sha256_update_base = mh_update mh_sha256_block_base"

definition mh_sha256_finalize_base ::
  "mh_sha_ctx option \<Rightarrow> u32 list option \<Rightarrow> mh_ctx_error \<times> mh_sha_ctx option \<times> u32 list option" where
  "mh_sha256_finalize_base = mh_finalize mh_sha256_alg mh_sha256_block_base"

text \<open>
  \<open>mh_sha256_ref.c\<close> repeats the functions of \<open>sha256_for_mh_sha256.c\<close>, to be linked without the library.
\<close>

definition sha256_single_for_mh_sha256_ref :: "byte list \<Rightarrow> u32 list \<Rightarrow> u32 list" where
  "sha256_single_for_mh_sha256_ref = sha256_single"

definition sha256_for_mh_sha256_ref :: "byte list \<Rightarrow> u32 \<Rightarrow> u32 list" where
  "sha256_for_mh_sha256_ref = ref_hash (sha256_alg\<lparr>single := sha256_single_for_mh_sha256_ref\<rparr>)"

definition mh_sha256_ref_alg :: mh_alg where
  "mh_sha256_ref_alg = mh_sha256_alg\<lparr>mh_one_seg := sha256_single_for_mh_sha256_ref, mh_for := sha256_for_mh_sha256_ref\<rparr>"

definition mh_sha256_block_ref :: mh_block_fun where
  "mh_sha256_block_ref = mh_block_ref mh_sha256_ref_alg"

definition mh_sha256_tail_ref ::
  "byte list \<Rightarrow> u32 \<Rightarrow> segs \<Rightarrow> u32 list \<times> byte list \<times> segs" where
  "mh_sha256_tail_ref = mh_tail mh_sha256_ref_alg mh_sha256_block_ref"

definition mh_sha256_ref :: "byte list \<Rightarrow> u32 \<Rightarrow> u32 list" where
  "mh_sha256_ref = mh_ref mh_sha256_ref_alg"

lemma mh_sha256_ref_eq: "mh_sha256_ref = mh_ref mh_sha256_alg"
proof -
  have "sha256_alg\<lparr>single := sha256_single\<rparr> = sha256_alg" by (simp add: sha256_alg_def)
  then show ?thesis
    by (simp add: mh_sha256_ref_def mh_sha256_ref_alg_def mh_sha256_alg_def sha256_single_for_mh_sha256_ref_def
        sha256_for_mh_sha256_ref_def sha256_single_for_mh_sha256_def sha256_for_mh_sha256_def)
qed

lemma mh_sha256_k_eq: "mh_sha256_k = sha256_k"
  by (simp only: mh_sha256_k_def sha256_k_def concat.simps append.simps)

abbreviation "sha256_step \<equiv> sha2_step sha256_macros"

lemma length_sha256_single [simp]: "length (sha256_single d x) = length x"
proof -
  have "length (fst (fold (sha256_step d) is p)) = length (fst p)" for "is" p
    by (induction "is" arbitrary: p) (simp_all add: sha2_step_def sha2_vars_def Let_def split: prod.split)
  from this[of "[0..<64]" "(x, replicate 16 0)"]
  have "length (fst (fold (sha256_step d) [0..<64] (x, replicate 16 0))) = length x" by (simp only: fst_conv)
  moreover obtain v w where "fold (sha256_step d) [0..<64] (x, replicate 16 0) = (v, w)" by fastforce
  moreover have "rounds sha256_macros = 64" by (simp add: sha256_macros_def)
  ultimately show ?thesis
    by (simp only: sha256_single_def sha2_single_def case_prod_conv Let_def fst_conv length_map length_zip min.idem)
qed

lemma mh_sha256_step_columns:
  assumes "1024 \<le> length ww" "i < 64" "lanes 8 v" "lanes 16 w"
  shows "lanes 8 (fst (mh_sha256_step ww i (v, w))) \<and> lanes 16 (snd (mh_sha256_step ww i (v, w))) \<and>
    (\<forall>s<16. sha256_step (transform_input_single ww s) i (column v s, column w s) =
      (column (fst (mh_sha256_step ww i (v, w))) s, column (snd (mh_sha256_step ww i (v, w))) s))"
proof (intro conjI allI impI)
  show "lanes 8 (fst (mh_sha256_step ww i (v, w)))"
    using assms by (simp add: mh_sha256_step_def mh_sha256_vars_def Let_def)
  show w': "lanes 16 (snd (mh_sha256_step ww i (v, w)))"
    using assms by (simp add: mh_sha256_step_def mh_sha256_ring_def Let_def)
  fix s :: nat assume s: "s < 16"
  have len: "length v = 8" "length w = 16" using assms(3,4) by (simp_all add: lanes_def)
  have mac: "mac_s0 sha256_macros = sha256_s0" "mac_s1 sha256_macros = sha256_s1"
    "mac_S0 sha256_macros = sha256_S0" "mac_S1 sha256_macros = sha256_S1"
    "mac_ww sha256_macros = sha256_ww" "mac_k sha256_macros i = mh_sha256_k ! i"
    by (simp_all add: sha256_macros_def sha256_const_def mh_sha256_k_eq)
  have ring: "sha2_ring sha256_macros (transform_input_single ww s) i (column w s) = column (mh_sha256_ring ww i w) s"
    using s assms(1) len ld32_segment[OF assms(1) s, of i]
    by (simp add: sha2_ring_def mac sha256_ww_def mh_sha256_ring_def column_update mult.commute del: upt_rec_numeral)
  have wi: "column (mh_sha256_ring ww i w) s ! (i mod 16) = mh_sha256_ring ww i w ! (i mod 16) ! s"
    using len by (simp add: mh_sha256_ring_def)
  have vars: "sha2_vars sha256_macros i (wi ! s) (column v s) = column (mh_sha256_vars i (mh_sha256_k ! i) wi v) s" for wi
    using s len by (simp add: sha2_vars_def mac mh_sha256_vars_def Let_def column_update del: upt_rec_numeral)
  show "sha256_step (transform_input_single ww s) i (column v s, column w s) =
      (column (fst (mh_sha256_step ww i (v, w))) s, column (snd (mh_sha256_step ww i (v, w))) s)"
    by (simp add: sha2_step_def mh_sha256_step_def Let_def ring wi vars)
qed

lemma mh_sha256_single_spec:
  assumes "lanes 8 segs" "1024 \<le> length block"
  shows "mh_sha256_single block segs = mh_block_spec mh_sha256_alg block segs"
proof (rule mh_block_spec_columns)
  let ?r = "fold (mh_sha256_step block) [0..<64] (segs, replicate 16 (replicate 16 0))"
  have len: "length segs = 8" using assms(1) by (simp add: lanes_def)
  then show "lanes (length segs) segs" using assms(1) by simp
  note C = columns_fold[where N = 64 and n = 8 and k = 64 and M = "mh_sha256_step block"
      and S = "\<lambda>s. sha256_step (transform_input_single block s)" and v = segs and w = "replicate 16 (replicate 16 0)",
      OF mh_sha256_step_columns[OF assms(2)] assms(1)]
  have z: "lanes 16 (replicate 16 (replicate 16 0))" by (simp add: lanes_def)
  then have v: "lanes 8 (fst ?r)" and
    col: "\<And>s. s < 16 \<Longrightarrow> fold (sha256_step (transform_input_single block s)) [0..<64]
        (column segs s, column (replicate 16 (replicate 16 0)) s) = (column (fst ?r) s, column (snd ?r) s)"
    using C by auto
  have single: "mh_sha256_single block segs = map2 (map2 (+)) segs (fst ?r)"
    by (simp add: mh_sha256_single_def split: prod.split)
  show "lanes (length segs) (mh_sha256_single block segs)"
    using lanes_map2[OF assms(1) v] by (simp add: len single)
  fix s :: nat assume s: "s < 16"
  have "column (replicate 16 (replicate 16 0)) s = replicate 16 0"
    using s by (simp add: column_def)
  moreover have "rounds sha256_macros = 64" by (simp add: sha256_macros_def)
  ultimately show "column (mh_sha256_single block segs) s =
      mh_one_seg mh_sha256_alg (transform_input_single block s) (column segs s)"
    using col[OF s] column_map2[OF assms(1) v s]
    by (simp add: single mh_sha256_alg_def sha256_single_for_mh_sha256_def sha256_single_def sha2_single_def)
qed

lemma mh_sha256_one_seg_length:
  "length x = length (mh_H mh_sha256_alg) \<Longrightarrow> length (mh_one_seg mh_sha256_alg d x) = length (mh_H mh_sha256_alg)"
  by (simp add: mh_sha256_alg_def sha256_single_for_mh_sha256_def)

interpretation mh_sha256: mh_block mh_sha256_alg mh_sha256_block_base
proof
  fix segs n and data :: "byte list"
  assume "wf_segs mh_sha256_alg segs" "n * 1024 \<le> length data"
  then show "mh_sha256_block_base data segs n = hash_nblocks 1024 (mh_block_spec mh_sha256_alg) n data segs"
    unfolding mh_sha256_block_base_def
  proof (induction n arbitrary: data segs)
    case (Suc n)
    have "length (mh_H mh_sha256_alg) = 8" by (simp add: mh_sha256_alg_def)
    then have "mh_sha256_single (take 1024 data) segs = mh_block_spec mh_sha256_alg (take 1024 data) segs"
      using Suc.prems by (intro mh_sha256_single_spec) (simp_all add: wf_segs_lanes)
    moreover have "n * 1024 \<le> length (drop 1024 data)" using Suc.prems(2) by simp
    ultimately show ?case using Suc.IH Suc.prems(1) by simp
  qed simp
qed

interpretation mh_sha256_reference: mh_block mh_sha256_alg "mh_block_ref mh_sha256_alg"
  by (rule mh_block_ref_block) (rule mh_sha256_one_seg_length)

section \<open>Agreement with FIPS 180-4\<close>

text \<open>The multi-hash with the compression function and the hash of the standard.\<close>

definition fips_mh_sha256_alg :: mh_alg where
  "fips_mh_sha256_alg = mh_sha256_alg\<lparr>mh_one_seg := fips_compress fips256, mh_for := \<lambda>bs n. fips_sha256 bs\<rparr>"

lemma mh_sha256_fips: "mh_hash_len mh_sha256_alg m L = mh_hash_len fips_mh_sha256_alg m L"
proof (rule mh_hash_cong)
  show "mh_H mh_sha256_alg = mh_H fips_mh_sha256_alg" by (simp add: fips_mh_sha256_alg_def)
  fix bs :: "byte list"
  have H: "length (mh_H fips_mh_sha256_alg) = 8" by (simp add: fips_mh_sha256_alg_def mh_sha256_alg_def)
  assume "length bs = 64 * length (mh_H fips_mh_sha256_alg)"
  then have bs: "length bs = 512" by (simp add: H)
  then have "ref_hash sha256_alg bs 512 = md_hash sha256_alg bs"
    by (subst sha256.ref_hash_eq) (simp_all add: md_hash_def, simp add: sha256_alg_def)
  then show "mh_for mh_sha256_alg bs (of_nat (4 * length (mh_H fips_mh_sha256_alg) * 16)) =
      mh_for fips_mh_sha256_alg bs (of_nat (4 * length (mh_H fips_mh_sha256_alg) * 16))"
    unfolding H by (simp add: mh_sha256_alg_def fips_mh_sha256_alg_def sha256_for_mh_sha256_def sha256_hash_fips)
next
  fix d :: "byte list" and x :: "u32 list" assume "length d = 64" "length x = length (mh_H fips_mh_sha256_alg)"
  then show "mh_one_seg mh_sha256_alg d x = mh_one_seg fips_mh_sha256_alg d x"
    by (simp add: fips_mh_sha256_alg_def mh_sha256_alg_def sha256_single_for_mh_sha256_def sha256_single_fips)
qed

end
