(* ===== verification/MhSha1.thy ===== *)
theory MhSha1
  imports MultiHash Sha1
begin

text \<open>
  The multi-hash SHA-1 of \<open>mh_sha1/\<close>: the portable block function
  (\<open>mh_sha1_block_base.c\<close>), which runs the 80 steps on arrays of sixteen words, is shown to
  compress each of the sixteen columns as \<open>sha1_for_mh_sha1.c\<close> does one, and so as FIPS 180-4.
\<close>

section \<open>The block function\<close>

text \<open>
  \<open>STORE_W\<close> and \<open>UPDATE_W\<close>; then \<open>UPDATE_E1\<close> to \<open>UPDATE_E4\<close> and \<open>UPDATE_B\<close>. The calls of
  the steps rotate the five arrays as those of SHA-1 rotate the variables.
\<close>

definition mh_sha1_ring :: "byte list \<Rightarrow> nat \<Rightarrow> segs \<Rightarrow> segs" where
  "mh_sha1_ring ww i w =
     w[i mod 16 := map (\<lambda>s.
         if i < 16 then to_be32 (ld32 ww (i * 16 + s))
         else rol32 (w ! ((i - 3) mod 16) ! s XOR w ! ((i - 8) mod 16) ! s
                     XOR w ! ((i - 14) mod 16) ! s XOR w ! ((i - 16) mod 16) ! s) 1) [0..<16]]"

definition mh_sha1_vars :: "nat \<Rightarrow> u32 list \<Rightarrow> segs \<Rightarrow> segs" where
  "mh_sha1_vars i wi v =
     (let a = v ! role 5 0 i; b = v ! role 5 1 i; c = v ! role 5 2 i;
          d = v ! role 5 3 i; e = v ! role 5 4 i;
          e = map (\<lambda>s. e ! s + (rol32 (a ! s) 5 +
                (if i < 20 then sha1_F1 (b ! s) (c ! s) (d ! s) + 0x5A827999
                 else if i < 40 then sha1_F2 (b ! s) (c ! s) (d ! s) + 0x6ED9EBA1
                 else if i < 60 then sha1_F3 (b ! s) (c ! s) (d ! s) + 0x8F1BBCDC
                 else sha1_F4 (b ! s) (c ! s) (d ! s) + 0xCA62C1D6) + wi ! s)) [0..<16];
          b = map (\<lambda>s. rol32 (b ! s) 30) [0..<16]
      in v[role 5 4 i := e, role 5 1 i := b])"

definition mh_sha1_step :: "byte list \<Rightarrow> nat \<Rightarrow> segs \<times> segs \<Rightarrow> segs \<times> segs" where
  "mh_sha1_step ww i = (\<lambda>(v, w).
     let w = mh_sha1_ring ww i w in (mh_sha1_vars i (w ! (i mod 16)) v, w))"

definition mh_sha1_single :: "byte list \<Rightarrow> segs \<Rightarrow> segs" where
  "mh_sha1_single input digests =
     (let (v, w) = fold (mh_sha1_step input) [0..<80] (digests, replicate 16 (replicate 16 0))
      in map2 (map2 (+)) digests v)"

definition mh_sha1_block_base :: mh_block_fun where
  "mh_sha1_block_base input_data digests num_blocks =
     hash_nblocks 1024 mh_sha1_single num_blocks input_data digests"

text \<open>\<open>sha1_for_mh_sha1.c\<close> and \<open>mh_sha1_ref.c\<close> repeat the macros and the padding of SHA-1.\<close>

definition sha1_single_for_mh_sha1 :: "byte list \<Rightarrow> u32 list \<Rightarrow> u32 list" where
  "sha1_single_for_mh_sha1 = sha1_single"

definition sha1_for_mh_sha1 :: "byte list \<Rightarrow> u32 \<Rightarrow> u32 list" where
  "sha1_for_mh_sha1 = ref_hash sha1_alg"

definition mh_sha1_alg :: mh_alg where
  "mh_sha1_alg = \<lparr>mh_H = [0x67452301, 0xefcdab89, 0x98badcfe, 0x10325476, 0xc3d2e1f0],
     mh_one_seg = sha1_single_for_mh_sha1, mh_for = sha1_for_mh_sha1\<rparr>"

definition mh_sha1_init :: "mh_sha_ctx option \<Rightarrow> mh_ctx_error \<times> mh_sha_ctx option" where
  "mh_sha1_init = mh_init mh_sha1_alg"

definition mh_sha1_update_base ::
  "mh_sha_ctx option \<Rightarrow> byte list \<Rightarrow> u32 \<Rightarrow> mh_ctx_error \<times> mh_sha_ctx option" where
  "mh_sha1_update_base = mh_update mh_sha1_block_base"

definition mh_sha1_finalize_base ::
  "mh_sha_ctx option \<Rightarrow> u32 list option \<Rightarrow> mh_ctx_error \<times> mh_sha_ctx option \<times> u32 list option" where
  "mh_sha1_finalize_base = mh_finalize mh_sha1_alg mh_sha1_block_base"

text \<open>
  \<open>mh_sha1_ref.c\<close> repeats the functions of \<open>sha1_for_mh_sha1.c\<close>, to be linked without the library.
\<close>

definition sha1_single_for_mh_sha1_ref :: "byte list \<Rightarrow> u32 list \<Rightarrow> u32 list" where
  "sha1_single_for_mh_sha1_ref = sha1_single"

definition sha1_for_mh_sha1_ref :: "byte list \<Rightarrow> u32 \<Rightarrow> u32 list" where
  "sha1_for_mh_sha1_ref = ref_hash (sha1_alg\<lparr>single := sha1_single_for_mh_sha1_ref\<rparr>)"

definition mh_sha1_ref_alg :: mh_alg where
  "mh_sha1_ref_alg = mh_sha1_alg\<lparr>mh_one_seg := sha1_single_for_mh_sha1_ref, mh_for := sha1_for_mh_sha1_ref\<rparr>"

definition mh_sha1_block_ref :: mh_block_fun where
  "mh_sha1_block_ref = mh_block_ref mh_sha1_ref_alg"

definition mh_sha1_tail_ref ::
  "byte list \<Rightarrow> u32 \<Rightarrow> segs \<Rightarrow> u32 list \<times> byte list \<times> segs" where
  "mh_sha1_tail_ref = mh_tail mh_sha1_ref_alg mh_sha1_block_ref"

definition mh_sha1_ref :: "byte list \<Rightarrow> u32 \<Rightarrow> u32 list" where
  "mh_sha1_ref = mh_ref mh_sha1_ref_alg"

lemma mh_sha1_ref_eq: "mh_sha1_ref = mh_ref mh_sha1_alg"
proof -
  have "sha1_alg\<lparr>single := sha1_single\<rparr> = sha1_alg" by (simp add: sha1_alg_def)
  then show ?thesis
    by (simp add: mh_sha1_ref_def mh_sha1_ref_alg_def mh_sha1_alg_def sha1_single_for_mh_sha1_ref_def
        sha1_for_mh_sha1_ref_def sha1_single_for_mh_sha1_def sha1_for_mh_sha1_def)
qed

lemma length_sha1_step:
  "length (fst (sha1_step d i x)) = length (fst x)"
  by (cases x) (simp add: sha1_step_def sha1_vars_def Let_def)

lemma length_sha1_single [simp]: "length (sha1_single d x) = length x"
proof -
  have "length (fst (fold (sha1_step d) is p)) = length (fst p)" for "is" p
    by (induction "is" arbitrary: p) (simp_all add: length_sha1_step)
  from this[of "[0..<80]" "(x, replicate 16 0)"]
  have "length (fst (fold (sha1_step d) [0..<80] (x, replicate 16 0))) = length x" by (simp only: fst_conv)
  moreover obtain v w where "fold (sha1_step d) [0..<80] (x, replicate 16 0) = (v, w)" by fastforce
  ultimately show ?thesis by (simp only: sha1_single_def case_prod_conv Let_def fst_conv length_map length_zip min.idem)
qed

lemma mh_sha1_step_columns:
  assumes "1024 \<le> length ww" "i < 80" "lanes 5 v" "lanes 16 w"
  shows "lanes 5 (fst (mh_sha1_step ww i (v, w))) \<and> lanes 16 (snd (mh_sha1_step ww i (v, w))) \<and>
    (\<forall>s<16. sha1_step (transform_input_single ww s) i (column v s, column w s) =
      (column (fst (mh_sha1_step ww i (v, w))) s, column (snd (mh_sha1_step ww i (v, w))) s))"
proof (intro conjI allI impI)
  show "lanes 5 (fst (mh_sha1_step ww i (v, w)))"
    using assms by (simp add: mh_sha1_step_def mh_sha1_vars_def Let_def)
  show w': "lanes 16 (snd (mh_sha1_step ww i (v, w)))"
    using assms by (simp add: mh_sha1_step_def mh_sha1_ring_def Let_def)
  fix s :: nat assume s: "s < 16"
  have len: "length v = 5" "length w = 16" using assms(3,4) by (simp_all add: lanes_def)
  have ring: "sha1_ring (transform_input_single ww s) i (column w s) = column (mh_sha1_ring ww i w) s"
    using s assms(1) len ld32_segment[OF assms(1) s, of i]
    by (simp add: sha1_ring_def mh_sha1_ring_def column_update mult.commute del: upt_rec_numeral)
  have wi: "column (mh_sha1_ring ww i w) s ! (i mod 16) = mh_sha1_ring ww i w ! (i mod 16) ! s"
    using len by (simp add: mh_sha1_ring_def)
  have vars: "sha1_vars i (wi ! s) (column v s) = column (mh_sha1_vars i wi v) s" for wi
    using s len by (simp add: sha1_vars_def mh_sha1_vars_def Let_def column_update del: upt_rec_numeral)
  show "sha1_step (transform_input_single ww s) i (column v s, column w s) =
      (column (fst (mh_sha1_step ww i (v, w))) s, column (snd (mh_sha1_step ww i (v, w))) s)"
    by (simp add: sha1_step_def mh_sha1_step_def Let_def ring wi vars)
qed

lemma mh_sha1_single_spec:
  assumes "lanes 5 segs" "1024 \<le> length block"
  shows "mh_sha1_single block segs = mh_block_spec mh_sha1_alg block segs"
proof (rule mh_block_spec_columns)
  let ?r = "fold (mh_sha1_step block) [0..<80] (segs, replicate 16 (replicate 16 0))"
  have len: "length segs = 5" using assms(1) by (simp add: lanes_def)
  then show "lanes (length segs) segs" using assms(1) by simp
  note C = columns_fold[where N = 80 and n = 5 and k = 80 and M = "mh_sha1_step block"
      and S = "\<lambda>s. sha1_step (transform_input_single block s)" and v = segs and w = "replicate 16 (replicate 16 0)",
      OF mh_sha1_step_columns[OF assms(2)] assms(1)]
  have z: "lanes 16 (replicate 16 (replicate 16 0))" by (simp add: lanes_def)
  then have v: "lanes 5 (fst ?r)" and
    col: "\<And>s. s < 16 \<Longrightarrow> fold (sha1_step (transform_input_single block s)) [0..<80]
        (column segs s, column (replicate 16 (replicate 16 0)) s) = (column (fst ?r) s, column (snd ?r) s)"
    using C by auto
  have single: "mh_sha1_single block segs = map2 (map2 (+)) segs (fst ?r)"
    by (simp add: mh_sha1_single_def split: prod.split)
  show "lanes (length segs) (mh_sha1_single block segs)"
    using lanes_map2[OF assms(1) v] by (simp add: len single)
  fix s :: nat assume s: "s < 16"
  have "column (replicate 16 (replicate 16 0)) s = replicate 16 0"
    using s by (simp add: column_def)
  then show "column (mh_sha1_single block segs) s =
      mh_one_seg mh_sha1_alg (transform_input_single block s) (column segs s)"
    using col[OF s] column_map2[OF assms(1) v s]
    by (simp add: single mh_sha1_alg_def sha1_single_for_mh_sha1_def sha1_single_def)
qed


lemma mh_sha1_one_seg_length:
  "length x = length (mh_H mh_sha1_alg) \<Longrightarrow> length (mh_one_seg mh_sha1_alg d x) = length (mh_H mh_sha1_alg)"
  by (simp add: mh_sha1_alg_def sha1_single_for_mh_sha1_def)

interpretation mh_sha1: mh_block mh_sha1_alg mh_sha1_block_base
proof
  fix segs n and data :: "byte list"
  assume "wf_segs mh_sha1_alg segs" "n * 1024 \<le> length data"
  then show "mh_sha1_block_base data segs n = hash_nblocks 1024 (mh_block_spec mh_sha1_alg) n data segs"
    unfolding mh_sha1_block_base_def
  proof (induction n arbitrary: data segs)
    case (Suc n)
    have "length (mh_H mh_sha1_alg) = 5" by (simp add: mh_sha1_alg_def)
    then have "mh_sha1_single (take 1024 data) segs = mh_block_spec mh_sha1_alg (take 1024 data) segs"
      using Suc.prems by (intro mh_sha1_single_spec) (simp_all add: wf_segs_lanes)
    moreover have "n * 1024 \<le> length (drop 1024 data)" using Suc.prems(2) by simp
    ultimately show ?case using Suc.IH Suc.prems(1) by simp
  qed simp
qed

interpretation mh_sha1_reference: mh_block mh_sha1_alg "mh_block_ref mh_sha1_alg"
  by (rule mh_block_ref_block) (rule mh_sha1_one_seg_length)

section \<open>Agreement with FIPS 180-4\<close>

text \<open>The multi-hash with the compression function and the hash of the standard.\<close>

definition fips_mh_sha1_alg :: mh_alg where
  "fips_mh_sha1_alg = mh_sha1_alg\<lparr>mh_one_seg := fips1_compress, mh_for := \<lambda>bs n. fips_sha1 bs\<rparr>"

lemma mh_sha1_fips: "mh_hash_len mh_sha1_alg m L = mh_hash_len fips_mh_sha1_alg m L"
proof (rule mh_hash_cong)
  show "mh_H mh_sha1_alg = mh_H fips_mh_sha1_alg" by (simp add: fips_mh_sha1_alg_def)
  fix bs :: "byte list"
  have H: "length (mh_H fips_mh_sha1_alg) = 5" by (simp add: fips_mh_sha1_alg_def mh_sha1_alg_def)
  assume "length bs = 64 * length (mh_H fips_mh_sha1_alg)"
  then have bs: "length bs = 320" by (simp add: H)
  then have "ref_hash sha1_alg bs 320 = md_hash sha1_alg bs"
    by (subst sha1.ref_hash_eq) (simp_all add: md_hash_def, simp add: sha1_alg_def)
  then show "mh_for mh_sha1_alg bs (of_nat (4 * length (mh_H fips_mh_sha1_alg) * 16)) =
      mh_for fips_mh_sha1_alg bs (of_nat (4 * length (mh_H fips_mh_sha1_alg) * 16))"
    unfolding H by (simp add: mh_sha1_alg_def fips_mh_sha1_alg_def sha1_for_mh_sha1_def sha1_hash_fips)
next
  fix d :: "byte list" and x :: "u32 list" assume "length d = 64" "length x = length (mh_H fips_mh_sha1_alg)"
  then show "mh_one_seg mh_sha1_alg d x = mh_one_seg fips_mh_sha1_alg d x"
    by (simp add: fips_mh_sha1_alg_def mh_sha1_alg_def sha1_single_for_mh_sha1_def sha1_single_fips)
qed

end
