(* ===== verification/MhMurmur.thy ===== *)
theory MhMurmur
  imports MhSha1
begin

text \<open>
  \<open>mh_sha1_murmur3_x64_128/\<close>: the multi-hash SHA-1 and the 128-bit murmur3 hash of the same
  stream in one pass. The murmur3 state, two 64-bit words in the code's
  \<open>uint32_t murmur3_x64_128_digest [4]\<close>, is kept beside the interim digests.
\<close>

section \<open>murmur3\<close>

definition rol64 :: "u64 \<Rightarrow> nat \<Rightarrow> u64" where
  "rol64 x shift = push_bit shift x OR drop_bit (64 - shift) x"

definition blockmix64 :: "u64 \<Rightarrow> u64 \<Rightarrow> u64 \<Rightarrow> nat \<Rightarrow> u64" where
  "blockmix64 data conA conB shift = rol64 (data * conA) shift * conB"

definition hashmix64 :: "u64 \<Rightarrow> u64 \<Rightarrow> u64 \<Rightarrow> u64 \<Rightarrow> nat \<Rightarrow> u64" where
  "hashmix64 hashA hashB data add shift = (rol64 (hashA XOR data) shift + hashB) * 5 + add"

abbreviation "MUR_CON1 \<equiv> 0x87c37b91114253d5 :: u64"
abbreviation "MUR_CON2 \<equiv> 0x4cf5ad432745937f :: u64"

definition murmur3_step :: "u64 \<Rightarrow> u64 \<Rightarrow> u64 \<times> u64 \<Rightarrow> u64 \<times> u64" where
  "murmur3_step data1 data2 = (\<lambda>(h0, h1).
     let data1 = blockmix64 data1 MUR_CON1 MUR_CON2 31;
         data2 = blockmix64 data2 MUR_CON2 MUR_CON1 33;
         h0 = hashmix64 h0 h1 data1 0x52dce729 27;
         h1 = hashmix64 h1 h0 data2 0x38495ab5 31
     in (h0, h1))"

definition murmur3_x64_128_block :: "byte list \<Rightarrow> nat \<Rightarrow> u64 \<times> u64 \<Rightarrow> u64 \<times> u64" where
  "murmur3_x64_128_block input num_blocks hash =
     fold (\<lambda>i. murmur3_step (ld64 input (i * 2)) (ld64 input (i * 2 + 1))) [0..<num_blocks] hash"

definition murmur3_fmix :: "u64 \<Rightarrow> u64" where
  "murmur3_fmix h =
     (let h = h XOR drop_bit 33 h; h = h * 0xff51afd7ed558ccd;
          h = h XOR drop_bit 33 h; h = h * 0xc4ceb9fe1a85ec53
      in h XOR drop_bit 33 h)"

definition murmur3_x64_128_tail :: "byte list \<Rightarrow> u32 \<Rightarrow> u64 \<times> u64 \<Rightarrow> u64 \<times> u64" where
  "murmur3_x64_128_tail tail total_len = (\<lambda>(h0, h1).
     let tail_len = unat (total_len mod 16);
         hashB = memcpy_at (replicate 16 0) 0 tail tail_len;
         data1 = blockmix64 (ld64 hashB 0) MUR_CON1 MUR_CON2 31;
         data2 = blockmix64 (ld64 hashB 1) MUR_CON2 MUR_CON1 33;
         h0 = h0 XOR (ucast total_len XOR data1);
         h1 = h1 XOR (ucast total_len XOR data2);
         h0 = h0 + h1;
         h1 = h1 + h0;
         h0 = murmur3_fmix h0;
         h1 = murmur3_fmix h1;
         h0 = h0 + h1;
         h1 = h1 + h0
     in (h0, h1))"

text \<open>The one-shot function of \<open>murmur3_x64_128.c\<close>.\<close>

definition murmur3_x64_128 :: "byte list \<Rightarrow> u32 \<Rightarrow> u64 \<Rightarrow> u64 \<times> u64" where
  "murmur3_x64_128 buffer len murmur_seed =
     (let hash = (murmur_seed, murmur_seed);
          hash = murmur3_x64_128_block buffer (unat (len div 16)) hash;
          tail_buffer = drop (unat (len - len mod 16)) buffer
      in murmur3_x64_128_tail tail_buffer len hash)"

section \<open>The combined context\<close>

type_synonym mur_digest = "segs \<times> u64 \<times> u64"
type_synonym mur_ctx = "mur_digest mh_ctx"

definition mh_sha1_murmur3_init :: "mur_ctx option \<Rightarrow> u64 \<Rightarrow> mh_ctx_error \<times> mur_ctx option" where
  "mh_sha1_murmur3_init ctx murmur_seed =
     (if ctx = None then (CTX_ERROR_NULL, None)
      else (CTX_ERROR_NONE,
        Some \<lparr>mh_digest = replicate 5 0, mh_total_length = 0, mh_partial = replicate 2048 0,
              mh_interim = (mh_init_segs mh_sha1_alg, murmur_seed, murmur_seed)\<rparr>))"

definition mh_sha1_murmur3_block_base :: "mur_digest block_fun" where
  "mh_sha1_murmur3_block_base input_data = (\<lambda>(segs, hash) num_blocks.
     (mh_sha1_block_base input_data segs num_blocks,
      murmur3_x64_128_block input_data (num_blocks * 1024 div 16) hash))"

definition mh_sha1_murmur3_update_base ::
  "mur_ctx option \<Rightarrow> byte list \<Rightarrow> u32 \<Rightarrow> mh_ctx_error \<times> mur_ctx option" where
  "mh_sha1_murmur3_update_base = mh_update mh_sha1_murmur3_block_base"

text \<open>
  The block functions are arguments: the one of \<open>update\<close> computes both hashes, the one of
  \<open>finalize\<close> is the block function of mh_sha1 behind \<open>MH_SHA1_TAIL_FUNCTION\<close>.
\<close>

definition mh_murmur3_final :: "mh_block_fun \<Rightarrow> mur_ctx \<Rightarrow> mur_ctx" where
  "mh_murmur3_final blk ctx =
     (let total_len = mh_total_length ctx;
          partial_block_len = unat (total_len mod 1024);
          (segs, hash) = mh_interim ctx;
          murmur_tail_data = drop (partial_block_len - partial_block_len mod 16) (mh_partial ctx);
          hash = murmur3_x64_128_block (mh_partial ctx) (partial_block_len div 16) hash;
          hash = murmur3_x64_128_tail murmur_tail_data (ucast total_len) hash;
          (d, partial, segs) = mh_tail mh_sha1_alg blk (mh_partial ctx) (ucast total_len) segs
      in ctx\<lparr>mh_digest := d, mh_partial := partial, mh_interim := (segs, hash)\<rparr>)"

text \<open>The two output pointers; the murmur3 hash is given as its two words.\<close>

type_synonym mur_finalize_fun =
  "mur_ctx option \<Rightarrow> u32 list option \<Rightarrow> (u64 \<times> u64) option \<Rightarrow>
   mh_ctx_error \<times> mur_ctx option \<times> u32 list option \<times> (u64 \<times> u64) option"

definition mh_murmur3_finalize :: "mh_block_fun \<Rightarrow> mur_finalize_fun" where
  "mh_murmur3_finalize blk ctx sha_out mur_out =
     (case ctx of None \<Rightarrow> (CTX_ERROR_NULL, None, sha_out, mur_out)
      | Some ctx \<Rightarrow>
          let ctx = mh_murmur3_final blk ctx
          in (CTX_ERROR_NONE, Some ctx, map_option (\<lambda>_. mh_digest ctx) sha_out,
              map_option (\<lambda>_. snd (mh_interim ctx)) mur_out))"

definition mh_sha1_murmur3_finalize_base :: mur_finalize_fun where
  "mh_sha1_murmur3_finalize_base = mh_murmur3_finalize mh_sha1_block_base"

definition mh_murmur3_stream ::
  "mur_digest block_fun \<Rightarrow> mh_block_fun \<Rightarrow> mur_ctx \<Rightarrow> u64 \<Rightarrow> byte list list \<Rightarrow>
   u32 list option \<times> (u64 \<times> u64) option" where
  "mh_murmur3_stream both blk ctx murmur_seed bss =
     (let ctx = snd (mh_sha1_murmur3_init (Some ctx) murmur_seed);
          ctx = fold (\<lambda>bs c. snd (mh_update both c bs (of_nat (length bs)))) bss ctx
      in snd (snd (mh_murmur3_finalize blk ctx (Some []) (Some (0, 0)))))"

definition mh_sha1_murmur3_stream ::
  "mur_ctx \<Rightarrow> u64 \<Rightarrow> byte list list \<Rightarrow> u32 list option \<times> (u64 \<times> u64) option" where
  "mh_sha1_murmur3_stream ctx murmur_seed bss =
     (let ctx = snd (mh_sha1_murmur3_init (Some ctx) murmur_seed);
          ctx = fold (\<lambda>bs c. snd (mh_sha1_murmur3_update_base c bs (of_nat (length bs)))) bss ctx
      in snd (snd (mh_sha1_murmur3_finalize_base ctx (Some []) (Some (0, 0)))))"

section \<open>Murmur3 by blocks\<close>

definition mur_f :: "byte list \<Rightarrow> u64 \<times> u64 \<Rightarrow> u64 \<times> u64" where
  "mur_f block = murmur3_step (ld64 block 0) (ld64 block 1)"

lemma mur_f_drop:
  assumes "(i + 1) * 16 \<le> length bs"
  shows "murmur3_step (ld64 bs (i * 2)) (ld64 bs (i * 2 + 1)) = mur_f (take 16 (drop (i * 16) bs))"
  using assms by (simp add: mur_f_def ld64_def drop_take min_def add.commute mult.commute[of i])

lemma murmur3_block_eq:
  "n * 16 \<le> length bs \<Longrightarrow> murmur3_x64_128_block bs n h = hash_nblocks 16 mur_f n bs h"
proof (induction n)
  case (Suc n)
  then have "murmur3_x64_128_block bs (Suc n) h =
      mur_f (take 16 (drop (n * 16) bs)) (hash_nblocks 16 mur_f n bs h)"
    using mur_f_drop[of n bs] by (simp add: murmur3_x64_128_block_def)
  then show ?case using hash_nblocks_add[of 16 mur_f n 1 bs h] by simp
qed (simp add: murmur3_x64_128_block_def)

definition mur_1024 :: "byte list \<Rightarrow> u64 \<times> u64 \<Rightarrow> u64 \<times> u64" where
  "mur_1024 block h = hash_nblocks 16 mur_f 64 block h"

lemma mur_1024_blocks:
  "n * 1024 \<le> length bs \<Longrightarrow> hash_nblocks 16 mur_f (n * 64) bs h = hash_nblocks 1024 mur_1024 n bs h"
proof (induction n arbitrary: bs h)
  case (Suc n)
  have "hash_nblocks 16 mur_f (64 + n * 64) bs h =
      hash_nblocks 16 mur_f (n * 64) (drop 1024 bs) (hash_nblocks 16 mur_f 64 bs h)"
    by (simp only: hash_nblocks_add) simp
  moreover have "hash_nblocks 16 mur_f 64 bs h = hash_nblocks 16 mur_f 64 (take 1024 bs) h"
    using hash_nblocks_take[of 64 16 1024 mur_f bs h] by simp
  ultimately show ?case using Suc by (simp add: mur_1024_def)
qed simp

lemma mur_1024_blocks':
  "n * 1024 \<le> length bs \<Longrightarrow> hash_nblocks 16 mur_f (64 * n) bs h = hash_nblocks 1024 mur_1024 n bs h"
  using mur_1024_blocks[of n bs h] by (simp only: mult.commute[of 64])

definition mur_both :: "byte list \<Rightarrow> mur_digest \<Rightarrow> mur_digest" where
  "mur_both block = (\<lambda>(segs, h). (mh_block_spec mh_sha1_alg block segs, mur_1024 block h))"

lemma mur_both_blocks:
  "hash_nblocks 1024 mur_both n bs (segs, h) =
    (hash_nblocks 1024 (mh_block_spec mh_sha1_alg) n bs segs, hash_nblocks 1024 mur_1024 n bs h)"
  by (induction n arbitrary: bs segs h) (simp_all add: mur_both_def)

section \<open>The digests of a stream\<close>

text \<open>The murmur3 hash of a message whose length word is \<open>L\<close>.\<close>

definition mur_hash_len :: "byte list \<Rightarrow> u64 \<Rightarrow> u32 \<Rightarrow> u64 \<times> u64" where
  "mur_hash_len m seed L =
     murmur3_x64_128_tail (drop (length m div 16 * 16) m) L
       (hash_nblocks 16 mur_f (length m div 16) m (seed, seed))"

text \<open>The tail reads only the bytes after the last whole block.\<close>

lemma murmur3_tail_cong:
  "take (unat (L mod 16)) a = take (unat (L mod 16)) b \<Longrightarrow>
   murmur3_x64_128_tail a L h = murmur3_x64_128_tail b L h"
  by (simp add: murmur3_x64_128_tail_def memcpy_at_def Let_def)

lemma murmur3_x64_128_eq:
  assumes "unat len \<le> length bs"
  shows "murmur3_x64_128 bs len seed = mur_hash_len (take (unat len) bs) seed len"
proof -
  have le: "unat len div 16 * 16 \<le> unat len" by (rule div_times_less_eq_dividend)
  have "len - len mod 16 = len div 16 * 16"
    by (simp add: minus_mod_eq_div_mult)
  moreover have "unat len div 16 * 16 < 2 ^ 32"
    by (rule le_less_trans[OF le]) (use unsigned_less[of len] in simp)
  then have "unat (len div 16 * 16) = unat len div 16 * 16"
    by (simp add: unat_word_ariths unat_div)
  ultimately have t: "unat (len - len mod 16) = unat len div 16 * 16" by simp
  have tail: "murmur3_x64_128_tail (drop k bs) len h = murmur3_x64_128_tail (drop k (take (unat len) bs)) len h"
    if "k = unat len div 16 * 16" for k h
  proof -
    have "unat len - k = unat len mod 16" using that by (simp add: minus_div_mult_eq_mod)
    then show ?thesis by (intro murmur3_tail_cong) (simp add: drop_take unat_mod)
  qed
  have "murmur3_x64_128_block bs (unat (len div 16)) (seed, seed) =
      hash_nblocks 16 mur_f (unat len div 16) (take (unat len) bs) (seed, seed)"
    using le assms by (simp add: unat_div murmur3_block_eq hash_nblocks_take)
  then show ?thesis using assms tail[OF refl]
    by (simp add: murmur3_x64_128_def Let_def t mur_hash_len_def min_absorb2)
qed

section \<open>Any block functions that compute the two hashes\<close>

locale mur_stream = sha: mh_block mh_sha1_alg blk for blk :: mh_block_fun +
  fixes both :: "mur_digest block_fun" and seed :: u64
  assumes both_blocks: "(case d of (segs, h) \<Rightarrow> wf_segs mh_sha1_alg segs) \<Longrightarrow> n * 1024 \<le> length data \<Longrightarrow>
      both data d n = hash_nblocks 1024 mur_both n data d"

sublocale mur_stream \<subseteq> block_stream mur_both "\<lambda>(segs, h). wf_segs mh_sha1_alg segs"
  "(mh_init_segs mh_sha1_alg, seed, seed)" both
  by unfold_locales (auto simp: both_blocks mur_both_def)

context mur_stream
begin

lemma final_eq:
  assumes "holds m ctx"
  shows "mh_digest (mh_murmur3_final blk ctx) = mh_hash_len mh_sha1_alg m (length m mod 2 ^ 32) \<and>
    snd (mh_interim (mh_murmur3_final blk ctx)) = mur_hash_len m seed (of_nat (length m))"
proof -
  from assms obtain pre part where m: "m = pre @ part" and S: "split_holds pre part ctx"
    and tot: "mh_total_length ctx = of_nat (length m)" by (auto simp: holds_def)
  let ?p = "length part" and ?n = "length pre div 1024"
  let ?S = "hash_blocks 1024 (mh_block_spec mh_sha1_alg) pre (mh_init_segs mh_sha1_alg)"
  let ?H = "hash_nblocks 16 mur_f (?n * 64) pre (seed, seed)"
  have D: "1024 dvd length pre" "?p < 1024" "length (mh_partial ctx) = 2048" "take ?p (mh_partial ctx) = part"
    using S by (simp_all add: split_holds_def)
  have pre: "length pre = ?n * 1024" using D(1) by simp
  have I: "mh_interim ctx = (?S, ?H)"
    using S pre by (simp add: split_holds_def hash_blocks_def mur_both_blocks mur_1024_blocks)
  have um: "unat ((of_nat (length m) :: u64) mod 1024) = ?p"
  proof -
    have "unat ((of_nat (length m) :: u64) mod 1024) = length m mod 2 ^ 64 mod 1024"
      by (simp add: unat_mod unat_of_nat take_bit_eq_mod)
    also have "\<dots> = length m mod 1024" by (rule mod_mod_cancel) simp
    also have "\<dots> = ?p" using D by (auto simp: m elim!: dvdE)
    finally show ?thesis .
  qed
  have L: "(ucast (of_nat (length m) :: u64) :: u32) = of_nat (length m)"
    by (simp add: ucast_of_nat_down)
  text \<open>The sixteen-byte blocks of the buffer continue those of the whole blocks.\<close>
  have d16: "length m div 16 = ?n * 64 + ?p div 16"
    using pre by (simp add: m)
  have d16': "length m div 16 * 16 = length pre + ?p div 16 * 16"
    unfolding d16 using pre by simp
  have q: "?p div 16 * 16 \<le> ?p" by (rule div_times_less_eq_dividend)
  have "hash_nblocks 16 mur_f (length m div 16) m (seed, seed) =
      hash_nblocks 16 mur_f (?p div 16) (drop (length pre) m) (hash_nblocks 16 mur_f (?n * 64) m (seed, seed))"
  proof -
    have "?n * 64 * 16 = length pre" using pre by simp
    then show ?thesis by (simp only: d16 hash_nblocks_add)
  qed
  also have "\<dots> = hash_nblocks 16 mur_f (?p div 16) part ?H"
    using pre by (simp add: m hash_nblocks_append)
  also have "\<dots> = murmur3_x64_128_block (mh_partial ctx) (?p div 16) ?H"
    using q D hash_nblocks_take[of "?p div 16" 16 ?p mur_f "mh_partial ctx"] by (simp add: murmur3_block_eq)
  finally have blocks: "murmur3_x64_128_block (mh_partial ctx) (?p div 16) ?H =
      hash_nblocks 16 mur_f (length m div 16) m (seed, seed)" by simp
  have tl: "unat (of_nat (length m) mod 16 :: u32) = ?p mod 16"
  proof -
    have "unat (of_nat (length m) mod 16 :: u32) = length m mod 2 ^ 32 mod 16"
      by (simp add: unat_mod unat_of_nat take_bit_eq_mod)
    also have "\<dots> = length m mod 16" by (rule mod_mod_cancel) simp
    also have "\<dots> = ?p mod 16"
    proof -
      have "length m = ?p + 16 * (?n * 64)" using pre by (simp add: m)
      then show ?thesis by (simp only: mod_mult_self2)
    qed
    finally show ?thesis .
  qed
  have drops: "take (?p mod 16) (drop (?p - ?p mod 16) (mh_partial ctx)) =
      take (?p mod 16) (drop (length m div 16 * 16) m)"
  proof -
    have "?p - ?p mod 16 + ?p mod 16 = ?p" by simp
    then have "take (?p mod 16) (drop (?p - ?p mod 16) (mh_partial ctx)) = drop (?p - ?p mod 16) part"
      using D(4) by (metis diff_add_inverse drop_take)
    moreover have "length (drop (?p - ?p mod 16) part) = ?p mod 16" by simp
    then have "take (?p mod 16) (drop (?p - ?p mod 16) part) = drop (?p - ?p mod 16) part" by simp
    moreover have "drop (length m div 16 * 16) m = drop (?p - ?p mod 16) part"
      unfolding d16' by (simp add: m minus_mod_eq_div_mult)
    ultimately show ?thesis by simp
  qed
  have tail: "murmur3_x64_128_tail (drop (?p - ?p mod 16) (mh_partial ctx)) (of_nat (length m)) h =
      murmur3_x64_128_tail (drop (length m div 16 * 16) m) (of_nat (length m)) h" for h
    by (rule murmur3_tail_cong) (simp only: tl drops)
  have uL: "unat (of_nat (length m) :: u32) = length m mod 2 ^ 32"
    by (simp add: unat_of_nat take_bit_eq_mod)
  have "unat (of_nat (length m) :: u32) mod 1024 = ?p"
  proof -
    have "length m mod 2 ^ 32 mod 1024 = length m mod 1024" by (rule mod_mod_cancel) simp
    then show ?thesis unfolding uL using D by (auto simp: m elim!: dvdE)
  qed
  then have sha: "fst (mh_tail mh_sha1_alg blk (mh_partial ctx) (of_nat (length m)) ?S) =
      mh_hash_len mh_sha1_alg m (length m mod 2 ^ 32)"
    using sha.tail_segments[OF D(1-4), of ?S "of_nat (length m)"] D(1)
    by (simp add: mh_hash_len_def mh_segments_def hash_blocks_append uL flip: m) (simp add: m hash_blocks_append)
  obtain d b S' where t: "mh_tail mh_sha1_alg blk (mh_partial ctx) (of_nat (length m)) ?S = (d, b, S')"
    by (cases "mh_tail mh_sha1_alg blk (mh_partial ctx) (of_nat (length m)) ?S") auto
  show ?thesis
    unfolding mh_murmur3_final_def Let_def I tot L um case_prod_conv blocks tail t
    using sha by (simp add: mur_hash_len_def t)
qed

lemma stream_eq:
  assumes "\<forall>bs\<in>set bss. length bs < 2 ^ 32"
  shows "mh_murmur3_stream both blk ctx seed bss =
    (Some (mh_hash_len mh_sha1_alg (concat bss) (length (concat bss) mod 2 ^ 32)),
     Some (mur_hash_len (concat bss) seed (of_nat (length (concat bss)))))"
proof -
  obtain c where c: "snd (mh_sha1_murmur3_init (Some ctx) seed) = Some c" "holds [] c"
    by (simp add: mh_sha1_murmur3_init_def holds_def split_holds_def)
  from updates_hold[OF c(2) assms] final_eq c(1) show ?thesis
    by (auto simp: mh_murmur3_stream_def mh_murmur3_finalize_def Let_def)
qed

end

section \<open>The portable functions\<close>

interpretation murmur: mur_stream mh_sha1_block_base mh_sha1_murmur3_block_base seed for seed
proof
  fix d :: mur_digest and n and data :: "byte list"
  assume "case d of (segs, h) \<Rightarrow> wf_segs mh_sha1_alg segs" "n * 1024 \<le> length data"
  moreover have "n * 1024 div 16 = n * 64" by simp
  ultimately show "mh_sha1_murmur3_block_base data d n = hash_nblocks 1024 mur_both n data d"
    by (cases d) (simp add: mh_sha1_murmur3_block_base_def mh_sha1.blk_columns mur_both_blocks
      murmur3_block_eq mur_1024_blocks')
qed

lemma mh_sha1_murmur3_stream_eq:
  assumes "\<forall>bs\<in>set bss. length bs < 2 ^ 32"
  shows "mh_sha1_murmur3_stream ctx seed bss =
    (Some (mh_hash_len mh_sha1_alg (concat bss) (length (concat bss) mod 2 ^ 32)),
     Some (mur_hash_len (concat bss) seed (of_nat (length (concat bss)))))"
  using murmur.stream_eq[OF assms, of ctx seed]
  by (simp add: mh_sha1_murmur3_stream_def mh_murmur3_stream_def mh_sha1_murmur3_update_base_def
      mh_sha1_murmur3_finalize_base_def)

end
