(* ===== verification/MhApi.thy ===== *)
theory MhApi
  imports MhSha256 MhMurmur Build
begin

text \<open>
  The checked entry points of the multi-hashes, \<open>isal_mh_*\<close> in \<open>mh_sha1/mh_sha1.c\<close>,
  \<open>mh_sha256/mh_sha256.c\<close> and \<open>mh_sha1_murmur3_x64_128/mh_sha1_murmur3_x64_128.c\<close>. A FIPS build
  refuses every call. They return an \<open>int\<close> that is a code of the API or what the function behind
  them returns; zero is the success of both. The functions behind them are the portable ones.
\<close>

type_synonym mh_code = "isal_error + mh_ctx_error"

text \<open>\<open>call\<close> is \<open>None\<close> when it dereferences \<open>NULL\<close>; a refused call leaves the outputs \<open>same\<close>.\<close>

definition mh_checked ::
  "build \<Rightarrow> (bool \<times> isal_error) list \<Rightarrow> 'a \<Rightarrow> (mh_ctx_error \<times> 'a) option \<Rightarrow> (mh_code \<times> 'a) option" where
  "mh_checked b params same call =
     (if fips_mode b then Some (Inl ERR_FIPS_INVALID_ALGO, same)
      else case (if safe_param b then first_error params else None) of
             Some e \<Rightarrow> Some (Inl e, same)
           | None \<Rightarrow> map_option (\<lambda>(e, r). (Inr e, r)) call)"

text \<open>\<open>update\<close> reads the buffer, unless the context is \<open>NULL\<close> or the length zero.\<close>

definition mh_update_call ::
  "('d mh_ctx option \<Rightarrow> byte list \<Rightarrow> u32 \<Rightarrow> mh_ctx_error \<times> 'd mh_ctx option) \<Rightarrow>
   'd mh_ctx option \<Rightarrow> byte list option \<Rightarrow> u32 \<Rightarrow> (mh_ctx_error \<times> 'd mh_ctx option) option" where
  "mh_update_call upd ctx buffer len =
     (case buffer of
        None \<Rightarrow> if ctx = None \<or> len = 0 then Some (upd ctx [] len) else None
      | Some bs \<Rightarrow> Some (upd ctx bs len))"

definition isal_mh_sha1_init :: "build \<Rightarrow> mh_sha_ctx option \<Rightarrow> (mh_code \<times> mh_sha_ctx option) option" where
  "isal_mh_sha1_init b ctx = mh_checked b [(ctx = None, ERR_NULL_CTX)] ctx (Some (mh_sha1_init ctx))"

definition isal_mh_sha1_update ::
  "build \<Rightarrow> mh_sha_ctx option \<Rightarrow> byte list option \<Rightarrow> u32 \<Rightarrow> (mh_code \<times> mh_sha_ctx option) option" where
  "isal_mh_sha1_update b ctx buffer len =
     mh_checked b [(ctx = None, ERR_NULL_CTX), (buffer = None, ERR_NULL_SRC)] ctx
       (mh_update_call mh_sha1_update_base ctx buffer len)"

definition isal_mh_sha1_finalize ::
  "build \<Rightarrow> mh_sha_ctx option \<Rightarrow> u32 list option \<Rightarrow> (mh_code \<times> mh_sha_ctx option \<times> u32 list option) option" where
  "isal_mh_sha1_finalize b ctx out =
     mh_checked b [(ctx = None, ERR_NULL_CTX), (out = None, ERR_NULL_AUTH)] (ctx, out)
       (Some (mh_sha1_finalize_base ctx out))"

definition isal_mh_sha256_init :: "build \<Rightarrow> mh_sha_ctx option \<Rightarrow> (mh_code \<times> mh_sha_ctx option) option" where
  "isal_mh_sha256_init b ctx = mh_checked b [(ctx = None, ERR_NULL_CTX)] ctx (Some (mh_sha256_init ctx))"

definition isal_mh_sha256_update ::
  "build \<Rightarrow> mh_sha_ctx option \<Rightarrow> byte list option \<Rightarrow> u32 \<Rightarrow> (mh_code \<times> mh_sha_ctx option) option" where
  "isal_mh_sha256_update b ctx buffer len =
     mh_checked b [(ctx = None, ERR_NULL_CTX), (buffer = None, ERR_NULL_SRC)] ctx
       (mh_update_call mh_sha256_update_base ctx buffer len)"

definition isal_mh_sha256_finalize ::
  "build \<Rightarrow> mh_sha_ctx option \<Rightarrow> u32 list option \<Rightarrow> (mh_code \<times> mh_sha_ctx option \<times> u32 list option) option" where
  "isal_mh_sha256_finalize b ctx out =
     mh_checked b [(ctx = None, ERR_NULL_CTX), (out = None, ERR_NULL_AUTH)] (ctx, out)
       (Some (mh_sha256_finalize_base ctx out))"

definition isal_mh_sha1_murmur3_init ::
  "build \<Rightarrow> mur_ctx option \<Rightarrow> u64 \<Rightarrow> (mh_code \<times> mur_ctx option) option" where
  "isal_mh_sha1_murmur3_init b ctx murmur_seed =
     mh_checked b [(ctx = None, ERR_NULL_CTX)] ctx (Some (mh_sha1_murmur3_init ctx murmur_seed))"

definition isal_mh_sha1_murmur3_update ::
  "build \<Rightarrow> mur_ctx option \<Rightarrow> byte list option \<Rightarrow> u32 \<Rightarrow> (mh_code \<times> mur_ctx option) option" where
  "isal_mh_sha1_murmur3_update b ctx buffer len =
     mh_checked b [(ctx = None, ERR_NULL_CTX), (buffer = None, ERR_NULL_SRC)] ctx
       (mh_update_call mh_sha1_murmur3_update_base ctx buffer len)"

definition isal_mh_sha1_murmur3_finalize ::
  "build \<Rightarrow> mur_ctx option \<Rightarrow> u32 list option \<Rightarrow> (u64 \<times> u64) option \<Rightarrow>
   (mh_code \<times> mur_ctx option \<times> u32 list option \<times> (u64 \<times> u64) option) option" where
  "isal_mh_sha1_murmur3_finalize b ctx sha_digest mur_digest =
     mh_checked b [(ctx = None, ERR_NULL_CTX), (sha_digest = None \<or> mur_digest = None, ERR_NULL_AUTH)]
       (ctx, sha_digest, mur_digest) (Some (mh_sha1_murmur3_finalize_base ctx sha_digest mur_digest))"

text \<open>
  With \<open>SAFE_PARAM\<close>, a call returns the code of the first test that fails and changes nothing, or is
  that of the function behind it, which succeeds.
\<close>

lemma mh_checked_safe:
  assumes "safe_param b" "ok \<longleftrightarrow> (\<forall>t\<in>set params. \<not> fst t)" "ok \<Longrightarrow> call = Some (CTX_ERROR_NONE, r)"
  shows "mh_checked b params same call =
    (if fips_mode b then Some (Inl ERR_FIPS_INVALID_ALGO, same)
     else if ok then Some (Inr CTX_ERROR_NONE, r) else Some (Inl (the (first_error params)), same))"
  using assms first_error_None[of params] by (auto simp: mh_checked_def split: option.split)

lemma mh_api_safe:
  assumes "safe_param b"
  shows "isal_mh_sha1_init b ctx =
      (if fips_mode b then Some (Inl ERR_FIPS_INVALID_ALGO, ctx)
       else if ctx \<noteq> None then Some (Inr CTX_ERROR_NONE, snd (mh_sha1_init ctx))
       else Some (Inl ERR_NULL_CTX, ctx))"
    and "isal_mh_sha1_update b ctx buffer len =
      (if fips_mode b then Some (Inl ERR_FIPS_INVALID_ALGO, ctx)
       else if ctx \<noteq> None \<and> buffer \<noteq> None
         then Some (Inr CTX_ERROR_NONE, snd (mh_sha1_update_base ctx (the buffer) len))
       else Some (Inl (if ctx = None then ERR_NULL_CTX else ERR_NULL_SRC), ctx))"
    and "isal_mh_sha1_finalize b ctx out =
      (if fips_mode b then Some (Inl ERR_FIPS_INVALID_ALGO, ctx, out)
       else if ctx \<noteq> None \<and> out \<noteq> None
         then Some (Inr CTX_ERROR_NONE, snd (mh_sha1_finalize_base ctx out))
       else Some (Inl (if ctx = None then ERR_NULL_CTX else ERR_NULL_AUTH), ctx, out))"
proof -
  show "isal_mh_sha1_init b ctx =
      (if fips_mode b then Some (Inl ERR_FIPS_INVALID_ALGO, ctx)
       else if ctx \<noteq> None then Some (Inr CTX_ERROR_NONE, snd (mh_sha1_init ctx))
       else Some (Inl ERR_NULL_CTX, ctx))"
    unfolding isal_mh_sha1_init_def
    by (subst mh_checked_safe[OF assms, where ok = "ctx \<noteq> None" and r = "snd (mh_sha1_init ctx)"])
      (auto simp: mh_sha1_init_def mh_init_def)
  show "isal_mh_sha1_update b ctx buffer len =
      (if fips_mode b then Some (Inl ERR_FIPS_INVALID_ALGO, ctx)
       else if ctx \<noteq> None \<and> buffer \<noteq> None
         then Some (Inr CTX_ERROR_NONE, snd (mh_sha1_update_base ctx (the buffer) len))
       else Some (Inl (if ctx = None then ERR_NULL_CTX else ERR_NULL_SRC), ctx))"
    unfolding isal_mh_sha1_update_def
    by (subst mh_checked_safe[OF assms, where ok = "ctx \<noteq> None \<and> buffer \<noteq> None"
          and r = "snd (mh_sha1_update_base ctx (the buffer) len)"])
      (auto simp: mh_sha1_update_base_def mh_update_def mh_update_call_def)
  show "isal_mh_sha1_finalize b ctx out =
      (if fips_mode b then Some (Inl ERR_FIPS_INVALID_ALGO, ctx, out)
       else if ctx \<noteq> None \<and> out \<noteq> None
         then Some (Inr CTX_ERROR_NONE, snd (mh_sha1_finalize_base ctx out))
       else Some (Inl (if ctx = None then ERR_NULL_CTX else ERR_NULL_AUTH), ctx, out))"
    unfolding isal_mh_sha1_finalize_def
    by (subst mh_checked_safe[OF assms, where ok = "ctx \<noteq> None \<and> out \<noteq> None"
          and r = "snd (mh_sha1_finalize_base ctx out)"])
      (auto simp: mh_sha1_finalize_base_def mh_finalize_def Let_def)
qed

end
