(* ===== verification/SelfTests.thy ===== *)
theory SelfTests
  imports Build
begin

text \<open>
  The FIPS self tests run once per process: the first call of \<open>isal_self_tests\<close> runs them, the
  calls of other threads wait for the outcome, later calls read it. The library has two
  versions of the function, \<open>fips/self_tests.c\<close> over the assembly routines of
  \<open>fips/asm_self_tests.asm\<close> (x86) and \<open>fips/self_tests_generic.c\<close> over C11 atomics. Each is a step
  relation on a status word and the program counter of every thread, one step per access to the
  status and per call of \<open>_aes_self_tests\<close> or \<open>_sha_self_tests\<close>, whose return values are inputs.
  Both are compared with one abstract machine, \<open>once_step\<close>.
\<close>

type_synonym thread = nat

datatype event =
    Begin thread               \<comment> \<open>the thread is about to run the tests\<close>
  | Test thread u32            \<comment> \<open>a test returned this value to it\<close>
  | Finish thread              \<comment> \<open>it stored the outcome\<close>
  | Return thread isal_error   \<comment> \<open>its call of \<open>isal_self_tests\<close> returned\<close>
  | Tau

inductive trace :: "('s \<Rightarrow> event \<Rightarrow> 's \<Rightarrow> bool) \<Rightarrow> 's \<Rightarrow> event list \<Rightarrow> 's \<Rightarrow> bool" for R s where
  trace_nil: "trace R s [] s"
| trace_snoc: "trace R s es s' \<Longrightarrow> R s' e s'' \<Longrightarrow> trace R s (es @ [e]) s''"

fun begins :: "event list \<Rightarrow> nat" where
  "begins [] = 0"
| "begins (e # es) = (case e of Begin _ \<Rightarrow> 1 | _ \<Rightarrow> 0) + begins es"

fun results :: "event list \<Rightarrow> u32 list" where
  "results [] = []"
| "results (e # es) = (case e of Test _ r \<Rightarrow> [r] | _ \<Rightarrow> []) @ results es"

fun returns :: "event list \<Rightarrow> isal_error list" where
  "returns [] = []"
| "returns (e # es) = (case e of Return _ c \<Rightarrow> [c] | _ \<Rightarrow> []) @ returns es"

lemma begins_append [simp]: "begins (es @ fs) = begins es + begins fs"
  by (induction es rule: begins.induct) simp_all

lemma results_append [simp]: "results (es @ fs) = results es @ results fs"
  by (induction es rule: results.induct) simp_all

lemma returns_append [simp]: "returns (es @ fs) = returns es @ returns fs"
  by (induction es rule: returns.induct) simp_all


section \<open>The abstract machine\<close>

datatype once = NotDone | Running thread "u32 list" | Done "u32 list"

definition outcome :: "u32 list \<Rightarrow> isal_error" where
  "outcome rs = (if \<forall>r\<in>set rs. r = 0 then ERR_NONE else ERR_SELF_TEST)"

inductive once_step :: "once \<Rightarrow> event \<Rightarrow> once \<Rightarrow> bool" where
  once_begin: "once_step NotDone (Begin t) (Running t [])"
| once_test: "length rs < 2 \<Longrightarrow> once_step (Running t rs) (Test t r) (Running t (rs @ [r]))"
| once_finish: "length rs = 2 \<or> outcome rs = ERR_SELF_TEST \<Longrightarrow> once_step (Running t rs) (Finish t) (Done rs)"
| once_return: "e = outcome rs \<Longrightarrow> once_step (Done rs) (Return t e) (Done rs)"
| once_tau: "once_step a Tau a"

inductive_cases once_step_elims:
  "once_step a (Begin t) a'" "once_step a (Test t r) a'" "once_step a (Finish t) a'"
  "once_step a (Return t e) a'" "once_step a Tau a'"

text \<open>
  What a trace has to satisfy: the tests are started at most once; all calls that returned give
  one code, that of success exactly when both tests returned 0, and otherwise some test failed.
\<close>

definition once_ok :: "event list \<Rightarrow> bool" where
  "once_ok es \<longleftrightarrow> begins es \<le> 1 \<and>
     (\<forall>e\<in>set (returns es). e = (if results es = [0, 0] then ERR_NONE else ERR_SELF_TEST) \<and>
        (e = ERR_SELF_TEST \<longrightarrow> (\<exists>r\<in>set (results es). r \<noteq> 0)))"

definition once_log :: "once \<Rightarrow> event list \<Rightarrow> bool" where
  "once_log a es = (case a of
     NotDone \<Rightarrow> begins es = 0 \<and> results es = [] \<and> returns es = []
   | Running _ rs \<Rightarrow> begins es = 1 \<and> results es = rs \<and> length rs \<le> 2 \<and> returns es = []
   | Done rs \<Rightarrow> begins es = 1 \<and> results es = rs \<and> length rs \<le> 2 \<and>
       (length rs = 2 \<or> outcome rs = ERR_SELF_TEST) \<and> (\<forall>e\<in>set (returns es). e = outcome rs))"

lemma once_log_step:
  assumes "once_log a es" "once_step a e a'"
  shows "once_log a' (es @ [e])"
  using assms(2,1) by cases (auto simp: once_log_def split: once.splits)

lemma once_trace_log:
  assumes "trace once_step NotDone es a"
  shows "once_log a es"
  using assms
proof induction
  case trace_nil
  show ?case by (simp add: once_log_def)
next
  case (trace_snoc es a e a')
  show ?case by (rule once_log_step[OF trace_snoc.IH trace_snoc.hyps(2)])
qed

lemma outcome_two:
  assumes "length rs \<le> 2" "length rs = 2 \<or> outcome rs = ERR_SELF_TEST"
  shows "outcome rs = (if rs = [0, 0] then ERR_NONE else ERR_SELF_TEST)"
    "outcome rs = ERR_SELF_TEST \<Longrightarrow> \<exists>r\<in>set rs. r \<noteq> 0"
  using assms
  by (auto simp: outcome_def length_Suc_conv numeral_2_eq_2 split: if_splits)

lemma once_log_ok: "once_log a es \<Longrightarrow> once_ok es"
  using outcome_two[of "results es"]
  by (auto simp: once_log_def once_ok_def split: once.splits if_splits)


section \<open>What an implementation shows\<close>

text \<open>
  An implementation of the protocol simulates the abstract machine step by step; its traces
  are then traces of that machine.
\<close>

locale once_impl =
  fixes init :: 's and step :: "'s \<Rightarrow> event \<Rightarrow> 's \<Rightarrow> bool" and sim :: "'s \<Rightarrow> once \<Rightarrow> bool"
  assumes sim_init: "sim init NotDone"
    and sim_step: "sim s a \<Longrightarrow> step s e s' \<Longrightarrow> \<exists>a'. once_step a e a' \<and> sim s' a'"
begin

lemma sim_trace:
  assumes "trace step init es s"
  shows "\<exists>a. trace once_step NotDone es a \<and> sim s a"
  using assms
proof induction
  case trace_nil
  show ?case using sim_init by (blast intro: trace.trace_nil)
next
  case (trace_snoc es s e s')
  then obtain a where a: "trace once_step NotDone es a" "sim s a" by blast
  with sim_step[OF a(2) trace_snoc.hyps(2)] show ?case by (blast intro: trace.trace_snoc)
qed

lemma trace_ok: "trace step init es s \<Longrightarrow> once_ok es"
  using sim_trace once_trace_log once_log_ok by blast

lemma trace_sim: "trace step init es s \<Longrightarrow> \<exists>a. once_log a es \<and> sim s a"
  using sim_trace once_trace_log by blast

end


section \<open>The version over C11 atomics\<close>

abbreviation (input) SELF_TEST_DONE_AND_OK :: u32 where "SELF_TEST_DONE_AND_OK \<equiv> 0"
abbreviation (input) SELF_TEST_DONE_AND_FAIL :: u32 where "SELF_TEST_DONE_AND_FAIL \<equiv> 1"
abbreviation (input) SELF_TEST_NOT_DONE :: u32 where "SELF_TEST_NOT_DONE \<equiv> 2"
abbreviation (input) SELF_TEST_RUNNING :: u32 where "SELF_TEST_RUNNING \<equiv> 3"

datatype generic_pc =
    GOut                  \<comment> \<open>not in \<open>isal_self_tests\<close>\<close>
  | GLoad1 | GLoad2       \<comment> \<open>the two loads at the entry\<close>
  | GCas                  \<comment> \<open>the compare-and-exchange\<close>
  | GAes | GSha           \<comment> \<open>the calls of the tests\<close>
  | GStore u32            \<comment> \<open>the store of the outcome\<close>
  | GWait | GReread       \<comment> \<open>the waiting loop and the load after it\<close>
  | GRet isal_error       \<comment> \<open>about to return\<close>

record generic_state =
  g_status :: u32
  g_pc :: "thread \<Rightarrow> generic_pc"

definition generic_init :: generic_state where
  "generic_init = \<lparr>g_status = SELF_TEST_NOT_DONE, g_pc = (\<lambda>_. GOut)\<rparr>"

definition generic_step :: "build \<Rightarrow> u32 \<Rightarrow> thread \<Rightarrow> generic_state \<Rightarrow> event \<times> generic_state" where
  "generic_step b r t s =
     (let st = g_status s; go = (\<lambda>pc. s\<lparr>g_pc := (g_pc s)(t := pc)\<rparr>)
      in case g_pc s t of
           GOut \<Rightarrow> (Tau, go (if fips_mode b then GLoad1 else GRet ERR_FIPS_DISABLED))
         | GLoad1 \<Rightarrow> (Tau, go (if st = SELF_TEST_DONE_AND_OK then GRet ERR_NONE else GLoad2))
         | GLoad2 \<Rightarrow> (Tau, go (if st = SELF_TEST_DONE_AND_FAIL then GRet ERR_SELF_TEST else GCas))
         | GCas \<Rightarrow>
             (if st = SELF_TEST_NOT_DONE then (Begin t, (go GAes)\<lparr>g_status := SELF_TEST_RUNNING\<rparr>)
              else (Tau, go GWait))
         | GAes \<Rightarrow> (Test t r, go (if r \<noteq> 0 then GStore SELF_TEST_DONE_AND_FAIL else GSha))
         | GSha \<Rightarrow>
             (Test t r, go (GStore (if r \<noteq> 0 then SELF_TEST_DONE_AND_FAIL else SELF_TEST_DONE_AND_OK)))
         | GStore v \<Rightarrow>
             (Finish t, (go (GRet (if v = SELF_TEST_DONE_AND_OK then ERR_NONE else ERR_SELF_TEST)))
                          \<lparr>g_status := v\<rparr>)
         | GWait \<Rightarrow> (Tau, go (if st = SELF_TEST_RUNNING then GWait else GReread))
         | GReread \<Rightarrow>
             (Tau, go (GRet (if st = SELF_TEST_DONE_AND_OK then ERR_NONE else ERR_SELF_TEST)))
         | GRet e \<Rightarrow> (Return t e, go GOut))"

inductive generic_rel :: "build \<Rightarrow> generic_state \<Rightarrow> event \<Rightarrow> generic_state \<Rightarrow> bool" for b where
  generic_relI: "generic_step b r t s = (e, s') \<Longrightarrow> generic_rel b s e s'"

fun runs_tests :: "generic_pc \<Rightarrow> bool" where
  "runs_tests GAes = True"
| "runs_tests GSha = True"
| "runs_tests (GStore _) = True"
| "runs_tests _ = False"

fun generic_pc_ok :: "once \<Rightarrow> thread \<Rightarrow> generic_pc \<Rightarrow> bool" where
  "generic_pc_ok a t GAes = (a = Running t [])"
| "generic_pc_ok a t GSha = (a = Running t [0])"
| "generic_pc_ok a t (GStore v) =
     (\<exists>rs. a = Running t rs \<and> length rs \<le> 2 \<and> (length rs = 2 \<or> outcome rs = ERR_SELF_TEST) \<and>
        v = (if outcome rs = ERR_NONE then SELF_TEST_DONE_AND_OK else SELF_TEST_DONE_AND_FAIL))"
| "generic_pc_ok a t (GRet e) = (\<exists>rs. a = Done rs \<and> e = outcome rs)"
| "generic_pc_ok a t GReread = (\<exists>rs. a = Done rs)"
| "generic_pc_ok a t GWait = (a \<noteq> NotDone)"
| "generic_pc_ok a t _ = True"

fun status_ok :: "once \<Rightarrow> u32 \<Rightarrow> bool" where
  "status_ok NotDone v = (v = SELF_TEST_NOT_DONE)"
| "status_ok (Running _ _) v = (v = SELF_TEST_RUNNING)"
| "status_ok (Done rs) v =
     (v = (if outcome rs = ERR_NONE then SELF_TEST_DONE_AND_OK else SELF_TEST_DONE_AND_FAIL))"

definition generic_sim :: "generic_state \<Rightarrow> once \<Rightarrow> bool" where
  "generic_sim s a \<longleftrightarrow> status_ok a (g_status s) \<and> (\<forall>t. generic_pc_ok a t (g_pc s t)) \<and>
     (\<forall>t rs. a = Running t rs \<longrightarrow> runs_tests (g_pc s t))"

lemma outcome_cases: "outcome rs = ERR_NONE \<or> outcome rs = ERR_SELF_TEST"
  by (simp add: outcome_def)

lemma outcome_not_ok: "outcome rs \<noteq> ERR_NONE \<longleftrightarrow> outcome rs = ERR_SELF_TEST"
  by (simp add: outcome_def)

lemma outcome_Nil [simp]: "outcome [] = ERR_NONE"
  by (simp add: outcome_def)

lemma outcome_append [simp]:
  "outcome (rs @ [r]) = (if r = 0 then outcome rs else ERR_SELF_TEST)"
  by (simp add: outcome_def)

text \<open>A step of one thread that does not touch the status.\<close>

lemma generic_sim_go:
  assumes "generic_sim s a" "generic_pc_ok a t pc" "runs_tests (g_pc s t) \<longrightarrow> runs_tests pc"
  shows "generic_sim (s\<lparr>g_pc := (g_pc s)(t := pc)\<rparr>) a"
  using assms by (auto simp: generic_sim_def)

lemma runs_tests_cases: "runs_tests pc \<longleftrightarrow> pc = GAes \<or> pc = GSha \<or> (\<exists>v. pc = GStore v)"
  by (cases pc) auto

lemma generic_pc_runs: "runs_tests pc \<Longrightarrow> generic_pc_ok a t pc \<Longrightarrow> \<exists>rs. a = Running t rs"
  by (auto simp: runs_tests_cases)

lemma generic_sim_alone:
  assumes "generic_sim s a" "a = NotDone \<or> (\<exists>rs. a = Running t rs)" "u \<noteq> t"
  shows "\<not> runs_tests (g_pc s u)"
proof
  assume "runs_tests (g_pc s u)"
  moreover have "generic_pc_ok a u (g_pc s u)" using assms(1) by (simp add: generic_sim_def)
  ultimately obtain rs where "a = Running u rs" using generic_pc_runs by blast
  then show False using assms(2,3) by auto
qed

text \<open>Only the thread of the abstract machine runs the tests, so its steps leave the others legal.\<close>

lemma generic_sim_runner:
  assumes "generic_sim s a" "a = NotDone \<or> (\<exists>rs. a = Running t rs)" "a' = Running t rs' \<or> a' = Done rs'"
    "status_ok a' v" "generic_pc_ok a' t pc" "\<And>rs. a' = Running t rs \<Longrightarrow> runs_tests pc"
  shows "generic_sim (s\<lparr>g_pc := (g_pc s)(t := pc), g_status := v\<rparr>) a'"
proof -
  have "generic_pc_ok a' u (g_pc s u)" if u: "u \<noteq> t" for u
  proof -
    have "generic_pc_ok a u (g_pc s u)" using assms(1) by (simp add: generic_sim_def)
    then show ?thesis using generic_sim_alone[OF assms(1,2) u] assms(2,3) by (cases "g_pc s u") auto
  qed
  then show ?thesis using assms(3-6) by (auto simp: generic_sim_def)
qed

lemma generic_step_sim:
  assumes "fips_mode b" "generic_sim s a" "generic_step b r t s = (e, s')"
  shows "\<exists>a'. once_step a e a' \<and> generic_sim s' a'"
proof -
  have pc: "generic_pc_ok a t (g_pc s t)" and st: "status_ok a (g_status s)"
    using assms(2) by (simp_all add: generic_sim_def)
  note go = generic_sim_go[OF assms(2), of t]
  note run = generic_sim_runner[OF assms(2), where t = t]
  note step = assms(3)[unfolded generic_step_def Let_def]
  show ?thesis
  proof (cases "g_pc s t")
    case GCas
    show ?thesis
    proof (cases "g_status s = SELF_TEST_NOT_DONE")
      case True
      then have "a = NotDone" using st by (cases a) (auto split: if_splits)
      moreover have "generic_sim s' (Running t [])"
        using step GCas True \<open>a = NotDone\<close> run[where a' = "Running t []" and rs' = "[]" and v = SELF_TEST_RUNNING and pc = GAes] by auto
      ultimately show ?thesis using step GCas True by (auto intro: once_begin)
    next
      case False
      then have "a \<noteq> NotDone" using st by auto
      then show ?thesis using step GCas False go[of GWait] by (auto intro: once_tau)
    qed
  next
    case GAes
    then have a: "a = Running t []" using pc by simp
    have "generic_sim s' (Running t [r])"
      using step GAes a st run[where a' = "Running t [r]" and rs' = "[r]" and v = SELF_TEST_RUNNING]
      by (cases s) (auto simp: outcome_def intro!: exI[of _ "[r]"])
    then show ?thesis using step GAes a once_test[of "[]" t r] by auto
  next
    case GSha
    then have a: "a = Running t [0]" using pc by simp
    have "generic_sim s' (Running t [0, r])"
      using step GSha a st run[where a' = "Running t [0, r]" and rs' = "[0, r]" and v = SELF_TEST_RUNNING]
      by (cases s) (auto simp: outcome_def intro!: exI[of _ "[0, r]"])
    then show ?thesis using step GSha a once_test[of "[0]" t r] by auto
  next
    case (GStore v)
    then obtain rs where a: "a = Running t rs" "length rs \<le> 2" "length rs = 2 \<or> outcome rs = ERR_SELF_TEST"
      "v = (if outcome rs = ERR_NONE then SELF_TEST_DONE_AND_OK else SELF_TEST_DONE_AND_FAIL)"
      using pc by auto
    have "generic_sim s' (Done rs)"
      using step GStore a run[where a' = "Done rs" and rs' = rs and v = v and pc = "GRet (outcome rs)"]
        outcome_cases[of rs] by (auto split: if_splits)
    then show ?thesis using step GStore a once_finish[of rs t] by auto
  next
    case GLoad1
    then show ?thesis using step go st by (cases a) (auto simp: outcome_not_ok intro!: once_tau exI split: if_splits)
  next
    case GLoad2
    then show ?thesis using step go st by (cases a) (auto simp: outcome_not_ok intro!: once_tau exI split: if_splits)
  next
    case GWait
    then show ?thesis using step go st pc by (cases a) (auto simp: outcome_not_ok intro!: once_tau exI split: if_splits)
  next
    case GReread
    then show ?thesis using step go st pc by (cases a) (auto simp: outcome_not_ok intro!: once_tau exI split: if_splits)
  next
    case (GRet e)
    then show ?thesis using step go[of GOut] pc by (auto intro: once_return)
  next
    case GOut
    then show ?thesis using step go[of GLoad1] assms(1) by (auto intro: once_tau)
  qed
qed

interpretation generic: once_impl generic_init "generic_rel \<lparr>fips_mode = True, safe_param = sp\<rparr>" generic_sim for sp
proof
  show "generic_sim generic_init NotDone" by (simp add: generic_init_def generic_sim_def)
  fix s a e s'
  assume "generic_sim s a" "generic_rel \<lparr>fips_mode = True, safe_param = sp\<rparr> s e s'"
  then show "\<exists>a'. once_step a e a' \<and> generic_sim s' a'" by (elim generic_rel.cases) (rule generic_step_sim, auto)
qed


section \<open>The version over the assembly routines\<close>

text \<open>
  \<open>asm_check_self_tests_status\<close> tests bit 1 of the status, claims the tests by a compare-and-
  exchange whose old value stays in \<open>eax\<close>, or spins and reads the status again. The C code
  branches on the value it returns and stores the OR of the results.
\<close>

datatype asm_pc =
    AOut
  | ALoad | ACas          \<comment> \<open>the first load, \<open>lock cmpxchg\<close>\<close>
  | ASpin | AReread       \<comment> \<open>\<open>check_status_loop\<close> and the load after it\<close>
  | AGot u32              \<comment> \<open>the routine returned this value\<close>
  | AAes | ASha u32       \<comment> \<open>the calls of the tests, with \<open>ret\<close> so far\<close>
  | ASet u32              \<comment> \<open>\<open>asm_set_self_tests_status\<close>\<close>
  | ARet isal_error

record asm_state =
  a_status :: u32
  a_pc :: "thread \<Rightarrow> asm_pc"

definition asm_init :: asm_state where
  "asm_init = \<lparr>a_status = SELF_TEST_NOT_DONE, a_pc = (\<lambda>_. AOut)\<rparr>"

definition asm_step :: "build \<Rightarrow> u32 \<Rightarrow> thread \<Rightarrow> asm_state \<Rightarrow> event \<times> asm_state" where
  "asm_step b r t s =
     (let st = a_status s; go = (\<lambda>pc. s\<lparr>a_pc := (a_pc s)(t := pc)\<rparr>)
      in case a_pc s t of
           AOut \<Rightarrow> (Tau, go (if fips_mode b then ALoad else ARet ERR_FIPS_DISABLED))
         | ALoad \<Rightarrow> (Tau, go (if st AND 2 = 0 then AGot st else ACas))
         | ACas \<Rightarrow>
             (if st = SELF_TEST_NOT_DONE
              then (Tau, (go (AGot SELF_TEST_NOT_DONE))\<lparr>a_status := SELF_TEST_RUNNING\<rparr>)
              else (Tau, go ASpin))
         | ASpin \<Rightarrow> (Tau, go (if st = SELF_TEST_RUNNING then ASpin else AReread))
         | AReread \<Rightarrow> (Tau, go (AGot st))
         | AGot ret \<Rightarrow>
             (if ret = 0 then (Tau, go (ARet ERR_NONE))
              else if ret = 1 then (Tau, go (ARet ERR_SELF_TEST))
              else (Begin t, go AAes))
         | AAes \<Rightarrow> (Test t r, go (ASha r))
         | ASha ret \<Rightarrow> (Test t r, go (ASet (ret OR r)))
         | ASet ret \<Rightarrow>
             (Finish t, (go (ARet (if ret = 0 then ERR_NONE else ERR_SELF_TEST)))\<lparr>a_status := ret\<rparr>)
         | ARet e \<Rightarrow> (Return t e, go AOut))"

text \<open>The values that the two tests can return restrict the steps.\<close>

inductive asm_rel :: "build \<Rightarrow> u32 set \<Rightarrow> u32 set \<Rightarrow> asm_state \<Rightarrow> event \<Rightarrow> asm_state \<Rightarrow> bool"
  for b aes sha where
  asm_relI: "asm_step b r t s = (e, s') \<Longrightarrow> (a_pc s t = AAes \<longrightarrow> r \<in> aes) \<Longrightarrow>
     (\<forall>ret. a_pc s t = ASha ret \<longrightarrow> r \<in> sha) \<Longrightarrow> asm_rel b aes sha s e s'"

fun asm_pc_ok :: "once \<Rightarrow> u32 \<Rightarrow> thread \<Rightarrow> asm_pc \<Rightarrow> bool" where
  "asm_pc_ok a v t AAes = (a = Running t [])"
| "asm_pc_ok a v t (ASha ret) = (a = Running t [ret] \<and> ret \<in> {0, 1})"
| "asm_pc_ok a v t (ASet ret) =
     (\<exists>r1 r2. a = Running t [r1, r2] \<and> {r1, r2} \<subseteq> {0, 1} \<and> ret = r1 OR r2)"
| "asm_pc_ok a v t (AGot ret) =
     ((a = NotDone \<and> v = SELF_TEST_RUNNING \<and> ret = SELF_TEST_NOT_DONE) \<or>
      (\<exists>rs. a = Done rs \<and> status_ok a ret))"
| "asm_pc_ok a v t (ARet e) = (\<exists>rs. a = Done rs \<and> e = outcome rs)"
| "asm_pc_ok a v t AReread = (\<exists>rs. a = Done rs)"
| "asm_pc_ok a v t ASpin = (a \<noteq> NotDone \<or> v = SELF_TEST_RUNNING)"
| "asm_pc_ok a v t _ = True"

definition asm_sim :: "asm_state \<Rightarrow> once \<Rightarrow> bool" where
  "asm_sim s a \<longleftrightarrow>
     (status_ok a (a_status s) \<or> a = NotDone \<and> a_status s = SELF_TEST_RUNNING) \<and>
     (\<forall>t. asm_pc_ok a (a_status s) t (a_pc s t)) \<and>
     (\<forall>t u. a_pc s t = AGot SELF_TEST_NOT_DONE \<longrightarrow> a_pc s u = AGot SELF_TEST_NOT_DONE \<longrightarrow> t = u)"

lemma asm_sim_go:
  assumes "asm_sim s a" "asm_pc_ok a (a_status s) t pc" "pc \<noteq> AGot SELF_TEST_NOT_DONE"
  shows "asm_sim (s\<lparr>a_pc := (a_pc s)(t := pc)\<rparr>) a"
  using assms by (auto simp: asm_sim_def)

text \<open>A step that changes the status or the abstract state.\<close>

lemma asm_sim_change:
  assumes "asm_sim s a" "\<And>u. u \<noteq> t \<Longrightarrow> asm_pc_ok a' v u (a_pc s u)"
    "\<And>u. u \<noteq> t \<Longrightarrow> a_pc s u \<noteq> AGot SELF_TEST_NOT_DONE"
    "status_ok a' v \<or> a' = NotDone \<and> v = SELF_TEST_RUNNING" "asm_pc_ok a' v t pc"
  shows "asm_sim (s\<lparr>a_pc := (a_pc s)(t := pc), a_status := v\<rparr>) a'"
  using assms by (auto simp: asm_sim_def)

lemma asm_pc_frame:
  assumes "asm_pc_ok a v u pc" "u \<noteq> t" "pc \<noteq> AGot SELF_TEST_NOT_DONE"
    "a = NotDone \<and> v \<noteq> SELF_TEST_RUNNING \<and> a' = NotDone \<and> v' = SELF_TEST_RUNNING \<or>
     a = NotDone \<and> v = SELF_TEST_RUNNING \<and> a' = Running t [] \<and> v' = SELF_TEST_RUNNING \<or>
     (\<exists>rs rs'. a = Running t rs \<and> (a' = Running t rs' \<or> a' = Done rs'))"
  shows "asm_pc_ok a' v' u pc"
  using assms by (cases pc) auto

lemma asm_step_sim:
  assumes "fips_mode b" "asm_sim s a" "asm_step b r t s = (e, s')"
    "a_pc s t = AAes \<longrightarrow> r \<in> {0, 1}" "\<forall>ret. a_pc s t = ASha ret \<longrightarrow> r \<in> {0, 1}"
  shows "\<exists>a'. once_step a e a' \<and> asm_sim s' a'"
proof -
  have pc: "asm_pc_ok a (a_status s) u (a_pc s u)" for u
    using assms(2) by (simp add: asm_sim_def)
  have st: "status_ok a (a_status s) \<or> a = NotDone \<and> a_status s = SELF_TEST_RUNNING"
    and uniq: "a_pc s t = AGot SELF_TEST_NOT_DONE \<Longrightarrow> u \<noteq> t \<Longrightarrow> a_pc s u \<noteq> AGot SELF_TEST_NOT_DONE" for u
    using assms(2) by (auto simp: asm_sim_def)
  have no_claim: "a_pc s u \<noteq> AGot SELF_TEST_NOT_DONE"
    if "a \<noteq> NotDone \<or> a_status s \<noteq> SELF_TEST_RUNNING" for u
    using pc[of u] that by (cases a) (auto split: if_splits)
  note go = asm_sim_go[OF assms(2), of t]
  note step = assms(3)[unfolded asm_step_def Let_def]
  have change: "asm_sim (s\<lparr>a_pc := (a_pc s)(t := p), a_status := v\<rparr>) a'"
    if "\<And>u. u \<noteq> t \<Longrightarrow> a_pc s u \<noteq> AGot SELF_TEST_NOT_DONE"
      "a = NotDone \<and> a_status s \<noteq> SELF_TEST_RUNNING \<and> a' = NotDone \<and> v = SELF_TEST_RUNNING \<or>
       a = NotDone \<and> a_status s = SELF_TEST_RUNNING \<and> a' = Running t [] \<and> v = SELF_TEST_RUNNING \<or>
       (\<exists>rs rs'. a = Running t rs \<and> (a' = Running t rs' \<or> a' = Done rs'))"
      "status_ok a' v \<or> a' = NotDone \<and> v = SELF_TEST_RUNNING" "asm_pc_ok a' v t p" for p v a'
    by (rule asm_sim_change[OF assms(2) _ that(1) that(3,4)]) (rule asm_pc_frame[OF pc _ that(1) that(2)])
  show ?thesis
  proof (cases "a_pc s t")
    case ACas
    show ?thesis
    proof (cases "a_status s = SELF_TEST_NOT_DONE")
      case True
      then have "a = NotDone" using st by (cases a) (auto split: if_splits)
      then have "asm_sim s' NotDone"
        using step ACas True no_claim
          change[where a' = NotDone and v = SELF_TEST_RUNNING and p = "AGot SELF_TEST_NOT_DONE"] by auto
      then show ?thesis using step ACas True \<open>a = NotDone\<close> by (auto intro: once_tau)
    next
      case False
      then have "asm_pc_ok a (a_status s) t ASpin" using st by auto
      then show ?thesis using step ACas False go[of ASpin] by (auto intro: once_tau)
    qed
  next
    case (AGot ret)
    show ?thesis
    proof (cases "\<exists>rs. a = Done rs")
      case True
      then obtain rs where "a = Done rs" "status_ok a ret" using pc[of t] AGot by auto
      then show ?thesis using step AGot go[of "ARet (outcome rs)"] outcome_cases[of rs]
        by (auto intro!: once_tau exI[of _ a])
    next
      case False
      then have ret: "ret = SELF_TEST_NOT_DONE" "a = NotDone" "a_status s = SELF_TEST_RUNNING"
        using pc[of t] AGot by auto
      then have "asm_sim s' (Running t [])"
        using step AGot uniq change[where a' = "Running t []" and v = SELF_TEST_RUNNING and p = AAes]
        by (cases s) auto
      then show ?thesis using step AGot ret by (auto intro: once_begin)
    qed
  next
    case AAes
    then have a: "a = Running t []" "a_status s = SELF_TEST_RUNNING" "r \<in> {0, 1}"
      using pc[of t] st assms(4) by auto
    have "asm_sim s' (Running t [r])"
      using step AAes a no_claim
        change[where a' = "Running t [r]" and v = SELF_TEST_RUNNING and p = "ASha r"]
      by (cases s) auto
    then show ?thesis using step AAes a once_test[of "[]" t r] by auto
  next
    case (ASha ret)
    then have a: "a = Running t [ret]" "a_status s = SELF_TEST_RUNNING" "r \<in> {0, 1}" "ret \<in> {0, 1}"
      using pc[of t] st assms(5) by auto
    have "asm_sim s' (Running t [ret, r])"
      using step ASha a no_claim
        change[where a' = "Running t [ret, r]" and v = SELF_TEST_RUNNING and p = "ASet (ret OR r)"]
      by (cases s) auto
    then show ?thesis using step ASha a once_test[of "[ret]" t r] by auto
  next
    case (ASet ret)
    then obtain r1 r2 where a: "a = Running t [r1, r2]" "{r1, r2} \<subseteq> {0, 1}" "ret = r1 OR r2"
      using pc[of t] by auto
    then have ret: "ret = (if outcome [r1, r2] = ERR_NONE then 0 else 1)"
      by (auto simp: outcome_def)
    have "asm_sim s' (Done [r1, r2])"
      using step ASet ret a(1) no_claim outcome_cases[of "[r1, r2]"]
        change[where a' = "Done [r1, r2]" and v = ret and p = "ARet (outcome [r1, r2])"]
      by (auto split: if_splits)
    then show ?thesis using step ASet a once_finish[of "[r1, r2]" t] by auto
  next
    case AOut
    then show ?thesis using step go[of ALoad] assms(1) by (auto intro: once_tau)
  next
    case ALoad
    then show ?thesis using step go[of ACas] go[of "AGot (a_status s)"] st
      by (cases a) (auto simp: outcome_not_ok intro!: once_tau exI split: if_splits)
  next
    case ASpin
    then show ?thesis using step go[of ASpin] go[of AReread] st pc[of t]
      by (cases a) (auto simp: outcome_not_ok intro!: once_tau exI split: if_splits)
  next
    case AReread
    then obtain rs where "a = Done rs" using pc[of t] by auto
    then show ?thesis using step AReread go[of "AGot (a_status s)"] st
      by (auto intro: once_tau split: if_splits)
  next
    case (ARet e)
    then show ?thesis using step go[of AOut] pc[of t] by (auto intro: once_return)
  qed
qed

interpretation asm: once_impl asm_init "asm_rel \<lparr>fips_mode = True, safe_param = sp\<rparr> {0, 1} {0, 1}" asm_sim for sp
proof
  show "asm_sim asm_init NotDone" by (simp add: asm_init_def asm_sim_def)
  fix s a e s'
  assume "asm_sim s a" "asm_rel \<lparr>fips_mode = True, safe_param = sp\<rparr> {0, 1} {0, 1} s e s'"
  then show "\<exists>a'. once_step a e a' \<and> asm_sim s' a'" by (elim asm_rel.cases) (rule asm_step_sim, auto)
qed


section \<open>Running a schedule\<close>

text \<open>
  A schedule names the thread of each step and the value its test returns there, should the
  step be the call of a test.
\<close>

fun run_schedule ::
  "(u32 \<Rightarrow> thread \<Rightarrow> 's \<Rightarrow> event \<times> 's) \<Rightarrow> (thread \<times> u32) list \<Rightarrow> 's \<Rightarrow> event list \<times> 's" where
  "run_schedule f [] s = ([], s)"
| "run_schedule f ((t, r) # ts) s =
     (let (e, s) = f r t s; (es, s) = run_schedule f ts s in (e # es, s))"

lemma run_schedule_append:
  "run_schedule f (xs @ ys) s =
     (let (es, s) = run_schedule f xs s; (fs, s) = run_schedule f ys s in (es @ fs, s))"
  by (induction xs arbitrary: s) (auto split: prod.splits)

lemma run_schedule_trace:
  assumes "trace R init es s" "run_schedule f ts s = (fs, s')"
    "\<And>t r s e s'. (t, r) \<in> set ts \<Longrightarrow> f r t s = (e, s') \<Longrightarrow> R s e s'"
  shows "trace R init (es @ fs) s'"
  using assms
proof (induction ts arbitrary: es s fs)
  case Nil
  then show ?case by simp
next
  case (Cons x ts)
  obtain t r where x: "x = (t, r)" by fastforce
  obtain e s1 where e: "f r t s = (e, s1)" by fastforce
  obtain fs1 where fs: "run_schedule f ts s1 = (fs1, s')" "fs = e # fs1"
    using Cons.prems(2) x e by (auto split: prod.splits)
  have "trace R init (es @ [e]) s1"
    using Cons.prems(1) by (rule trace.trace_snoc) (rule Cons.prems(3)[OF _ e], simp add: x)
  then have "trace R init ((es @ [e]) @ fs1) s'"
    by (rule Cons.IH[OF _ fs(1)]) (rule Cons.prems(3), simp_all)
  then show ?case by (simp add: fs(2))
qed

lemma generic_schedule_trace:
  assumes "trace (generic_rel b) generic_init es s"
  shows "trace (generic_rel b) generic_init (es @ fst (run_schedule (generic_step b) ts s))
    (snd (run_schedule (generic_step b) ts s))"
  by (rule run_schedule_trace[OF assms, of "generic_step b" ts]) (auto intro: generic_relI)

lemma asm_schedule_trace:
  assumes "snd ` set ts \<subseteq> aes \<inter> sha"
  shows "trace (asm_rel b aes sha) asm_init (fst (run_schedule (asm_step b) ts asm_init))
    (snd (run_schedule (asm_step b) ts asm_init))"
proof -
  have "trace (asm_rel b aes sha) asm_init ([] @ fst (run_schedule (asm_step b) ts asm_init))
      (snd (run_schedule (asm_step b) ts asm_init))"
    by (rule run_schedule_trace[where f = "asm_step b" and ts = ts and s = asm_init])
      (use assms in \<open>auto intro!: trace_nil asm_relI\<close>)
  then show ?thesis by simp
qed


section \<open>The wait ends\<close>

text \<open>
  While the status is \<open>RUNNING\<close> some thread runs the tests, and three steps of it store the
  outcome, whatever the tests return.
\<close>

lemma runner_steps:
  assumes "runs_tests (g_pc s t)" "g_status s = SELF_TEST_RUNNING"
    "\<And>v. g_pc s t = GStore v \<Longrightarrow> v \<in> {SELF_TEST_DONE_AND_OK, SELF_TEST_DONE_AND_FAIL}"
  shows "g_status (snd (run_schedule (generic_step b) [(t, r1), (t, r2), (t, r3)] s)) \<noteq> SELF_TEST_RUNNING \<and>
    g_status (snd (run_schedule (generic_step b) [(t, r1), (t, r2), (t, r3)] s)) \<noteq> SELF_TEST_NOT_DONE \<and>
    (\<forall>u. u \<noteq> t \<longrightarrow> g_pc (snd (run_schedule (generic_step b) [(t, r1), (t, r2), (t, r3)] s)) u = g_pc s u)"
  using assms(1)
  by (cases "g_pc s t") (use assms(2,3) in \<open>auto simp: generic_step_def Let_def\<close>)

text \<open>Once the status is not \<open>RUNNING\<close>, seven steps of any thread in the call return.\<close>

lemma solo_returns:
  assumes "fips_mode b" "generic_sim s a" "g_status s \<noteq> SELF_TEST_RUNNING"
    "g_pc s u \<noteq> GOut \<or> g_status s \<noteq> SELF_TEST_NOT_DONE" "length rs = 7"
  shows "\<exists>e. Return u e \<in> set (fst (run_schedule (generic_step b) (zip (replicate 7 u) rs) s))"
proof -
  obtain r1 r2 r3 r4 r5 r6 r7 where rs: "rs = [r1, r2, r3, r4, r5, r6, r7]"
    using assms(5) by (auto simp: numeral_eq_Suc length_Suc_conv)
  have "\<not> runs_tests (g_pc s u)"
  proof
    assume "runs_tests (g_pc s u)"
    moreover have "generic_pc_ok a u (g_pc s u)" using assms(2) by (simp add: generic_sim_def)
    ultimately obtain xs where "a = Running u xs" using generic_pc_runs by blast
    then show False using assms(2,3) by (simp add: generic_sim_def)
  qed
  then show ?thesis
    by (cases "g_pc s u") (use assms(1,3,4) in \<open>auto simp: rs numeral_eq_Suc generic_step_def Let_def\<close>)
qed

lemma running_runner:
  assumes "generic_sim s a" "g_status s = SELF_TEST_RUNNING"
  shows "\<exists>t. runs_tests (g_pc s t) \<and>
    (\<forall>v. g_pc s t = GStore v \<longrightarrow> v \<in> {SELF_TEST_DONE_AND_OK, SELF_TEST_DONE_AND_FAIL})"
proof -
  from assms obtain t rs where "a = Running t rs" by (cases a) (auto simp: generic_sim_def split: if_splits)
  moreover have "generic_pc_ok a t (g_pc s t)" using assms(1) by (simp add: generic_sim_def)
  ultimately show ?thesis using assms(1) outcome_not_ok
    by (intro exI[of _ t]) (auto simp: generic_sim_def dest: spec[of _ t] split: if_splits)
qed

lemma every_call_returns:
  assumes "fips_mode b" "trace (generic_rel b) generic_init es s" "g_pc s u \<noteq> GOut"
  shows "\<exists>ts. length ts \<le> 10 \<and> (\<forall>rs. length rs = length ts \<longrightarrow>
    (\<exists>e. Return u e \<in> set (fst (run_schedule (generic_step b) (zip ts rs) s))))"
proof -
  obtain sp where b: "b = \<lparr>fips_mode = True, safe_param = sp\<rparr>" using assms(1) by (cases b) simp
  obtain a where sim: "generic_sim s a" using generic.trace_sim assms(2) unfolding b by blast
  show ?thesis
  proof (cases "g_status s = SELF_TEST_RUNNING")
    case False
    then show ?thesis using solo_returns[OF assms(1) sim _ disjI1[OF assms(3)]]
      by (intro exI[of _ "replicate 7 u"]) simp
  next
    case True
    with running_runner[OF sim] obtain t where t: "runs_tests (g_pc s t)"
      "\<forall>v. g_pc s t = GStore v \<longrightarrow> v \<in> {SELF_TEST_DONE_AND_OK, SELF_TEST_DONE_AND_FAIL}" by blast
    let ?run = "run_schedule (generic_step b)"
    have "\<exists>e. Return u e \<in> set (fst (?run (zip ([t, t, t] @ replicate 7 u) rs) s))"
      if rs: "length rs = 10" for rs
    proof -
      obtain r1 r2 r3 rs' where r: "rs = [r1, r2, r3] @ rs'" "length rs' = 7"
        using rs by (auto simp: numeral_eq_Suc length_Suc_conv)
      let ?s = "snd (?run [(t, r1), (t, r2), (t, r3)] s)"
      obtain a' where "generic_sim ?s a'"
        using generic_schedule_trace[OF assms(2)] generic.trace_sim unfolding b by blast
      moreover have "g_status ?s \<noteq> SELF_TEST_RUNNING \<and> g_status ?s \<noteq> SELF_TEST_NOT_DONE"
        using runner_steps[OF t(1) True] t(2) by blast
      ultimately have "\<exists>e. Return u e \<in> set (fst (?run (zip (replicate 7 u) rs') ?s))"
        using solo_returns[OF assms(1)] r(2) by blast
      moreover have "zip ([t, t, t] @ replicate 7 u) rs = [(t, r1), (t, r2), (t, r3)] @ zip (replicate 7 u) rs'"
        by (simp add: r)
      ultimately show ?thesis
        by (simp only: run_schedule_append) (auto split: prod.splits)
    qed
    then show ?thesis by (intro exI[of _ "[t, t, t] @ replicate 7 u"]) simp
  qed
qed

section \<open>A failure that is not final\<close>

text \<open>
  A run of the version over the assembly routines in which the SHA tests return -1 to the first
  caller: the status becomes -1, which is none of the four codes, and the second caller runs the
  tests again.
\<close>

lemma asm_run_fails:
  assumes "fips_mode b"
  shows "run_schedule (asm_step b) [(0, 0), (0, 0), (0, 0), (0, 0), (0, 0)] asm_init =
     ([Tau, Tau, Tau, Begin 0, Test 0 0],
      \<lparr>a_status = SELF_TEST_RUNNING, a_pc = (\<lambda>_. AOut)(0 := ASha 0)\<rparr>)"
  using assms by (simp add: asm_step_def asm_init_def)

lemma asm_run_again:
  assumes "fips_mode b"
  shows "fst (run_schedule (asm_step b)
       [(0, 0), (0, 0), (1, 0), (1, 0), (1, 0), (1, 0), (1, 0), (1, 0), (1, 0), (1, 0), (1, 0), (1, 0)]
       \<lparr>a_status = SELF_TEST_RUNNING, a_pc = (\<lambda>_. AOut)(0 := ASet (-1))\<rparr>) =
     [Finish 0, Return 0 ERR_SELF_TEST, Tau, Tau, Tau, Tau, Tau, Begin 1, Test 1 0, Test 1 0, Finish 1,
      Return 1 ERR_NONE]"
  using assms by (simp add: asm_step_def)

lemma asm_rerun:
  assumes "fips_mode b"
  shows "\<exists>es s. trace (asm_rel b {0, 1} {0, -1}) asm_init es s \<and> begins es = 2 \<and>
    returns es = [ERR_SELF_TEST, ERR_NONE]"
proof -
  let ?R = "asm_rel b {0, 1} {0, -1}" and ?ret = "\<lambda>pc. \<lparr>a_status = SELF_TEST_RUNNING, a_pc = (\<lambda>_. AOut)(0 := pc)\<rparr>"
  have zero: "?R s e s'" if "asm_step b 0 t s = (e, s')" for t s e s'
    using that by (auto intro: asm_relI)
  have "trace ?R asm_init ([] @ [Tau, Tau, Tau, Begin 0, Test 0 0]) (?ret (ASha 0))"
    by (rule run_schedule_trace[OF trace_nil asm_run_fails[OF assms]]) (auto intro: zero)
  moreover have "?R (?ret (ASha 0)) (Test 0 (-1)) (?ret (ASet (-1)))"
    by (rule asm_relI[where r = "-1" and t = 0]) (simp_all add: asm_step_def)
  ultimately have t1: "trace ?R asm_init (([] @ [Tau, Tau, Tau, Begin 0, Test 0 0]) @ [Test 0 (-1)]) (?ret (ASet (-1)))"
    by (rule trace_snoc)
  let ?ts = "[(0, 0), (0, 0), (1, 0), (1, 0), (1, 0), (1, 0), (1, 0), (1, 0), (1, 0), (1, 0), (1, 0), (1, 0)] :: (thread \<times> u32) list"
  obtain s where "run_schedule (asm_step b) ?ts (?ret (ASet (-1))) = ([Finish 0, Return 0 ERR_SELF_TEST, Tau, Tau, Tau,
      Tau, Tau, Begin 1, Test 1 0, Test 1 0, Finish 1, Return 1 ERR_NONE], s)"
    using asm_run_again[OF assms] by (metis prod.collapse)
  from run_schedule_trace[OF t1 this] zero
  show ?thesis by (intro exI conjI) (blast | simp)+
qed

end
