(* ===== verification/HashApi.thy ===== *)
theory HashApi
  imports Scheduler Build
begin

text \<open>
  The checked entry points \<open>isal_<alg>_ctx_mgr_init\<close>, \<open>_submit\<close> and \<open>_flush\<close> of the five hashes
  (\<open><alg>_mb/<alg>_mb.c\<close>), which differ only in the manager behind them and, for MD5 and SM3, in
  refusing every call of a FIPS build. The manager is an argument: an initial state and two
  operations that may not return. A pointer to a manager or a context is an option; the pointer
  \<open>ctx_out\<close> is an option of the context pointer it holds.
\<close>

type_synonym ('s, 'w, 'l) mgr_submit_fun =
  "'s \<Rightarrow> ('w, 'l) store \<Rightarrow> nat \<Rightarrow> byte list \<Rightarrow> u32 \<Rightarrow> u32 \<Rightarrow> ('s \<times> ('w, 'l) store \<times> nat option) option"

type_synonym ('s, 'w, 'l) mgr_flush_fun =
  "'s \<Rightarrow> ('w, 'l) store \<Rightarrow> ('s \<times> ('w, 'l) store \<times> nat option) option"

text \<open>Algorithms that a FIPS build refuses.\<close>

definition fips_gate :: "build \<Rightarrow> bool \<Rightarrow> 'a \<Rightarrow> (isal_error \<times> 'a) option \<Rightarrow> (isal_error \<times> 'a) option" where
  "fips_gate b approved same r =
     (if fips_mode b \<and> \<not> approved then Some (ERR_FIPS_INVALID_ALGO, same) else r)"

definition hash_mgr_init :: "build \<Rightarrow> bool \<Rightarrow> isal_error \<Rightarrow> 's \<Rightarrow> 's option \<Rightarrow> (isal_error \<times> 's option) option"
where
  "hash_mgr_init b approved tests init mgr =
     fips_gate b approved mgr
       (checked b [(mgr = None, ERR_NULL_MGR)] (Some []) tests mgr
          (do { _ \<leftarrow> mgr; Some (Some init) }))"

text \<open>The code returned for the error of the context that came back.\<close>

fun ctx_error_code :: "hash_ctx_error \<Rightarrow> isal_error" where
  "ctx_error_code ERROR_INVALID_FLAGS = ERR_INVALID_FLAGS"
| "ctx_error_code ERROR_ALREADY_PROCESSING = ERR_ALREADY_PROCESSING"
| "ctx_error_code ERROR_ALREADY_COMPLETED = ERR_ALREADY_COMPLETED"
| "ctx_error_code _ = ERR_NONE"

definition hash_mgr_submit ::
  "build \<Rightarrow> bool \<Rightarrow> isal_error \<Rightarrow> ('s, 'w::len, 'l::len) mgr_submit_fun \<Rightarrow>
   's option \<Rightarrow> ('w, 'l) store \<Rightarrow> nat option \<Rightarrow> nat option option \<Rightarrow> byte list option \<Rightarrow> u32 \<Rightarrow> u32 \<Rightarrow>
   (isal_error \<times> 's option \<times> ('w, 'l) store \<times> nat option option) option" where
  "hash_mgr_submit b approved tests submit mgr st ctx_in ctx_out buffer len flags =
     fips_gate b approved (mgr, st, ctx_out)
       (do {
          (e, mgr, st, ctx_out) \<leftarrow>
            checked b
              [(mgr = None, ERR_NULL_MGR),
               (ctx_in = None \<or> ctx_out = None, ERR_NULL_CTX),
               (buffer = None \<and> (flags = ISAL_HASH_UPDATE \<or> flags = ISAL_HASH_ENTIRE), ERR_NULL_SRC),
               (len \<noteq> 0 \<and> buffer = None, ERR_NULL_SRC)]
              (Some []) tests (mgr, st, ctx_out)
              (do {
                 m \<leftarrow> mgr; c \<leftarrow> ctx_in; _ \<leftarrow> ctx_out;
                 buf \<leftarrow> (if len = 0 \<and> buffer = None then Some [] else buffer);
                 (m, st, r) \<leftarrow> submit m st c buf len flags;
                 Some (Some m, st, Some r)
               });
          let code = (if e = ERR_NONE \<and> safe_param b
                      then case ctx_out of
                             Some (Some c) \<Rightarrow> ctx_error_code (error (st c))
                           | _ \<Rightarrow> ERR_NONE
                      else e);
          Some (code, mgr, st, ctx_out)
        })"

definition hash_mgr_flush ::
  "build \<Rightarrow> bool \<Rightarrow> isal_error \<Rightarrow> ('s, 'w::len, 'l::len) mgr_flush_fun \<Rightarrow>
   's option \<Rightarrow> ('w, 'l) store \<Rightarrow> nat option option \<Rightarrow>
   (isal_error \<times> 's option \<times> ('w, 'l) store \<times> nat option option) option" where
  "hash_mgr_flush b approved tests flush mgr st ctx_out =
     fips_gate b approved (mgr, st, ctx_out)
       (checked b [(mgr = None, ERR_NULL_MGR), (ctx_out = None, ERR_NULL_CTX)]
          (Some []) tests (mgr, st, ctx_out)
          (do {
             m \<leftarrow> mgr; _ \<leftarrow> ctx_out;
             (m, st, r) \<leftarrow> flush m st;
             Some (Some m, st, Some r)
           }))"

section \<open>The five hashes\<close>

type_synonym ('s, 'w, 'l) api_submit_fun =
  "'s option \<Rightarrow> ('w, 'l) store \<Rightarrow> nat option \<Rightarrow> nat option option \<Rightarrow> byte list option \<Rightarrow> u32 \<Rightarrow> u32 \<Rightarrow>
   (isal_error \<times> 's option \<times> ('w, 'l) store \<times> nat option option) option"

type_synonym ('s, 'w, 'l) api_flush_fun =
  "'s option \<Rightarrow> ('w, 'l) store \<Rightarrow> nat option option \<Rightarrow>
   (isal_error \<times> 's option \<times> ('w, 'l) store \<times> nat option option) option"

definition isal_sha1_ctx_mgr_init :: "build \<Rightarrow> isal_error \<Rightarrow> 's \<Rightarrow> 's option \<Rightarrow> (isal_error \<times> 's option) option" where
  "isal_sha1_ctx_mgr_init b tests = hash_mgr_init b True tests"

definition isal_sha1_ctx_mgr_submit ::
  "build \<Rightarrow> isal_error \<Rightarrow> ('s, 32, 'l::len) mgr_submit_fun \<Rightarrow> ('s, 32, 'l) api_submit_fun" where
  "isal_sha1_ctx_mgr_submit b tests = hash_mgr_submit b True tests"

definition isal_sha1_ctx_mgr_flush ::
  "build \<Rightarrow> isal_error \<Rightarrow> ('s, 32, 'l::len) mgr_flush_fun \<Rightarrow> ('s, 32, 'l) api_flush_fun" where
  "isal_sha1_ctx_mgr_flush b tests = hash_mgr_flush b True tests"

definition isal_sha256_ctx_mgr_init :: "build \<Rightarrow> isal_error \<Rightarrow> 's \<Rightarrow> 's option \<Rightarrow> (isal_error \<times> 's option) option" where
  "isal_sha256_ctx_mgr_init b tests = hash_mgr_init b True tests"

definition isal_sha256_ctx_mgr_submit ::
  "build \<Rightarrow> isal_error \<Rightarrow> ('s, 32, 'l::len) mgr_submit_fun \<Rightarrow> ('s, 32, 'l) api_submit_fun" where
  "isal_sha256_ctx_mgr_submit b tests = hash_mgr_submit b True tests"

definition isal_sha256_ctx_mgr_flush ::
  "build \<Rightarrow> isal_error \<Rightarrow> ('s, 32, 'l::len) mgr_flush_fun \<Rightarrow> ('s, 32, 'l) api_flush_fun" where
  "isal_sha256_ctx_mgr_flush b tests = hash_mgr_flush b True tests"

definition isal_sha512_ctx_mgr_init :: "build \<Rightarrow> isal_error \<Rightarrow> 's \<Rightarrow> 's option \<Rightarrow> (isal_error \<times> 's option) option" where
  "isal_sha512_ctx_mgr_init b tests = hash_mgr_init b True tests"

definition isal_sha512_ctx_mgr_submit ::
  "build \<Rightarrow> isal_error \<Rightarrow> ('s, 64, 'l::len) mgr_submit_fun \<Rightarrow> ('s, 64, 'l) api_submit_fun" where
  "isal_sha512_ctx_mgr_submit b tests = hash_mgr_submit b True tests"

definition isal_sha512_ctx_mgr_flush ::
  "build \<Rightarrow> isal_error \<Rightarrow> ('s, 64, 'l::len) mgr_flush_fun \<Rightarrow> ('s, 64, 'l) api_flush_fun" where
  "isal_sha512_ctx_mgr_flush b tests = hash_mgr_flush b True tests"

definition isal_md5_ctx_mgr_init :: "build \<Rightarrow> isal_error \<Rightarrow> 's \<Rightarrow> 's option \<Rightarrow> (isal_error \<times> 's option) option" where
  "isal_md5_ctx_mgr_init b tests = hash_mgr_init b False tests"

definition isal_md5_ctx_mgr_submit ::
  "build \<Rightarrow> isal_error \<Rightarrow> ('s, 32, 'l::len) mgr_submit_fun \<Rightarrow> ('s, 32, 'l) api_submit_fun" where
  "isal_md5_ctx_mgr_submit b tests = hash_mgr_submit b False tests"

definition isal_md5_ctx_mgr_flush ::
  "build \<Rightarrow> isal_error \<Rightarrow> ('s, 32, 'l::len) mgr_flush_fun \<Rightarrow> ('s, 32, 'l) api_flush_fun" where
  "isal_md5_ctx_mgr_flush b tests = hash_mgr_flush b False tests"

definition isal_sm3_ctx_mgr_init :: "build \<Rightarrow> isal_error \<Rightarrow> 's \<Rightarrow> 's option \<Rightarrow> (isal_error \<times> 's option) option" where
  "isal_sm3_ctx_mgr_init b tests = hash_mgr_init b False tests"

definition isal_sm3_ctx_mgr_submit ::
  "build \<Rightarrow> isal_error \<Rightarrow> ('s, 32, 'l::len) mgr_submit_fun \<Rightarrow> ('s, 32, 'l) api_submit_fun" where
  "isal_sm3_ctx_mgr_submit b tests = hash_mgr_submit b False tests"

definition isal_sm3_ctx_mgr_flush ::
  "build \<Rightarrow> isal_error \<Rightarrow> ('s, 32, 'l::len) mgr_flush_fun \<Rightarrow> ('s, 32, 'l) api_flush_fun" where
  "isal_sm3_ctx_mgr_flush b tests = hash_mgr_flush b False tests"

section \<open>What the checks let through\<close>

text \<open>Whether the parameters of \<open>submit\<close> pass, as one condition.\<close>

definition submit_params_ok ::
  "'s option \<Rightarrow> nat option \<Rightarrow> nat option option \<Rightarrow> byte list option \<Rightarrow> u32 \<Rightarrow> u32 \<Rightarrow> bool" where
  "submit_params_ok mgr ctx_in ctx_out buffer len flags \<longleftrightarrow>
     mgr \<noteq> None \<and> ctx_in \<noteq> None \<and> ctx_out \<noteq> None \<and>
     (buffer = None \<longrightarrow> len = 0 \<and> flags \<noteq> ISAL_HASH_UPDATE \<and> flags \<noteq> ISAL_HASH_ENTIRE)"

text \<open>
  With \<open>SAFE_PARAM\<close>, a manager that returns is only ever called on proper pointers, and only in
  a build whose self tests passed; otherwise nothing changes and an error is returned.
\<close>

lemma hash_mgr_submit_safe:
  assumes "safe_param b" "\<And>m c buf. submit m st c buf len flags \<noteq> None"
  shows "\<exists>code mgr' st' ctx_out'.
    hash_mgr_submit b approved tests submit mgr st ctx_in ctx_out buffer len flags = Some (code, mgr', st', ctx_out') \<and>
    (if submit_params_ok mgr ctx_in ctx_out buffer len flags \<and> (fips_mode b \<longrightarrow> approved \<and> tests = ERR_NONE)
     then (\<exists>m' r. mgr' = Some m' \<and> ctx_out' = Some r \<and>
       submit (the mgr) st (the ctx_in) (case buffer of None \<Rightarrow> [] | Some xs \<Rightarrow> xs) len flags = Some (m', st', r) \<and>
       code = (case r of None \<Rightarrow> ERR_NONE | Some d \<Rightarrow> ctx_error_code (error (st' d))))
     else code \<noteq> ERR_NONE \<and> mgr' = mgr \<and> st' = st \<and> ctx_out' = ctx_out)"
proof (cases "fips_mode b \<and> \<not> approved")
  case True
  then show ?thesis by (simp add: hash_mgr_submit_def fips_gate_def)
next
  case False
  let ?ps = "[(mgr = None, ERR_NULL_MGR), (ctx_in = None \<or> ctx_out = None, ERR_NULL_CTX),
     (buffer = None \<and> (flags = ISAL_HASH_UPDATE \<or> flags = ISAL_HASH_ENTIRE), ERR_NULL_SRC),
     (len \<noteq> 0 \<and> buffer = None, ERR_NULL_SRC)]"
  let ?call = "do {
       m \<leftarrow> mgr; c \<leftarrow> ctx_in; _ \<leftarrow> ctx_out;
       buf \<leftarrow> (if len = 0 \<and> buffer = None then Some [] else buffer);
       (m, st, r) \<leftarrow> submit m st c buf len flags;
       Some (Some m, st, Some r)}"
  have ps: "first_error ?ps = None \<longleftrightarrow> submit_params_ok mgr ctx_in ctx_out buffer len flags"
    by (auto simp: first_error_None submit_params_ok_def)
  have call: "?call = (case submit (the mgr) st (the ctx_in) (case buffer of None \<Rightarrow> [] | Some xs \<Rightarrow> xs) len flags of
      None \<Rightarrow> None | Some (m, st, r) \<Rightarrow> Some (Some m, st, Some r))"
    if "submit_params_ok mgr ctx_in ctx_out buffer len flags"
    using that by (cases mgr; cases ctx_in; cases ctx_out; cases buffer)
      (auto simp: submit_params_ok_def split: bind_splits option.splits)
  obtain m' st' r where sub:
    "submit (the mgr) st (the ctx_in) (case buffer of None \<Rightarrow> [] | Some xs \<Rightarrow> xs) len flags = Some (m', st', r)"
    using assms(2) by (metis option.exhaust prod_cases3)
  have called: "?call = Some (Some m', st', Some r)" if "submit_params_ok mgr ctx_in ctx_out buffer len flags"
    using call[OF that] sub by simp
  have "\<exists>e x. checked b ?ps (Some []) tests (mgr, st, ctx_out) ?call = Some (e, x) \<and>
      (e \<noteq> ERR_NONE \<longrightarrow> x = (mgr, st, ctx_out)) \<and>
      (e = ERR_NONE \<longleftrightarrow> first_error ?ps = None \<and> (fips_mode b \<longrightarrow> first_error (the (Some [])) = None \<and> tests = ERR_NONE)) \<and>
      (e = ERR_NONE \<longrightarrow> ?call = Some x)"
  proof (rule checked_safe[OF assms(1)])
    assume "first_error ?ps = None"
    then have "?call = Some (Some m', st', Some r)"
      using called ps by (simp only:)
    then show "(\<exists>ts. Some [] = Some ts \<and> (\<forall>t\<in>set ts. snd t \<noteq> ERR_NONE)) \<and> ?call \<noteq> None"
      by (simp only: option.inject option.distinct not_False_eq_True) simp
  qed simp
  then obtain e x where ch: "checked b ?ps (Some []) tests (mgr, st, ctx_out) ?call = Some (e, x)"
    "e \<noteq> ERR_NONE \<Longrightarrow> x = (mgr, st, ctx_out)"
    "e = ERR_NONE \<longleftrightarrow> submit_params_ok mgr ctx_in ctx_out buffer len flags \<and> (fips_mode b \<longrightarrow> tests = ERR_NONE)"
    "e = ERR_NONE \<Longrightarrow> ?call = Some x"
    unfolding ps by auto
  show ?thesis
  proof (cases "e = ERR_NONE")
    case True
    then have "x = (Some m', st', Some r)" using ch(3,4) called by (metis option.inject)
    then show ?thesis
      using False True ch(1,3) sub assms(1)
      by (auto simp: hash_mgr_submit_def fips_gate_def split: option.splits)
  next
    case noerr: False
    then show ?thesis
      using False ch(1,2,3)
      by (auto simp: hash_mgr_submit_def fips_gate_def)
  qed
qed

section \<open>The code over a scheduler\<close>

text \<open>
  Over a manager that has gone through any history of calls, with proper pointers: a refused
  request returns the code of the refusal and the context it named; an accepted one returns the
  code of success unless the manager hands back another context, whose error field may still
  hold the refusal of a call made while that context was in flight.
\<close>

context job_scheduler begin

lemma api_submit:
  assumes "clr \<le> 1" "sinv s0 st0" "inflight s0 = {}" "fresh A st0"
    and "history A clr mb_submit mb_flush max_blocks s0 st0 fin msg s st"
    and "unat len \<le> length buf" "unat len div block_size A < max_blocks"
    and "safe_param b" "fips_mode b \<longrightarrow> approved \<and> tests = ERR_NONE"
  shows "\<exists>code s' st' r.
    hash_mgr_submit b approved tests (ctx_mgr_submit A clr mb_submit) (Some s) st (Some c) (Some out) (Some buf) len flags
      = Some (code, Some s', st', Some r) \<and>
    (if accepted (st c) flags
     then code = (case r of None \<Rightarrow> ERR_NONE | Some d \<Rightarrow> if d = c then ERR_NONE else ctx_error_code (error (st d))) \<and>
       set_option r \<subseteq> insert c (inflight s)
     else code = ctx_error_code (refusal (st c) flags) \<and> code \<noteq> ERR_NONE \<and> r = Some c \<and> s' = s)"
proof -
  let ?sub = "ctx_mgr_submit A clr mb_submit"
  have world: "ok fin msg s st" "\<And>c. c \<notin> inflight s \<Longrightarrow> at_rest A (fin c) (msg c) (st c)"
    using history_ok[OF assms(1-5)] by (simp_all add: world_ok_def)
  have run: "hash_mgr_submit b approved tests ?sub (Some s) st (Some c) (Some out) (Some buf) len flags
      = Some (case r of None \<Rightarrow> ERR_NONE | Some d \<Rightarrow> ctx_error_code (error (st' d)), Some s', st', Some r)"
    if "?sub s st c buf len flags = Some (s', st', r)" for s' st' r
    using that assms(8,9)
    by (auto simp: hash_mgr_submit_def fips_gate_def checked_def split: option.splits)
  show ?thesis
  proof (cases "accepted (st c) flags")
    case False
    then have "?sub s st c buf len flags =
        Some (s, st(c := (st c)\<lparr>error := refusal (st c) flags\<rparr>), Some c)"
      by (rule ctx_mgr_submit_refused)
    moreover have "ctx_error_code (refusal (st c) flags) \<noteq> ERR_NONE"
      by (simp add: refusal_def)
    ultimately show ?thesis using False run by simp
  next
    case True
    have c: "c \<notin> inflight s"
    proof
      assume "c \<in> inflight s"
      then have "stg (fin c) (msg c) (job_result A st (work s c) c) (st c)"
        using world(1) by (simp add: mgr_ok_def)
      from stage_processing[OF this] accepted_not_processing[OF True] show False by simp
    qed
    obtain s' st' r where sub: "?sub s st c buf len flags = Some (s', st', r)"
      and post: "mgr_post A inflight (fin(c := next_fin flags)) (msg(c := next_msg (msg c) buf len flags))
        (insert c (inflight s)) (st(c := (st c)\<lparr>error := ERROR_NONE\<rparr>)) s' st' r"
      using submit_ok[OF assms(1) world(1) c world(2)[OF c] True assms(6,7)] by blast
    have "error (st' d) = (if d = c then ERROR_NONE else error (st d))" for d
      using post by (simp add: mgr_post_def)
    moreover have "set_option r \<subseteq> insert c (inflight s)" using post by (auto simp: mgr_post_def)
    ultimately show ?thesis using True run[OF sub] by (auto split: option.splits)
  qed
qed

end

end
