(* ===== verification/CtxContract.thy ===== *)
theory CtxContract
  imports ReadyScheduler HashApi
begin

text \<open>
  What the caller of a context manager may rely on, whichever manager it is: the calls it can
  make, with the contexts it has given away as the only state it sees, and the laws every call
  keeps. The managers over a scheduler keep them, and so do the portable ones, which have no
  scheduler behind them.
\<close>

section \<open>Calls\<close>

text \<open>
  Every history of calls of two operations, with the message of every context, whether its last
  request carried \<open>LAST\<close>, and the contexts that are out: submitted and not yet handed back.
\<close>

inductive calls ::
  "'w::len hash_alg \<Rightarrow> ('s, 'w, 'l::len) mgr_submit_fun \<Rightarrow> ('s, 'w, 'l) mgr_flush_fun \<Rightarrow>
   nat \<Rightarrow> 's \<Rightarrow> ('w, 'l) store \<Rightarrow>
   (nat \<Rightarrow> bool) \<Rightarrow> (nat \<Rightarrow> byte list) \<Rightarrow> nat set \<Rightarrow> 's \<Rightarrow> ('w, 'l) store \<Rightarrow> bool"
  for A submit flush mx s0 st0
where
  start: "calls A submit flush mx s0 st0 (\<lambda>_. False) (\<lambda>_. []) {} s0 st0"
| submit: "calls A submit flush mx s0 st0 fin msg out s st \<Longrightarrow>
    unat len \<le> length buffer \<Longrightarrow> unat len div block_size A < mx \<Longrightarrow> accepted (st c) flags \<Longrightarrow>
    submit s st c buffer len flags = Some (s', st', r) \<Longrightarrow>
    calls A submit flush mx s0 st0 (fin(c := next_fin flags))
      (msg(c := next_msg (msg c) buffer len flags)) (insert c out - set_option r) s' st'"
| refuse: "calls A submit flush mx s0 st0 fin msg out s st \<Longrightarrow> \<not> accepted (st c) flags \<Longrightarrow>
    submit s st c buffer len flags = Some (s', st', r) \<Longrightarrow>
    calls A submit flush mx s0 st0 fin msg out s' st'"
| flush: "calls A submit flush mx s0 st0 fin msg out s st \<Longrightarrow>
    flush s st = Some (s', st', r) \<Longrightarrow>
    calls A submit flush mx s0 st0 fin msg (out - set_option r) s' st'"

section \<open>The contract\<close>

locale context_manager =
  fixes A :: "'w::len hash_alg"
    and submit :: "('s, 'w, 'l::len) mgr_submit_fun" and flush :: "('s, 'w, 'l) mgr_flush_fun"
    and mx :: nat and init :: 's
    and good :: "(nat \<Rightarrow> bool) \<Rightarrow> (nat \<Rightarrow> byte list) \<Rightarrow> nat set \<Rightarrow> 's \<Rightarrow> ('w, 'l) store \<Rightarrow> bool"
  assumes good_init: "fresh A st \<Longrightarrow> good (\<lambda>_. False) (\<lambda>_. []) {} init st"
    and good_submit: "good fin msg out s st \<Longrightarrow> unat len \<le> length buffer \<Longrightarrow>
      unat len div block_size A < mx \<Longrightarrow> accepted (st c) flags \<Longrightarrow>
      \<exists>s' st' r. submit s st c buffer len flags = Some (s', st', r) \<and>
        good (fin(c := next_fin flags)) (msg(c := next_msg (msg c) buffer len flags))
          (insert c out - set_option r) s' st' \<and> set_option r \<subseteq> insert c out"
    and good_refuse: "good fin msg out s st \<Longrightarrow> \<not> accepted (st c) flags \<Longrightarrow>
      \<exists>s' st' r. submit s st c buffer len flags = Some (s', st', r) \<and> good fin msg out s' st'"
    and good_flush: "good fin msg out s st \<Longrightarrow>
      \<exists>s' st' r. flush s st = Some (s', st', r) \<and> good fin msg (out - set_option r) s' st' \<and>
        set_option r \<subseteq> out \<and> (r = None \<longleftrightarrow> out = {})"
    and good_done: "good fin msg out s st \<Longrightarrow> c \<notin> out \<Longrightarrow> fin c \<Longrightarrow>
      status (st c) = STS_COMPLETE \<and> digest (st c) = md_hash A (msg c)"
begin

lemma calls_good:
  assumes "fresh A st0" "calls A submit flush mx init st0 fin msg out s st"
  shows "good fin msg out s st"
  using assms(2)
proof induction
  case start
  show ?case by (rule good_init[OF assms(1)])
next
  case (submit fin msg out s st len buffer c flags s' st' r)
  from good_submit[OF submit.IH submit.hyps(2-4)] submit.hyps(5) show ?case by (auto simp del: fun_upd_apply)
next
  case (refuse fin msg out s st c flags buffer len s' st' r)
  from good_refuse[OF refuse.IH refuse.hyps(2), of buffer len] refuse.hyps(3) show ?case by auto
next
  case (flush fin msg out s st s' st' r)
  from good_flush[OF flush.IH] flush.hyps(2) show ?case by auto
qed

text \<open>Every call returns, and what is handed back after \<open>LAST\<close> is the hash.\<close>

lemma calls_ok:
  assumes "fresh A st0" "calls A submit flush mx init st0 fin msg out s st"
  shows "c \<notin> out \<Longrightarrow> fin c \<Longrightarrow> status (st c) = STS_COMPLETE \<and> digest (st c) = md_hash A (msg c)"
    and "unat len \<le> length buffer \<Longrightarrow> unat len div block_size A < mx \<Longrightarrow>
      submit s st c buffer len flags \<noteq> None"
    and "\<exists>s' st' r. flush s st = Some (s', st', r) \<and> (r = None \<longleftrightarrow> out = {})"
proof -
  note g = calls_good[OF assms]
  show "c \<notin> out \<Longrightarrow> fin c \<Longrightarrow> status (st c) = STS_COMPLETE \<and> digest (st c) = md_hash A (msg c)"
    by (rule good_done[OF g])
  show "submit s st c buffer len flags \<noteq> None"
    if "unat len \<le> length buffer" "unat len div block_size A < mx"
  proof (cases "accepted (st c) flags")
    case True
    from good_submit[OF g that True] show ?thesis by auto
  next
    case False
    from good_refuse[OF g False, of buffer len] show ?thesis by auto
  qed
  show "\<exists>s' st' r. flush s st = Some (s', st', r) \<and> (r = None \<longleftrightarrow> out = {})"
    using good_flush[OF g] by blast
qed

text \<open>A message given with \<open>ENTIRE\<close>: such a history exists.\<close>

lemma calls_entire:
  fixes len :: u32
  assumes "fresh A st0" "unat len \<le> length buffer" "unat len div block_size A < mx"
  shows "\<exists>s st. calls A submit flush mx init st0 ((\<lambda>_. False)(c := True))
      ((\<lambda>_. [])(c := take (unat len) buffer)) {} s st"
proof -
  let ?calls = "calls A submit flush mx init st0 ((\<lambda>_. False)(c := True)) ((\<lambda>_. [])(c := take (unat len) buffer))"
  have acc: "accepted (st0 c) ISAL_HASH_ENTIRE" using assms(1) by (simp add: accepted_def fresh_def)
  obtain s st r where r: "submit init st0 c buffer len ISAL_HASH_ENTIRE = Some (s, st, r)"
    using good_submit[OF good_init[OF assms(1)] assms(2,3) acc] by blast
  have h: "?calls ({c} - set_option r) s st"
    using calls.submit[OF calls.start[of A submit flush mx init st0] assms(2,3) acc r]
    by (simp add: next_fin_def next_msg_def)
  from good_flush[OF calls_good[OF assms(1) h]] obtain s2 st2 r2 where f:
    "flush s st = Some (s2, st2, r2)" "set_option r2 \<subseteq> {c} - set_option r"
    "r2 = None \<longleftrightarrow> {c} - set_option r = {}" by blast
  then have "{c} - set_option r - set_option r2 = {}" by (cases r2) auto
  with calls.flush[OF h f(1)] have "?calls {} s2 st2" by (simp only:)
  then show ?thesis by blast
qed

end

section \<open>The managers over a scheduler\<close>

context ready_scheduler
begin

lemma is_context_manager:
  assumes "clr \<le> 1"
  shows "context_manager A (ctx_mgr_submit A clr mb_submit) (ctx_mgr_flush A clr mb_submit mb_flush)
    max_blocks init (\<lambda>fin msg out s st. (\<exists>st0. fresh A st0 \<and> reach clr st0 fin msg s st) \<and> out = inflight s)"
proof
  show "(\<exists>st0. fresh A st0 \<and> reach clr st0 (\<lambda>_. False) (\<lambda>_. []) init st) \<and> {} = inflight init"
    if "fresh A st" for st
    using that by (auto intro!: exI[of _ st] history.start simp: init_idle)
next
  fix fin msg out s st c buffer flags and len :: u32
  assume "(\<exists>st0. fresh A st0 \<and> reach clr st0 fin msg s st) \<and> out = inflight s"
  then obtain st0 where h: "fresh A st0" "reach clr st0 fin msg s st" and out: "out = inflight s" by blast
  show "\<exists>s' st' r. ctx_mgr_submit A clr mb_submit s st c buffer len flags = Some (s', st', r) \<and>
      ((\<exists>st0. fresh A st0 \<and> reach clr st0 (fin(c := next_fin flags))
        (msg(c := next_msg (msg c) buffer len flags)) s' st') \<and> insert c out - set_option r = inflight s') \<and>
      set_option r \<subseteq> insert c out"
    if "unat len \<le> length buffer" "unat len div block_size A < max_blocks" "accepted (st c) flags"
    using reach_submit[OF assms h that(3,1,2)] h(1) unfolding out by metis
  show "\<exists>s' st' r. ctx_mgr_submit A clr mb_submit s st c buffer len flags = Some (s', st', r) \<and>
      ((\<exists>st0. fresh A st0 \<and> reach clr st0 fin msg s' st') \<and> out = inflight s')"
    if "\<not> accepted (st c) flags"
    using history.refuse[OF h(2) that] ctx_mgr_submit_refused[of st c flags A clr mb_submit s buffer len, OF that] h(1) out
    by blast
next
  fix fin msg out s st
  assume "(\<exists>st0. fresh A st0 \<and> reach clr st0 fin msg s st) \<and> out = inflight s"
  then obtain st0 where h: "fresh A st0" "reach clr st0 fin msg s st" and out: "out = inflight s" by blast
  show "\<exists>s' st' r. ctx_mgr_flush A clr mb_submit mb_flush s st = Some (s', st', r) \<and>
      ((\<exists>st0. fresh A st0 \<and> reach clr st0 fin msg s' st') \<and> out - set_option r = inflight s') \<and>
      set_option r \<subseteq> out \<and> (r = None \<longleftrightarrow> out = {})"
    using reach_flush[OF assms h] h(1) unfolding out by metis
  show "status (st c) = STS_COMPLETE \<and> digest (st c) = md_hash A (msg c)" if "c \<notin> out" "fin c" for c
    using reach_done(1)[OF assms h, of c] that unfolding out by blast
qed

end

section \<open>The portable managers\<close>

text \<open>
  A portable manager keeps nothing between calls; its operations as operations on the store of
  contexts. Every call hands its context back, so none is ever out.
\<close>

definition base_mgr_submit ::
  "(('w::len, 'l::len) hash_ctx \<Rightarrow> byte list \<Rightarrow> u32 \<Rightarrow> u32 \<Rightarrow> ('w, 'l) hash_ctx) \<Rightarrow>
   (unit, 'w, 'l) mgr_submit_fun" where
  "base_mgr_submit f s st c buffer len flags = Some (s, st(c := f (st c) buffer len flags), Some c)"

definition base_mgr_flush :: "(unit, 'w::len, 'l::len) mgr_flush_fun" where
  "base_mgr_flush s st = Some (s, st, None)"

lemma flags_and_mask:
  fixes x :: u32
  assumes "x AND NOT 3 = 0"
  shows "x AND mask 2 = x"
proof -
  have "(3 :: u32) = mask 2" by (simp add: mask_eq_exp_minus_1)
  with assms have "x AND NOT (mask 2) = 0" by (simp only:)
  moreover have "(x AND mask 2) OR (x AND NOT (mask 2)) = x" by (rule bit_word_eqI) (auto simp: bit_simps)
  ultimately show ?thesis by simp
qed

lemma accepted_flags: "accepted ctx flags \<Longrightarrow> flags \<in> {ISAL_HASH_UPDATE, ISAL_HASH_FIRST, ISAL_HASH_LAST, ISAL_HASH_ENTIRE}"
proof -
  assume "accepted ctx flags"
  then have "flags AND NOT 3 = 0" by (simp add: accepted_def)
  then have "flags = take_bit 2 flags" by (simp add: take_bit_eq_mask flags_and_mask)
  then have "unat flags = take_bit 2 (unat flags)" by (metis unsigned_take_bit_eq)
  also have "\<dots> < 2 ^ 2" by (rule take_bit_nat_less_exp)
  finally have "unat flags < 4" by simp
  then have "unat flags = 0 \<or> unat flags = 1 \<or> unat flags = 2 \<or> unat flags = 3" by arith
  then show ?thesis by (auto simp: word_unat_eq_iff)
qed

context hash_algorithm
begin

lemma base_submit_rest:
  fixes ctx :: "('w, 'l::len) hash_ctx"
  assumes "at_rest A fin m ctx" "accepted ctx flags" "unat len \<le> length buffer"
  shows "at_rest A (next_fin flags) (next_msg m buffer len flags) (base_submit A ctx buffer len flags)"
proof -
  have wf: "wf_ctx A ctx" using assms(1) by (auto simp: at_rest_def settled_def wf_ctx_def)
  have len: "length (partial_block_buffer c) = 2 * block_size A" if "ctx_holds A m c" for m and c :: "('w, 'l) hash_ctx"
    using that by (auto simp: ctx_holds_def ctx_split_def)
  have idle: "ctx_holds A m ctx \<and> status ctx = STS_IDLE" if "flags AND ISAL_HASH_FIRST = 0"
    using assms(1,2) that by (auto simp: at_rest_def settled_def accepted_def split: if_splits)
  from accepted_flags[OF assms(2)]
  consider "flags = ISAL_HASH_UPDATE" | "flags = ISAL_HASH_FIRST" | "flags = ISAL_HASH_LAST" | "flags = ISAL_HASH_ENTIRE" by blast
  then show ?thesis
  proof cases
    case 1
    then have "ctx_holds A m ctx" "status ctx = STS_IDLE" using idle by simp_all
    from base_submit_update[OF this assms(3)] show ?thesis
      using 1 len by (simp add: at_rest_def settled_def next_fin_def next_msg_def)
  next
    case 2
    from base_submit_first[OF wf assms(3)] show ?thesis
      using 2 len by (simp add: at_rest_def settled_def next_fin_def next_msg_def)
  next
    case 3
    then have h: "ctx_holds A m ctx" "status ctx = STS_IDLE" using idle by simp_all
    have "base_submit A ctx buffer len flags = base_final A (base_update A ctx buffer len)"
      using 3 h(2) by (simp add: base_submit_def)
    with base_submit_last[OF h assms(3)] len[OF base_update_holds(1)[OF h(1) assms(3)]] show ?thesis
      using 3 base_final_eq[OF base_update_holds(1)[OF h(1) assms(3)]] by (simp add: at_rest_def settled_def next_fin_def next_msg_def)
  next
    case 4
    note i = base_update_holds(1)[OF base_init_holds[OF wf] assms(3)]
    have "base_submit A ctx buffer len flags = base_final A (base_update A (base_init A ctx) buffer len)"
      using 4 accepted_not_processing[OF assms(2)] by (simp add: base_submit_def)
    with base_submit_entire[OF wf accepted_not_processing[OF assms(2)] assms(3)] len[OF i] show ?thesis
      using 4 base_final_eq[OF i] by (simp add: at_rest_def settled_def next_fin_def next_msg_def)
  qed
qed

lemma base_submit_refused:
  assumes "status ctx AND STS_PROCESSING = 0" "\<not> accepted ctx flags"
  shows "base_submit A ctx buffer len flags = ctx\<lparr>error := refusal ctx flags\<rparr>"
  using assms by (auto simp: base_submit_def accepted_def refusal_def)

lemma base_manager:
  "context_manager A (base_mgr_submit (base_submit A)) base_mgr_flush (2 ^ 32) ()
     (\<lambda>fin msg out s (st :: ('w, 'l::len) store). out = {} \<and> (\<forall>c. at_rest A (fin c) (msg c) (st c)))"
proof
  fix st :: "('w, 'l) store" assume "fresh A st"
  then show "{} = {} \<and> (\<forall>c. at_rest A False [] (st c))" by (simp add: fresh_def at_rest_def)
next
  fix fin msg and out :: "nat set" and s c buffer flags and st :: "('w, 'l) store" and len :: u32
  assume g: "out = {} \<and> (\<forall>c. at_rest A (fin c) (msg c) (st c))"
  show "\<exists>s' st' r. base_mgr_submit (base_submit A) s st c buffer len flags = Some (s', st', r) \<and>
      (insert c out - set_option r = {} \<and>
       (\<forall>d. at_rest A ((fin(c := next_fin flags)) d) ((msg(c := next_msg (msg c) buffer len flags)) d) (st' d))) \<and>
      set_option r \<subseteq> insert c out"
    if "unat len \<le> length buffer" "accepted (st c) flags"
    using g base_submit_rest[of "fin c" "msg c" "st c" flags len buffer] that by (simp add: base_mgr_submit_def)
  show "\<exists>s' st' r. base_mgr_submit (base_submit A) s st c buffer len flags = Some (s', st', r) \<and>
      (out = {} \<and> (\<forall>d. at_rest A (fin d) (msg d) (st' d)))"
    if "\<not> accepted (st c) flags"
    using g base_submit_refused[of "st c" flags buffer len] that at_rest_not_processing[of A "fin c" "msg c" "st c"]
    by (simp add: base_mgr_submit_def)
next
  fix fin msg and out :: "nat set" and s and st :: "('w, 'l) store"
  assume g: "out = {} \<and> (\<forall>c. at_rest A (fin c) (msg c) (st c))"
  show "\<exists>s' st' r. base_mgr_flush s st = Some (s', st', r) \<and>
      (out - set_option r = {} \<and> (\<forall>c. at_rest A (fin c) (msg c) (st' c))) \<and>
      set_option r \<subseteq> out \<and> (r = None \<longleftrightarrow> out = {})"
    using g by (simp add: base_mgr_flush_def)
  show "status (st c) = STS_COMPLETE \<and> digest (st c) = md_hash A (msg c)" if "c \<notin> out" "fin c" for c
    using conjunct2[OF g, THEN spec[of _ c]] that by (simp add: at_rest_def settled_def)
qed

end

section \<open>The same manager behind another state\<close>

text \<open>
  Operations that do on \<open>wrap s\<close> what those of a manager do on \<open>s\<close> are a manager, also for shorter
  requests.
\<close>

lemma context_manager_wrap:
  assumes "context_manager A submit flush mx init good" "mx' \<le> mx"
    and "\<And>s st c buffer len flags. submit' (wrap s) st c buffer len flags
      = map_option (\<lambda>(s, st, r). (wrap s, st, r)) (submit s st c buffer len flags)"
    and "\<And>s st. flush' (wrap s) st = map_option (\<lambda>(s, st, r). (wrap s, st, r)) (flush s st)"
  shows "context_manager A submit' flush' mx' (wrap init)
    (\<lambda>fin msg out w st. \<exists>s. w = wrap s \<and> good fin msg out s st)"
proof -
  note C = context_manager.good_init[OF assms(1)] context_manager.good_submit[OF assms(1)]
    context_manager.good_refuse[OF assms(1)] context_manager.good_flush[OF assms(1)]
    context_manager.good_done[OF assms(1)]
  show ?thesis
  proof
    show "\<exists>s. wrap init = wrap s \<and> good (\<lambda>_. False) (\<lambda>_. []) {} s st" if "fresh A st" for st
      using C(1)[OF that] by blast
  next
    fix fin msg out w st c buffer flags and len :: u32
    assume "\<exists>s. w = wrap s \<and> good fin msg out s st"
    then obtain s where w: "w = wrap s" and g: "good fin msg out s st" by blast
    show "\<exists>s' st' r. submit' w st c buffer len flags = Some (s', st', r) \<and>
        (\<exists>s. s' = wrap s \<and> good (fin(c := next_fin flags)) (msg(c := next_msg (msg c) buffer len flags))
          (insert c out - set_option r) s st') \<and> set_option r \<subseteq> insert c out"
      if "unat len \<le> length buffer" "unat len div block_size A < mx'" "accepted (st c) flags"
    proof -
      have "unat len div block_size A < mx" using that(2) assms(2) by simp
      from C(2)[OF g that(1) this that(3)] obtain s' st' r where
        "submit s st c buffer len flags = Some (s', st', r)"
        "good (fin(c := next_fin flags)) (msg(c := next_msg (msg c) buffer len flags)) (insert c out - set_option r) s' st'"
        "set_option r \<subseteq> insert c out"
        by blast
      then show ?thesis unfolding w assms(3) by (auto simp del: fun_upd_apply)
    qed
    show "\<exists>s' st' r. submit' w st c buffer len flags = Some (s', st', r) \<and>
        (\<exists>s. s' = wrap s \<and> good fin msg out s st')"
      if "\<not> accepted (st c) flags"
      using C(3)[OF g that, of buffer len] unfolding w assms(3) by auto
  next
    fix fin msg out w st
    assume "\<exists>s. w = wrap s \<and> good fin msg out s st"
    then obtain s where w: "w = wrap s" and g: "good fin msg out s st" by blast
    show "\<exists>s' st' r. flush' w st = Some (s', st', r) \<and>
        (\<exists>s. s' = wrap s \<and> good fin msg (out - set_option r) s st') \<and>
        set_option r \<subseteq> out \<and> (r = None \<longleftrightarrow> out = {})"
      using C(4)[OF g] unfolding w assms(4) by auto
    show "status (st c) = STS_COMPLETE \<and> digest (st c) = md_hash A (msg c)" if "c \<notin> out" "fin c" for c
      by (rule C(5)[OF g that])
  qed
qed

text \<open>The contract only depends on the block size and on the hash.\<close>

lemma context_manager_alg:
  fixes submit :: "('s, 'w::len, 'l::len) mgr_submit_fun"
  assumes "context_manager A submit flush mx init good"
    and "block_size B = block_size A" "\<And>m. md_hash B m = md_hash A m"
  shows "context_manager B submit flush mx init good"
proof -
  have "fresh B st = fresh A st" for st :: "('w, 'l) store" by (simp add: fresh_def assms(2))
  then show ?thesis using assms(1) unfolding context_manager_def assms(2,3) by simp
qed

end
