(* ===== verification/ShaSelfTest.thy ===== *)
theory ShaSelfTest
  imports ShaVectors CtxContract
begin

text \<open>
  The SHA self tests of \<open>fips/sha_self_tests.c\<close>. Each of the three functions initialises a manager
  and one context on its stack, submits the message with \<open>ENTIRE\<close>, flushes when nothing came
  back, and compares the words of the digest. The manager is whichever implementation the
  dispatcher chose: its two operations and its initial state are arguments.
\<close>

definition sha_self_test ::
  "('s, 'w::len, 'l::len) mgr_submit_fun \<Rightarrow> ('s, 'w, 'l) mgr_flush_fun \<Rightarrow> 's \<Rightarrow> ('w, 'l) store \<Rightarrow>
   byte list \<Rightarrow> 'w word list \<Rightarrow> u32 option" where
  "sha_self_test submit flush mgr st msg expResultDigest =
     do {
       let ctxpool = 0;
       let st = st(ctxpool := isal_hash_ctx_init (st ctxpool));
       (mgr, st, ctx) \<leftarrow> submit mgr st ctxpool msg (of_nat (length msg)) ISAL_HASH_ENTIRE;
       (mgr, st, ctx) \<leftarrow> (if ctx = None then flush mgr st else Some (mgr, st, ctx));
       Some (if ctx \<noteq> None
             then if \<forall>j\<in>set [0..<length expResultDigest].
                       expResultDigest ! j = digest (st ctxpool) ! j
                  then 0 else -1
             else -1)
     }"

definition sha1_self_test ::
  "('s, 32, 'l::len) mgr_submit_fun \<Rightarrow> ('s, 32, 'l) mgr_flush_fun \<Rightarrow> 's \<Rightarrow> (32, 'l) store \<Rightarrow> u32 option"
where
  "sha1_self_test submit flush mgr st = sha_self_test submit flush mgr st kat_msg sha1_kat_digest"

definition sha256_self_test ::
  "('s, 32, 'l::len) mgr_submit_fun \<Rightarrow> ('s, 32, 'l) mgr_flush_fun \<Rightarrow> 's \<Rightarrow> (32, 'l) store \<Rightarrow> u32 option"
where
  "sha256_self_test submit flush mgr st = sha_self_test submit flush mgr st kat_msg sha256_kat_digest"

definition sha512_self_test ::
  "('s, 64, 'l::len) mgr_submit_fun \<Rightarrow> ('s, 64, 'l) mgr_flush_fun \<Rightarrow> 's \<Rightarrow> (64, 'l) store \<Rightarrow> u32 option"
where
  "sha512_self_test submit flush mgr st =
     sha_self_test submit flush mgr st kat_msg_sha512 sha512_kat_digest"

text \<open>\<open>_sha_self_tests\<close>, from what the three tests return.\<close>

definition sha_self_tests :: "u32 option \<Rightarrow> u32 option \<Rightarrow> u32 option \<Rightarrow> u32 option" where
  "sha_self_tests t1 t256 t512 =
     do {
       ret \<leftarrow> t1;
       r \<leftarrow> t256; let ret = ret OR r;
       r \<leftarrow> t512; let ret = ret OR r;
       Some ret
     }"

text \<open>A failure is -1, unlike the 1 that \<open>internal_fips.h\<close> announces.\<close>

lemma sha_self_test_range: "sha_self_test submit flush mgr st msg d = Some r \<Longrightarrow> r = 0 \<or> r = -1"
  by (auto simp: sha_self_test_def Let_def split: bind_splits if_splits prod.splits)

lemma sha_self_tests_range:
  assumes "sha_self_tests (sha1_self_test sub1 fl1 m1 st1) (sha256_self_test sub256 fl256 m256 st256)
    (sha512_self_test sub512 fl512 m512 st512) = Some r"
  shows "r = 0 \<or> r = -1"
  using assms
  by (auto simp: sha_self_tests_def sha1_self_test_def sha256_self_test_def sha512_self_test_def
      split: bind_splits dest!: sha_self_test_range)


section \<open>The tests pass\<close>

text \<open>On every manager that keeps the contract of \<open>CtxContract\<close>.\<close>

context context_manager begin

lemma self_test_ok:
  assumes "fresh A (st(0 := isal_hash_ctx_init (st 0)))" "length msg < 2 ^ 32"
    "length msg div block_size A < mx" "md_hash A msg = d"
  shows "sha_self_test submit flush init st msg d = Some 0"
proof -
  let ?st = "st(0 := isal_hash_ctx_init (st 0))" and ?len = "of_nat (length msg) :: u32"
  let ?fin = "(\<lambda>_. False)(0 := next_fin ISAL_HASH_ENTIRE)"
    and ?m = "(\<lambda>_. [])(0 := next_msg [] msg ?len ISAL_HASH_ENTIRE)"
  have len: "unat ?len = length msg" using assms(2) by (simp add: unat_of_nat_small)
  have acc: "accepted (?st 0) ISAL_HASH_ENTIRE" by (simp add: accepted_def isal_hash_ctx_init_def)
  have res: "digest (st' 0) = d" if "good ?fin ?m out s st'" "0 \<notin> out" for out s st'
    using good_done[OF that] len assms(4) by (simp add: next_fin_def next_msg_def)
  have "unat ?len \<le> length msg" "unat ?len div block_size A < mx" using assms(3) len by simp_all
  then obtain s1 st1 r1 where sub: "submit init ?st 0 msg ?len ISAL_HASH_ENTIRE = Some (s1, st1, r1)"
    and g: "good ?fin ?m ({0} - set_option r1) s1 st1" and r1: "set_option r1 \<subseteq> {0}"
    using good_submit[OF good_init[OF assms(1)] _ _ acc, of ?len msg] by blast
  show ?thesis
  proof (cases r1)
    case None
    with g have g0: "good ?fin ?m {0} s1 st1" by simp
    from good_flush[OF g0] obtain s2 st2 r2 where fl: "flush s1 st1 = Some (s2, st2, r2)"
      "good ?fin ?m ({0} - set_option r2) s2 st2" "set_option r2 \<subseteq> {0}" "r2 \<noteq> None" by blast
    then have r2: "r2 = Some 0" by auto
    with fl(2) have "digest (st2 0) = d" by (intro res[of "{}" s2]) simp_all
    then show ?thesis using sub fl(1) None r2 by (simp add: sha_self_test_def)
  next
    case (Some c)
    with r1 g have "digest (st1 0) = d" by (intro res[of "{}" s1]) simp_all
    then show ?thesis using sub Some by (simp add: sha_self_test_def)
  qed
qed

end

end
