(* ===== verification/AesApi.thy ===== *)
theory AesApi
  imports Build Prelude
begin

text \<open>
  The checked entry points of AES (\<open>aes/aes_cbc.c\<close>, \<open>aes_keyexp.c\<close>, \<open>aes_xts.c\<close>, \<open>aes_gcm.c\<close>,
  \<open>gcm_pre.c\<close>, \<open>cbc_pre.c\<close>). The ciphers themselves are assembly and enter the model as the
  record \<open>aes_kernels\<close>: functions of the bytes they read that give the bytes they write. A
  pointer is an option of the bytes behind it; a call whose kernel would read or write through
  \<open>NULL\<close> is \<open>None\<close>.
\<close>

type_synonym ptr = "byte list option"

datatype direction = Enc | Dec

datatype key_bits = Bits128 | Bits192 | Bits256

record gcm_key_data =
  expanded_keys :: "byte list"
  shifted_hkeys :: "byte list"   \<comment> \<open>the arrays \<open>shifted_hkey_*\<close>, in their order\<close>

record 'c aes_kernels =
  k_keyexp :: "key_bits \<Rightarrow> byte list \<Rightarrow> byte list \<times> byte list"
  k_cbc :: "direction \<Rightarrow> key_bits \<Rightarrow> byte list \<Rightarrow> byte list \<Rightarrow> byte list \<Rightarrow> u64 \<Rightarrow> byte list"
  k_xts :: "direction \<Rightarrow> key_bits \<Rightarrow> byte list \<Rightarrow> byte list \<Rightarrow> byte list \<Rightarrow> u64 \<Rightarrow> byte list \<Rightarrow> byte list"
  k_xts_expanded ::
    "direction \<Rightarrow> key_bits \<Rightarrow> byte list \<Rightarrow> byte list \<Rightarrow> byte list \<Rightarrow> u64 \<Rightarrow> byte list \<Rightarrow> byte list"
  k_gcm_precomp :: "key_bits \<Rightarrow> gcm_key_data \<Rightarrow> gcm_key_data"
  k_gcm_crypt :: "direction \<Rightarrow> key_bits \<Rightarrow> bool \<Rightarrow> gcm_key_data \<Rightarrow> 'c \<Rightarrow> byte list \<Rightarrow> u64 \<Rightarrow> byte list \<Rightarrow>
    byte list \<Rightarrow> u64 \<Rightarrow> u64 \<Rightarrow> 'c \<times> byte list \<times> byte list"
  k_gcm_init :: "key_bits \<Rightarrow> gcm_key_data \<Rightarrow> 'c \<Rightarrow> byte list \<Rightarrow> byte list \<Rightarrow> u64 \<Rightarrow> 'c"
  k_gcm_update ::
    "direction \<Rightarrow> key_bits \<Rightarrow> bool \<Rightarrow> gcm_key_data \<Rightarrow> 'c \<Rightarrow> byte list \<Rightarrow> u64 \<Rightarrow> 'c \<times> byte list"
  k_gcm_finalize :: "direction \<Rightarrow> key_bits \<Rightarrow> gcm_key_data \<Rightarrow> 'c \<Rightarrow> u64 \<Rightarrow> 'c \<times> byte list"

text \<open>Writing through an output pointer; one that is not read may be \<open>NULL\<close> when nothing is written.\<close>

definition write_out :: "ptr \<Rightarrow> byte list \<Rightarrow> u64 \<Rightarrow> ptr option" where
  "write_out p bytes len =
     (if len = 0 \<and> p = None then Some None
      else map_option (\<lambda>old. Some (memcpy_at old 0 bytes (unat len))) p)"

definition read_in :: "ptr \<Rightarrow> u64 \<Rightarrow> byte list option" where
  "read_in p len = (if len = 0 \<and> p = None then Some [] else p)"

definition ISAL_GCM_MAX_TAG_LEN :: u64 where "ISAL_GCM_MAX_TAG_LEN = 16"
definition ISAL_GCM_MAX_LEN :: u64 where "ISAL_GCM_MAX_LEN = (2 ^ 39 - 256) - 1"
definition ISAL_AES_XTS_MIN_LEN :: u64 where "ISAL_AES_XTS_MIN_LEN = 16"
definition ISAL_AES_XTS_MAX_LEN :: u64 where "ISAL_AES_XTS_MAX_LEN = 2 ^ 24"


section \<open>Key expansion\<close>

text \<open>The bytes an expansion writes at the start of a buffer; the rest of it stays.\<close>

definition overwrite :: "byte list \<Rightarrow> byte list \<Rightarrow> byte list" where
  "overwrite old bytes = memcpy_at old 0 bytes (length bytes)"

definition keyexp_into ::
  "'c aes_kernels \<Rightarrow> key_bits \<Rightarrow> byte list \<Rightarrow> byte list \<times> byte list \<Rightarrow> byte list \<times> byte list" where
  "keyexp_into K n key bufs =
     (let (enc, dec) = k_keyexp K n key in (overwrite (fst bufs) enc, overwrite (snd bufs) dec))"

definition keyexp_call ::
  "'c aes_kernels \<Rightarrow> key_bits \<Rightarrow> ptr \<Rightarrow> ptr \<Rightarrow> ptr \<Rightarrow> (ptr \<times> ptr) option" where
  "keyexp_call K n key exp_key_enc exp_key_dec =
     do {
       key \<leftarrow> key; e \<leftarrow> exp_key_enc; d \<leftarrow> exp_key_dec;
       let (enc, dec) = keyexp_into K n key (e, d);
       Some (Some enc, Some dec)
     }"

definition keyexp_checked ::
  "'c aes_kernels \<Rightarrow> key_bits \<Rightarrow> build \<Rightarrow> isal_error \<Rightarrow> ptr \<Rightarrow> ptr \<Rightarrow> ptr \<Rightarrow>
   (isal_error \<times> ptr \<times> ptr) option" where
  "keyexp_checked K n b tests key exp_key_enc exp_key_dec =
     checked b
       [(key = None, ERR_NULL_KEY),
        (exp_key_enc = None \<or> exp_key_dec = None, ERR_NULL_EXP_KEY)]
       (Some []) tests (exp_key_enc, exp_key_dec)
       (keyexp_call K n key exp_key_enc exp_key_dec)"

definition isal_aes_keyexp_128 ::
  "'c aes_kernels \<Rightarrow> build \<Rightarrow> isal_error \<Rightarrow> ptr \<Rightarrow> ptr
   \<Rightarrow> ptr \<Rightarrow> (isal_error \<times> ptr \<times> ptr) option" where
  "isal_aes_keyexp_128 K = keyexp_checked K Bits128"

definition isal_aes_keyexp_192 ::
  "'c aes_kernels \<Rightarrow> build \<Rightarrow> isal_error \<Rightarrow> ptr \<Rightarrow> ptr
   \<Rightarrow> ptr \<Rightarrow> (isal_error \<times> ptr \<times> ptr) option" where
  "isal_aes_keyexp_192 K = keyexp_checked K Bits192"

definition isal_aes_keyexp_256 ::
  "'c aes_kernels \<Rightarrow> build \<Rightarrow> isal_error \<Rightarrow> ptr \<Rightarrow> ptr
   \<Rightarrow> ptr \<Rightarrow> (isal_error \<times> ptr \<times> ptr) option" where
  "isal_aes_keyexp_256 K = keyexp_checked K Bits256"

definition aes_keyexp_128 ::
  "'c aes_kernels \<Rightarrow> ptr \<Rightarrow> ptr \<Rightarrow> ptr \<Rightarrow> (ptr \<times>
   ptr) option" where
  "aes_keyexp_128 K = keyexp_call K Bits128"

definition aes_keyexp_192 ::
  "'c aes_kernels \<Rightarrow> ptr \<Rightarrow> ptr \<Rightarrow> ptr \<Rightarrow> (ptr \<times>
   ptr) option" where
  "aes_keyexp_192 K = keyexp_call K Bits192"

definition aes_keyexp_256 ::
  "'c aes_kernels \<Rightarrow> ptr \<Rightarrow> ptr \<Rightarrow> ptr \<Rightarrow> (ptr \<times>
   ptr) option" where
  "aes_keyexp_256 K = keyexp_call K Bits256"


text \<open>\<open>aes_cbc_precomp\<close> of \<open>cbc_pre.c\<close>; the sizes are the constants \<open>ISAL_CBC_*_BITS\<close>, in bytes.\<close>

definition aes_cbc_precomp ::
  "'c aes_kernels \<Rightarrow> byte list \<Rightarrow> nat \<Rightarrow> byte list \<times> byte list \<Rightarrow> int \<times> byte list \<times> byte list" where
  "aes_cbc_precomp K key key_size keys_blk =
     (if key_size = 16 then (0, keyexp_into K Bits128 key keys_blk)
      else if key_size = 24 then (0, keyexp_into K Bits192 key keys_blk)
      else if key_size = 32 then (0, keyexp_into K Bits256 key keys_blk)
      else (1, keys_blk))"


section \<open>CBC\<close>

definition cbc_call ::
  "'c aes_kernels \<Rightarrow> direction \<Rightarrow> key_bits \<Rightarrow> ptr \<Rightarrow> ptr \<Rightarrow> ptr \<Rightarrow> ptr \<Rightarrow> u64 \<Rightarrow> ptr option" where
  "cbc_call K d n in_p iv keys out len_bytes =
     do {
       src \<leftarrow> in_p; iv \<leftarrow> iv; keys \<leftarrow> keys; _ \<leftarrow> out;
       write_out out (k_cbc K d n src iv keys len_bytes) len_bytes
     }"

definition cbc_checked ::
  "'c aes_kernels \<Rightarrow> direction \<Rightarrow> key_bits \<Rightarrow> build \<Rightarrow> isal_error \<Rightarrow>
   ptr \<Rightarrow> ptr \<Rightarrow> ptr \<Rightarrow> ptr \<Rightarrow> u64 \<Rightarrow> (isal_error \<times> ptr) option" where
  "cbc_checked K d n b tests in_p iv keys out len_bytes =
     checked b
       [(keys = None, ERR_NULL_EXP_KEY),
        (in_p = None, ERR_NULL_SRC),
        (out = None, ERR_NULL_DST),
        (iv = None, ERR_NULL_IV),
        (len_bytes AND 0xf \<noteq> 0, ERR_CIPH_LEN)]
       (Some []) tests out
       (cbc_call K d n in_p iv keys out len_bytes)"

definition isal_aes_cbc_enc_128 ::
  "'c aes_kernels \<Rightarrow> build \<Rightarrow> isal_error \<Rightarrow> ptr \<Rightarrow> ptr
   \<Rightarrow> ptr \<Rightarrow> ptr \<Rightarrow> u64 \<Rightarrow> (isal_error \<times> ptr)
   option" where
  "isal_aes_cbc_enc_128 K = cbc_checked K Enc Bits128"

definition isal_aes_cbc_enc_192 ::
  "'c aes_kernels \<Rightarrow> build \<Rightarrow> isal_error \<Rightarrow> ptr \<Rightarrow> ptr
   \<Rightarrow> ptr \<Rightarrow> ptr \<Rightarrow> u64 \<Rightarrow> (isal_error \<times> ptr)
   option" where
  "isal_aes_cbc_enc_192 K = cbc_checked K Enc Bits192"

definition isal_aes_cbc_enc_256 ::
  "'c aes_kernels \<Rightarrow> build \<Rightarrow> isal_error \<Rightarrow> ptr \<Rightarrow> ptr
   \<Rightarrow> ptr \<Rightarrow> ptr \<Rightarrow> u64 \<Rightarrow> (isal_error \<times> ptr)
   option" where
  "isal_aes_cbc_enc_256 K = cbc_checked K Enc Bits256"

definition isal_aes_cbc_dec_128 ::
  "'c aes_kernels \<Rightarrow> build \<Rightarrow> isal_error \<Rightarrow> ptr \<Rightarrow> ptr
   \<Rightarrow> ptr \<Rightarrow> ptr \<Rightarrow> u64 \<Rightarrow> (isal_error \<times> ptr)
   option" where
  "isal_aes_cbc_dec_128 K = cbc_checked K Dec Bits128"

definition isal_aes_cbc_dec_192 ::
  "'c aes_kernels \<Rightarrow> build \<Rightarrow> isal_error \<Rightarrow> ptr \<Rightarrow> ptr
   \<Rightarrow> ptr \<Rightarrow> ptr \<Rightarrow> u64 \<Rightarrow> (isal_error \<times> ptr)
   option" where
  "isal_aes_cbc_dec_192 K = cbc_checked K Dec Bits192"

definition isal_aes_cbc_dec_256 ::
  "'c aes_kernels \<Rightarrow> build \<Rightarrow> isal_error \<Rightarrow> ptr \<Rightarrow> ptr
   \<Rightarrow> ptr \<Rightarrow> ptr \<Rightarrow> u64 \<Rightarrow> (isal_error \<times> ptr)
   option" where
  "isal_aes_cbc_dec_256 K = cbc_checked K Dec Bits256"

definition aes_cbc_enc_128 ::
  "'c aes_kernels \<Rightarrow> ptr \<Rightarrow> ptr \<Rightarrow> ptr \<Rightarrow> ptr \<Rightarrow>
   u64 \<Rightarrow> ptr option" where
  "aes_cbc_enc_128 K = cbc_call K Enc Bits128"

definition aes_cbc_enc_192 ::
  "'c aes_kernels \<Rightarrow> ptr \<Rightarrow> ptr \<Rightarrow> ptr \<Rightarrow> ptr \<Rightarrow>
   u64 \<Rightarrow> ptr option" where
  "aes_cbc_enc_192 K = cbc_call K Enc Bits192"

definition aes_cbc_enc_256 ::
  "'c aes_kernels \<Rightarrow> ptr \<Rightarrow> ptr \<Rightarrow> ptr \<Rightarrow> ptr \<Rightarrow>
   u64 \<Rightarrow> ptr option" where
  "aes_cbc_enc_256 K = cbc_call K Enc Bits256"

definition aes_cbc_dec_128 ::
  "'c aes_kernels \<Rightarrow> ptr \<Rightarrow> ptr \<Rightarrow> ptr \<Rightarrow> ptr \<Rightarrow>
   u64 \<Rightarrow> ptr option" where
  "aes_cbc_dec_128 K = cbc_call K Dec Bits128"

definition aes_cbc_dec_192 ::
  "'c aes_kernels \<Rightarrow> ptr \<Rightarrow> ptr \<Rightarrow> ptr \<Rightarrow> ptr \<Rightarrow>
   u64 \<Rightarrow> ptr option" where
  "aes_cbc_dec_192 K = cbc_call K Dec Bits192"

definition aes_cbc_dec_256 ::
  "'c aes_kernels \<Rightarrow> ptr \<Rightarrow> ptr \<Rightarrow> ptr \<Rightarrow> ptr \<Rightarrow>
   u64 \<Rightarrow> ptr option" where
  "aes_cbc_dec_256 K = cbc_call K Dec Bits256"



section \<open>XTS\<close>

text \<open>
  A FIPS build refuses equal keys, comparing \<open>key_bytes\<close> bytes of \<open>k1\<close> and \<open>k2\<close>; the functions on
  expanded keys compare the expanded schedules they are given.
\<close>

definition same_keys :: "ptr \<Rightarrow> ptr \<Rightarrow> nat \<Rightarrow> bool option" where
  "same_keys k1 k2 n = do { k1 \<leftarrow> k1; k2 \<leftarrow> k2; Some (take n k1 = take n k2) }"

definition xts_call ::
  "(byte list \<Rightarrow> byte list \<Rightarrow> byte list \<Rightarrow> u64 \<Rightarrow> byte list \<Rightarrow> byte list) \<Rightarrow>
   ptr \<Rightarrow> ptr \<Rightarrow> ptr \<Rightarrow> u64 \<Rightarrow> ptr \<Rightarrow> ptr \<Rightarrow> ptr option" where
  "xts_call kern k2 k1 initial_tweak len_bytes in_p out =
     do {
       k2 \<leftarrow> k2; k1 \<leftarrow> k1; tweak \<leftarrow> initial_tweak; src \<leftarrow> in_p; _ \<leftarrow> out;
       write_out out (kern k2 k1 tweak len_bytes src) len_bytes
     }"

definition xts_checked ::
  "(byte list \<Rightarrow> byte list \<Rightarrow> byte list \<Rightarrow> u64 \<Rightarrow> byte list \<Rightarrow> byte list) \<Rightarrow> isal_error \<Rightarrow> nat \<Rightarrow>
   build \<Rightarrow> isal_error \<Rightarrow> ptr \<Rightarrow> ptr \<Rightarrow> ptr \<Rightarrow> u64 \<Rightarrow> ptr \<Rightarrow> ptr \<Rightarrow> (isal_error \<times> ptr) option" where
  "xts_checked kern null_key key_bytes b tests k2 k1 initial_tweak len_bytes in_p out =
     checked b
       [(k2 = None \<or> k1 = None, null_key),
        (initial_tweak = None, ERR_XTS_NULL_TWEAK),
        (in_p = None, ERR_NULL_SRC),
        (out = None, ERR_NULL_DST),
        (len_bytes < ISAL_AES_XTS_MIN_LEN \<or> ISAL_AES_XTS_MAX_LEN < len_bytes, ERR_CIPH_LEN)]
       (map_option (\<lambda>same. [(same, ERR_XTS_SAME_KEYS)]) (same_keys k1 k2 key_bytes))
       tests out
       (xts_call kern k2 k1 initial_tweak len_bytes in_p out)"

definition isal_aes_xts_enc_128 ::
  "'c aes_kernels \<Rightarrow> build \<Rightarrow> isal_error \<Rightarrow> ptr \<Rightarrow> ptr
   \<Rightarrow> ptr \<Rightarrow> u64 \<Rightarrow> ptr \<Rightarrow> ptr \<Rightarrow> (isal_error
   \<times> ptr) option" where
  "isal_aes_xts_enc_128 K = xts_checked (k_xts K Enc Bits128) ERR_NULL_KEY (16)"

definition isal_aes_xts_enc_128_expanded_key ::
  "'c aes_kernels \<Rightarrow> build \<Rightarrow> isal_error \<Rightarrow> ptr \<Rightarrow> ptr
   \<Rightarrow> ptr \<Rightarrow> u64 \<Rightarrow> ptr \<Rightarrow> ptr \<Rightarrow> (isal_error
   \<times> ptr) option" where
  "isal_aes_xts_enc_128_expanded_key K = xts_checked (k_xts_expanded K Enc Bits128) ERR_NULL_EXP_KEY (16 * 11)"

definition isal_aes_xts_dec_128 ::
  "'c aes_kernels \<Rightarrow> build \<Rightarrow> isal_error \<Rightarrow> ptr \<Rightarrow> ptr
   \<Rightarrow> ptr \<Rightarrow> u64 \<Rightarrow> ptr \<Rightarrow> ptr \<Rightarrow> (isal_error
   \<times> ptr) option" where
  "isal_aes_xts_dec_128 K = xts_checked (k_xts K Dec Bits128) ERR_NULL_KEY (16)"

definition isal_aes_xts_dec_128_expanded_key ::
  "'c aes_kernels \<Rightarrow> build \<Rightarrow> isal_error \<Rightarrow> ptr \<Rightarrow> ptr
   \<Rightarrow> ptr \<Rightarrow> u64 \<Rightarrow> ptr \<Rightarrow> ptr \<Rightarrow> (isal_error
   \<times> ptr) option" where
  "isal_aes_xts_dec_128_expanded_key K = xts_checked (k_xts_expanded K Dec Bits128) ERR_NULL_EXP_KEY (16 * 11)"

definition isal_aes_xts_enc_256 ::
  "'c aes_kernels \<Rightarrow> build \<Rightarrow> isal_error \<Rightarrow> ptr \<Rightarrow> ptr
   \<Rightarrow> ptr \<Rightarrow> u64 \<Rightarrow> ptr \<Rightarrow> ptr \<Rightarrow> (isal_error
   \<times> ptr) option" where
  "isal_aes_xts_enc_256 K = xts_checked (k_xts K Enc Bits256) ERR_NULL_KEY (16 * 2)"

definition isal_aes_xts_enc_256_expanded_key ::
  "'c aes_kernels \<Rightarrow> build \<Rightarrow> isal_error \<Rightarrow> ptr \<Rightarrow> ptr
   \<Rightarrow> ptr \<Rightarrow> u64 \<Rightarrow> ptr \<Rightarrow> ptr \<Rightarrow> (isal_error
   \<times> ptr) option" where
  "isal_aes_xts_enc_256_expanded_key K = xts_checked (k_xts_expanded K Enc Bits256) ERR_NULL_EXP_KEY (16 * 15)"

definition isal_aes_xts_dec_256 ::
  "'c aes_kernels \<Rightarrow> build \<Rightarrow> isal_error \<Rightarrow> ptr \<Rightarrow> ptr
   \<Rightarrow> ptr \<Rightarrow> u64 \<Rightarrow> ptr \<Rightarrow> ptr \<Rightarrow> (isal_error
   \<times> ptr) option" where
  "isal_aes_xts_dec_256 K = xts_checked (k_xts K Dec Bits256) ERR_NULL_KEY (16 * 2)"

definition isal_aes_xts_dec_256_expanded_key ::
  "'c aes_kernels \<Rightarrow> build \<Rightarrow> isal_error \<Rightarrow> ptr \<Rightarrow> ptr
   \<Rightarrow> ptr \<Rightarrow> u64 \<Rightarrow> ptr \<Rightarrow> ptr \<Rightarrow> (isal_error
   \<times> ptr) option" where
  "isal_aes_xts_dec_256_expanded_key K = xts_checked (k_xts_expanded K Dec Bits256) ERR_NULL_EXP_KEY (16 * 15)"

definition XTS_AES_128_enc ::
  "'c aes_kernels \<Rightarrow> ptr \<Rightarrow> ptr \<Rightarrow> ptr \<Rightarrow> u64 \<Rightarrow>
   ptr \<Rightarrow> ptr \<Rightarrow> ptr option" where
  "XTS_AES_128_enc K = xts_call (k_xts K Enc Bits128)"

definition XTS_AES_128_enc_expanded_key ::
  "'c aes_kernels \<Rightarrow> ptr \<Rightarrow> ptr \<Rightarrow> ptr \<Rightarrow> u64 \<Rightarrow>
   ptr \<Rightarrow> ptr \<Rightarrow> ptr option" where
  "XTS_AES_128_enc_expanded_key K = xts_call (k_xts_expanded K Enc Bits128)"

definition XTS_AES_128_dec ::
  "'c aes_kernels \<Rightarrow> ptr \<Rightarrow> ptr \<Rightarrow> ptr \<Rightarrow> u64 \<Rightarrow>
   ptr \<Rightarrow> ptr \<Rightarrow> ptr option" where
  "XTS_AES_128_dec K = xts_call (k_xts K Dec Bits128)"

definition XTS_AES_128_dec_expanded_key ::
  "'c aes_kernels \<Rightarrow> ptr \<Rightarrow> ptr \<Rightarrow> ptr \<Rightarrow> u64 \<Rightarrow>
   ptr \<Rightarrow> ptr \<Rightarrow> ptr option" where
  "XTS_AES_128_dec_expanded_key K = xts_call (k_xts_expanded K Dec Bits128)"

definition XTS_AES_256_enc ::
  "'c aes_kernels \<Rightarrow> ptr \<Rightarrow> ptr \<Rightarrow> ptr \<Rightarrow> u64 \<Rightarrow>
   ptr \<Rightarrow> ptr \<Rightarrow> ptr option" where
  "XTS_AES_256_enc K = xts_call (k_xts K Enc Bits256)"

definition XTS_AES_256_enc_expanded_key ::
  "'c aes_kernels \<Rightarrow> ptr \<Rightarrow> ptr \<Rightarrow> ptr \<Rightarrow> u64 \<Rightarrow>
   ptr \<Rightarrow> ptr \<Rightarrow> ptr option" where
  "XTS_AES_256_enc_expanded_key K = xts_call (k_xts_expanded K Enc Bits256)"

definition XTS_AES_256_dec ::
  "'c aes_kernels \<Rightarrow> ptr \<Rightarrow> ptr \<Rightarrow> ptr \<Rightarrow> u64 \<Rightarrow>
   ptr \<Rightarrow> ptr \<Rightarrow> ptr option" where
  "XTS_AES_256_dec K = xts_call (k_xts K Dec Bits256)"

definition XTS_AES_256_dec_expanded_key ::
  "'c aes_kernels \<Rightarrow> ptr \<Rightarrow> ptr \<Rightarrow> ptr \<Rightarrow> u64 \<Rightarrow>
   ptr \<Rightarrow> ptr \<Rightarrow> ptr option" where
  "XTS_AES_256_dec_expanded_key K = xts_call (k_xts_expanded K Dec Bits256)"



section \<open>GCM\<close>

definition gcm_pre :: "'c aes_kernels \<Rightarrow> key_bits \<Rightarrow> byte list \<Rightarrow> gcm_key_data \<Rightarrow> gcm_key_data" where
  "gcm_pre K n key key_data =
     k_gcm_precomp K n
       (key_data\<lparr>expanded_keys := overwrite (expanded_keys key_data) (fst (k_keyexp K n key))\<rparr>)"

definition gcm_pre_checked ::
  "'c aes_kernels \<Rightarrow> key_bits \<Rightarrow> build \<Rightarrow> isal_error \<Rightarrow> ptr \<Rightarrow> gcm_key_data option \<Rightarrow>
   (isal_error \<times> gcm_key_data option) option" where
  "gcm_pre_checked K n b tests key key_data =
     checked b
       [(key = None, ERR_NULL_KEY),
        (key_data = None, ERR_NULL_EXP_KEY)]
       (Some []) tests key_data
       (do { key \<leftarrow> key; kd \<leftarrow> key_data; Some (Some (gcm_pre K n key kd)) })"

text \<open>The results of the calls: the context, the output and the tag, behind their pointers.\<close>

definition gcm_call ::
  "'c aes_kernels \<Rightarrow> direction \<Rightarrow> key_bits \<Rightarrow> bool \<Rightarrow> gcm_key_data option \<Rightarrow> 'c option \<Rightarrow> ptr \<Rightarrow> ptr \<Rightarrow>
   u64 \<Rightarrow> ptr \<Rightarrow> ptr \<Rightarrow> u64 \<Rightarrow> ptr \<Rightarrow> u64 \<Rightarrow> ('c option \<times> ptr \<times> ptr) option" where
  "gcm_call K d n nt key_data context_data out in_p len iv aad aad_len auth_tag auth_tag_len =
     do {
       kd \<leftarrow> key_data; ctx \<leftarrow> context_data; src \<leftarrow> read_in in_p len; iv \<leftarrow> iv;
       aad \<leftarrow> read_in aad aad_len;
       let (ctx, bytes, tag) = k_gcm_crypt K d n nt kd ctx src len iv aad aad_len auth_tag_len;
       out \<leftarrow> write_out out bytes len;
       auth_tag \<leftarrow> write_out auth_tag tag auth_tag_len;
       Some (Some ctx, out, auth_tag)
     }"

definition gcm_checked ::
  "'c aes_kernels \<Rightarrow> direction \<Rightarrow> key_bits \<Rightarrow> bool \<Rightarrow> build \<Rightarrow> isal_error \<Rightarrow> gcm_key_data option \<Rightarrow> 'c option \<Rightarrow>
   ptr \<Rightarrow> ptr \<Rightarrow> u64 \<Rightarrow> ptr \<Rightarrow> ptr \<Rightarrow> u64 \<Rightarrow> ptr \<Rightarrow> u64 \<Rightarrow> (isal_error \<times> 'c option \<times> ptr \<times> ptr) option" where
  "gcm_checked K d n nt b tests key_data context_data out in_p len iv aad aad_len auth_tag auth_tag_len =
     checked b
       [(key_data = None, ERR_NULL_EXP_KEY),
        (context_data = None, ERR_NULL_CTX),
        (out = None \<and> len \<noteq> 0, ERR_NULL_DST),
        (in_p = None \<and> len \<noteq> 0, ERR_NULL_SRC),
        (ISAL_GCM_MAX_LEN < len, ERR_CIPH_LEN),
        (iv = None, ERR_NULL_IV),
        (aad = None \<and> 0 < aad_len, ERR_NULL_AAD),
        (auth_tag = None, ERR_NULL_AUTH),
        (auth_tag_len \<noteq> ISAL_GCM_MAX_TAG_LEN \<and> auth_tag_len \<noteq> 12 \<and> auth_tag_len \<noteq> 8, ERR_AUTH_TAG_LEN)]
       (Some []) tests (context_data, out, auth_tag)
       (gcm_call K d n nt key_data context_data out in_p len iv aad aad_len auth_tag auth_tag_len)"

definition gcm_init_call ::
  "'c aes_kernels \<Rightarrow> key_bits \<Rightarrow> gcm_key_data option \<Rightarrow> 'c option \<Rightarrow> ptr \<Rightarrow> ptr \<Rightarrow> u64 \<Rightarrow> 'c option option"
where
  "gcm_init_call K n key_data context_data iv aad aad_len =
     do {
       kd \<leftarrow> key_data; ctx \<leftarrow> context_data; iv \<leftarrow> iv; aad \<leftarrow> read_in aad aad_len;
       Some (Some (k_gcm_init K n kd ctx iv aad aad_len))
     }"

definition gcm_init_checked ::
  "'c aes_kernels \<Rightarrow> key_bits \<Rightarrow> build \<Rightarrow> isal_error \<Rightarrow> gcm_key_data option \<Rightarrow> 'c option \<Rightarrow> ptr \<Rightarrow> ptr \<Rightarrow>
   u64 \<Rightarrow> (isal_error \<times> 'c option) option" where
  "gcm_init_checked K n b tests key_data context_data iv aad aad_len =
     checked b
       [(key_data = None, ERR_NULL_EXP_KEY),
        (context_data = None, ERR_NULL_CTX),
        (iv = None, ERR_NULL_IV),
        (aad = None \<and> 0 < aad_len, ERR_NULL_AAD)]
       (Some []) tests context_data
       (gcm_init_call K n key_data context_data iv aad aad_len)"

definition gcm_update_call ::
  "'c aes_kernels \<Rightarrow> direction \<Rightarrow> key_bits \<Rightarrow> bool \<Rightarrow> gcm_key_data option \<Rightarrow> 'c option \<Rightarrow> ptr \<Rightarrow> ptr \<Rightarrow> u64 \<Rightarrow>
   ('c option \<times> ptr) option" where
  "gcm_update_call K d n nt key_data context_data out in_p len =
     do {
       kd \<leftarrow> key_data; ctx \<leftarrow> context_data; src \<leftarrow> read_in in_p len;
       let (ctx, bytes) = k_gcm_update K d n nt kd ctx src len;
       out \<leftarrow> write_out out bytes len;
       Some (Some ctx, out)
     }"

definition gcm_update_checked ::
  "'c aes_kernels \<Rightarrow> direction \<Rightarrow> key_bits \<Rightarrow> bool \<Rightarrow> build \<Rightarrow> isal_error \<Rightarrow> gcm_key_data option \<Rightarrow>
   'c option \<Rightarrow> ptr \<Rightarrow> ptr \<Rightarrow> u64 \<Rightarrow> (isal_error \<times> 'c option \<times> ptr) option" where
  "gcm_update_checked K d n nt b tests key_data context_data out in_p len =
     checked b
       [(key_data = None, ERR_NULL_EXP_KEY),
        (context_data = None, ERR_NULL_CTX),
        (in_p = None \<and> 0 < len, ERR_NULL_SRC),
        (out = None \<and> 0 < len, ERR_NULL_DST),
        (ISAL_GCM_MAX_LEN < len, ERR_CIPH_LEN)]
       (Some []) tests (context_data, out)
       (gcm_update_call K d n nt key_data context_data out in_p len)"

definition gcm_finalize_call ::
  "'c aes_kernels \<Rightarrow> direction \<Rightarrow> key_bits \<Rightarrow> gcm_key_data option \<Rightarrow> 'c option \<Rightarrow> ptr \<Rightarrow> u64 \<Rightarrow>
   ('c option \<times> ptr) option" where
  "gcm_finalize_call K d n key_data context_data auth_tag auth_tag_len =
     do {
       kd \<leftarrow> key_data; ctx \<leftarrow> context_data;
       let (ctx, tag) = k_gcm_finalize K d n kd ctx auth_tag_len;
       auth_tag \<leftarrow> write_out auth_tag tag auth_tag_len;
       Some (Some ctx, auth_tag)
     }"

definition gcm_finalize_checked ::
  "'c aes_kernels \<Rightarrow> direction \<Rightarrow> key_bits \<Rightarrow> build \<Rightarrow> isal_error \<Rightarrow> gcm_key_data option \<Rightarrow> 'c option \<Rightarrow>
   ptr \<Rightarrow> u64 \<Rightarrow> (isal_error \<times> 'c option \<times> ptr) option" where
  "gcm_finalize_checked K d n b tests key_data context_data auth_tag auth_tag_len =
     checked b
       [(key_data = None, ERR_NULL_EXP_KEY),
        (context_data = None, ERR_NULL_CTX),
        (auth_tag = None, ERR_NULL_AUTH),
        (auth_tag_len \<noteq> ISAL_GCM_MAX_TAG_LEN \<and> auth_tag_len \<noteq> 12 \<and> auth_tag_len \<noteq> 8, ERR_AUTH_TAG_LEN)]
       (Some []) tests (context_data, auth_tag)
       (gcm_finalize_call K d n key_data context_data auth_tag auth_tag_len)"

definition isal_aes_gcm_enc_128 ::
  "'c aes_kernels \<Rightarrow> build \<Rightarrow> isal_error \<Rightarrow> gcm_key_data option
   \<Rightarrow> 'c option \<Rightarrow> ptr \<Rightarrow> ptr \<Rightarrow> u64 \<Rightarrow> ptr
   \<Rightarrow> ptr \<Rightarrow> u64 \<Rightarrow> ptr \<Rightarrow> u64 \<Rightarrow> (isal_error
   \<times> 'c option \<times> ptr \<times> ptr) option" where
  "isal_aes_gcm_enc_128 K = gcm_checked K Enc Bits128 False"

definition isal_aes_gcm_enc_256 ::
  "'c aes_kernels \<Rightarrow> build \<Rightarrow> isal_error \<Rightarrow> gcm_key_data option
   \<Rightarrow> 'c option \<Rightarrow> ptr \<Rightarrow> ptr \<Rightarrow> u64 \<Rightarrow> ptr
   \<Rightarrow> ptr \<Rightarrow> u64 \<Rightarrow> ptr \<Rightarrow> u64 \<Rightarrow> (isal_error
   \<times> 'c option \<times> ptr \<times> ptr) option" where
  "isal_aes_gcm_enc_256 K = gcm_checked K Enc Bits256 False"

definition isal_aes_gcm_dec_128 ::
  "'c aes_kernels \<Rightarrow> build \<Rightarrow> isal_error \<Rightarrow> gcm_key_data option
   \<Rightarrow> 'c option \<Rightarrow> ptr \<Rightarrow> ptr \<Rightarrow> u64 \<Rightarrow> ptr
   \<Rightarrow> ptr \<Rightarrow> u64 \<Rightarrow> ptr \<Rightarrow> u64 \<Rightarrow> (isal_error
   \<times> 'c option \<times> ptr \<times> ptr) option" where
  "isal_aes_gcm_dec_128 K = gcm_checked K Dec Bits128 False"

definition isal_aes_gcm_dec_256 ::
  "'c aes_kernels \<Rightarrow> build \<Rightarrow> isal_error \<Rightarrow> gcm_key_data option
   \<Rightarrow> 'c option \<Rightarrow> ptr \<Rightarrow> ptr \<Rightarrow> u64 \<Rightarrow> ptr
   \<Rightarrow> ptr \<Rightarrow> u64 \<Rightarrow> ptr \<Rightarrow> u64 \<Rightarrow> (isal_error
   \<times> 'c option \<times> ptr \<times> ptr) option" where
  "isal_aes_gcm_dec_256 K = gcm_checked K Dec Bits256 False"

definition isal_aes_gcm_enc_128_update ::
  "'c aes_kernels \<Rightarrow> build \<Rightarrow> isal_error \<Rightarrow> gcm_key_data option
   \<Rightarrow> 'c option \<Rightarrow> ptr \<Rightarrow> ptr \<Rightarrow> u64 \<Rightarrow>
   (isal_error \<times> 'c option \<times> ptr) option" where
  "isal_aes_gcm_enc_128_update K = gcm_update_checked K Enc Bits128 False"

definition isal_aes_gcm_enc_256_update ::
  "'c aes_kernels \<Rightarrow> build \<Rightarrow> isal_error \<Rightarrow> gcm_key_data option
   \<Rightarrow> 'c option \<Rightarrow> ptr \<Rightarrow> ptr \<Rightarrow> u64 \<Rightarrow>
   (isal_error \<times> 'c option \<times> ptr) option" where
  "isal_aes_gcm_enc_256_update K = gcm_update_checked K Enc Bits256 False"

definition isal_aes_gcm_dec_128_update ::
  "'c aes_kernels \<Rightarrow> build \<Rightarrow> isal_error \<Rightarrow> gcm_key_data option
   \<Rightarrow> 'c option \<Rightarrow> ptr \<Rightarrow> ptr \<Rightarrow> u64 \<Rightarrow>
   (isal_error \<times> 'c option \<times> ptr) option" where
  "isal_aes_gcm_dec_128_update K = gcm_update_checked K Dec Bits128 False"

text \<open>This one, alone among the entry points, does not run the self tests in a FIPS build.\<close>

definition isal_aes_gcm_dec_256_update ::
  "'c aes_kernels \<Rightarrow> build \<Rightarrow> isal_error \<Rightarrow> gcm_key_data option
   \<Rightarrow> 'c option \<Rightarrow> ptr \<Rightarrow> ptr \<Rightarrow> u64 \<Rightarrow>
   (isal_error \<times> 'c option \<times> ptr) option" where
  "isal_aes_gcm_dec_256_update K b = gcm_update_checked K Dec Bits256 False (b\<lparr>fips_mode := False\<rparr>)"

definition isal_aes_gcm_enc_128_nt ::
  "'c aes_kernels \<Rightarrow> build \<Rightarrow> isal_error \<Rightarrow> gcm_key_data option
   \<Rightarrow> 'c option \<Rightarrow> ptr \<Rightarrow> ptr \<Rightarrow> u64 \<Rightarrow> ptr
   \<Rightarrow> ptr \<Rightarrow> u64 \<Rightarrow> ptr \<Rightarrow> u64 \<Rightarrow> (isal_error
   \<times> 'c option \<times> ptr \<times> ptr) option" where
  "isal_aes_gcm_enc_128_nt K = gcm_checked K Enc Bits128 True"

definition isal_aes_gcm_enc_256_nt ::
  "'c aes_kernels \<Rightarrow> build \<Rightarrow> isal_error \<Rightarrow> gcm_key_data option
   \<Rightarrow> 'c option \<Rightarrow> ptr \<Rightarrow> ptr \<Rightarrow> u64 \<Rightarrow> ptr
   \<Rightarrow> ptr \<Rightarrow> u64 \<Rightarrow> ptr \<Rightarrow> u64 \<Rightarrow> (isal_error
   \<times> 'c option \<times> ptr \<times> ptr) option" where
  "isal_aes_gcm_enc_256_nt K = gcm_checked K Enc Bits256 True"

definition isal_aes_gcm_dec_128_nt ::
  "'c aes_kernels \<Rightarrow> build \<Rightarrow> isal_error \<Rightarrow> gcm_key_data option
   \<Rightarrow> 'c option \<Rightarrow> ptr \<Rightarrow> ptr \<Rightarrow> u64 \<Rightarrow> ptr
   \<Rightarrow> ptr \<Rightarrow> u64 \<Rightarrow> ptr \<Rightarrow> u64 \<Rightarrow> (isal_error
   \<times> 'c option \<times> ptr \<times> ptr) option" where
  "isal_aes_gcm_dec_128_nt K = gcm_checked K Dec Bits128 True"

definition isal_aes_gcm_dec_256_nt ::
  "'c aes_kernels \<Rightarrow> build \<Rightarrow> isal_error \<Rightarrow> gcm_key_data option
   \<Rightarrow> 'c option \<Rightarrow> ptr \<Rightarrow> ptr \<Rightarrow> u64 \<Rightarrow> ptr
   \<Rightarrow> ptr \<Rightarrow> u64 \<Rightarrow> ptr \<Rightarrow> u64 \<Rightarrow> (isal_error
   \<times> 'c option \<times> ptr \<times> ptr) option" where
  "isal_aes_gcm_dec_256_nt K = gcm_checked K Dec Bits256 True"

definition isal_aes_gcm_enc_128_update_nt ::
  "'c aes_kernels \<Rightarrow> build \<Rightarrow> isal_error \<Rightarrow> gcm_key_data option
   \<Rightarrow> 'c option \<Rightarrow> ptr \<Rightarrow> ptr \<Rightarrow> u64 \<Rightarrow>
   (isal_error \<times> 'c option \<times> ptr) option" where
  "isal_aes_gcm_enc_128_update_nt K = gcm_update_checked K Enc Bits128 True"

definition isal_aes_gcm_enc_256_update_nt ::
  "'c aes_kernels \<Rightarrow> build \<Rightarrow> isal_error \<Rightarrow> gcm_key_data option
   \<Rightarrow> 'c option \<Rightarrow> ptr \<Rightarrow> ptr \<Rightarrow> u64 \<Rightarrow>
   (isal_error \<times> 'c option \<times> ptr) option" where
  "isal_aes_gcm_enc_256_update_nt K = gcm_update_checked K Enc Bits256 True"

definition isal_aes_gcm_dec_128_update_nt ::
  "'c aes_kernels \<Rightarrow> build \<Rightarrow> isal_error \<Rightarrow> gcm_key_data option
   \<Rightarrow> 'c option \<Rightarrow> ptr \<Rightarrow> ptr \<Rightarrow> u64 \<Rightarrow>
   (isal_error \<times> 'c option \<times> ptr) option" where
  "isal_aes_gcm_dec_128_update_nt K = gcm_update_checked K Dec Bits128 True"

definition isal_aes_gcm_dec_256_update_nt ::
  "'c aes_kernels \<Rightarrow> build \<Rightarrow> isal_error \<Rightarrow> gcm_key_data option
   \<Rightarrow> 'c option \<Rightarrow> ptr \<Rightarrow> ptr \<Rightarrow> u64 \<Rightarrow>
   (isal_error \<times> 'c option \<times> ptr) option" where
  "isal_aes_gcm_dec_256_update_nt K = gcm_update_checked K Dec Bits256 True"

definition isal_aes_gcm_init_128 ::
  "'c aes_kernels \<Rightarrow> build \<Rightarrow> isal_error \<Rightarrow> gcm_key_data option
   \<Rightarrow> 'c option \<Rightarrow> ptr \<Rightarrow> ptr \<Rightarrow> u64 \<Rightarrow>
   (isal_error \<times> 'c option) option" where
  "isal_aes_gcm_init_128 K = gcm_init_checked K Bits128"

definition isal_aes_gcm_enc_128_finalize ::
  "'c aes_kernels \<Rightarrow> build \<Rightarrow> isal_error \<Rightarrow> gcm_key_data option
   \<Rightarrow> 'c option \<Rightarrow> ptr \<Rightarrow> u64 \<Rightarrow> (isal_error \<times> 'c
   option \<times> ptr) option" where
  "isal_aes_gcm_enc_128_finalize K = gcm_finalize_checked K Enc Bits128"

definition isal_aes_gcm_dec_128_finalize ::
  "'c aes_kernels \<Rightarrow> build \<Rightarrow> isal_error \<Rightarrow> gcm_key_data option
   \<Rightarrow> 'c option \<Rightarrow> ptr \<Rightarrow> u64 \<Rightarrow> (isal_error \<times> 'c
   option \<times> ptr) option" where
  "isal_aes_gcm_dec_128_finalize K = gcm_finalize_checked K Dec Bits128"

definition isal_aes_gcm_pre_128 ::
  "'c aes_kernels \<Rightarrow> build \<Rightarrow> isal_error \<Rightarrow> ptr \<Rightarrow>
   gcm_key_data option \<Rightarrow> (isal_error \<times> gcm_key_data option) option" where
  "isal_aes_gcm_pre_128 K = gcm_pre_checked K Bits128"

definition isal_aes_gcm_init_256 ::
  "'c aes_kernels \<Rightarrow> build \<Rightarrow> isal_error \<Rightarrow> gcm_key_data option
   \<Rightarrow> 'c option \<Rightarrow> ptr \<Rightarrow> ptr \<Rightarrow> u64 \<Rightarrow>
   (isal_error \<times> 'c option) option" where
  "isal_aes_gcm_init_256 K = gcm_init_checked K Bits256"

definition isal_aes_gcm_enc_256_finalize ::
  "'c aes_kernels \<Rightarrow> build \<Rightarrow> isal_error \<Rightarrow> gcm_key_data option
   \<Rightarrow> 'c option \<Rightarrow> ptr \<Rightarrow> u64 \<Rightarrow> (isal_error \<times> 'c
   option \<times> ptr) option" where
  "isal_aes_gcm_enc_256_finalize K = gcm_finalize_checked K Enc Bits256"

definition isal_aes_gcm_dec_256_finalize ::
  "'c aes_kernels \<Rightarrow> build \<Rightarrow> isal_error \<Rightarrow> gcm_key_data option
   \<Rightarrow> 'c option \<Rightarrow> ptr \<Rightarrow> u64 \<Rightarrow> (isal_error \<times> 'c
   option \<times> ptr) option" where
  "isal_aes_gcm_dec_256_finalize K = gcm_finalize_checked K Dec Bits256"

definition isal_aes_gcm_pre_256 ::
  "'c aes_kernels \<Rightarrow> build \<Rightarrow> isal_error \<Rightarrow> ptr \<Rightarrow>
   gcm_key_data option \<Rightarrow> (isal_error \<times> gcm_key_data option) option" where
  "isal_aes_gcm_pre_256 K = gcm_pre_checked K Bits256"

definition aes_gcm_enc_128 ::
  "'c aes_kernels \<Rightarrow> gcm_key_data option \<Rightarrow> 'c option \<Rightarrow> ptr
   \<Rightarrow> ptr \<Rightarrow> u64 \<Rightarrow> ptr \<Rightarrow> ptr \<Rightarrow> u64
   \<Rightarrow> ptr \<Rightarrow> u64 \<Rightarrow> ('c option \<times> ptr \<times> ptr) option" where
  "aes_gcm_enc_128 K = gcm_call K Enc Bits128 False"

definition aes_gcm_enc_256 ::
  "'c aes_kernels \<Rightarrow> gcm_key_data option \<Rightarrow> 'c option \<Rightarrow> ptr
   \<Rightarrow> ptr \<Rightarrow> u64 \<Rightarrow> ptr \<Rightarrow> ptr \<Rightarrow> u64
   \<Rightarrow> ptr \<Rightarrow> u64 \<Rightarrow> ('c option \<times> ptr \<times> ptr) option" where
  "aes_gcm_enc_256 K = gcm_call K Enc Bits256 False"

definition aes_gcm_dec_128 ::
  "'c aes_kernels \<Rightarrow> gcm_key_data option \<Rightarrow> 'c option \<Rightarrow> ptr
   \<Rightarrow> ptr \<Rightarrow> u64 \<Rightarrow> ptr \<Rightarrow> ptr \<Rightarrow> u64
   \<Rightarrow> ptr \<Rightarrow> u64 \<Rightarrow> ('c option \<times> ptr \<times> ptr) option" where
  "aes_gcm_dec_128 K = gcm_call K Dec Bits128 False"

definition aes_gcm_dec_256 ::
  "'c aes_kernels \<Rightarrow> gcm_key_data option \<Rightarrow> 'c option \<Rightarrow> ptr
   \<Rightarrow> ptr \<Rightarrow> u64 \<Rightarrow> ptr \<Rightarrow> ptr \<Rightarrow> u64
   \<Rightarrow> ptr \<Rightarrow> u64 \<Rightarrow> ('c option \<times> ptr \<times> ptr) option" where
  "aes_gcm_dec_256 K = gcm_call K Dec Bits256 False"

definition aes_gcm_enc_128_update ::
  "'c aes_kernels \<Rightarrow> gcm_key_data option \<Rightarrow> 'c option \<Rightarrow> ptr
   \<Rightarrow> ptr \<Rightarrow> u64 \<Rightarrow> ('c option \<times> ptr) option" where
  "aes_gcm_enc_128_update K = gcm_update_call K Enc Bits128 False"

definition aes_gcm_enc_256_update ::
  "'c aes_kernels \<Rightarrow> gcm_key_data option \<Rightarrow> 'c option \<Rightarrow> ptr
   \<Rightarrow> ptr \<Rightarrow> u64 \<Rightarrow> ('c option \<times> ptr) option" where
  "aes_gcm_enc_256_update K = gcm_update_call K Enc Bits256 False"

definition aes_gcm_dec_128_update ::
  "'c aes_kernels \<Rightarrow> gcm_key_data option \<Rightarrow> 'c option \<Rightarrow> ptr
   \<Rightarrow> ptr \<Rightarrow> u64 \<Rightarrow> ('c option \<times> ptr) option" where
  "aes_gcm_dec_128_update K = gcm_update_call K Dec Bits128 False"

definition aes_gcm_dec_256_update ::
  "'c aes_kernels \<Rightarrow> gcm_key_data option \<Rightarrow> 'c option \<Rightarrow> ptr
   \<Rightarrow> ptr \<Rightarrow> u64 \<Rightarrow> ('c option \<times> ptr) option" where
  "aes_gcm_dec_256_update K = gcm_update_call K Dec Bits256 False"

definition aes_gcm_enc_128_nt ::
  "'c aes_kernels \<Rightarrow> gcm_key_data option \<Rightarrow> 'c option \<Rightarrow> ptr
   \<Rightarrow> ptr \<Rightarrow> u64 \<Rightarrow> ptr \<Rightarrow> ptr \<Rightarrow> u64
   \<Rightarrow> ptr \<Rightarrow> u64 \<Rightarrow> ('c option \<times> ptr \<times> ptr) option" where
  "aes_gcm_enc_128_nt K = gcm_call K Enc Bits128 True"

definition aes_gcm_enc_256_nt ::
  "'c aes_kernels \<Rightarrow> gcm_key_data option \<Rightarrow> 'c option \<Rightarrow> ptr
   \<Rightarrow> ptr \<Rightarrow> u64 \<Rightarrow> ptr \<Rightarrow> ptr \<Rightarrow> u64
   \<Rightarrow> ptr \<Rightarrow> u64 \<Rightarrow> ('c option \<times> ptr \<times> ptr) option" where
  "aes_gcm_enc_256_nt K = gcm_call K Enc Bits256 True"

definition aes_gcm_dec_128_nt ::
  "'c aes_kernels \<Rightarrow> gcm_key_data option \<Rightarrow> 'c option \<Rightarrow> ptr
   \<Rightarrow> ptr \<Rightarrow> u64 \<Rightarrow> ptr \<Rightarrow> ptr \<Rightarrow> u64
   \<Rightarrow> ptr \<Rightarrow> u64 \<Rightarrow> ('c option \<times> ptr \<times> ptr) option" where
  "aes_gcm_dec_128_nt K = gcm_call K Dec Bits128 True"

definition aes_gcm_dec_256_nt ::
  "'c aes_kernels \<Rightarrow> gcm_key_data option \<Rightarrow> 'c option \<Rightarrow> ptr
   \<Rightarrow> ptr \<Rightarrow> u64 \<Rightarrow> ptr \<Rightarrow> ptr \<Rightarrow> u64
   \<Rightarrow> ptr \<Rightarrow> u64 \<Rightarrow> ('c option \<times> ptr \<times> ptr) option" where
  "aes_gcm_dec_256_nt K = gcm_call K Dec Bits256 True"

definition aes_gcm_enc_128_update_nt ::
  "'c aes_kernels \<Rightarrow> gcm_key_data option \<Rightarrow> 'c option \<Rightarrow> ptr
   \<Rightarrow> ptr \<Rightarrow> u64 \<Rightarrow> ('c option \<times> ptr) option" where
  "aes_gcm_enc_128_update_nt K = gcm_update_call K Enc Bits128 True"

definition aes_gcm_enc_256_update_nt ::
  "'c aes_kernels \<Rightarrow> gcm_key_data option \<Rightarrow> 'c option \<Rightarrow> ptr
   \<Rightarrow> ptr \<Rightarrow> u64 \<Rightarrow> ('c option \<times> ptr) option" where
  "aes_gcm_enc_256_update_nt K = gcm_update_call K Enc Bits256 True"

definition aes_gcm_dec_128_update_nt ::
  "'c aes_kernels \<Rightarrow> gcm_key_data option \<Rightarrow> 'c option \<Rightarrow> ptr
   \<Rightarrow> ptr \<Rightarrow> u64 \<Rightarrow> ('c option \<times> ptr) option" where
  "aes_gcm_dec_128_update_nt K = gcm_update_call K Dec Bits128 True"

definition aes_gcm_dec_256_update_nt ::
  "'c aes_kernels \<Rightarrow> gcm_key_data option \<Rightarrow> 'c option \<Rightarrow> ptr
   \<Rightarrow> ptr \<Rightarrow> u64 \<Rightarrow> ('c option \<times> ptr) option" where
  "aes_gcm_dec_256_update_nt K = gcm_update_call K Dec Bits256 True"

definition aes_gcm_init_128 ::
  "'c aes_kernels \<Rightarrow> gcm_key_data option \<Rightarrow> 'c option \<Rightarrow> ptr
   \<Rightarrow> ptr \<Rightarrow> u64 \<Rightarrow> ('c option) option" where
  "aes_gcm_init_128 K = gcm_init_call K Bits128"

definition aes_gcm_enc_128_finalize ::
  "'c aes_kernels \<Rightarrow> gcm_key_data option \<Rightarrow> 'c option \<Rightarrow> ptr
   \<Rightarrow> u64 \<Rightarrow> ('c option \<times> ptr) option" where
  "aes_gcm_enc_128_finalize K = gcm_finalize_call K Enc Bits128"

definition aes_gcm_dec_128_finalize ::
  "'c aes_kernels \<Rightarrow> gcm_key_data option \<Rightarrow> 'c option \<Rightarrow> ptr
   \<Rightarrow> u64 \<Rightarrow> ('c option \<times> ptr) option" where
  "aes_gcm_dec_128_finalize K = gcm_finalize_call K Dec Bits128"

definition aes_gcm_pre_128 ::
  "'c aes_kernels \<Rightarrow> byte list \<Rightarrow> gcm_key_data \<Rightarrow> gcm_key_data" where
  "aes_gcm_pre_128 K = gcm_pre K Bits128"

definition aes_gcm_init_256 ::
  "'c aes_kernels \<Rightarrow> gcm_key_data option \<Rightarrow> 'c option \<Rightarrow> ptr
   \<Rightarrow> ptr \<Rightarrow> u64 \<Rightarrow> ('c option) option" where
  "aes_gcm_init_256 K = gcm_init_call K Bits256"

definition aes_gcm_enc_256_finalize ::
  "'c aes_kernels \<Rightarrow> gcm_key_data option \<Rightarrow> 'c option \<Rightarrow> ptr
   \<Rightarrow> u64 \<Rightarrow> ('c option \<times> ptr) option" where
  "aes_gcm_enc_256_finalize K = gcm_finalize_call K Enc Bits256"

definition aes_gcm_dec_256_finalize ::
  "'c aes_kernels \<Rightarrow> gcm_key_data option \<Rightarrow> 'c option \<Rightarrow> ptr
   \<Rightarrow> u64 \<Rightarrow> ('c option \<times> ptr) option" where
  "aes_gcm_dec_256_finalize K = gcm_finalize_call K Dec Bits256"

definition aes_gcm_pre_256 ::
  "'c aes_kernels \<Rightarrow> byte list \<Rightarrow> gcm_key_data \<Rightarrow> gcm_key_data" where
  "aes_gcm_pre_256 K = gcm_pre K Bits256"


section \<open>What the checks let through\<close>

text \<open>
  With \<open>SAFE_PARAM\<close> a wrapper never dereferences \<open>NULL\<close>. It succeeds exactly on the parameters
  the code lists, and in a FIPS build only when the self tests (and for XTS the comparison of the
  keys) passed; it then has the effect of the call, and otherwise none.
\<close>

definition safe_call ::
  "build \<Rightarrow> isal_error \<Rightarrow> bool \<Rightarrow> 'r \<Rightarrow> 'r option \<Rightarrow> (isal_error \<times> 'r) option \<Rightarrow> bool" where
  "safe_call b tests valid same call result \<longleftrightarrow>
     (\<exists>e r. result = Some (e, r) \<and> (e \<noteq> ERR_NONE \<longrightarrow> r = same) \<and>
        (e = ERR_NONE \<longleftrightarrow> valid \<and> (fips_mode b \<longrightarrow> tests = ERR_NONE)) \<and>
        (e = ERR_NONE \<longrightarrow> call = Some r))"

lemma read_in_ok: "(read_in p len = None) = (p = None \<and> len \<noteq> 0)"
  by (cases p) (simp_all add: read_in_def)

lemma write_out_ok: "(write_out p bytes len = None) = (p = None \<and> len \<noteq> 0)"
  by (cases p) (simp_all add: write_out_def)

lemma write_out_Some [simp]: "write_out (Some old) bytes len = Some (Some (memcpy_at old 0 bytes (unat len)))"
  by (simp add: write_out_def)

lemma keyexp_checked_safe:
  assumes "safe_param b"
  shows "\<exists>e r. keyexp_checked K n b tests key enc dec = Some (e, r) \<and> (e \<noteq> ERR_NONE \<longrightarrow> r = (enc, dec)) \<and>
    (e = ERR_NONE \<longleftrightarrow> (key \<noteq> None \<and> enc \<noteq> None \<and> dec \<noteq> None) \<and>
       (fips_mode b \<longrightarrow> tests = ERR_NONE)) \<and>
    (e = ERR_NONE \<longrightarrow> keyexp_call K n key enc dec = Some r)"
  unfolding keyexp_checked_def
  by (rule checked_plainI[OF assms]) (auto simp: keyexp_call_def split: prod.splits)

lemma cbc_checked_safe:
  assumes "safe_param b"
  shows "\<exists>e r. cbc_checked K d n b tests in_p iv keys out len = Some (e, r) \<and> (e \<noteq> ERR_NONE \<longrightarrow> r = out) \<and>
    (e = ERR_NONE \<longleftrightarrow> (keys \<noteq> None \<and> in_p \<noteq> None \<and> out \<noteq> None \<and> iv \<noteq> None \<and> len AND 0xf = 0) \<and>
       (fips_mode b \<longrightarrow> tests = ERR_NONE)) \<and>
    (e = ERR_NONE \<longrightarrow> cbc_call K d n in_p iv keys out len = Some r)"
  unfolding cbc_checked_def
  by (rule checked_plainI[OF assms]) (auto simp: cbc_call_def)

lemma xts_checked_safe:
  assumes "safe_param b" "null_key \<noteq> ERR_NONE"
  shows "\<exists>e r. xts_checked kern null_key kb b tests k2 k1 tweak len in_p out = Some (e, r) \<and>
    (e \<noteq> ERR_NONE \<longrightarrow> r = out) \<and>
    (e = ERR_NONE \<longleftrightarrow> (k1 \<noteq> None \<and> k2 \<noteq> None \<and> tweak \<noteq> None \<and> in_p \<noteq> None \<and> out \<noteq> None \<and>
         ISAL_AES_XTS_MIN_LEN \<le> len \<and> len \<le> ISAL_AES_XTS_MAX_LEN) \<and>
       (fips_mode b \<longrightarrow> (\<forall>t\<in>set [(take kb (the k1) = take kb (the k2), ERR_XTS_SAME_KEYS)]. \<not> fst t) \<and>
          tests = ERR_NONE)) \<and>
    (e = ERR_NONE \<longrightarrow> xts_call kern k2 k1 tweak len in_p out = Some r)"
  unfolding xts_checked_def
  by (rule checked_safeI[OF assms(1)]) (use assms(2) in \<open>auto simp: xts_call_def same_keys_def not_less\<close>)

lemma gcm_call_Some:
  assumes "kd \<noteq> None" "ctx \<noteq> None" "len \<noteq> 0 \<longrightarrow> out \<noteq> None \<and> in_p \<noteq> None" "iv \<noteq> None"
    "aad_len \<noteq> 0 \<longrightarrow> aad \<noteq> None" "tag \<noteq> None"
  shows "gcm_call K d n nt kd ctx out in_p len iv aad aad_len tag tag_len \<noteq> None"
proof -
  obtain k c iv' t where p: "kd = Some k" "ctx = Some c" "iv = Some iv'" "tag = Some t"
    using assms by auto
  obtain src aad' where r: "read_in in_p len = Some src" "read_in aad aad_len = Some aad'"
    using assms read_in_ok by (metis option.exhaust)
  obtain c' bs tg where k: "k_gcm_crypt K d n nt k c src len iv' aad' aad_len tag_len = (c', bs, tg)"
    by (metis prod_cases3)
  obtain out' where "write_out out bs len = Some out'"
    using assms write_out_ok by (metis option.exhaust)
  then show ?thesis by (simp add: gcm_call_def p r k)
qed

lemma gcm_checked_safe:
  assumes "safe_param b"
  shows "\<exists>e r. gcm_checked K d n nt b tests kd ctx out in_p len iv aad aad_len tag tag_len = Some (e, r) \<and>
    (e \<noteq> ERR_NONE \<longrightarrow> r = (ctx, out, tag)) \<and>
    (e = ERR_NONE \<longleftrightarrow> (kd \<noteq> None \<and> ctx \<noteq> None \<and> (len \<noteq> 0 \<longrightarrow> out \<noteq> None \<and> in_p \<noteq> None) \<and>
         len \<le> ISAL_GCM_MAX_LEN \<and> iv \<noteq> None \<and> (aad_len \<noteq> 0 \<longrightarrow> aad \<noteq> None) \<and> tag \<noteq> None \<and>
         tag_len \<in> {16, 12, 8}) \<and>
       (fips_mode b \<longrightarrow> tests = ERR_NONE)) \<and>
    (e = ERR_NONE \<longrightarrow> gcm_call K d n nt kd ctx out in_p len iv aad aad_len tag tag_len = Some r)"
  unfolding gcm_checked_def
proof (rule checked_plainI[OF assms])
  show "(kd \<noteq> None \<and> ctx \<noteq> None \<and> (len \<noteq> 0 \<longrightarrow> out \<noteq> None \<and> in_p \<noteq> None) \<and> len \<le> ISAL_GCM_MAX_LEN \<and>
       iv \<noteq> None \<and> (aad_len \<noteq> 0 \<longrightarrow> aad \<noteq> None) \<and> tag \<noteq> None \<and> tag_len \<in> {16, 12, 8}) =
    (\<forall>t\<in>set [(kd = None, ERR_NULL_EXP_KEY), (ctx = None, ERR_NULL_CTX), (out = None \<and> len \<noteq> 0, ERR_NULL_DST),
       (in_p = None \<and> len \<noteq> 0, ERR_NULL_SRC), (ISAL_GCM_MAX_LEN < len, ERR_CIPH_LEN), (iv = None, ERR_NULL_IV),
       (aad = None \<and> 0 < aad_len, ERR_NULL_AAD), (tag = None, ERR_NULL_AUTH),
       (tag_len \<noteq> ISAL_GCM_MAX_TAG_LEN \<and> tag_len \<noteq> 12 \<and> tag_len \<noteq> 8, ERR_AUTH_TAG_LEN)]. \<not> fst t)"
    by (auto simp: ISAL_GCM_MAX_TAG_LEN_def not_less word_gt_0)
next
  assume "kd \<noteq> None \<and> ctx \<noteq> None \<and> (len \<noteq> 0 \<longrightarrow> out \<noteq> None \<and> in_p \<noteq> None) \<and> len \<le> ISAL_GCM_MAX_LEN \<and>
    iv \<noteq> None \<and> (aad_len \<noteq> 0 \<longrightarrow> aad \<noteq> None) \<and> tag \<noteq> None \<and> tag_len \<in> {16, 12, 8}"
  then show "gcm_call K d n nt kd ctx out in_p len iv aad aad_len tag tag_len \<noteq> None"
    by (intro gcm_call_Some) blast+
qed simp

lemma gcm_init_checked_safe:
  assumes "safe_param b"
  shows "\<exists>e r. gcm_init_checked K n b tests kd ctx iv aad aad_len = Some (e, r) \<and> (e \<noteq> ERR_NONE \<longrightarrow> r = ctx) \<and>
    (e = ERR_NONE \<longleftrightarrow> (kd \<noteq> None \<and> ctx \<noteq> None \<and> iv \<noteq> None \<and> (aad_len \<noteq> 0 \<longrightarrow> aad \<noteq> None)) \<and>
       (fips_mode b \<longrightarrow> tests = ERR_NONE)) \<and>
    (e = ERR_NONE \<longrightarrow> gcm_init_call K n kd ctx iv aad aad_len = Some r)"
  unfolding gcm_init_checked_def
  by (rule checked_plainI[OF assms]) (auto simp: gcm_init_call_def read_in_def word_neq_0_conv)

lemma gcm_update_checked_safe:
  assumes "safe_param b"
  shows "\<exists>e r. gcm_update_checked K d n nt b tests kd ctx out in_p len = Some (e, r) \<and>
    (e \<noteq> ERR_NONE \<longrightarrow> r = (ctx, out)) \<and>
    (e = ERR_NONE \<longleftrightarrow> (kd \<noteq> None \<and> ctx \<noteq> None \<and> (len \<noteq> 0 \<longrightarrow> out \<noteq> None \<and> in_p \<noteq> None) \<and> len \<le> ISAL_GCM_MAX_LEN) \<and>
       (fips_mode b \<longrightarrow> tests = ERR_NONE)) \<and>
    (e = ERR_NONE \<longrightarrow> gcm_update_call K d n nt kd ctx out in_p len = Some r)"
  unfolding gcm_update_checked_def
  by (rule checked_plainI[OF assms])
    (auto simp: gcm_update_call_def read_in_def write_out_def word_neq_0_conv not_less split: prod.splits)

lemma gcm_finalize_checked_safe:
  assumes "safe_param b"
  shows "\<exists>e r. gcm_finalize_checked K d n b tests kd ctx tag tag_len = Some (e, r) \<and>
    (e \<noteq> ERR_NONE \<longrightarrow> r = (ctx, tag)) \<and>
    (e = ERR_NONE \<longleftrightarrow> (kd \<noteq> None \<and> ctx \<noteq> None \<and> tag \<noteq> None \<and> tag_len \<in> {16, 12, 8}) \<and>
       (fips_mode b \<longrightarrow> tests = ERR_NONE)) \<and>
    (e = ERR_NONE \<longrightarrow> gcm_finalize_call K d n kd ctx tag tag_len = Some r)"
  unfolding gcm_finalize_checked_def
  by (rule checked_plainI[OF assms])
    (auto simp: gcm_finalize_call_def ISAL_GCM_MAX_TAG_LEN_def split: prod.splits)

lemma gcm_pre_checked_safe:
  assumes "safe_param b"
  shows "safe_call b tests (key \<noteq> None \<and> kd \<noteq> None) kd
    (do { key \<leftarrow> key; kd \<leftarrow> kd; Some (Some (gcm_pre K n key kd)) }) (gcm_pre_checked K n b tests key kd)"
  unfolding safe_call_def gcm_pre_checked_def
  by (rule checked_plainI[OF assms]) auto

text \<open>The entry point without the gate answers as if the self tests had passed.\<close>

lemma gcm_dec_256_update_safe:
  assumes "safe_param b"
  shows "safe_call b ERR_NONE
    (kd \<noteq> None \<and> ctx \<noteq> None \<and> (len \<noteq> 0 \<longrightarrow> out \<noteq> None \<and> in_p \<noteq> None) \<and> len \<le> ISAL_GCM_MAX_LEN) (ctx, out)
    (gcm_update_call K Dec Bits256 False kd ctx out in_p len)
    (isal_aes_gcm_dec_256_update K b tests kd ctx out in_p len)"
proof -
  have "safe_param (b\<lparr>fips_mode := False\<rparr>)" using assms by simp
  from gcm_update_checked_safe[OF this, of K Dec Bits256 False tests kd ctx out in_p len] show ?thesis
    unfolding safe_call_def isal_aes_gcm_dec_256_update_def by simp
qed

section \<open>Equal keys of XTS\<close>

text \<open>
  The functions on plain keys refuse equal keys. The decryption on expanded keys compares the
  decryption schedule of one key with the encryption schedule of the other, so it notices equal
  keys only if the two schedules of a key coincide.
\<close>

lemma xts_dec_expanded_same_key:
  assumes "safe_param b" "tests = ERR_NONE" "k_keyexp K n key = (enc, dec)" "take kb enc \<noteq> take kb dec"
    "ISAL_AES_XTS_MIN_LEN \<le> len" "len \<le> ISAL_AES_XTS_MAX_LEN"
  shows "xts_checked kern ERR_NULL_EXP_KEY kb b tests (Some enc) (Some dec) (Some tweak) len (Some src) (Some dst)
    = Some (ERR_NONE, Some (memcpy_at dst 0 (kern enc dec tweak len src) (unat len)))"
  using xts_checked_safe[OF assms(1), of ERR_NULL_EXP_KEY kern kb tests "Some enc" "Some dec" "Some tweak" len
      "Some src" "Some dst"] assms(2,4-6)
  by (auto simp: xts_call_def)

end
