(* ===== verification/AesSelfTest.thy ===== *)
theory AesSelfTest
  imports AesApi
begin

text \<open>
  The AES self tests of \<open>fips/aes_self_tests.c\<close> over the ciphers of \<open>aes_kernels\<close>: every known
  answer is checked in both directions, with plain and with expanded keys for XTS, with the
  single call and with the calls in steps for GCM. \<open>junk\<close> is what the local variables hold when a
  function is entered. A function returns 1 when a vector passes; the calls in steps of GCM write
  their tag over the expected one of the vector, so that function returns the vector too.
\<close>

record cbc_vector =
  cv_key :: "byte list"
  cv_key_size :: nat
  cv_iv :: "byte list"
  cv_plain :: "byte list"
  cv_plain_size :: nat
  cv_cipher :: "byte list"

record xts_vector =
  xv_key1 :: "byte list"
  xv_key2 :: "byte list"
  xv_key_size :: nat
  xv_tweak :: "byte list"
  xv_plain :: "byte list"
  xv_plain_size :: nat
  xv_cipher :: "byte list"

record gcm_vector =
  gv_key :: "byte list"
  gv_key_size :: nat
  gv_iv :: "byte list"
  gv_plain :: "byte list"
  gv_plain_size :: nat
  gv_cipher :: "byte list"
  gv_aad :: "byte list"
  gv_aad_size :: nat
  gv_tag :: "byte list"
  gv_tag_size :: nat

section \<open>The vectors\<close>

definition aes_cbc_128_key :: "byte list" where
  "aes_cbc_128_key =
    [0x2b, 0x7e, 0x15, 0x16, 0x28, 0xae, 0xd2, 0xa6, 0xab, 0xf7, 0x15, 0x88, 0x09, 0xcf, 0x4f, 0x3c]"

definition aes_cbc_128_iv :: "byte list" where
  "aes_cbc_128_iv =
    [0, 0x01, 0x02, 0x03, 0x04, 0x05, 0x06, 0x07, 0x08, 0x09, 0x0a, 0x0b, 0x0c, 0x0d, 0x0e, 0x0f]"

definition aes_cbc_128_plaintext :: "byte list" where
  "aes_cbc_128_plaintext =
    [0x6b, 0xc1, 0xbe, 0xe2, 0x2e, 0x40, 0x9f, 0x96, 0xe9, 0x3d, 0x7e, 0x11, 0x73, 0x93, 0x17, 0x2a,
    0xae, 0x2d, 0x8a, 0x57, 0x1e, 0x03, 0xac, 0x9c, 0x9e, 0xb7, 0x6f, 0xac, 0x45, 0xaf, 0x8e,
    0x51, 0x30, 0xc8, 0x1c, 0x46, 0xa3, 0x5c, 0xe4, 0x11, 0xe5, 0xfb, 0xc1, 0x19, 0x1a, 0x0a,
    0x52, 0xef, 0xf6, 0x9f, 0x24, 0x45, 0xdf, 0x4f, 0x9b, 0x17, 0xad, 0x2b, 0x41, 0x7b, 0xe6,
    0x6c, 0x37, 0x10]"

definition aes_cbc_128_ciphertext :: "byte list" where
  "aes_cbc_128_ciphertext =
    [0x76, 0x49, 0xab, 0xac, 0x81, 0x19, 0xb2, 0x46, 0xce, 0xe9, 0x8e, 0x9b, 0x12, 0xe9, 0x19, 0x7d,
    0x50, 0x86, 0xcb, 0x9b, 0x50, 0x72, 0x19, 0xee, 0x95, 0xdb, 0x11, 0x3a, 0x91, 0x76, 0x78,
    0xb2, 0x73, 0xbe, 0xd6, 0xb8, 0xe3, 0xc1, 0x74, 0x3b, 0x71, 0x16, 0xe6, 0x9e, 0x22, 0x22,
    0x95, 0x16, 0x3f, 0xf1, 0xca, 0xa1, 0x68, 0x1f, 0xac, 0x09, 0x12, 0x0e, 0xca, 0x30, 0x75,
    0x86, 0xe1, 0xa7]"

definition aes_cbc_192_key :: "byte list" where
  "aes_cbc_192_key =
    [0x8e, 0x73, 0xb0, 0xf7, 0xda, 0x0e, 0x64, 0x52, 0xc8, 0x10, 0xf3, 0x2b, 0x80, 0x90, 0x79, 0xe5,
    0x62, 0xf8, 0xea, 0xd2, 0x52, 0x2c, 0x6b, 0x7b]"

definition aes_cbc_192_iv :: "byte list" where
  "aes_cbc_192_iv =
    [0, 0x01, 0x02, 0x03, 0x04, 0x05, 0x06, 0x07, 0x08, 0x09, 0x0a, 0x0b, 0x0c, 0x0d, 0x0e, 0x0f]"

definition aes_cbc_192_plaintext :: "byte list" where
  "aes_cbc_192_plaintext =
    [0x6b, 0xc1, 0xbe, 0xe2, 0x2e, 0x40, 0x9f, 0x96, 0xe9, 0x3d, 0x7e, 0x11, 0x73, 0x93, 0x17, 0x2a,
    0xae, 0x2d, 0x8a, 0x57, 0x1e, 0x03, 0xac, 0x9c, 0x9e, 0xb7, 0x6f, 0xac, 0x45, 0xaf, 0x8e,
    0x51, 0x30, 0xc8, 0x1c, 0x46, 0xa3, 0x5c, 0xe4, 0x11, 0xe5, 0xfb, 0xc1, 0x19, 0x1a, 0x0a,
    0x52, 0xef, 0xf6, 0x9f, 0x24, 0x45, 0xdf, 0x4f, 0x9b, 0x17, 0xad, 0x2b, 0x41, 0x7b, 0xe6,
    0x6c, 0x37, 0x10]"

definition aes_cbc_192_ciphertext :: "byte list" where
  "aes_cbc_192_ciphertext =
    [0x4f, 0x02, 0x1d, 0xb2, 0x43, 0xbc, 0x63, 0x3d, 0x71, 0x78, 0x18, 0x3a, 0x9f, 0xa0, 0x71, 0xe8,
    0xb4, 0xd9, 0xad, 0xa9, 0xad, 0x7d, 0xed, 0xf4, 0xe5, 0xe7, 0x38, 0x76, 0x3f, 0x69, 0x14,
    0x5a, 0x57, 0x1b, 0x24, 0x20, 0x12, 0xfb, 0x7a, 0xe0, 0x7f, 0xa9, 0xba, 0xac, 0x3d, 0xf1,
    0x02, 0xe0, 0x08, 0xb0, 0xe2, 0x79, 0x88, 0x59, 0x88, 0x81, 0xd9, 0x20, 0xa9, 0xe6, 0x4f,
    0x56, 0x15, 0xcd]"

definition aes_cbc_256_key :: "byte list" where
  "aes_cbc_256_key =
    [0x60, 0x3d, 0xeb, 0x10, 0x15, 0xca, 0x71, 0xbe, 0x2b, 0x73, 0xae, 0xf0, 0x85, 0x7d, 0x77, 0x81,
    0x1f, 0x35, 0x2c, 0x07, 0x3b, 0x61, 0x08, 0xd7, 0x2d, 0x98, 0x10, 0xa3, 0x09, 0x14, 0xdf,
    0xf4]"

definition aes_cbc_256_iv :: "byte list" where
  "aes_cbc_256_iv =
    [0, 0x01, 0x02, 0x03, 0x04, 0x05, 0x06, 0x07, 0x08, 0x09, 0x0a, 0x0b, 0x0c, 0x0d, 0x0e, 0x0f]"

definition aes_cbc_256_plaintext :: "byte list" where
  "aes_cbc_256_plaintext =
    [0x6b, 0xc1, 0xbe, 0xe2, 0x2e, 0x40, 0x9f, 0x96, 0xe9, 0x3d, 0x7e, 0x11, 0x73, 0x93, 0x17, 0x2a,
    0xae, 0x2d, 0x8a, 0x57, 0x1e, 0x03, 0xac, 0x9c, 0x9e, 0xb7, 0x6f, 0xac, 0x45, 0xaf, 0x8e,
    0x51, 0x30, 0xc8, 0x1c, 0x46, 0xa3, 0x5c, 0xe4, 0x11, 0xe5, 0xfb, 0xc1, 0x19, 0x1a, 0x0a,
    0x52, 0xef, 0xf6, 0x9f, 0x24, 0x45, 0xdf, 0x4f, 0x9b, 0x17, 0xad, 0x2b, 0x41, 0x7b, 0xe6,
    0x6c, 0x37, 0x10]"

definition aes_cbc_256_ciphertext :: "byte list" where
  "aes_cbc_256_ciphertext =
    [0xf5, 0x8c, 0x4c, 0x04, 0xd6, 0xe5, 0xf1, 0xba, 0x77, 0x9e, 0xab, 0xfb, 0x5f, 0x7b, 0xfb, 0xd6,
    0x9c, 0xfc, 0x4e, 0x96, 0x7e, 0xdb, 0x80, 0x8d, 0x67, 0x9f, 0x77, 0x7b, 0xc6, 0x70, 0x2c,
    0x7d, 0x39, 0xf2, 0x33, 0x69, 0xa9, 0xd9, 0xba, 0xcf, 0xa5, 0x30, 0xe2, 0x63, 0x04, 0x23,
    0x14, 0x61, 0xb2, 0xeb, 0x05, 0xe2, 0xc3, 0x9b, 0xe9, 0xfc, 0xda, 0x6c, 0x19, 0x07, 0x8c,
    0x6a, 0x9d, 0x1b]"

definition aes_xts_128_key1 :: "byte list" where
  "aes_xts_128_key1 =
    [0x11, 0x11, 0x11, 0x11, 0x11, 0x11, 0x11, 0x11, 0x11, 0x11, 0x11, 0x11, 0x11, 0x11, 0x11, 0x11]"

definition aes_xts_128_key2 :: "byte list" where
  "aes_xts_128_key2 =
    [0x22, 0x22, 0x22, 0x22, 0x22, 0x22, 0x22, 0x22, 0x22, 0x22, 0x22, 0x22, 0x22, 0x22, 0x22, 0x22]"

definition aes_xts_128_tweak :: "byte list" where
  "aes_xts_128_tweak =
    [0x33, 0x33, 0x33, 0x33, 0x33, 0, 0, 0, 0, 0, 0, 0, 0, 0, 0, 0]"

definition aes_xts_128_plaintext :: "byte list" where
  "aes_xts_128_plaintext =
    [0x44, 0x44, 0x44, 0x44, 0x44, 0x44, 0x44, 0x44, 0x44, 0x44, 0x44, 0x44, 0x44, 0x44, 0x44, 0x44,
    0x44, 0x44, 0x44, 0x44, 0x44, 0x44, 0x44, 0x44, 0x44, 0x44, 0x44, 0x44, 0x44, 0x44, 0x44,
    0x44]"

definition aes_xts_128_ciphertext :: "byte list" where
  "aes_xts_128_ciphertext =
    [0xc4, 0x54, 0x18, 0x5e, 0x6a, 0x16, 0x93, 0x6e, 0x39, 0x33, 0x40, 0x38, 0xac, 0xef, 0x83, 0x8b,
    0xfb, 0x18, 0x6f, 0xff, 0x74, 0x80, 0xad, 0xc4, 0x28, 0x93, 0x82, 0xec, 0xd6, 0xd3, 0x94,
    0xf0]"

definition aes_xts_256_key1 :: "byte list" where
  "aes_xts_256_key1 =
    [0x27, 0x18, 0x28, 0x18, 0x28, 0x45, 0x90, 0x45, 0x23, 0x53, 0x60, 0x28, 0x74, 0x71, 0x35, 0x26,
    0x62, 0x49, 0x77, 0x57, 0x24, 0x70, 0x93, 0x69, 0x99, 0x59, 0x57, 0x49, 0x66, 0x96, 0x76,
    0x27]"

definition aes_xts_256_key2 :: "byte list" where
  "aes_xts_256_key2 =
    [0x31, 0x41, 0x59, 0x26, 0x53, 0x58, 0x97, 0x93, 0x23, 0x84, 0x62, 0x64, 0x33, 0x83, 0x27, 0x95,
    0x02, 0x88, 0x41, 0x97, 0x16, 0x93, 0x99, 0x37, 0x51, 0x05, 0x82, 0x09, 0x74, 0x94, 0x45,
    0x92]"

definition aes_xts_256_tweak :: "byte list" where
  "aes_xts_256_tweak =
    [0xff, 0, 0, 0, 0, 0, 0, 0, 0, 0, 0, 0, 0, 0, 0, 0]"

definition aes_xts_256_plaintext :: "byte list" where
  "aes_xts_256_plaintext =
    [0, 0x01, 0x02, 0x03, 0x04, 0x05, 0x06, 0x07, 0x08, 0x09, 0x0a, 0x0b, 0x0c, 0x0d, 0x0e, 0x0f,
    0x10, 0x11, 0x12, 0x13, 0x14, 0x15, 0x16, 0x17, 0x18, 0x19, 0x1a, 0x1b, 0x1c, 0x1d, 0x1e,
    0x1f, 0x20, 0x21, 0x22, 0x23, 0x24, 0x25, 0x26, 0x27, 0x28, 0x29, 0x2a, 0x2b, 0x2c, 0x2d,
    0x2e, 0x2f, 0x30, 0x31, 0x32, 0x33, 0x34, 0x35, 0x36, 0x37, 0x38, 0x39, 0x3a, 0x3b, 0x3c,
    0x3d, 0x3e, 0x3f, 0x40, 0x41, 0x42, 0x43, 0x44, 0x45, 0x46, 0x47, 0x48, 0x49, 0x4a, 0x4b,
    0x4c, 0x4d, 0x4e, 0x4f, 0x50, 0x51, 0x52, 0x53, 0x54, 0x55, 0x56, 0x57, 0x58, 0x59, 0x5a,
    0x5b, 0x5c, 0x5d, 0x5e, 0x5f, 0x60, 0x61, 0x62, 0x63, 0x64, 0x65, 0x66, 0x67, 0x68, 0x69,
    0x6a, 0x6b, 0x6c, 0x6d, 0x6e, 0x6f, 0x70, 0x71, 0x72, 0x73, 0x74, 0x75, 0x76, 0x77, 0x78,
    0x79, 0x7a, 0x7b, 0x7c, 0x7d, 0x7e, 0x7f, 0x80, 0x81, 0x82, 0x83, 0x84, 0x85, 0x86, 0x87,
    0x88, 0x89, 0x8a, 0x8b, 0x8c, 0x8d, 0x8e, 0x8f, 0x90, 0x91, 0x92, 0x93, 0x94, 0x95, 0x96,
    0x97, 0x98, 0x99, 0x9a, 0x9b, 0x9c, 0x9d, 0x9e, 0x9f, 0xa0, 0xa1, 0xa2, 0xa3, 0xa4, 0xa5,
    0xa6, 0xa7, 0xa8, 0xa9, 0xaa, 0xab, 0xac, 0xad, 0xae, 0xaf, 0xb0, 0xb1, 0xb2, 0xb3, 0xb4,
    0xb5, 0xb6, 0xb7, 0xb8, 0xb9, 0xba, 0xbb, 0xbc, 0xbd, 0xbe, 0xbf, 0xc0, 0xc1, 0xc2, 0xc3,
    0xc4, 0xc5, 0xc6, 0xc7, 0xc8, 0xc9, 0xca, 0xcb, 0xcc, 0xcd, 0xce, 0xcf, 0xd0, 0xd1, 0xd2,
    0xd3, 0xd4, 0xd5, 0xd6, 0xd7, 0xd8, 0xd9, 0xda, 0xdb, 0xdc, 0xdd, 0xde, 0xdf, 0xe0, 0xe1,
    0xe2, 0xe3, 0xe4, 0xe5, 0xe6, 0xe7, 0xe8, 0xe9, 0xea, 0xeb, 0xec, 0xed, 0xee, 0xef, 0xf0,
    0xf1, 0xf2, 0xf3, 0xf4, 0xf5, 0xf6, 0xf7, 0xf8, 0xf9, 0xfa, 0xfb, 0xfc, 0xfd, 0xfe, 0xff, 0,
    0x01, 0x02, 0x03, 0x04, 0x05, 0x06, 0x07, 0x08, 0x09, 0x0a, 0x0b, 0x0c, 0x0d, 0x0e, 0x0f,
    0x10, 0x11, 0x12, 0x13, 0x14, 0x15, 0x16, 0x17, 0x18, 0x19, 0x1a, 0x1b, 0x1c, 0x1d, 0x1e,
    0x1f, 0x20, 0x21, 0x22, 0x23, 0x24, 0x25, 0x26, 0x27, 0x28, 0x29, 0x2a, 0x2b, 0x2c, 0x2d,
    0x2e, 0x2f, 0x30, 0x31, 0x32, 0x33, 0x34, 0x35, 0x36, 0x37, 0x38, 0x39, 0x3a, 0x3b, 0x3c,
    0x3d, 0x3e, 0x3f, 0x40, 0x41, 0x42, 0x43, 0x44, 0x45, 0x46, 0x47, 0x48, 0x49, 0x4a, 0x4b,
    0x4c, 0x4d, 0x4e, 0x4f, 0x50, 0x51, 0x52, 0x53, 0x54, 0x55, 0x56, 0x57, 0x58, 0x59, 0x5a,
    0x5b, 0x5c, 0x5d, 0x5e, 0x5f, 0x60, 0x61, 0x62, 0x63, 0x64, 0x65, 0x66, 0x67, 0x68, 0x69,
    0x6a, 0x6b, 0x6c, 0x6d, 0x6e, 0x6f, 0x70, 0x71, 0x72, 0x73, 0x74, 0x75, 0x76, 0x77, 0x78,
    0x79, 0x7a, 0x7b, 0x7c, 0x7d, 0x7e, 0x7f, 0x80, 0x81, 0x82, 0x83, 0x84, 0x85, 0x86, 0x87,
    0x88, 0x89, 0x8a, 0x8b, 0x8c, 0x8d, 0x8e, 0x8f, 0x90, 0x91, 0x92, 0x93, 0x94, 0x95, 0x96,
    0x97, 0x98, 0x99, 0x9a, 0x9b, 0x9c, 0x9d, 0x9e, 0x9f, 0xa0, 0xa1, 0xa2, 0xa3, 0xa4, 0xa5,
    0xa6, 0xa7, 0xa8, 0xa9, 0xaa, 0xab, 0xac, 0xad, 0xae, 0xaf, 0xb0, 0xb1, 0xb2, 0xb3, 0xb4,
    0xb5, 0xb6, 0xb7, 0xb8, 0xb9, 0xba, 0xbb, 0xbc, 0xbd, 0xbe, 0xbf, 0xc0, 0xc1, 0xc2, 0xc3,
    0xc4, 0xc5, 0xc6, 0xc7, 0xc8, 0xc9, 0xca, 0xcb, 0xcc, 0xcd, 0xce, 0xcf, 0xd0, 0xd1, 0xd2,
    0xd3, 0xd4, 0xd5, 0xd6, 0xd7, 0xd8, 0xd9, 0xda, 0xdb, 0xdc, 0xdd, 0xde, 0xdf, 0xe0, 0xe1,
    0xe2, 0xe3, 0xe4, 0xe5, 0xe6, 0xe7, 0xe8, 0xe9, 0xea, 0xeb, 0xec, 0xed, 0xee, 0xef, 0xf0,
    0xf1, 0xf2, 0xf3, 0xf4, 0xf5, 0xf6, 0xf7, 0xf8, 0xf9, 0xfa, 0xfb, 0xfc, 0xfd, 0xfe, 0xff]"

definition aes_xts_256_ciphertext :: "byte list" where
  "aes_xts_256_ciphertext =
    [0x1c, 0x3b, 0x3a, 0x10, 0x2f, 0x77, 0x03, 0x86, 0xe4, 0x83, 0x6c, 0x99, 0xe3, 0x70, 0xcf, 0x9b,
    0xea, 0, 0x80, 0x3f, 0x5e, 0x48, 0x23, 0x57, 0xa4, 0xae, 0x12, 0xd4, 0x14, 0xa3, 0xe6, 0x3b,
    0x5d, 0x31, 0xe2, 0x76, 0xf8, 0xfe, 0x4a, 0x8d, 0x66, 0xb3, 0x17, 0xf9, 0xac, 0x68, 0x3f,
    0x44, 0x68, 0x0a, 0x86, 0xac, 0x35, 0xad, 0xfc, 0x33, 0x45, 0xbe, 0xfe, 0xcb, 0x4b, 0xb1,
    0x88, 0xfd, 0x57, 0x76, 0x92, 0x6c, 0x49, 0xa3, 0x09, 0x5e, 0xb1, 0x08, 0xfd, 0x10, 0x98,
    0xba, 0xec, 0x70, 0xaa, 0xa6, 0x69, 0x99, 0xa7, 0x2a, 0x82, 0xf2, 0x7d, 0x84, 0x8b, 0x21,
    0xd4, 0xa7, 0x41, 0xb0, 0xc5, 0xcd, 0x4d, 0x5f, 0xff, 0x9d, 0xac, 0x89, 0xae, 0xba, 0x12,
    0x29, 0x61, 0xd0, 0x3a, 0x75, 0x71, 0x23, 0xe9, 0x87, 0x0f, 0x8a, 0xcf, 0x10, 0, 0x02, 0x08,
    0x87, 0x89, 0x14, 0x29, 0xca, 0x2a, 0x3e, 0x7a, 0x7d, 0x7d, 0xf7, 0xb1, 0x03, 0x55, 0x16,
    0x5c, 0x8b, 0x9a, 0x6d, 0x0a, 0x7d, 0xe8, 0xb0, 0x62, 0xc4, 0x50, 0x0d, 0xc4, 0xcd, 0x12,
    0x0c, 0x0f, 0x74, 0x18, 0xda, 0xe3, 0xd0, 0xb5, 0x78, 0x1c, 0x34, 0x80, 0x3f, 0xa7, 0x54,
    0x21, 0xc7, 0x90, 0xdf, 0xe1, 0xde, 0x18, 0x34, 0xf2, 0x80, 0xd7, 0x66, 0x7b, 0x32, 0x7f,
    0x6c, 0x8c, 0xd7, 0x55, 0x7e, 0x12, 0xac, 0x3a, 0x0f, 0x93, 0xec, 0x05, 0xc5, 0x2e, 0x04,
    0x93, 0xef, 0x31, 0xa1, 0x2d, 0x3d, 0x92, 0x60, 0xf7, 0x9a, 0x28, 0x9d, 0x6a, 0x37, 0x9b,
    0xc7, 0x0c, 0x50, 0x84, 0x14, 0x73, 0xd1, 0xa8, 0xcc, 0x81, 0xec, 0x58, 0x3e, 0x96, 0x45,
    0xe0, 0x7b, 0x8d, 0x96, 0x70, 0x65, 0x5b, 0xa5, 0xbb, 0xcf, 0xec, 0xc6, 0xdc, 0x39, 0x66,
    0x38, 0x0a, 0xd8, 0xfe, 0xcb, 0x17, 0xb6, 0xba, 0x02, 0x46, 0x9a, 0x02, 0x0a, 0x84, 0xe1,
    0x8e, 0x8f, 0x84, 0x25, 0x20, 0x70, 0xc1, 0x3e, 0x9f, 0x1f, 0x28, 0x9b, 0xe5, 0x4f, 0xbc,
    0x48, 0x14, 0x57, 0x77, 0x8f, 0x61, 0x60, 0x15, 0xe1, 0x32, 0x7a, 0x02, 0xb1, 0x40, 0xf1,
    0x50, 0x5e, 0xb3, 0x09, 0x32, 0x6d, 0x68, 0x37, 0x8f, 0x83, 0x74, 0x59, 0x5c, 0x84, 0x9d,
    0x84, 0xf4, 0xc3, 0x33, 0xec, 0x44, 0x23, 0x88, 0x51, 0x43, 0xcb, 0x47, 0xbd, 0x71, 0xc5,
    0xed, 0xae, 0x9b, 0xe6, 0x9a, 0x2f, 0xfe, 0xce, 0xb1, 0xbe, 0xc9, 0xde, 0x24, 0x4f, 0xbe,
    0x15, 0x99, 0x2b, 0x11, 0xb7, 0x7c, 0x04, 0x0f, 0x12, 0xbd, 0x8f, 0x6a, 0x97, 0x5a, 0x44,
    0xa0, 0xf9, 0x0c, 0x29, 0xa9, 0xab, 0xc3, 0xd4, 0xd8, 0x93, 0x92, 0x72, 0x84, 0xc5, 0x87,
    0x54, 0xcc, 0xe2, 0x94, 0x52, 0x9f, 0x86, 0x14, 0xdc, 0xd2, 0xab, 0xa9, 0x91, 0x92, 0x5f,
    0xed, 0xc4, 0xae, 0x74, 0xff, 0xac, 0x6e, 0x33, 0x3b, 0x93, 0xeb, 0x4a, 0xff, 0x04, 0x79,
    0xda, 0x9a, 0x41, 0x0e, 0x44, 0x50, 0xe0, 0xdd, 0x7a, 0xe4, 0xc6, 0xe2, 0x91, 0x09, 0, 0x57,
    0x5d, 0xa4, 0x01, 0xfc, 0x07, 0x05, 0x9f, 0x64, 0x5e, 0x8b, 0x7e, 0x9b, 0xfd, 0xef, 0x33,
    0x94, 0x30, 0x54, 0xff, 0x84, 0x01, 0x14, 0x93, 0xc2, 0x7b, 0x34, 0x29, 0xea, 0xed, 0xb4,
    0xed, 0x53, 0x76, 0x44, 0x1a, 0x77, 0xed, 0x43, 0x85, 0x1a, 0xd7, 0x7f, 0x16, 0xf5, 0x41,
    0xdf, 0xd2, 0x69, 0xd5, 0x0d, 0x6a, 0x5f, 0x14, 0xfb, 0x0a, 0xab, 0x1c, 0xbb, 0x4c, 0x15,
    0x50, 0xbe, 0x97, 0xf7, 0xab, 0x40, 0x66, 0x19, 0x3c, 0x4c, 0xaa, 0x77, 0x3d, 0xad, 0x38,
    0x01, 0x4b, 0xd2, 0x09, 0x2f, 0xa7, 0x55, 0xc8, 0x24, 0xbb, 0x5e, 0x54, 0xc4, 0xf3, 0x6f,
    0xfd, 0xa9, 0xfc, 0xea, 0x70, 0xb9, 0xc6, 0xe6, 0x93, 0xe1, 0x48, 0xc1, 0x51]"

definition aes_gcm_128_key :: "byte list" where
  "aes_gcm_128_key =
    [0xad, 0x7a, 0x2b, 0xd0, 0x3e, 0xac, 0x83, 0x5a, 0x6f, 0x62, 0x0f, 0xdc, 0xb5, 0x06, 0xb3, 0x45]"

definition aes_gcm_128_plaintext :: "byte list" where
  "aes_gcm_128_plaintext =
    [0x08, 0, 0x0f, 0x10, 0x11, 0x12, 0x13, 0x14, 0x15, 0x16, 0x17, 0x18, 0x19, 0x1a, 0x1b, 0x1c,
    0x1d, 0x1e, 0x1f, 0x20, 0x21, 0x22, 0x23, 0x24, 0x25, 0x26, 0x27, 0x28, 0x29, 0x2a, 0x2b,
    0x2c, 0x2d, 0x2e, 0x2f, 0x30, 0x31, 0x32, 0x33, 0x34, 0x35, 0x36, 0x37, 0x38, 0x39, 0x3a, 0,
    0x02]"

definition aes_gcm_128_iv :: "byte list" where
  "aes_gcm_128_iv =
    [0x12, 0x15, 0x35, 0x24, 0xc0, 0x89, 0x5e, 0x81, 0xb2, 0xc2, 0x84, 0x65]"

definition aes_gcm_128_aad :: "byte list" where
  "aes_gcm_128_aad =
    [0xd6, 0x09, 0xb1, 0xf0, 0x56, 0x63, 0x7a, 0x0d, 0x46, 0xdf, 0x99, 0x8d, 0x88, 0xe5, 0x2e, 0,
    0xb2, 0xc2, 0x84, 0x65, 0x12, 0x15, 0x35, 0x24, 0xc0, 0x89, 0x5e, 0x81]"

definition aes_gcm_128_ciphertext :: "byte list" where
  "aes_gcm_128_ciphertext =
    [0x70, 0x1a, 0xfa, 0x1c, 0xc0, 0x39, 0xc0, 0xd7, 0x65, 0x12, 0x8a, 0x66, 0x5d, 0xab, 0x69, 0x24,
    0x38, 0x99, 0xbf, 0x73, 0x18, 0xcc, 0xdc, 0x81, 0xc9, 0x93, 0x1d, 0xa1, 0x7f, 0xbe, 0x8e,
    0xdd, 0x7d, 0x17, 0xcb, 0x8b, 0x4c, 0x26, 0xfc, 0x81, 0xe3, 0x28, 0x4f, 0x2b, 0x7f, 0xba,
    0x71, 0x3d]"

definition aes_gcm_128_tag :: "byte list" where
  "aes_gcm_128_tag =
    [0x4f, 0x8d, 0x55, 0xe7, 0xd3, 0xf0, 0x6f, 0xd5, 0xa1, 0x3c, 0x0c, 0x29, 0xb9, 0xd5, 0xb8, 0x80]"

definition aes_gcm_256_key :: "byte list" where
  "aes_gcm_256_key =
    [0xfe, 0xff, 0xe9, 0x92, 0x86, 0x65, 0x73, 0x1c, 0x6d, 0x6a, 0x8f, 0x94, 0x67, 0x30, 0x83, 0x08,
    0xfe, 0xff, 0xe9, 0x92, 0x86, 0x65, 0x73, 0x1c, 0x6d, 0x6a, 0x8f, 0x94, 0x67, 0x30, 0x83,
    0x08]"

definition aes_gcm_256_plaintext :: "byte list" where
  "aes_gcm_256_plaintext =
    [0xd9, 0x31, 0x32, 0x25, 0xf8, 0x84, 0x06, 0xe5, 0xa5, 0x59, 0x09, 0xc5, 0xaf, 0xf5, 0x26, 0x9a,
    0x86, 0xa7, 0xa9, 0x53, 0x15, 0x34, 0xf7, 0xda, 0x2e, 0x4c, 0x30, 0x3d, 0x8a, 0x31, 0x8a,
    0x72, 0x1c, 0x3c, 0x0c, 0x95, 0x95, 0x68, 0x09, 0x53, 0x2f, 0xcf, 0x0e, 0x24, 0x49, 0xa6,
    0xb5, 0x25, 0xb1, 0x6a, 0xed, 0xf5, 0xaa, 0x0d, 0xe6, 0x57, 0xba, 0x63, 0x7b, 0x39]"

definition aes_gcm_256_aad :: "byte list" where
  "aes_gcm_256_aad =
    [0xfe, 0xed, 0xfa, 0xce, 0xde, 0xad, 0xbe, 0xef, 0xfe, 0xed, 0xfa, 0xce, 0xde, 0xad, 0xbe, 0xef,
    0xab, 0xad, 0xda, 0xd2]"

definition aes_gcm_256_iv :: "byte list" where
  "aes_gcm_256_iv =
    [0xca, 0xfe, 0xba, 0xbe, 0xfa, 0xce, 0xdb, 0xad, 0xde, 0xca, 0xf8, 0x88]"

definition aes_gcm_256_ciphertext :: "byte list" where
  "aes_gcm_256_ciphertext =
    [0x52, 0x2d, 0xc1, 0xf0, 0x99, 0x56, 0x7d, 0x07, 0xf4, 0x7f, 0x37, 0xa3, 0x2a, 0x84, 0x42, 0x7d,
    0x64, 0x3a, 0x8c, 0xdc, 0xbf, 0xe5, 0xc0, 0xc9, 0x75, 0x98, 0xa2, 0xbd, 0x25, 0x55, 0xd1,
    0xaa, 0x8c, 0xb0, 0x8e, 0x48, 0x59, 0x0d, 0xbb, 0x3d, 0xa7, 0xb0, 0x8b, 0x10, 0x56, 0x82,
    0x88, 0x38, 0xc5, 0xf6, 0x1e, 0x63, 0x93, 0xba, 0x7a, 0x0a, 0xbc, 0xc9, 0xf6, 0x62]"

definition aes_gcm_256_tag :: "byte list" where
  "aes_gcm_256_tag =
    [0x76, 0xfc, 0x6e, 0xce, 0x0f, 0x4e, 0x17, 0x68, 0xcd, 0xdf, 0x88, 0x53, 0xbb, 0x2d, 0x55, 0x1b]"

text \<open>The macros take the sizes of the arrays.\<close>

definition add_cbc_vector :: "byte list \<Rightarrow> byte list \<Rightarrow> byte list \<Rightarrow> byte list \<Rightarrow> cbc_vector" where
  "add_cbc_vector key iv plain cipher =
     \<lparr>cv_key = key, cv_key_size = length key, cv_iv = iv, cv_plain = plain, cv_plain_size = length plain,
      cv_cipher = cipher\<rparr>"

definition add_xts_vector ::
  "byte list \<Rightarrow> byte list \<Rightarrow> byte list \<Rightarrow> byte list \<Rightarrow> byte list \<Rightarrow> xts_vector" where
  "add_xts_vector key1 key2 tweak plain cipher =
     \<lparr>xv_key1 = key1, xv_key2 = key2, xv_key_size = length key1, xv_tweak = tweak, xv_plain = plain,
      xv_plain_size = length plain, xv_cipher = cipher\<rparr>"

definition add_gcm_vector ::
  "byte list \<Rightarrow> byte list \<Rightarrow> byte list \<Rightarrow> byte list \<Rightarrow> byte list \<Rightarrow> byte list \<Rightarrow> gcm_vector" where
  "add_gcm_vector key iv plain cipher aad tag =
     \<lparr>gv_key = key, gv_key_size = length key, gv_iv = iv, gv_plain = plain, gv_plain_size = length plain,
      gv_cipher = cipher, gv_aad = aad, gv_aad_size = length aad, gv_tag = tag, gv_tag_size = length tag\<rparr>"

definition cbc_vectors :: "cbc_vector list" where
  "cbc_vectors =
    [add_cbc_vector aes_cbc_128_key aes_cbc_128_iv aes_cbc_128_plaintext aes_cbc_128_ciphertext,
     add_cbc_vector aes_cbc_192_key aes_cbc_192_iv aes_cbc_192_plaintext aes_cbc_192_ciphertext,
     add_cbc_vector aes_cbc_256_key aes_cbc_256_iv aes_cbc_256_plaintext aes_cbc_256_ciphertext]"

definition xts_vectors :: "xts_vector list" where
  "xts_vectors =
    [add_xts_vector aes_xts_128_key1 aes_xts_128_key2 aes_xts_128_tweak aes_xts_128_plaintext aes_xts_128_ciphertext,
     add_xts_vector aes_xts_256_key1 aes_xts_256_key2 aes_xts_256_tweak aes_xts_256_plaintext aes_xts_256_ciphertext]"

definition gcm_vectors :: "gcm_vector list" where
  "gcm_vectors =
    [add_gcm_vector aes_gcm_128_key aes_gcm_128_iv aes_gcm_128_plaintext aes_gcm_128_ciphertext aes_gcm_128_aad aes_gcm_128_tag,
     add_gcm_vector aes_gcm_256_key aes_gcm_256_iv aes_gcm_256_plaintext aes_gcm_256_ciphertext aes_gcm_256_aad aes_gcm_256_tag]"


section \<open>The tests\<close>

text \<open>\<open>memset\<close> and \<open>memcpy\<close> into the scratch buffer, a kernel working in place, \<open>memcmp\<close>.\<close>

definition load_scratch :: "nat \<Rightarrow> byte list \<Rightarrow> nat \<Rightarrow> byte list" where
  "load_scratch cap bytes n = memcpy_at (replicate cap 0) 0 bytes n"

definition in_place :: "(byte list \<Rightarrow> byte list) \<Rightarrow> byte list \<Rightarrow> nat \<Rightarrow> byte list" where
  "in_place kern scratch n = memcpy_at scratch 0 (kern scratch) n"

definition memcmp_eq :: "byte list \<Rightarrow> byte list \<Rightarrow> nat \<Rightarrow> bool" where
  "memcmp_eq a b n \<longleftrightarrow> take n a = take n b"

definition cbc_bits :: "nat \<Rightarrow> key_bits option" where
  "cbc_bits n = (if n = 16 then Some Bits128 else if n = 24 then Some Bits192
                 else if n = 32 then Some Bits256 else None)"

definition xts_gcm_bits :: "nat \<Rightarrow> key_bits option" where
  "xts_gcm_bits n = (if n = 16 then Some Bits128 else if n = 32 then Some Bits256 else None)"

definition cbc_self_test_vector ::
  "'c aes_kernels \<Rightarrow> byte list \<times> byte list \<Rightarrow> cbc_vector \<Rightarrow> int" where
  "cbc_self_test_vector K junk v =
     (let n = cv_plain_size v; len = of_nat n in
      if 256 < n then 0
      else case cbc_bits (cv_key_size v) of None \<Rightarrow> 0
      | Some bits \<Rightarrow>
          let scratch = load_scratch 256 (cv_plain v) n;
              (expkey_enc, expkey_dec) = keyexp_into K bits (cv_key v) junk;
              scratch = in_place (\<lambda>x. k_cbc K Enc bits x (cv_iv v) expkey_enc len) scratch n
          in if \<not> memcmp_eq scratch (cv_cipher v) n then 0
          else
          let scratch = load_scratch 256 (cv_cipher v) n;
              scratch = in_place (\<lambda>x. k_cbc K Dec bits x (cv_iv v) expkey_dec len) scratch n
          in if \<not> memcmp_eq scratch (cv_plain v) n then 0 else 1)"

definition xts_self_test_vector ::
  "'c aes_kernels \<Rightarrow> byte list \<times> byte list \<Rightarrow> byte list \<times> byte list \<Rightarrow> xts_vector \<Rightarrow> int" where
  "xts_self_test_vector K junk1 junk2 v =
     (let n = xv_plain_size v; len = of_nat n; k1 = xv_key1 v; k2 = xv_key2 v; tweak = xv_tweak v in
      if 512 < n then 0
      else case xts_gcm_bits (xv_key_size v) of None \<Rightarrow> 0
      | Some bits \<Rightarrow>
          let scratch = load_scratch 512 (xv_plain v) n;
              scratch = in_place (k_xts K Enc bits k2 k1 tweak len) scratch n
          in if \<not> memcmp_eq scratch (xv_cipher v) n then 0
          else
          let scratch = load_scratch 512 (xv_plain v) n;
              (expkey1_enc, expkey1_dec) = keyexp_into K bits k1 junk1;
              (expkey2_enc, expkey2_dec) = keyexp_into K bits k2 junk2;
              scratch = in_place (k_xts_expanded K Enc bits expkey2_enc expkey1_enc tweak len) scratch n
          in if \<not> memcmp_eq scratch (xv_cipher v) n then 0
          else
          let scratch = load_scratch 512 (xv_cipher v) n;
              scratch = in_place (k_xts K Dec bits k2 k1 tweak len) scratch n
          in if \<not> memcmp_eq scratch (xv_plain v) n then 0
          else
          let scratch = load_scratch 512 (xv_cipher v) n;
              (expkey1_enc, expkey1_dec) = keyexp_into K bits k1 (expkey1_enc, expkey1_dec);
              (expkey2_enc, expkey2_dec) = keyexp_into K bits k2 (expkey2_enc, expkey2_dec);
              scratch = in_place (k_xts_expanded K Dec bits expkey2_enc expkey1_dec tweak len) scratch n
          in if \<not> memcmp_eq scratch (xv_plain v) n then 0 else 1)"

text \<open>One direction of GCM by the single call, and by the calls in steps.\<close>

definition gcm_single ::
  "'c aes_kernels \<Rightarrow> direction \<Rightarrow> key_bits \<Rightarrow> gcm_key_data \<Rightarrow> 'c \<Rightarrow> byte list \<Rightarrow> byte list \<Rightarrow> gcm_vector \<Rightarrow>
   'c \<times> byte list \<times> byte list" where
  "gcm_single K d bits gkey gctx scratch result_tag v =
     (let n = gv_plain_size v;
          (gctx, bytes, tag) = k_gcm_crypt K d bits False gkey gctx scratch (of_nat n) (gv_iv v) (gv_aad v)
             (of_nat (gv_aad_size v)) (of_nat (gv_tag_size v))
      in (gctx, memcpy_at scratch 0 bytes n, memcpy_at result_tag 0 tag (gv_tag_size v)))"

definition gcm_steps ::
  "'c aes_kernels \<Rightarrow> direction \<Rightarrow> key_bits \<Rightarrow> gcm_key_data \<Rightarrow> 'c \<Rightarrow> byte list \<Rightarrow> gcm_vector \<Rightarrow>
   'c \<times> byte list \<times> gcm_vector" where
  "gcm_steps K d bits gkey gctx scratch v =
     (let n = gv_plain_size v;
          gctx = k_gcm_init K bits gkey gctx (gv_iv v) (gv_aad v) (of_nat (gv_aad_size v));
          (gctx, bytes) = k_gcm_update K d bits False gkey gctx scratch (of_nat n);
          scratch = memcpy_at scratch 0 bytes n;
          (gctx, tag) = k_gcm_finalize K d bits gkey gctx (of_nat (gv_tag_size v))
      in (gctx, scratch, v\<lparr>gv_tag := memcpy_at (gv_tag v) 0 tag (gv_tag_size v)\<rparr>))"

definition gcm_self_test_vector ::
  "'c aes_kernels \<Rightarrow> gcm_key_data \<Rightarrow> 'c \<Rightarrow> byte list \<Rightarrow> gcm_vector \<Rightarrow> int \<times> gcm_vector" where
  "gcm_self_test_vector K gkey gctx result_tag v =
     (let n = gv_plain_size v in
      if 512 < n then (0, v)
      else case xts_gcm_bits (gv_key_size v) of None \<Rightarrow> (0, v)
      | Some bits \<Rightarrow>
          let gkey = gcm_pre K bits (gv_key v) gkey;
              (gctx, scratch, result_tag) =
                gcm_single K Enc bits gkey gctx (load_scratch 512 (gv_plain v) n) result_tag v
          in if \<not> memcmp_eq scratch (gv_cipher v) n then (0, v)
          else if \<not> memcmp_eq result_tag (gv_tag v) (gv_tag_size v) then (0, v)
          else
          let (gctx, scratch, v) = gcm_steps K Enc bits gkey gctx (load_scratch 512 (gv_plain v) n) v
          in if \<not> memcmp_eq scratch (gv_cipher v) n then (0, v)
          else if \<not> memcmp_eq result_tag (gv_tag v) (gv_tag_size v) then (0, v)
          else
          let (gctx, scratch, result_tag) =
                gcm_single K Dec bits gkey gctx (load_scratch 512 (gv_cipher v) n) result_tag v
          in if \<not> memcmp_eq scratch (gv_plain v) n then (0, v)
          else if \<not> memcmp_eq result_tag (gv_tag v) (gv_tag_size v) then (0, v)
          else
          let (gctx, scratch, v) = gcm_steps K Dec bits gkey gctx (load_scratch 512 (gv_cipher v) n) v
          in if \<not> memcmp_eq scratch (gv_plain v) n then (0, v)
          else if \<not> memcmp_eq result_tag (gv_tag v) (gv_tag_size v) then (0, v)
          else (1, v))"

text \<open>The loops over the tables return 1 at the first vector that fails.\<close>

fun cbc_self_test :: "'c aes_kernels \<Rightarrow> byte list \<times> byte list \<Rightarrow> cbc_vector list \<Rightarrow> u32" where
  "cbc_self_test K junk [] = 0"
| "cbc_self_test K junk (v # vs) =
     (if cbc_self_test_vector K junk v = 0 then 1 else cbc_self_test K junk vs)"

fun xts_self_test ::
  "'c aes_kernels \<Rightarrow> byte list \<times> byte list \<Rightarrow> byte list \<times> byte list \<Rightarrow> xts_vector list \<Rightarrow> u32" where
  "xts_self_test K junk1 junk2 [] = 0"
| "xts_self_test K junk1 junk2 (v # vs) =
     (if xts_self_test_vector K junk1 junk2 v = 0 then 1 else xts_self_test K junk1 junk2 vs)"

fun gcm_self_test ::
  "'c aes_kernels \<Rightarrow> gcm_key_data \<Rightarrow> 'c \<Rightarrow> byte list \<Rightarrow> gcm_vector list \<Rightarrow> u32 \<times> gcm_vector list" where
  "gcm_self_test K gkey gctx tag [] = (0, [])"
| "gcm_self_test K gkey gctx tag (v # vs) =
     (let (ok, v) = gcm_self_test_vector K gkey gctx tag v
      in if ok = 0 then (1, v # vs)
         else let (ret, vs) = gcm_self_test K gkey gctx tag vs in (ret, v # vs))"

text \<open>\<open>_aes_self_tests\<close>; the GCM table is static memory, given back as the tests leave it.\<close>

definition aes_self_tests ::
  "'c aes_kernels \<Rightarrow> byte list \<times> byte list \<Rightarrow> byte list \<times> byte list \<Rightarrow> gcm_key_data \<Rightarrow> 'c \<Rightarrow> byte list \<Rightarrow>
   gcm_vector list \<Rightarrow> u32 \<times> gcm_vector list" where
  "aes_self_tests K junk1 junk2 gkey gctx tag gvs =
     (let ret = cbc_self_test K junk1 cbc_vectors;
          ret = ret OR xts_self_test K junk1 junk2 xts_vectors;
          (r, gvs) = gcm_self_test K gkey gctx tag gvs
      in (ret OR r, gvs))"

section \<open>What passing the tests means\<close>

text \<open>
  What the tests rely on in the ciphers: an expansion writes the round keys (11, 13 or 15 of 16
  bytes), a cipher reads \<open>len\<close> bytes of its input and the round keys and writes \<open>len\<close> bytes, and a
  message of GCM starts from the key, whatever the context held.
\<close>

fun sched_bytes :: "key_bits \<Rightarrow> nat" where
  "sched_bytes Bits128 = 16 * 11"
| "sched_bytes Bits192 = 16 * 13"
| "sched_bytes Bits256 = 16 * 15"

definition reads_only :: "nat \<Rightarrow> (byte list \<Rightarrow> 'a) \<Rightarrow> bool" where
  "reads_only n f \<longleftrightarrow> (\<forall>xs ys. take n xs = take n ys \<longrightarrow> f xs = f ys)"

definition keyexp_law :: "'c aes_kernels \<Rightarrow> bool" where
  "keyexp_law K \<longleftrightarrow> (\<forall>n key. length (fst (k_keyexp K n key)) = sched_bytes n \<and>
     length (snd (k_keyexp K n key)) = sched_bytes n)"

definition cbc_law :: "'c aes_kernels \<Rightarrow> bool" where
  "cbc_law K \<longleftrightarrow> (\<forall>d n xs iv e len. length (k_cbc K d n xs iv e len) = unat len \<and>
     reads_only (unat len) (\<lambda>xs. k_cbc K d n xs iv e len) \<and>
     reads_only (sched_bytes n) (\<lambda>e. k_cbc K d n xs iv e len))"

definition xts_law :: "'c aes_kernels \<Rightarrow> bool" where
  "xts_law K \<longleftrightarrow> (\<forall>d n k2 k1 tw len xs.
     length (k_xts K d n k2 k1 tw len xs) = unat len \<and> reads_only (unat len) (k_xts K d n k2 k1 tw len) \<and>
     length (k_xts_expanded K d n k2 k1 tw len xs) = unat len \<and>
     reads_only (unat len) (k_xts_expanded K d n k2 k1 tw len) \<and>
     reads_only (sched_bytes n) (\<lambda>k2. k_xts_expanded K d n k2 k1 tw len xs) \<and>
     reads_only (sched_bytes n) (\<lambda>k1. k_xts_expanded K d n k2 k1 tw len xs))"

definition gcm_law :: "'c aes_kernels \<Rightarrow> bool" where
  "gcm_law K \<longleftrightarrow>
     (\<forall>d n nt kd c xs len iv aad alen tlen.
        length (fst (snd (k_gcm_crypt K d n nt kd c xs len iv aad alen tlen))) = unat len \<and>
        length (snd (snd (k_gcm_crypt K d n nt kd c xs len iv aad alen tlen))) = unat tlen \<and>
        reads_only (unat len) (\<lambda>xs. k_gcm_crypt K d n nt kd c xs len iv aad alen tlen)) \<and>
     (\<forall>d n nt kd c xs len. length (snd (k_gcm_update K d n nt kd c xs len)) = unat len \<and>
        reads_only (unat len) (\<lambda>xs. k_gcm_update K d n nt kd c xs len)) \<and>
     (\<forall>d n kd c tlen. length (snd (k_gcm_finalize K d n kd c tlen)) = unat tlen)"

definition gcm_starts_afresh :: "'c aes_kernels \<Rightarrow> bool" where
  "gcm_starts_afresh K \<longleftrightarrow>
     (\<forall>d n nt kd c c' xs len iv aad alen tlen.
        snd (k_gcm_crypt K d n nt kd c xs len iv aad alen tlen) = snd (k_gcm_crypt K d n nt kd c' xs len iv aad alen tlen)) \<and>
     (\<forall>n kd c c' iv aad alen. k_gcm_init K n kd c iv aad alen = k_gcm_init K n kd c' iv aad alen)"

definition aes_kernels_ok :: "'c aes_kernels \<Rightarrow> bool" where
  "aes_kernels_ok K \<longleftrightarrow> keyexp_law K \<and> cbc_law K \<and> xts_law K \<and> gcm_law K \<and> gcm_starts_afresh K"

text \<open>The known answers, without buffers.\<close>

definition cbc_answers :: "'c aes_kernels \<Rightarrow> cbc_vector \<Rightarrow> bool" where
  "cbc_answers K v \<longleftrightarrow>
     (let n = the (cbc_bits (cv_key_size v)); len = of_nat (cv_plain_size v); (e, d) = k_keyexp K n (cv_key v)
      in k_cbc K Enc n (cv_plain v) (cv_iv v) e len = cv_cipher v \<and>
         k_cbc K Dec n (cv_cipher v) (cv_iv v) d len = cv_plain v)"

definition xts_answers :: "'c aes_kernels \<Rightarrow> xts_vector \<Rightarrow> bool" where
  "xts_answers K v \<longleftrightarrow>
     (let n = the (xts_gcm_bits (xv_key_size v)); len = of_nat (xv_plain_size v); tw = xv_tweak v;
          (e1, d1) = k_keyexp K n (xv_key1 v); (e2, d2) = k_keyexp K n (xv_key2 v)
      in k_xts K Enc n (xv_key2 v) (xv_key1 v) tw len (xv_plain v) = xv_cipher v \<and>
         k_xts_expanded K Enc n e2 e1 tw len (xv_plain v) = xv_cipher v \<and>
         k_xts K Dec n (xv_key2 v) (xv_key1 v) tw len (xv_cipher v) = xv_plain v \<and>
         k_xts_expanded K Dec n e2 d1 tw len (xv_cipher v) = xv_plain v)"

definition gcm_answers :: "'c aes_kernels \<Rightarrow> gcm_key_data \<Rightarrow> 'c \<Rightarrow> gcm_vector \<Rightarrow> bool" where
  "gcm_answers K gkey c v \<longleftrightarrow>
     (let n = the (xts_gcm_bits (gv_key_size v)); len = of_nat (gv_plain_size v);
          alen = of_nat (gv_aad_size v); tlen = of_nat (gv_tag_size v);
          kd = gcm_pre K n (gv_key v) gkey;
          single = (\<lambda>d xs. snd (k_gcm_crypt K d n False kd c xs len (gv_iv v) (gv_aad v) alen tlen));
          steps = (\<lambda>d xs. let c = k_gcm_init K n kd c (gv_iv v) (gv_aad v) alen;
                              (c, bytes) = k_gcm_update K d n False kd c xs len
                          in (bytes, snd (k_gcm_finalize K d n kd c tlen)))
      in single Enc (gv_plain v) = (gv_cipher v, gv_tag v) \<and> steps Enc (gv_plain v) = (gv_cipher v, gv_tag v) \<and>
         single Dec (gv_cipher v) = (gv_plain v, gv_tag v) \<and> steps Dec (gv_cipher v) = (gv_plain v, gv_tag v))"

definition cbc_wf :: "cbc_vector \<Rightarrow> bool" where
  "cbc_wf v \<longleftrightarrow> cv_plain_size v \<le> 256 \<and> length (cv_plain v) = cv_plain_size v \<and>
     length (cv_cipher v) = cv_plain_size v \<and> cbc_bits (cv_key_size v) \<noteq> None"

definition xts_wf :: "xts_vector \<Rightarrow> bool" where
  "xts_wf v \<longleftrightarrow> xv_plain_size v \<le> 512 \<and> length (xv_plain v) = xv_plain_size v \<and>
     length (xv_cipher v) = xv_plain_size v \<and> xts_gcm_bits (xv_key_size v) \<noteq> None"

definition gcm_wf :: "gcm_vector \<Rightarrow> bool" where
  "gcm_wf v \<longleftrightarrow> gv_plain_size v \<le> 512 \<and> length (gv_plain v) = gv_plain_size v \<and>
     length (gv_cipher v) = gv_plain_size v \<and> length (gv_tag v) = gv_tag_size v \<and> gv_tag_size v = 16 \<and>
     xts_gcm_bits (gv_key_size v) \<noteq> None"

lemma reads_onlyD: "reads_only n f \<Longrightarrow> take n xs = take n ys \<Longrightarrow> f xs = f ys"
  unfolding reads_only_def by blast

lemma keyexp_lawD:
  assumes "keyexp_law K"
  shows "length (fst (k_keyexp K n key)) = sched_bytes n" "length (snd (k_keyexp K n key)) = sched_bytes n"
  using assms by (simp_all add: keyexp_law_def)

lemma cbc_lawD:
  assumes "cbc_law K"
  shows "length (k_cbc K d n xs iv e len) = unat len"
    "reads_only (unat len) (\<lambda>xs. k_cbc K d n xs iv e len)"
    "reads_only (sched_bytes n) (\<lambda>e. k_cbc K d n xs iv e len)"
  using assms by (simp_all add: cbc_law_def)

lemma xts_lawD:
  assumes "xts_law K"
  shows "length (k_xts K d n k2 k1 tw len xs) = unat len"
    "reads_only (unat len) (k_xts K d n k2 k1 tw len)"
    "length (k_xts_expanded K d n k2 k1 tw len xs) = unat len"
    "reads_only (unat len) (k_xts_expanded K d n k2 k1 tw len)"
    "reads_only (sched_bytes n) (\<lambda>k2. k_xts_expanded K d n k2 k1 tw len xs)"
    "reads_only (sched_bytes n) (\<lambda>k1. k_xts_expanded K d n k2 k1 tw len xs)"
  using assms by (simp_all add: xts_law_def)

lemma gcm_lawD:
  assumes "gcm_law K"
  shows "length (fst (snd (k_gcm_crypt K d n nt kd c xs len iv aad alen tlen))) = unat len"
    "length (snd (snd (k_gcm_crypt K d n nt kd c xs len iv aad alen tlen))) = unat tlen"
    "reads_only (unat len) (\<lambda>xs. k_gcm_crypt K d n nt kd c xs len iv aad alen tlen)"
    "length (snd (k_gcm_update K d n nt kd c xs len)) = unat len"
    "reads_only (unat len) (\<lambda>xs. k_gcm_update K d n nt kd c xs len)"
    "length (snd (k_gcm_finalize K d n kd c tlen)) = unat tlen"
  using assms by (simp_all add: gcm_law_def)

lemma gcm_context_free:
  assumes "gcm_starts_afresh K"
  shows "snd (k_gcm_crypt K d n nt kd c xs len iv aad alen tlen) = snd (k_gcm_crypt K d n nt kd c' xs len iv aad alen tlen)"
    "k_gcm_init K n kd c iv aad alen = k_gcm_init K n kd c' iv aad alen"
  using assms unfolding gcm_starts_afresh_def by blast+

lemma load_scratch_take: "n \<le> cap \<Longrightarrow> length bytes = n \<Longrightarrow> take n (load_scratch cap bytes n) = bytes"
  by (simp add: load_scratch_def memcpy_at_def)

lemma in_place_take:
  "reads_only n kern \<Longrightarrow> length (kern bytes) = n \<Longrightarrow> n \<le> cap \<Longrightarrow> length bytes = n \<Longrightarrow>
   take n (in_place kern (load_scratch cap bytes n) n) = kern bytes"
proof -
  assume a: "reads_only n kern" "length (kern bytes) = n" "n \<le> cap" "length bytes = n"
  then have "kern (load_scratch cap bytes n) = kern bytes"
    by (intro reads_onlyD[OF a(1)]) (simp add: load_scratch_take)
  then show ?thesis using a by (simp add: in_place_def memcpy_at_def)
qed

lemma keyexp_into_take:
  assumes "keyexp_law K" "k_keyexp K n key = (e, d)" "keyexp_into K n key junk = (e', d')"
  shows "take (sched_bytes n) e' = take (sched_bytes n) e" "take (sched_bytes n) d' = take (sched_bytes n) d"
proof -
  have "length e = sched_bytes n" "length d = sched_bytes n"
    using keyexp_lawD[OF assms(1), of n key] assms(2) by simp_all
  then show "take (sched_bytes n) e' = take (sched_bytes n) e" "take (sched_bytes n) d' = take (sched_bytes n) d"
    using assms(2,3) by (auto simp: keyexp_into_def overwrite_def memcpy_at_def)
qed

text \<open>The expanded keys in the buffers serve a kernel as the schedules themselves do.\<close>

lemma keyexp_into_kernel:
  assumes "keyexp_law K" "k_keyexp K n key = (e, d)" "keyexp_into K n key junk = (e', d')"
    "reads_only (sched_bytes n) f"
  shows "f e' = f e" "f d' = f d"
  using keyexp_into_take[OF assms(1-3)] reads_onlyD[OF assms(4)] by blast+

lemma cbc_self_test_vector_iff:
  assumes "keyexp_law K" "cbc_law K" "cbc_wf v"
  shows "cbc_self_test_vector K junk v = (if cbc_answers K v then 1 else 0)"
proof -
  obtain n where n: "cbc_bits (cv_key_size v) = Some n" using assms(3) by (auto simp: cbc_wf_def)
  define l where "l = cv_plain_size v"
  have wf: "l \<le> 256" "length (cv_plain v) = l" "length (cv_cipher v) = l"
    using assms(3) by (simp_all add: cbc_wf_def l_def)
  obtain e d where k: "k_keyexp K n (cv_key v) = (e, d)" by fastforce
  obtain e' d' where k': "keyexp_into K n (cv_key v) junk = (e', d')" by fastforce
  have ll: "unat (of_nat l :: u64) = l" using wf(1) by (intro unat_of_nat_small) simp
  note kern = keyexp_into_kernel[OF assms(1) k k' cbc_lawD(3)[OF assms(2)]]
  have io: "take l (in_place (\<lambda>xs. k_cbc K x n xs iv ek (of_nat l)) (load_scratch 256 bytes l) l)
      = k_cbc K x n bytes iv ek (of_nat l)" if "length bytes = l" for x iv ek bytes
    using cbc_lawD[OF assms(2), where len = "of_nat l", unfolded ll] wf(1) that
    by (intro in_place_take[where kern = "\<lambda>xs. k_cbc K x n xs iv ek (of_nat l)"]) simp_all
  show ?thesis
    unfolding cbc_self_test_vector_def cbc_answers_def Let_def l_def[symmetric] n option.sel option.case k k'
      case_prod_conv memcmp_eq_def io[OF wf(2)] io[OF wf(3)] kern
    using wf by simp
qed

lemma xts_self_test_vector_iff:
  assumes "keyexp_law K" "xts_law K" "xts_wf v"
  shows "xts_self_test_vector K junk1 junk2 v = (if xts_answers K v then 1 else 0)"
proof -
  obtain n where n: "xts_gcm_bits (xv_key_size v) = Some n" using assms(3) by (auto simp: xts_wf_def)
  define l where "l = xv_plain_size v"
  have wf: "l \<le> 512" "length (xv_plain v) = l" "length (xv_cipher v) = l"
    using assms(3) by (simp_all add: xts_wf_def l_def)
  have ll: "unat (of_nat l :: u64) = l" using wf(1) by (intro unat_of_nat_small) simp
  obtain e1 d1 where k1: "k_keyexp K n (xv_key1 v) = (e1, d1)" by fastforce
  obtain e2 d2 where k2: "k_keyexp K n (xv_key2 v) = (e2, d2)" by fastforce
  obtain f1 g1 where j1: "keyexp_into K n (xv_key1 v) junk1 = (f1, g1)" by fastforce
  obtain f2 g2 where j2: "keyexp_into K n (xv_key2 v) junk2 = (f2, g2)" by fastforce
  obtain p1 q1 where i1: "keyexp_into K n (xv_key1 v) (f1, g1) = (p1, q1)" by fastforce
  obtain p2 q2 where i2: "keyexp_into K n (xv_key2 v) (f2, g2) = (p2, q2)" by fastforce
  note X = xts_lawD[OF assms(2), where len = "of_nat l", unfolded ll]
  have kern1: "k_xts_expanded K x n a f1 tw (of_nat l) xs = k_xts_expanded K x n a e1 tw (of_nat l) xs"
    "k_xts_expanded K x n a q1 tw (of_nat l) xs = k_xts_expanded K x n a d1 tw (of_nat l) xs" for x a tw xs
    using keyexp_into_kernel(1)[OF assms(1) k1 j1 X(6)] keyexp_into_kernel(2)[OF assms(1) k1 i1 X(6)] by blast+
  have kern2: "k_xts_expanded K x n f2 a tw (of_nat l) xs = k_xts_expanded K x n e2 a tw (of_nat l) xs"
    "k_xts_expanded K x n p2 a tw (of_nat l) xs = k_xts_expanded K x n e2 a tw (of_nat l) xs" for x a tw xs
    using keyexp_into_kernel(1)[OF assms(1) k2 j2 X(5)] keyexp_into_kernel(1)[OF assms(1) k2 i2 X(5)] by blast+
  have io: "take l (in_place (k_xts K x n a b tw (of_nat l)) (load_scratch 512 bytes l) l) = k_xts K x n a b tw (of_nat l) bytes"
    "take l (in_place (k_xts_expanded K x n a b tw (of_nat l)) (load_scratch 512 bytes l) l)
      = k_xts_expanded K x n a b tw (of_nat l) bytes"
    if "length bytes = l" for x a b tw bytes
    by (rule in_place_take[OF X(2) X(1) wf(1) that], rule in_place_take[OF X(4) X(3) wf(1) that])
  show ?thesis
    unfolding xts_self_test_vector_def xts_answers_def Let_def l_def[symmetric] n option.sel option.case
      k1 k2 j1 j2 i1 i2 case_prod_conv memcmp_eq_def io[OF wf(2)] io[OF wf(3)] kern1 kern2
    using wf by simp
qed

text \<open>
  For GCM the multi-call tag replaces the expected one before it is compared with the tag of the
  single call. As that one has passed, the comparison is with the expected tag all the same, and
  a vector that passes is left as it was.
\<close>

lemma gcm_single_take:
  assumes "gcm_law K" "gcm_starts_afresh K" "gcm_wf v" "length bytes = gv_plain_size v" "length tag0 = 16"
    "snd (k_gcm_crypt K d n False kd c bytes (of_nat (gv_plain_size v)) (gv_iv v) (gv_aad v)
       (of_nat (gv_aad_size v)) (of_nat (gv_tag_size v))) = (out, tag)"
    "gcm_single K d n kd c' (load_scratch 512 bytes (gv_plain_size v)) tag0 v = (c'', scratch, tag')"
  shows "take (gv_plain_size v) scratch = out" "tag' = tag" "length tag' = 16"
proof -
  let ?l = "gv_plain_size v"
  have wf: "?l \<le> 512" "gv_tag_size v = 16" using assms(3) by (simp_all add: gcm_wf_def)
  have ll: "unat (of_nat ?l :: u64) = ?l" using wf(1) by (intro unat_of_nat_small) simp
  let ?k = "\<lambda>c xs. k_gcm_crypt K d n False kd c xs (of_nat ?l) (gv_iv v) (gv_aad v) (of_nat (gv_aad_size v)) (of_nat (gv_tag_size v))"
  have "?k c' (load_scratch 512 bytes ?l) = ?k c' bytes"
    by (rule reads_onlyD[OF gcm_lawD(3)[OF assms(1)]]) (simp add: ll load_scratch_take wf assms(4))
  moreover have "snd (?k c' bytes) = (out, tag)"
    using assms(6) gcm_context_free(1)[OF assms(2)] by metis
  ultimately obtain x where x: "?k c' (load_scratch 512 bytes ?l) = (x, out, tag)" by (metis prod.collapse)
  have "length out = ?l" "length tag = 16"
    using gcm_lawD(1,2)[OF assms(1), of d n False kd c' "load_scratch 512 bytes ?l" "of_nat ?l" "gv_iv v" "gv_aad v"
        "of_nat (gv_aad_size v)" "of_nat (gv_tag_size v)"] x ll wf by simp_all
  then show "take ?l scratch = out" "tag' = tag" "length tag' = 16"
    using assms(5,7) x wf by (auto simp: gcm_single_def Let_def memcpy_at_def)
qed

lemma gcm_steps_take:
  assumes "gcm_law K" "gcm_starts_afresh K" "gcm_wf v" "length bytes = gv_plain_size v"
    "k_gcm_update K d n False kd (k_gcm_init K n kd c (gv_iv v) (gv_aad v) (of_nat (gv_aad_size v))) bytes
       (of_nat (gv_plain_size v)) = (c1, out)"
    "snd (k_gcm_finalize K d n kd c1 (of_nat (gv_tag_size v))) = tag"
    "gcm_steps K d n kd c' (load_scratch 512 bytes (gv_plain_size v)) v = (c'', scratch, v')"
  shows "take (gv_plain_size v) scratch = out" "v' = v\<lparr>gv_tag := tag\<rparr>"
proof -
  let ?l = "gv_plain_size v"
  have wf: "?l \<le> 512" "gv_tag_size v = 16" "length (gv_tag v) = 16" using assms(3) by (simp_all add: gcm_wf_def)
  have ll: "unat (of_nat ?l :: u64) = ?l" using wf(1) by (intro unat_of_nat_small) simp
  let ?i = "\<lambda>c. k_gcm_init K n kd c (gv_iv v) (gv_aad v) (of_nat (gv_aad_size v))"
  have "k_gcm_update K d n False kd (?i c') (load_scratch 512 bytes ?l) (of_nat ?l) =
      k_gcm_update K d n False kd (?i c') bytes (of_nat ?l)"
    by (rule reads_onlyD[OF gcm_lawD(5)[OF assms(1)]]) (simp add: ll load_scratch_take wf assms(4))
  moreover have i: "?i c' = ?i c" by (rule gcm_context_free(2)[OF assms(2)])
  ultimately have x: "k_gcm_update K d n False kd (?i c') (load_scratch 512 bytes ?l) (of_nat ?l) = (c1, out)"
    using assms(5) by (simp only: i)
  have "length out = ?l"
    using gcm_lawD(4)[OF assms(1), of d n False kd "?i c" bytes "of_nat ?l"] assms(5) ll by simp
  moreover have "length tag = 16"
    using gcm_lawD(6)[OF assms(1), of d n kd c1 "of_nat (gv_tag_size v)"] assms(6) wf by simp
  ultimately show "take ?l scratch = out" "v' = v\<lparr>gv_tag := tag\<rparr>"
    using assms(6,7) x wf by (auto simp: gcm_steps_def Let_def memcpy_at_def split: prod.splits)
qed

lemma gcm_self_test_vector_iff:
  assumes "gcm_law K" "gcm_starts_afresh K" "gcm_wf v" "length tag0 = 16"
  shows "fst (gcm_self_test_vector K gkey gctx tag0 v) = (if gcm_answers K gkey gctx v then 1 else 0)"
    "gcm_answers K gkey gctx v \<Longrightarrow> snd (gcm_self_test_vector K gkey gctx tag0 v) = v"
proof -
  obtain n where n: "xts_gcm_bits (gv_key_size v) = Some n" using assms(3) by (auto simp: gcm_wf_def)
  let ?l = "gv_plain_size v" and ?kd = "gcm_pre K n (gv_key v) gkey"
  let ?lw = "of_nat (gv_plain_size v) :: u64" and ?al = "of_nat (gv_aad_size v) :: u64" and ?tl = "of_nat (gv_tag_size v) :: u64"
  have wf: "?l \<le> 512" "length (gv_plain v) = ?l" "length (gv_cipher v) = ?l" "gv_tag_size v = 16" "length (gv_tag v) = 16"
    using assms(3) by (simp_all add: gcm_wf_def)
  obtain o1 t1 where s1: "snd (k_gcm_crypt K Enc n False ?kd gctx (gv_plain v) ?lw (gv_iv v) (gv_aad v) ?al ?tl) = (o1, t1)"
    by fastforce
  obtain o3 t3 where s3: "snd (k_gcm_crypt K Dec n False ?kd gctx (gv_cipher v) ?lw (gv_iv v) (gv_aad v) ?al ?tl) = (o3, t3)"
    by fastforce
  obtain c2 o2 where s2: "k_gcm_update K Enc n False ?kd (k_gcm_init K n ?kd gctx (gv_iv v) (gv_aad v) ?al) (gv_plain v) ?lw = (c2, o2)"
    by fastforce
  obtain c4 o4 where s4: "k_gcm_update K Dec n False ?kd (k_gcm_init K n ?kd gctx (gv_iv v) (gv_aad v) ?al) (gv_cipher v) ?lw = (c4, o4)"
    by fastforce
  obtain t2 t4 where t: "snd (k_gcm_finalize K Enc n ?kd c2 ?tl) = t2" "snd (k_gcm_finalize K Dec n ?kd c4 ?tl) = t4"
    by simp
  have lt: "length t2 = 16" "length t4 = 16"
    using gcm_lawD(6)[OF assms(1), where tlen = ?tl] wf(4) by (simp_all add: t[symmetric])
  have ans: "gcm_answers K gkey gctx v \<longleftrightarrow> o1 = gv_cipher v \<and> t1 = gv_tag v \<and> o2 = gv_cipher v \<and> t2 = gv_tag v \<and>
      o3 = gv_plain v \<and> t3 = gv_tag v \<and> o4 = gv_plain v \<and> t4 = gv_tag v"
    by (simp add: gcm_answers_def Let_def n s1 s2 s3 s4 t)
  obtain g1 x1 r1 where m1: "gcm_single K Enc n ?kd gctx (load_scratch 512 (gv_plain v) ?l) tag0 v = (g1, x1, r1)"
    by (metis prod_cases3)
  note S1 = gcm_single_take[OF assms(1-3) wf(2) assms(4) s1 m1]
  obtain g2 x2 v2 where m2: "gcm_steps K Enc n ?kd g1 (load_scratch 512 (gv_plain v) ?l) v = (g2, x2, v2)"
    by (metis prod_cases3)
  note S2 = gcm_steps_take[OF assms(1-3) wf(2) s2 t(1) m2]
  obtain g3 x3 r3 where m3: "gcm_single K Dec n ?kd g2 (load_scratch 512 (gv_cipher v) ?l) r1 v = (g3, x3, r3)"
    by (metis prod_cases3)
  note S3 = gcm_single_take[OF assms(1-3) wf(3) S1(3) s3 m3]
  obtain g4 x4 v4 where m4: "gcm_steps K Dec n ?kd g3 (load_scratch 512 (gv_cipher v) ?l) v = (g4, x4, v4)"
    by (metis prod_cases3)
  note S4 = gcm_steps_take[OF assms(1-3) wf(3) s4 t(2) m4]
  have lens: "length t1 = 16" "length t3 = 16" using S1 S3 by simp_all
  have c1: "memcmp_eq x1 (gv_cipher v) ?l \<longleftrightarrow> o1 = gv_cipher v" "memcmp_eq r1 (gv_tag v) 16 \<longleftrightarrow> t1 = gv_tag v"
    "memcmp_eq x2 (gv_cipher v) ?l \<longleftrightarrow> o2 = gv_cipher v" "memcmp_eq r1 t2 16 \<longleftrightarrow> t1 = t2"
    using wf lt lens S1 S2 by (simp_all add: memcmp_eq_def)
  have c3: "memcmp_eq x3 (gv_plain v) ?l \<longleftrightarrow> o3 = gv_plain v" "memcmp_eq r3 (gv_tag v) 16 \<longleftrightarrow> t3 = gv_tag v"
    "memcmp_eq x4 (gv_plain v) ?l \<longleftrightarrow> o4 = gv_plain v" "memcmp_eq r3 t4 16 \<longleftrightarrow> t3 = t4"
    using wf lt lens S3 S4 by (simp_all add: memcmp_eq_def)
  have v2: "gv_tag v2 = t2" "gv_tag_size v2 = 16" "gv_cipher v2 = gv_cipher v" "gv_plain v2 = gv_plain v"
    "gv_plain_size v2 = ?l"
    and v4: "gv_tag v4 = t4" "gv_tag_size v4 = 16" "gv_cipher v4 = gv_cipher v" "gv_plain v4 = gv_plain v"
    using S2(2) S4(2) wf by simp_all
  have "fst (gcm_self_test_vector K gkey gctx tag0 v) = (if gcm_answers K gkey gctx v then 1 else 0) \<and>
    (gcm_answers K gkey gctx v \<longrightarrow> snd (gcm_self_test_vector K gkey gctx tag0 v) = v)"
  proof (cases "o1 = gv_cipher v \<and> t1 = gv_tag v \<and> o2 = gv_cipher v \<and> t1 = t2")
    case False
    then show ?thesis
      unfolding ans using wf(1,4)
      by (auto simp: gcm_self_test_vector_def Let_def n m1 m2 c1 v2)
  next
    case True
    then have t2: "t2 = gv_tag v" by metis
    then have "v2 = v" using S2(2) by simp
    then show ?thesis
      unfolding ans using wf(1,4) True S4(2) t2
      by (simp add: gcm_self_test_vector_def Let_def n m1 m2 m3 m4 c1 c3 v4)
  qed
  then show "fst (gcm_self_test_vector K gkey gctx tag0 v) = (if gcm_answers K gkey gctx v then 1 else 0)"
    "gcm_answers K gkey gctx v \<Longrightarrow> snd (gcm_self_test_vector K gkey gctx tag0 v) = v" by blast+
qed

section \<open>All the tests\<close>

lemma cbc_self_test_iff:
  assumes "keyexp_law K" "cbc_law K" "\<forall>v\<in>set vs. cbc_wf v"
  shows "cbc_self_test K junk vs = (if \<forall>v\<in>set vs. cbc_answers K v then 0 else 1)"
  using assms(3) by (induction vs) (auto simp: cbc_self_test_vector_iff[OF assms(1,2)])

lemma xts_self_test_iff:
  assumes "keyexp_law K" "xts_law K" "\<forall>v\<in>set vs. xts_wf v"
  shows "xts_self_test K junk1 junk2 vs = (if \<forall>v\<in>set vs. xts_answers K v then 0 else 1)"
  using assms(3) by (induction vs) (auto simp: xts_self_test_vector_iff[OF assms(1,2)])

lemma gcm_self_test_iff:
  assumes "gcm_law K" "gcm_starts_afresh K" "\<forall>v\<in>set vs. gcm_wf v" "length tag = 16"
  shows "fst (gcm_self_test K gkey gctx tag vs) = (if \<forall>v\<in>set vs. gcm_answers K gkey gctx v then 0 else 1)"
    "\<forall>v\<in>set vs. gcm_answers K gkey gctx v \<Longrightarrow> snd (gcm_self_test K gkey gctx tag vs) = vs"
proof -
  have "fst (gcm_self_test K gkey gctx tag vs) = (if \<forall>v\<in>set vs. gcm_answers K gkey gctx v then 0 else 1) \<and>
    ((\<forall>v\<in>set vs. gcm_answers K gkey gctx v) \<longrightarrow> snd (gcm_self_test K gkey gctx tag vs) = vs)"
    using assms(3)
  proof (induction vs)
    case (Cons v vs)
    obtain ok v' where r: "gcm_self_test_vector K gkey gctx tag v = (ok, v')" by fastforce
    have wf: "gcm_wf v" using Cons.prems by simp
    note I = gcm_self_test_vector_iff[OF assms(1,2) wf assms(4), of gkey gctx, unfolded r]
    show ?case using Cons.IH Cons.prems I by (auto simp: r split: prod.splits if_splits)
  qed simp
  then show "fst (gcm_self_test K gkey gctx tag vs) = (if \<forall>v\<in>set vs. gcm_answers K gkey gctx v then 0 else 1)"
    "\<forall>v\<in>set vs. gcm_answers K gkey gctx v \<Longrightarrow> snd (gcm_self_test K gkey gctx tag vs) = vs" by blast+
qed

lemma vectors_wf: "\<forall>v\<in>set cbc_vectors. cbc_wf v" "\<forall>v\<in>set xts_vectors. xts_wf v" "\<forall>v\<in>set gcm_vectors. gcm_wf v"
  by (simp_all add: cbc_vectors_def xts_vectors_def gcm_vectors_def add_cbc_vector_def add_xts_vector_def
      add_gcm_vector_def cbc_wf_def xts_wf_def gcm_wf_def cbc_bits_def xts_gcm_bits_def
      aes_cbc_128_key_def aes_cbc_128_iv_def aes_cbc_128_plaintext_def aes_cbc_128_ciphertext_def
      aes_cbc_192_key_def aes_cbc_192_iv_def aes_cbc_192_plaintext_def
      aes_cbc_192_ciphertext_def aes_cbc_256_key_def aes_cbc_256_iv_def
      aes_cbc_256_plaintext_def aes_cbc_256_ciphertext_def aes_xts_128_key1_def
      aes_xts_128_key2_def aes_xts_128_tweak_def aes_xts_128_plaintext_def
      aes_xts_128_ciphertext_def aes_xts_256_key1_def aes_xts_256_key2_def aes_xts_256_tweak_def
      aes_xts_256_plaintext_def aes_xts_256_ciphertext_def aes_gcm_128_key_def
      aes_gcm_128_plaintext_def aes_gcm_128_iv_def aes_gcm_128_aad_def
      aes_gcm_128_ciphertext_def aes_gcm_128_tag_def aes_gcm_256_key_def
      aes_gcm_256_plaintext_def aes_gcm_256_aad_def aes_gcm_256_iv_def
      aes_gcm_256_ciphertext_def aes_gcm_256_tag_def)

lemma aes_self_tests_iff:
  assumes "aes_kernels_ok K" "length tag = 16"
  shows "fst (aes_self_tests K junk1 junk2 gkey gctx tag gcm_vectors) =
      (if (\<forall>v\<in>set cbc_vectors. cbc_answers K v) \<and> (\<forall>v\<in>set xts_vectors. xts_answers K v) \<and>
          (\<forall>v\<in>set gcm_vectors. gcm_answers K gkey gctx v) then 0 else 1)"
    "\<forall>v\<in>set gcm_vectors. gcm_answers K gkey gctx v \<Longrightarrow>
      snd (aes_self_tests K junk1 junk2 gkey gctx tag gcm_vectors) = gcm_vectors"
  using assms(1) cbc_self_test_iff[OF _ _ vectors_wf(1), of K junk1] xts_self_test_iff[OF _ _ vectors_wf(2), of K junk1 junk2]
    gcm_self_test_iff[OF _ _ vectors_wf(3) assms(2), of K gkey gctx]
  by (auto simp: aes_kernels_ok_def aes_self_tests_def Let_def split: prod.splits if_splits)

end
