(* ===== verification/Dispatch.thy ===== *)
theory Dispatch
  imports Prelude
begin

text \<open>
  Run-time dispatch in C: the functions \<open><name>_dispatcher\<close> of aarch64 and riscv64, which the
  first call of every entry point runs to choose the implementation behind it, from the features
  the kernel reports and, in a few files, from the processor's identification register. A
  dispatcher returns the address of a function, here its linker symbol, or \<open>NULL\<close>.

  What the dispatchers read is one record: the words of the auxiliary vector, the register, the
  lane counts that two assembly routines report, and the masks of the system header
  \<open><asm/hwcap.h>\<close>, whose values the code does not give.
\<close>

record platform =
  at_hwcap :: u64
  at_hwcap2 :: u64
  midr_el1 :: u32
  sm3_mb_sve_max_lanes :: int
  md5_mb_sve_max_lanes :: int
  HWCAP_ASIMD :: u64
  HWCAP_AES :: u64
  HWCAP_PMULL :: u64
  HWCAP_SHA1 :: u64
  HWCAP_SHA2 :: u64
  HWCAP_SHA3 :: u64
  HWCAP_SM3 :: u64
  HWCAP_SVE :: u64

type_synonym provider = "string option"

section \<open>\<open>include/internal/aarch64_multibinary.h\<close>\<close>

definition PROVIDER_INFO :: "string \<Rightarrow> provider" where
  "PROVIDER_INFO func_entry = Some func_entry"

definition PROVIDER_BASIC :: "string \<Rightarrow> provider" where
  "PROVIDER_BASIC name = PROVIDER_INFO (name @ ''_base'')"

text \<open>The files of the AES functions redefine it: there is no portable implementation.\<close>

definition PROVIDER_BASIC_NULL :: "string \<Rightarrow> provider" where
  "PROVIDER_BASIC_NULL a = None"

definition HWCAP_CPUID :: u64 where "HWCAP_CPUID = 2 ^ 11"
definition HWCAP2_SVE2 :: u64 where "HWCAP2_SVE2 = 2 ^ 1"

definition CPU_IMPLEMENTER_RESERVE :: u32 where "CPU_IMPLEMENTER_RESERVE = 0x00"
definition CPU_IMPLEMENTER_ARM :: u32 where "CPU_IMPLEMENTER_ARM = 0x41"
definition CPU_PART_CORTEX_A57 :: u32 where "CPU_PART_CORTEX_A57 = 0xD07"
definition CPU_PART_CORTEX_A72 :: u32 where "CPU_PART_CORTEX_A72 = 0xD08"
definition CPU_PART_NEOVERSE_N1 :: u32 where "CPU_PART_NEOVERSE_N1 = 0xD0C"

definition MICRO_ARCH_ID :: "u32 \<Rightarrow> u32 \<Rightarrow> u32" where
  "MICRO_ARCH_ID imp part = push_bit 24 (imp AND 0xff) OR push_bit 4 (part AND 0xfff)"

definition get_micro_arch_id :: "platform \<Rightarrow> u32" where
  "get_micro_arch_id p =
     (let id = (if at_hwcap p AND HWCAP_CPUID \<noteq> 0 then midr_el1 p else CPU_IMPLEMENTER_RESERVE)
      in id AND 0xff00fff0)"

text \<open>The three results of \<open>sve_capable\<close>, which three files define.\<close>

datatype sve_cap = CAP_NOSVE | CAP_SVE | CAP_SVE2

section \<open>The multi-buffer hashes\<close>

text \<open>\<open>md5_mb/aarch64/md5_mb_aarch64_dispatcher.c\<close>.\<close>

definition md5_sve_capable :: "platform \<Rightarrow> u64 \<Rightarrow> sve_cap" where
  "md5_sve_capable p auxval =
     (if auxval AND HWCAP_SVE p \<noteq> 0 then
        if at_hwcap2 p AND HWCAP2_SVE2 \<noteq> 0 then CAP_SVE2
        else CAP_SVE
      else CAP_NOSVE)"

definition md5_ctx_mgr_submit_dispatcher :: "platform \<Rightarrow> provider" where
  "md5_ctx_mgr_submit_dispatcher p =
     (let auxval = at_hwcap p in
      case md5_sve_capable p auxval of
        CAP_SVE \<Rightarrow> PROVIDER_INFO ''md5_ctx_mgr_submit_sve''
      | CAP_SVE2 \<Rightarrow> PROVIDER_INFO ''md5_ctx_mgr_submit_sve2''
      | CAP_NOSVE \<Rightarrow>
      if auxval AND HWCAP_ASIMD p \<noteq> 0 then PROVIDER_INFO ''md5_ctx_mgr_submit_asimd''
      else PROVIDER_BASIC ''_md5_ctx_mgr_submit'')"

definition md5_ctx_mgr_init_dispatcher :: "platform \<Rightarrow> provider" where
  "md5_ctx_mgr_init_dispatcher p =
     (let auxval = at_hwcap p in
      case md5_sve_capable p auxval of
        CAP_SVE \<Rightarrow> PROVIDER_INFO ''md5_ctx_mgr_init_sve''
      | CAP_SVE2 \<Rightarrow> PROVIDER_INFO ''md5_ctx_mgr_init_sve2''
      | CAP_NOSVE \<Rightarrow>
      if auxval AND HWCAP_ASIMD p \<noteq> 0 then PROVIDER_INFO ''md5_ctx_mgr_init_asimd''
      else PROVIDER_BASIC ''_md5_ctx_mgr_init'')"

definition md5_ctx_mgr_flush_dispatcher :: "platform \<Rightarrow> provider" where
  "md5_ctx_mgr_flush_dispatcher p =
     (let auxval = at_hwcap p in
      case md5_sve_capable p auxval of
        CAP_SVE \<Rightarrow> PROVIDER_INFO ''md5_ctx_mgr_flush_sve''
      | CAP_SVE2 \<Rightarrow> PROVIDER_INFO ''md5_ctx_mgr_flush_sve2''
      | CAP_NOSVE \<Rightarrow>
      if auxval AND HWCAP_ASIMD p \<noteq> 0 then PROVIDER_INFO ''md5_ctx_mgr_flush_asimd''
      else PROVIDER_BASIC ''_md5_ctx_mgr_flush'')"

text \<open>\<open>sha1_mb/aarch64/sha1_mb_aarch64_dispatcher.c\<close>. Three micro-architectures take the vector code.\<close>

definition sha1_ctx_mgr_submit_dispatcher :: "platform \<Rightarrow> provider" where
  "sha1_ctx_mgr_submit_dispatcher p =
     (let auxval = at_hwcap p in
      if auxval AND HWCAP_SHA1 p \<noteq> 0 then PROVIDER_INFO ''sha1_ctx_mgr_submit_ce''
      else if auxval AND HWCAP_ASIMD p \<noteq> 0 \<and>
        get_micro_arch_id p \<in> {MICRO_ARCH_ID CPU_IMPLEMENTER_ARM CPU_PART_NEOVERSE_N1,
          MICRO_ARCH_ID CPU_IMPLEMENTER_ARM CPU_PART_CORTEX_A57,
          MICRO_ARCH_ID CPU_IMPLEMENTER_ARM CPU_PART_CORTEX_A72} then
        PROVIDER_INFO ''sha1_ctx_mgr_submit_asimd''
      else PROVIDER_BASIC ''_sha1_ctx_mgr_submit'')"

definition sha1_ctx_mgr_init_dispatcher :: "platform \<Rightarrow> provider" where
  "sha1_ctx_mgr_init_dispatcher p =
     (let auxval = at_hwcap p in
      if auxval AND HWCAP_SHA1 p \<noteq> 0 then PROVIDER_INFO ''sha1_ctx_mgr_init_ce''
      else if auxval AND HWCAP_ASIMD p \<noteq> 0 \<and>
        get_micro_arch_id p \<in> {MICRO_ARCH_ID CPU_IMPLEMENTER_ARM CPU_PART_NEOVERSE_N1,
          MICRO_ARCH_ID CPU_IMPLEMENTER_ARM CPU_PART_CORTEX_A57,
          MICRO_ARCH_ID CPU_IMPLEMENTER_ARM CPU_PART_CORTEX_A72} then
        PROVIDER_INFO ''sha1_ctx_mgr_init_asimd''
      else PROVIDER_BASIC ''_sha1_ctx_mgr_init'')"

definition sha1_ctx_mgr_flush_dispatcher :: "platform \<Rightarrow> provider" where
  "sha1_ctx_mgr_flush_dispatcher p =
     (let auxval = at_hwcap p in
      if auxval AND HWCAP_SHA1 p \<noteq> 0 then PROVIDER_INFO ''sha1_ctx_mgr_flush_ce''
      else if auxval AND HWCAP_ASIMD p \<noteq> 0 \<and>
        get_micro_arch_id p \<in> {MICRO_ARCH_ID CPU_IMPLEMENTER_ARM CPU_PART_NEOVERSE_N1,
          MICRO_ARCH_ID CPU_IMPLEMENTER_ARM CPU_PART_CORTEX_A57,
          MICRO_ARCH_ID CPU_IMPLEMENTER_ARM CPU_PART_CORTEX_A72} then
        PROVIDER_INFO ''sha1_ctx_mgr_flush_asimd''
      else PROVIDER_BASIC ''_sha1_ctx_mgr_flush'')"

text \<open>\<open>sha256_mb/aarch64/sha256_mb_aarch64_dispatcher.c\<close>.\<close>

definition sha256_ctx_mgr_submit_dispatcher :: "platform \<Rightarrow> provider" where
  "sha256_ctx_mgr_submit_dispatcher p =
     (let auxval = at_hwcap p in
      if auxval AND HWCAP_SHA2 p \<noteq> 0 then PROVIDER_INFO ''sha256_ctx_mgr_submit_ce''
      else PROVIDER_BASIC ''_sha256_ctx_mgr_submit'')"

definition sha256_ctx_mgr_init_dispatcher :: "platform \<Rightarrow> provider" where
  "sha256_ctx_mgr_init_dispatcher p =
     (let auxval = at_hwcap p in
      if auxval AND HWCAP_SHA2 p \<noteq> 0 then PROVIDER_INFO ''sha256_ctx_mgr_init_ce''
      else PROVIDER_BASIC ''_sha256_ctx_mgr_init'')"

definition sha256_ctx_mgr_flush_dispatcher :: "platform \<Rightarrow> provider" where
  "sha256_ctx_mgr_flush_dispatcher p =
     (let auxval = at_hwcap p in
      if auxval AND HWCAP_SHA2 p \<noteq> 0 then PROVIDER_INFO ''sha256_ctx_mgr_flush_ce''
      else PROVIDER_BASIC ''_sha256_ctx_mgr_flush'')"

text \<open>\<open>sha512_mb/aarch64/sha512_mb_aarch64_dispatcher.c\<close>.\<close>

definition sha512_ctx_mgr_submit_dispatcher :: "platform \<Rightarrow> provider" where
  "sha512_ctx_mgr_submit_dispatcher p =
     (let auxval = at_hwcap p in
      if auxval AND HWCAP_SHA3 p \<noteq> 0 then PROVIDER_INFO ''sha512_ctx_mgr_submit_ce''
      else PROVIDER_BASIC ''_sha512_ctx_mgr_submit'')"

definition sha512_ctx_mgr_init_dispatcher :: "platform \<Rightarrow> provider" where
  "sha512_ctx_mgr_init_dispatcher p =
     (let auxval = at_hwcap p in
      if auxval AND HWCAP_SHA3 p \<noteq> 0 then PROVIDER_INFO ''sha512_ctx_mgr_init_ce''
      else PROVIDER_BASIC ''_sha512_ctx_mgr_init'')"

definition sha512_ctx_mgr_flush_dispatcher :: "platform \<Rightarrow> provider" where
  "sha512_ctx_mgr_flush_dispatcher p =
     (let auxval = at_hwcap p in
      if auxval AND HWCAP_SHA3 p \<noteq> 0 then PROVIDER_INFO ''sha512_ctx_mgr_flush_ce''
      else PROVIDER_BASIC ''_sha512_ctx_mgr_flush'')"

text \<open>\<open>sm3_mb/aarch64/sm3_mb_aarch64_dispatcher.c\<close>. SVE is taken from eight lanes on, SVE2 always.\<close>

definition sm3_sve_capable :: "platform \<Rightarrow> u64 \<Rightarrow> sve_cap" where
  "sm3_sve_capable p auxval =
     (if auxval AND HWCAP_SVE p \<noteq> 0 then
        if at_hwcap2 p AND HWCAP2_SVE2 \<noteq> 0 then CAP_SVE2
        else if 8 \<le> sm3_mb_sve_max_lanes p then CAP_SVE
        else CAP_NOSVE
      else CAP_NOSVE)"

definition sm3_ctx_mgr_submit_dispatcher :: "platform \<Rightarrow> provider" where
  "sm3_ctx_mgr_submit_dispatcher p =
     (let auxval = at_hwcap p in
      if auxval AND HWCAP_SM3 p \<noteq> 0 then PROVIDER_INFO ''sm3_ctx_mgr_submit_sm'' else
      case sm3_sve_capable p auxval of
        CAP_SVE \<Rightarrow> PROVIDER_INFO ''sm3_ctx_mgr_submit_sve''
      | CAP_SVE2 \<Rightarrow> PROVIDER_INFO ''sm3_ctx_mgr_submit_sve2''
      | CAP_NOSVE \<Rightarrow>
      if auxval AND HWCAP_ASIMD p \<noteq> 0 then PROVIDER_INFO ''sm3_ctx_mgr_submit_asimd''
      else PROVIDER_BASIC ''_sm3_ctx_mgr_submit'')"

definition sm3_ctx_mgr_init_dispatcher :: "platform \<Rightarrow> provider" where
  "sm3_ctx_mgr_init_dispatcher p =
     (let auxval = at_hwcap p in
      if auxval AND HWCAP_SM3 p \<noteq> 0 then PROVIDER_INFO ''sm3_ctx_mgr_init_sm'' else
      case sm3_sve_capable p auxval of
        CAP_SVE \<Rightarrow> PROVIDER_INFO ''sm3_ctx_mgr_init_sve''
      | CAP_SVE2 \<Rightarrow> PROVIDER_INFO ''sm3_ctx_mgr_init_sve2''
      | CAP_NOSVE \<Rightarrow>
      if auxval AND HWCAP_ASIMD p \<noteq> 0 then PROVIDER_INFO ''sm3_ctx_mgr_init_asimd''
      else PROVIDER_BASIC ''_sm3_ctx_mgr_init'')"

definition sm3_ctx_mgr_flush_dispatcher :: "platform \<Rightarrow> provider" where
  "sm3_ctx_mgr_flush_dispatcher p =
     (let auxval = at_hwcap p in
      if auxval AND HWCAP_SM3 p \<noteq> 0 then PROVIDER_INFO ''sm3_ctx_mgr_flush_sm'' else
      case sm3_sve_capable p auxval of
        CAP_SVE \<Rightarrow> PROVIDER_INFO ''sm3_ctx_mgr_flush_sve''
      | CAP_SVE2 \<Rightarrow> PROVIDER_INFO ''sm3_ctx_mgr_flush_sve2''
      | CAP_NOSVE \<Rightarrow>
      if auxval AND HWCAP_ASIMD p \<noteq> 0 then PROVIDER_INFO ''sm3_ctx_mgr_flush_asimd''
      else PROVIDER_BASIC ''_sm3_ctx_mgr_flush'')"

section \<open>The multi-hashes and the rolling hash\<close>

text \<open>\<open>mh_sha1/aarch64/mh_sha1_aarch64_dispatcher.c\<close>.\<close>

definition mh_sha1_sve_capable :: "platform \<Rightarrow> u64 \<Rightarrow> sve_cap" where
  "mh_sha1_sve_capable p auxval =
     (if auxval AND HWCAP_SVE p \<noteq> 0 then
        if at_hwcap2 p AND HWCAP2_SVE2 \<noteq> 0 then CAP_SVE2
        else CAP_SVE
      else CAP_NOSVE)"

definition mh_sha1_update_dispatcher :: "platform \<Rightarrow> provider" where
  "mh_sha1_update_dispatcher p =
     (let auxval = at_hwcap p in
      if auxval AND HWCAP_SHA1 p \<noteq> 0 then PROVIDER_INFO ''mh_sha1_update_ce'' else
      case mh_sha1_sve_capable p auxval of
        CAP_SVE \<Rightarrow> PROVIDER_INFO ''mh_sha1_update_sve''
      | CAP_SVE2 \<Rightarrow> PROVIDER_INFO ''mh_sha1_update_sve2''
      | CAP_NOSVE \<Rightarrow>
      if auxval AND HWCAP_ASIMD p \<noteq> 0 then PROVIDER_INFO ''mh_sha1_update_asimd''
      else PROVIDER_BASIC ''_mh_sha1_update'')"

definition mh_sha1_finalize_dispatcher :: "platform \<Rightarrow> provider" where
  "mh_sha1_finalize_dispatcher p =
     (let auxval = at_hwcap p in
      if auxval AND HWCAP_SHA1 p \<noteq> 0 then PROVIDER_INFO ''mh_sha1_finalize_ce'' else
      case mh_sha1_sve_capable p auxval of
        CAP_SVE \<Rightarrow> PROVIDER_INFO ''mh_sha1_finalize_sve''
      | CAP_SVE2 \<Rightarrow> PROVIDER_INFO ''mh_sha1_finalize_sve2''
      | CAP_NOSVE \<Rightarrow>
      if auxval AND HWCAP_ASIMD p \<noteq> 0 then PROVIDER_INFO ''mh_sha1_finalize_asimd''
      else PROVIDER_BASIC ''_mh_sha1_finalize'')"

text \<open>\<open>mh_sha256/aarch64/mh_sha256_aarch64_dispatcher.c\<close>.\<close>

definition mh_sha256_update_dispatcher :: "platform \<Rightarrow> provider" where
  "mh_sha256_update_dispatcher p =
     (let auxval = at_hwcap p in
      if auxval AND HWCAP_SHA2 p \<noteq> 0 then PROVIDER_INFO ''mh_sha256_update_ce''
      else PROVIDER_BASIC ''_mh_sha256_update'')"

definition mh_sha256_finalize_dispatcher :: "platform \<Rightarrow> provider" where
  "mh_sha256_finalize_dispatcher p =
     (let auxval = at_hwcap p in
      if auxval AND HWCAP_SHA2 p \<noteq> 0 then PROVIDER_INFO ''mh_sha256_finalize_ce''
      else PROVIDER_BASIC ''_mh_sha256_finalize'')"

text \<open>
  \<open>mh_sha256/riscv64/mh_sha256_riscv64_dispatcher.c\<close>, with the build option \<open>HAVE_RVV\<close>.
\<close>

definition HWCAP_RV_V :: u64 where "HWCAP_RV_V = push_bit (0x56 - 0x41) 1"

definition mh_sha256_update_riscv64_dispatcher :: "bool \<Rightarrow> platform \<Rightarrow> provider" where
  "mh_sha256_update_riscv64_dispatcher have_rvv p =
     (if have_rvv \<and> at_hwcap p AND HWCAP_RV_V \<noteq> 0 then PROVIDER_INFO ''mh_sha256_update_rvv''
      else PROVIDER_BASIC ''_mh_sha256_update'')"

definition mh_sha256_finalize_riscv64_dispatcher :: "bool \<Rightarrow> platform \<Rightarrow> provider" where
  "mh_sha256_finalize_riscv64_dispatcher have_rvv p =
     (if have_rvv \<and> at_hwcap p AND HWCAP_RV_V \<noteq> 0 then PROVIDER_INFO ''mh_sha256_finalize_rvv''
      else PROVIDER_BASIC ''_mh_sha256_finalize'')"

text \<open>\<open>mh_sha1_murmur3_x64_128/aarch64/mh_sha1_murmur3_aarch64_dispatcher.c\<close>.\<close>

definition mh_sha1_murmur3_x64_128_update_dispatcher :: "platform \<Rightarrow> provider" where
  "mh_sha1_murmur3_x64_128_update_dispatcher p =
     (let auxval = at_hwcap p in
      if auxval AND HWCAP_SHA1 p \<noteq> 0 then PROVIDER_INFO ''mh_sha1_murmur3_update_ce''
      else if auxval AND HWCAP_ASIMD p \<noteq> 0 then PROVIDER_INFO ''mh_sha1_murmur3_update_asimd''
      else PROVIDER_BASIC ''_mh_sha1_murmur3_x64_128_update'')"

definition mh_sha1_murmur3_x64_128_finalize_dispatcher :: "platform \<Rightarrow> provider" where
  "mh_sha1_murmur3_x64_128_finalize_dispatcher p =
     (let auxval = at_hwcap p in
      if auxval AND HWCAP_SHA1 p \<noteq> 0 then PROVIDER_INFO ''mh_sha1_murmur3_finalize_ce''
      else if auxval AND HWCAP_ASIMD p \<noteq> 0 then PROVIDER_INFO ''mh_sha1_murmur3_finalize_asimd''
      else PROVIDER_BASIC ''_mh_sha1_murmur3_x64_128_finalize'')"

text \<open>\<open>rolling_hash/aarch64/rolling_hash2_aarch64_dispatcher.c\<close>.\<close>

definition rolling_hash2_run_until_dispatcher :: "platform \<Rightarrow> provider" where
  "rolling_hash2_run_until_dispatcher p = PROVIDER_INFO ''rolling_hash2_run_until_unroll''"

section \<open>AES\<close>

text \<open>\<open>aes/aarch64/keyexp_aarch64_dispatcher.c\<close>.\<close>

definition aes_keyexp_128_dispatcher :: "platform \<Rightarrow> provider" where
  "aes_keyexp_128_dispatcher p =
     (let auxval = at_hwcap p in
      if auxval AND (HWCAP_ASIMD p OR HWCAP_AES p) = (HWCAP_ASIMD p OR HWCAP_AES p) then
        PROVIDER_INFO ''aes_keyexp_128_aes''
      else PROVIDER_BASIC_NULL ''_aes_keyexp_128'')"

definition aes_keyexp_128_enc_dispatcher :: "platform \<Rightarrow> provider" where
  "aes_keyexp_128_enc_dispatcher p =
     (let auxval = at_hwcap p in
      if auxval AND (HWCAP_ASIMD p OR HWCAP_AES p) = (HWCAP_ASIMD p OR HWCAP_AES p) then
        PROVIDER_INFO ''aes_keyexp_128_enc_aes''
      else PROVIDER_BASIC_NULL ''aes_keyexp_128_enc'')"

definition aes_keyexp_192_dispatcher :: "platform \<Rightarrow> provider" where
  "aes_keyexp_192_dispatcher p =
     (let auxval = at_hwcap p in
      if auxval AND (HWCAP_ASIMD p OR HWCAP_AES p) = (HWCAP_ASIMD p OR HWCAP_AES p) then
        PROVIDER_INFO ''aes_keyexp_192_aes''
      else PROVIDER_BASIC_NULL ''_aes_keyexp_192'')"

definition aes_keyexp_256_dispatcher :: "platform \<Rightarrow> provider" where
  "aes_keyexp_256_dispatcher p =
     (let auxval = at_hwcap p in
      if auxval AND (HWCAP_ASIMD p OR HWCAP_AES p) = (HWCAP_ASIMD p OR HWCAP_AES p) then
        PROVIDER_INFO ''aes_keyexp_256_aes''
      else PROVIDER_BASIC_NULL ''_aes_keyexp_256'')"

text \<open>\<open>aes/aarch64/cbc_aarch64_dispatcher.c\<close>; decryption is unrolled by the micro-architecture.\<close>

definition cbc_is_crypto_available :: "platform \<Rightarrow> bool" where
  "cbc_is_crypto_available p \<longleftrightarrow>
     (let auxval = at_hwcap p in auxval AND (HWCAP_ASIMD p OR HWCAP_AES p) = (HWCAP_ASIMD p OR HWCAP_AES p))"

definition aes_cbc_enc_128_dispatcher :: "platform \<Rightarrow> provider" where
  "aes_cbc_enc_128_dispatcher p =
     (if cbc_is_crypto_available p then PROVIDER_INFO ''_aes_cbc_enc_128_aes''
      else PROVIDER_BASIC_NULL ''_aes_cbc_enc_128'')"

definition aes_cbc_enc_192_dispatcher :: "platform \<Rightarrow> provider" where
  "aes_cbc_enc_192_dispatcher p =
     (if cbc_is_crypto_available p then PROVIDER_INFO ''_aes_cbc_enc_192_aes''
      else PROVIDER_BASIC_NULL ''_aes_cbc_enc_192'')"

definition aes_cbc_enc_256_dispatcher :: "platform \<Rightarrow> provider" where
  "aes_cbc_enc_256_dispatcher p =
     (if cbc_is_crypto_available p then PROVIDER_INFO ''_aes_cbc_enc_256_aes''
      else PROVIDER_BASIC_NULL ''_aes_cbc_enc_256'')"

definition aes_cbc_dec_128_dispatcher :: "platform \<Rightarrow> provider" where
  "aes_cbc_dec_128_dispatcher p =
     (if cbc_is_crypto_available p then 
        let id = get_micro_arch_id p in
        if id = MICRO_ARCH_ID CPU_IMPLEMENTER_ARM CPU_PART_NEOVERSE_N1 then PROVIDER_INFO ''_aes_cbc_dec_128_aes_1''
        else if id = MICRO_ARCH_ID CPU_IMPLEMENTER_ARM CPU_PART_CORTEX_A57 then PROVIDER_INFO ''_aes_cbc_dec_128_aes_4''
        else if id = MICRO_ARCH_ID CPU_IMPLEMENTER_ARM CPU_PART_CORTEX_A72 then PROVIDER_INFO ''_aes_cbc_dec_128_aes_6''
        else PROVIDER_INFO ''_aes_cbc_dec_128_aes_5''
      else PROVIDER_BASIC_NULL ''_aes_cbc_dec_128'')"

definition aes_cbc_dec_192_dispatcher :: "platform \<Rightarrow> provider" where
  "aes_cbc_dec_192_dispatcher p =
     (if cbc_is_crypto_available p then 
        let id = get_micro_arch_id p in
        if id = MICRO_ARCH_ID CPU_IMPLEMENTER_ARM CPU_PART_NEOVERSE_N1 then PROVIDER_INFO ''_aes_cbc_dec_192_aes_1''
        else if id = MICRO_ARCH_ID CPU_IMPLEMENTER_ARM CPU_PART_CORTEX_A57 then PROVIDER_INFO ''_aes_cbc_dec_192_aes_5''
        else if id = MICRO_ARCH_ID CPU_IMPLEMENTER_ARM CPU_PART_CORTEX_A72 then PROVIDER_INFO ''_aes_cbc_dec_192_aes_4''
        else PROVIDER_INFO ''_aes_cbc_dec_192_aes_5''
      else PROVIDER_BASIC_NULL ''_aes_cbc_dec_192'')"

definition aes_cbc_dec_256_dispatcher :: "platform \<Rightarrow> provider" where
  "aes_cbc_dec_256_dispatcher p =
     (if cbc_is_crypto_available p then 
        let id = get_micro_arch_id p in
        if id = MICRO_ARCH_ID CPU_IMPLEMENTER_ARM CPU_PART_NEOVERSE_N1 then PROVIDER_INFO ''_aes_cbc_dec_256_aes_1''
        else if id = MICRO_ARCH_ID CPU_IMPLEMENTER_ARM CPU_PART_CORTEX_A57 then PROVIDER_INFO ''_aes_cbc_dec_256_aes_5''
        else if id = MICRO_ARCH_ID CPU_IMPLEMENTER_ARM CPU_PART_CORTEX_A72 then PROVIDER_INFO ''_aes_cbc_dec_256_aes_6''
        else PROVIDER_INFO ''_aes_cbc_dec_256_aes_5''
      else PROVIDER_BASIC_NULL ''_aes_cbc_dec_256'')"

text \<open>\<open>aes/aarch64/xts_aarch64_dispatcher.c\<close>.\<close>

definition xts_is_crypto_available :: "platform \<Rightarrow> bool" where
  "xts_is_crypto_available p \<longleftrightarrow>
     (let auxval = at_hwcap p in auxval AND (HWCAP_ASIMD p OR HWCAP_AES p) = (HWCAP_ASIMD p OR HWCAP_AES p))"

definition XTS_AES_128_enc_dispatcher :: "platform \<Rightarrow> provider" where
  "XTS_AES_128_enc_dispatcher p =
     (if xts_is_crypto_available p then PROVIDER_INFO ''XTS_AES_128_enc_ce''
      else PROVIDER_BASIC_NULL ''_XTS_AES_128_enc'')"

definition XTS_AES_128_dec_dispatcher :: "platform \<Rightarrow> provider" where
  "XTS_AES_128_dec_dispatcher p =
     (if xts_is_crypto_available p then PROVIDER_INFO ''XTS_AES_128_dec_ce''
      else PROVIDER_BASIC_NULL ''_XTS_AES_128_dec'')"

definition XTS_AES_128_enc_expanded_key_dispatcher :: "platform \<Rightarrow> provider" where
  "XTS_AES_128_enc_expanded_key_dispatcher p =
     (if xts_is_crypto_available p then PROVIDER_INFO ''XTS_AES_128_enc_expanded_key_ce''
      else PROVIDER_BASIC_NULL ''_XTS_AES_128_enc_expanded_key'')"

definition XTS_AES_128_dec_expanded_key_dispatcher :: "platform \<Rightarrow> provider" where
  "XTS_AES_128_dec_expanded_key_dispatcher p =
     (if xts_is_crypto_available p then PROVIDER_INFO ''XTS_AES_128_dec_expanded_key_ce''
      else PROVIDER_BASIC_NULL ''_XTS_AES_128_dec_expanded_key'')"

definition XTS_AES_256_enc_dispatcher :: "platform \<Rightarrow> provider" where
  "XTS_AES_256_enc_dispatcher p =
     (if xts_is_crypto_available p then PROVIDER_INFO ''XTS_AES_256_enc_ce''
      else PROVIDER_BASIC_NULL ''_XTS_AES_256_enc'')"

definition XTS_AES_256_dec_dispatcher :: "platform \<Rightarrow> provider" where
  "XTS_AES_256_dec_dispatcher p =
     (if xts_is_crypto_available p then PROVIDER_INFO ''XTS_AES_256_dec_ce''
      else PROVIDER_BASIC_NULL ''_XTS_AES_256_dec'')"

definition XTS_AES_256_enc_expanded_key_dispatcher :: "platform \<Rightarrow> provider" where
  "XTS_AES_256_enc_expanded_key_dispatcher p =
     (if xts_is_crypto_available p then PROVIDER_INFO ''XTS_AES_256_enc_expanded_key_ce''
      else PROVIDER_BASIC_NULL ''_XTS_AES_256_enc_expanded_key'')"

definition XTS_AES_256_dec_expanded_key_dispatcher :: "platform \<Rightarrow> provider" where
  "XTS_AES_256_dec_expanded_key_dispatcher p =
     (if xts_is_crypto_available p then PROVIDER_INFO ''XTS_AES_256_dec_expanded_key_ce''
      else PROVIDER_BASIC_NULL ''_XTS_AES_256_dec_expanded_key'')"

text \<open>\<open>aes/aarch64/gcm_aarch64_dispatcher.c\<close>.\<close>

definition gcm_is_crypto_available :: "platform \<Rightarrow> bool" where
  "gcm_is_crypto_available p \<longleftrightarrow>
     (let auxval = at_hwcap p in auxval AND (HWCAP_ASIMD p OR HWCAP_AES p OR HWCAP_PMULL p) = (HWCAP_ASIMD p OR HWCAP_AES p OR HWCAP_PMULL p))"

definition aes_gcm_enc_128_dispatcher :: "platform \<Rightarrow> provider" where
  "aes_gcm_enc_128_dispatcher p =
     (if gcm_is_crypto_available p then PROVIDER_INFO ''aes_gcm_enc_128_aes''
      else PROVIDER_BASIC_NULL ''_aes_gcm_enc_128'')"

definition aes_gcm_dec_128_dispatcher :: "platform \<Rightarrow> provider" where
  "aes_gcm_dec_128_dispatcher p =
     (if gcm_is_crypto_available p then PROVIDER_INFO ''aes_gcm_dec_128_aes''
      else PROVIDER_BASIC_NULL ''_aes_gcm_dec_128'')"

definition aes_gcm_precomp_128_dispatcher :: "platform \<Rightarrow> provider" where
  "aes_gcm_precomp_128_dispatcher p =
     (if gcm_is_crypto_available p then PROVIDER_INFO ''aes_gcm_precomp_128_aes''
      else PROVIDER_BASIC_NULL ''_aes_gcm_precomp_128'')"

definition aes_gcm_enc_256_dispatcher :: "platform \<Rightarrow> provider" where
  "aes_gcm_enc_256_dispatcher p =
     (if gcm_is_crypto_available p then PROVIDER_INFO ''aes_gcm_enc_256_aes''
      else PROVIDER_BASIC_NULL ''_aes_gcm_enc_256'')"

definition aes_gcm_dec_256_dispatcher :: "platform \<Rightarrow> provider" where
  "aes_gcm_dec_256_dispatcher p =
     (if gcm_is_crypto_available p then PROVIDER_INFO ''aes_gcm_dec_256_aes''
      else PROVIDER_BASIC_NULL ''_aes_gcm_dec_256'')"

definition aes_gcm_precomp_256_dispatcher :: "platform \<Rightarrow> provider" where
  "aes_gcm_precomp_256_dispatcher p =
     (if gcm_is_crypto_available p then PROVIDER_INFO ''aes_gcm_precomp_256_aes''
      else PROVIDER_BASIC_NULL ''_aes_gcm_precomp_256'')"

definition aes_gcm_enc_128_update_dispatcher :: "platform \<Rightarrow> provider" where
  "aes_gcm_enc_128_update_dispatcher p =
     (if gcm_is_crypto_available p then PROVIDER_INFO ''aes_gcm_enc_128_update_aes''
      else PROVIDER_BASIC_NULL ''_aes_gcm_enc_128_update'')"

definition aes_gcm_enc_128_finalize_dispatcher :: "platform \<Rightarrow> provider" where
  "aes_gcm_enc_128_finalize_dispatcher p =
     (if gcm_is_crypto_available p then PROVIDER_INFO ''aes_gcm_enc_128_finalize_aes''
      else PROVIDER_BASIC_NULL ''_aes_gcm_enc_128_finalize'')"

definition aes_gcm_dec_128_update_dispatcher :: "platform \<Rightarrow> provider" where
  "aes_gcm_dec_128_update_dispatcher p =
     (if gcm_is_crypto_available p then PROVIDER_INFO ''aes_gcm_dec_128_update_aes''
      else PROVIDER_BASIC_NULL ''_aes_gcm_dec_128_update'')"

definition aes_gcm_dec_128_finalize_dispatcher :: "platform \<Rightarrow> provider" where
  "aes_gcm_dec_128_finalize_dispatcher p =
     (if gcm_is_crypto_available p then PROVIDER_INFO ''aes_gcm_dec_128_finalize_aes''
      else PROVIDER_BASIC_NULL ''_aes_gcm_dec_128_finalize'')"

definition aes_gcm_enc_256_update_dispatcher :: "platform \<Rightarrow> provider" where
  "aes_gcm_enc_256_update_dispatcher p =
     (if gcm_is_crypto_available p then PROVIDER_INFO ''aes_gcm_enc_256_update_aes''
      else PROVIDER_BASIC_NULL ''_aes_gcm_enc_256_update'')"

definition aes_gcm_enc_256_finalize_dispatcher :: "platform \<Rightarrow> provider" where
  "aes_gcm_enc_256_finalize_dispatcher p =
     (if gcm_is_crypto_available p then PROVIDER_INFO ''aes_gcm_enc_256_finalize_aes''
      else PROVIDER_BASIC_NULL ''_aes_gcm_enc_256_finalize'')"

definition aes_gcm_dec_256_update_dispatcher :: "platform \<Rightarrow> provider" where
  "aes_gcm_dec_256_update_dispatcher p =
     (if gcm_is_crypto_available p then PROVIDER_INFO ''aes_gcm_dec_256_update_aes''
      else PROVIDER_BASIC_NULL ''_aes_gcm_dec_256_update'')"

definition aes_gcm_dec_256_finalize_dispatcher :: "platform \<Rightarrow> provider" where
  "aes_gcm_dec_256_finalize_dispatcher p =
     (if gcm_is_crypto_available p then PROVIDER_INFO ''aes_gcm_dec_256_finalize_aes''
      else PROVIDER_BASIC_NULL ''_aes_gcm_dec_256_finalize'')"

definition aes_gcm_init_256_dispatcher :: "platform \<Rightarrow> provider" where
  "aes_gcm_init_256_dispatcher p =
     (if gcm_is_crypto_available p then PROVIDER_INFO ''aes_gcm_init_256_aes''
      else PROVIDER_BASIC_NULL ''_aes_gcm_init_256'')"

definition aes_gcm_init_128_dispatcher :: "platform \<Rightarrow> provider" where
  "aes_gcm_init_128_dispatcher p =
     (if gcm_is_crypto_available p then PROVIDER_INFO ''aes_gcm_init_128_aes''
      else PROVIDER_BASIC_NULL ''_aes_gcm_init_128'')"

definition aes_gcm_enc_128_nt_dispatcher :: "platform \<Rightarrow> provider" where
  "aes_gcm_enc_128_nt_dispatcher p =
     (if gcm_is_crypto_available p then PROVIDER_INFO ''aes_gcm_enc_128_nt_aes''
      else PROVIDER_BASIC_NULL ''_aes_gcm_enc_128_nt'')"

definition aes_gcm_enc_128_update_nt_dispatcher :: "platform \<Rightarrow> provider" where
  "aes_gcm_enc_128_update_nt_dispatcher p =
     (if gcm_is_crypto_available p then PROVIDER_INFO ''aes_gcm_enc_128_update_nt_aes''
      else PROVIDER_BASIC_NULL ''_aes_gcm_enc_128_update_nt'')"

definition aes_gcm_dec_128_nt_dispatcher :: "platform \<Rightarrow> provider" where
  "aes_gcm_dec_128_nt_dispatcher p =
     (if gcm_is_crypto_available p then PROVIDER_INFO ''aes_gcm_dec_128_nt_aes''
      else PROVIDER_BASIC_NULL ''_aes_gcm_dec_128_nt'')"

definition aes_gcm_dec_128_update_nt_dispatcher :: "platform \<Rightarrow> provider" where
  "aes_gcm_dec_128_update_nt_dispatcher p =
     (if gcm_is_crypto_available p then PROVIDER_INFO ''aes_gcm_dec_128_update_nt_aes''
      else PROVIDER_BASIC_NULL ''_aes_gcm_dec_128_update_nt'')"

definition aes_gcm_enc_256_nt_dispatcher :: "platform \<Rightarrow> provider" where
  "aes_gcm_enc_256_nt_dispatcher p =
     (if gcm_is_crypto_available p then PROVIDER_INFO ''aes_gcm_enc_256_nt_aes''
      else PROVIDER_BASIC_NULL ''_aes_gcm_enc_256_nt'')"

definition aes_gcm_enc_256_update_nt_dispatcher :: "platform \<Rightarrow> provider" where
  "aes_gcm_enc_256_update_nt_dispatcher p =
     (if gcm_is_crypto_available p then PROVIDER_INFO ''aes_gcm_enc_256_update_nt_aes''
      else PROVIDER_BASIC_NULL ''_aes_gcm_enc_256_update_nt'')"

definition aes_gcm_dec_256_nt_dispatcher :: "platform \<Rightarrow> provider" where
  "aes_gcm_dec_256_nt_dispatcher p =
     (if gcm_is_crypto_available p then PROVIDER_INFO ''aes_gcm_dec_256_nt_aes''
      else PROVIDER_BASIC_NULL ''_aes_gcm_dec_256_nt'')"

definition aes_gcm_dec_256_update_nt_dispatcher :: "platform \<Rightarrow> provider" where
  "aes_gcm_dec_256_update_nt_dispatcher p =
     (if gcm_is_crypto_available p then PROVIDER_INFO ''aes_gcm_dec_256_update_nt_aes''
      else PROVIDER_BASIC_NULL ''_aes_gcm_dec_256_update_nt'')"

section \<open>Which processors a micro-architecture names\<close>

text \<open>
  The masked register is compared with a number built from the implementer and the part: the
  comparison looks at these two fields only, not at the variant, the architecture or the revision.
\<close>

lemma micro_arch_mask: "(0xff00fff0 :: u32) = push_bit 24 0xff OR push_bit 4 0xfff"
  by (simp add: push_bit_eq_mult)

lemma low_bits: "(0xff :: u32) = mask 8" "(0xfff :: u32) = mask 12"
  by (simp_all add: mask_eq_exp_minus_1)

lemma micro_arch_bits:
  fixes id :: u32
  shows "id AND 0xff00fff0 = push_bit 24 (drop_bit 24 id) OR push_bit 4 (drop_bit 4 id AND 0xfff)"
  unfolding micro_arch_mask low_bits by (rule bit_word_eqI) (auto simp: bit_simps)

lemma micro_arch_fields:
  fixes imp part :: u32
  assumes imp: "imp = imp AND 0xff" and part: "part = part AND 0xfff"
  shows "drop_bit 24 (push_bit 24 imp OR push_bit 4 part) = imp"
    "drop_bit 4 (push_bit 24 imp OR push_bit 4 part) AND 0xfff = part"
proof -
  have i: "bit imp n \<Longrightarrow> n < 8" for n
    by (subst (asm) imp) (simp add: low_bits bit_simps)
  have p: "bit part n \<Longrightarrow> n < 12" for n
    by (subst (asm) part) (simp add: low_bits bit_simps)
  show "drop_bit 24 (push_bit 24 imp OR push_bit 4 part) = imp"
    by (rule bit_word_eqI) (auto simp: bit_simps dest: i p)
  show "drop_bit 4 (push_bit 24 imp OR push_bit 4 part) AND 0xfff = part"
    unfolding low_bits by (rule bit_word_eqI) (auto simp: bit_simps dest: i p)
qed

lemma micro_arch_id_iff:
  fixes id imp part :: u32
  assumes imp: "imp = imp AND 0xff" and part: "part = part AND 0xfff"
  shows "id AND 0xff00fff0 = MICRO_ARCH_ID imp part \<longleftrightarrow>
    drop_bit 24 id = imp \<and> drop_bit 4 id AND 0xfff = part"
proof -
  have "drop_bit 24 id = drop_bit 24 id AND 0xff"
    unfolding low_bits by (rule bit_word_eqI) (auto simp: bit_simps dest: bit_imp_le_length)
  moreover have "drop_bit 4 id AND 0xfff = (drop_bit 4 id AND 0xfff) AND 0xfff" by (simp only: and.assoc and.idem)
  ultimately have g: "drop_bit 24 (id AND 0xff00fff0) = drop_bit 24 id"
    "drop_bit 4 (id AND 0xff00fff0) AND 0xfff = drop_bit 4 id AND 0xfff"
    unfolding micro_arch_bits by (rule micro_arch_fields)+
  have m: "MICRO_ARCH_ID imp part = push_bit 24 imp OR push_bit 4 part"
    unfolding MICRO_ARCH_ID_def by (simp only: imp[symmetric] part[symmetric])
  show ?thesis
  proof
    assume e: "id AND 0xff00fff0 = MICRO_ARCH_ID imp part"
    show "drop_bit 24 id = imp \<and> drop_bit 4 id AND 0xfff = part"
      unfolding g[symmetric] unfolding e m by (intro conjI micro_arch_fields[OF imp part])
  next
    assume "drop_bit 24 id = imp \<and> drop_bit 4 id AND 0xfff = part"
    then show "id AND 0xff00fff0 = MICRO_ARCH_ID imp part" unfolding micro_arch_bits m by simp
  qed
qed

section \<open>AES has no fallback\<close>

text \<open>All entry points of CBC, XTS and key expansion, and those of GCM.\<close>

definition cbc_xts_providers :: "platform \<Rightarrow> provider list" where
  "cbc_xts_providers p =
     [aes_keyexp_128_dispatcher p, aes_keyexp_128_enc_dispatcher p, aes_keyexp_192_dispatcher p,
      aes_keyexp_256_dispatcher p, aes_cbc_enc_128_dispatcher p, aes_cbc_enc_192_dispatcher p,
      aes_cbc_enc_256_dispatcher p, aes_cbc_dec_128_dispatcher p, aes_cbc_dec_192_dispatcher p,
      aes_cbc_dec_256_dispatcher p, XTS_AES_128_enc_dispatcher p, XTS_AES_128_dec_dispatcher p,
      XTS_AES_128_enc_expanded_key_dispatcher p, XTS_AES_128_dec_expanded_key_dispatcher p,
      XTS_AES_256_enc_dispatcher p, XTS_AES_256_dec_dispatcher p,
      XTS_AES_256_enc_expanded_key_dispatcher p, XTS_AES_256_dec_expanded_key_dispatcher p]"

definition gcm_providers :: "platform \<Rightarrow> provider list" where
  "gcm_providers p =
     [aes_gcm_enc_128_dispatcher p,
      aes_gcm_dec_128_dispatcher p,
      aes_gcm_precomp_128_dispatcher p,
      aes_gcm_enc_256_dispatcher p,
      aes_gcm_dec_256_dispatcher p,
      aes_gcm_precomp_256_dispatcher p,
      aes_gcm_enc_128_update_dispatcher p,
      aes_gcm_enc_128_finalize_dispatcher p,
      aes_gcm_dec_128_update_dispatcher p,
      aes_gcm_dec_128_finalize_dispatcher p,
      aes_gcm_enc_256_update_dispatcher p,
      aes_gcm_enc_256_finalize_dispatcher p,
      aes_gcm_dec_256_update_dispatcher p,
      aes_gcm_dec_256_finalize_dispatcher p,
      aes_gcm_init_256_dispatcher p,
      aes_gcm_init_128_dispatcher p,
      aes_gcm_enc_128_nt_dispatcher p,
      aes_gcm_enc_128_update_nt_dispatcher p,
      aes_gcm_dec_128_nt_dispatcher p,
      aes_gcm_dec_128_update_nt_dispatcher p,
      aes_gcm_enc_256_nt_dispatcher p,
      aes_gcm_enc_256_update_nt_dispatcher p,
      aes_gcm_dec_256_nt_dispatcher p,
      aes_gcm_dec_256_update_nt_dispatcher p]"

lemmas cbc_xts_defs = cbc_xts_providers_def 
  aes_keyexp_128_dispatcher_def
  aes_keyexp_128_enc_dispatcher_def
  aes_keyexp_192_dispatcher_def
  aes_keyexp_256_dispatcher_def
  aes_cbc_enc_128_dispatcher_def
  aes_cbc_enc_192_dispatcher_def
  aes_cbc_enc_256_dispatcher_def
  aes_cbc_dec_128_dispatcher_def
  aes_cbc_dec_192_dispatcher_def
  aes_cbc_dec_256_dispatcher_def
  XTS_AES_128_enc_dispatcher_def
  XTS_AES_128_dec_dispatcher_def
  XTS_AES_128_enc_expanded_key_dispatcher_def
  XTS_AES_128_dec_expanded_key_dispatcher_def
  XTS_AES_256_enc_dispatcher_def
  XTS_AES_256_dec_dispatcher_def
  XTS_AES_256_enc_expanded_key_dispatcher_def
  XTS_AES_256_dec_expanded_key_dispatcher_def
  cbc_is_crypto_available_def xts_is_crypto_available_def

lemmas gcm_defs = gcm_providers_def 
  aes_gcm_enc_128_dispatcher_def
  aes_gcm_dec_128_dispatcher_def
  aes_gcm_precomp_128_dispatcher_def
  aes_gcm_enc_256_dispatcher_def
  aes_gcm_dec_256_dispatcher_def
  aes_gcm_precomp_256_dispatcher_def
  aes_gcm_enc_128_update_dispatcher_def
  aes_gcm_enc_128_finalize_dispatcher_def
  aes_gcm_dec_128_update_dispatcher_def
  aes_gcm_dec_128_finalize_dispatcher_def
  aes_gcm_enc_256_update_dispatcher_def
  aes_gcm_enc_256_finalize_dispatcher_def
  aes_gcm_dec_256_update_dispatcher_def
  aes_gcm_dec_256_finalize_dispatcher_def
  aes_gcm_init_256_dispatcher_def
  aes_gcm_init_128_dispatcher_def
  aes_gcm_enc_128_nt_dispatcher_def
  aes_gcm_enc_128_update_nt_dispatcher_def
  aes_gcm_dec_128_nt_dispatcher_def
  aes_gcm_dec_128_update_nt_dispatcher_def
  aes_gcm_enc_256_nt_dispatcher_def
  aes_gcm_enc_256_update_nt_dispatcher_def
  aes_gcm_dec_256_nt_dispatcher_def
  aes_gcm_dec_256_update_nt_dispatcher_def

lemma cbc_xts_all_or_none:
  defines "need \<equiv> \<lambda>p. HWCAP_ASIMD p OR HWCAP_AES p"
  shows "at_hwcap p AND need p = need p \<Longrightarrow> None \<notin> set (cbc_xts_providers p)"
    and "at_hwcap p AND need p \<noteq> need p \<Longrightarrow> set (cbc_xts_providers p) = {None}"
  by (simp_all add: need_def cbc_xts_defs PROVIDER_INFO_def PROVIDER_BASIC_NULL_def Let_def)

lemma gcm_all_or_none:
  shows "gcm_is_crypto_available p \<Longrightarrow> None \<notin> set (gcm_providers p)"
    and "\<not> gcm_is_crypto_available p \<Longrightarrow> set (gcm_providers p) = {None}"
  by (simp_all add: gcm_defs PROVIDER_INFO_def PROVIDER_BASIC_NULL_def)

section \<open>Calls through an entry point\<close>

text \<open>
  The symbol that a dispatcher returns is looked up among those of the library; a symbol the
  library does not have, or \<open>NULL\<close>, gives nothing. The entry point itself is an assembly macro that
  asks the dispatcher once and keeps its answer, which does not change while the program runs.
\<close>

definition linked :: "(string \<times> 'f) list \<Rightarrow> provider \<Rightarrow> 'f option" where
  "linked table e = Option.bind e (map_of table)"

end
