(* ===== verification/Dispatched.thy ===== *)
theory Dispatched
  imports CtxContract Dispatch Sha256Ctx Sha512Ctx Sha1Ctx Md5SveCtx Sm3Ctx
begin

text \<open>
  The multi-buffer hashes of aarch64 as an application calls them: through the entry points that
  the dispatchers link to an implementation when they are first called. A manager is a piece of
  memory that the implementation which initialised it can read and no other: a call that lands in
  another implementation is undefined here. That this never happens, and that the hashes are right
  whatever the processor, is the contract of \<open>CtxContract\<close> for the linked entry points.
\<close>

text \<open>
  The memory of a manager, with the name of the implementation that wrote it. The portable
  functions neither read nor write it.
\<close>

datatype 'm mgr_image = Untouched | Lanes string 'm | Sve_lanes string sve_mgr

definition image_result ::
  "('s \<Rightarrow> 'm mgr_image) \<Rightarrow> ('s \<times> 'x) option \<Rightarrow> ('m mgr_image \<times> 'x) option" where
  "image_result wrap = map_option (\<lambda>(s, x). (wrap s, x))"

text \<open>Each kind of implementation as a function on the memory of a manager.\<close>

definition on_base_submit ::
  "(unit, 'w::len, 'l::len) mgr_submit_fun \<Rightarrow> ('m mgr_image, 'w, 'l) mgr_submit_fun" where
  "on_base_submit f m st c buffer len flags = image_result (\<lambda>_. m) (f () st c buffer len flags)"

definition on_base_flush ::
  "(unit, 'w::len, 'l::len) mgr_flush_fun \<Rightarrow> ('m mgr_image, 'w, 'l) mgr_flush_fun" where
  "on_base_flush f m st = image_result (\<lambda>_. m) (f () st)"

definition on_lanes_submit ::
  "string \<Rightarrow> ('m, 'w::len, 'l::len) mgr_submit_fun \<Rightarrow> ('m mgr_image, 'w, 'l) mgr_submit_fun" where
  "on_lanes_submit tag f m st c buffer len flags =
     (case m of
        Lanes t s \<Rightarrow> if t = tag then image_result (Lanes t) (f s st c buffer len flags) else None
      | _ \<Rightarrow> None)"

definition on_lanes_flush ::
  "string \<Rightarrow> ('m, 'w::len, 'l::len) mgr_flush_fun \<Rightarrow> ('m mgr_image, 'w, 'l) mgr_flush_fun" where
  "on_lanes_flush tag f m st =
     (case m of
        Lanes t s \<Rightarrow> if t = tag then image_result (Lanes t) (f s st) else None
      | _ \<Rightarrow> None)"

definition on_sve_submit ::
  "string \<Rightarrow> (sve_mgr, 'w::len, 'l::len) mgr_submit_fun \<Rightarrow> ('m mgr_image, 'w, 'l) mgr_submit_fun" where
  "on_sve_submit tag f m st c buffer len flags =
     (case m of
        Sve_lanes t s \<Rightarrow> if t = tag then image_result (Sve_lanes t) (f s st c buffer len flags) else None
      | _ \<Rightarrow> None)"

definition on_sve_flush ::
  "string \<Rightarrow> (sve_mgr, 'w::len, 'l::len) mgr_flush_fun \<Rightarrow> ('m mgr_image, 'w, 'l) mgr_flush_fun" where
  "on_sve_flush tag f m st =
     (case m of
        Sve_lanes t s \<Rightarrow> if t = tag then image_result (Sve_lanes t) (f s st) else None
      | _ \<Rightarrow> None)"

text \<open>Calls through the entry points.\<close>

definition linked_submit ::
  "(string \<times> ('m mgr_image, 'w::len, 'l::len) mgr_submit_fun) list \<Rightarrow> provider \<Rightarrow>
   ('m mgr_image, 'w, 'l) mgr_submit_fun" where
  "linked_submit table e =
     (case linked table e of Some f \<Rightarrow> f | None \<Rightarrow> (\<lambda>m st c buffer len flags. None))"

definition linked_flush ::
  "(string \<times> ('m mgr_image, 'w::len, 'l::len) mgr_flush_fun) list \<Rightarrow> provider \<Rightarrow>
   ('m mgr_image, 'w, 'l) mgr_flush_fun" where
  "linked_flush table e = (case linked table e of Some f \<Rightarrow> f | None \<Rightarrow> (\<lambda>m st. None))"

definition linked_init :: "(string \<times> 'm mgr_image) list \<Rightarrow> provider \<Rightarrow> 'm mgr_image" where
  "linked_init table e = (case linked table e of Some m \<Rightarrow> m | None \<Rightarrow> Untouched)"

section \<open>Implementations behind a memory image\<close>

lemma lanes_image:
  assumes "context_manager A submit flush mx init good" "mx' \<le> mx"
  shows "\<exists>g. context_manager A (on_lanes_submit tag submit) (on_lanes_flush tag flush) mx' (Lanes tag init) g"
  by (rule exI, rule context_manager_wrap[OF assms])
    (simp_all add: on_lanes_submit_def on_lanes_flush_def image_result_def)

lemma sve_image:
  assumes "context_manager A submit flush mx init good" "mx' \<le> mx"
  shows "\<exists>g. context_manager A (on_sve_submit tag submit) (on_sve_flush tag flush) mx' (Sve_lanes tag init) g"
  by (rule exI, rule context_manager_wrap[OF assms])
    (simp_all add: on_sve_submit_def on_sve_flush_def image_result_def)

lemma base_image:
  assumes "hash_algorithm A" "mx' \<le> 2 ^ 32"
  shows "\<exists>g. context_manager A (on_base_submit (base_mgr_submit (base_submit A))) (on_base_flush base_mgr_flush) mx' Untouched g"
  by (rule exI, rule context_manager_wrap[OF hash_algorithm.base_manager[OF assms(1)] assms(2), where wrap = "\<lambda>_. Untouched"])
    (simp_all add: on_base_submit_def on_base_flush_def image_result_def)

text \<open>What the contract says of a history of calls, for a manager whose invariant does not matter.\<close>

lemma calls_contract:
  assumes "\<exists>good. context_manager A submit flush mx init good"
    and "fresh A st0" "calls A submit flush mx init st0 fin msg out s st"
  shows "c \<notin> out \<Longrightarrow> fin c \<Longrightarrow> status (st c) = STS_COMPLETE \<and> digest (st c) = md_hash A (msg c)"
    and "unat len \<le> length buffer \<Longrightarrow> unat len div block_size A < mx \<Longrightarrow>
      submit s st c buffer len flags \<noteq> None"
    and "\<exists>s' st' r. flush s st = Some (s', st', r) \<and> (r = None \<longleftrightarrow> out = {})"
proof -
  obtain good where "context_manager A submit flush mx init good" using assms(1) by blast
  note C = context_manager.calls_ok[OF this assms(2,3)]
  show "c \<notin> out \<Longrightarrow> fin c \<Longrightarrow> status (st c) = STS_COMPLETE \<and> digest (st c) = md_hash A (msg c)"
    by (rule C(1))
  show "unat len \<le> length buffer \<Longrightarrow> unat len div block_size A < mx \<Longrightarrow>
      submit s st c buffer len flags \<noteq> None" by (rule C(2))
  show "\<exists>s' st' r. flush s st = Some (s', st', r) \<and> (r = None \<longleftrightarrow> out = {})" by (rule C(3))
qed

lemma calls_guarantee:
  assumes "\<exists>good. context_manager A submit flush mx init good"
    and "fresh A st0" "calls A submit flush mx init st0 fin msg out s st"
    and hash: "\<And>m. md_hash A m = f m"
    and bound: "\<And>len :: u32. P len \<Longrightarrow> unat len div block_size A < mx"
  shows "(\<forall>c. c \<notin> out \<longrightarrow> fin c \<longrightarrow> status (st c) = STS_COMPLETE \<and> digest (st c) = f (msg c)) \<and>
    (\<forall>c buffer len flags. unat len \<le> length buffer \<longrightarrow> P len \<longrightarrow> submit s st c buffer len flags \<noteq> None) \<and>
    (\<exists>s' st' r. flush s st = Some (s', st', r) \<and> (r = None \<longleftrightarrow> out = {}))"
  using calls_contract[OF assms(1-3)] bound unfolding hash by blast

lemma calls_entire_exists:
  fixes len :: u32
  assumes "\<exists>good. context_manager A submit flush mx init good"
    and "fresh A st0" "unat len \<le> length buffer" "unat len div block_size A < mx"
  shows "\<exists>s st. calls A submit flush mx init st0 ((\<lambda>_. False)(c := True))
      ((\<lambda>_. [])(c := take (unat len) buffer)) {} s st"
proof -
  obtain good where "context_manager A submit flush mx init good" using assms(1) by blast
  from context_manager.calls_entire[OF this assms(2-4)] show ?thesis .
qed

section \<open>MD5\<close>

definition md5_submit_entries ::
  "platform \<Rightarrow> (string \<Rightarrow> 32 kernel) \<Rightarrow> (string \<times> (32 lane_mgr mgr_image, 32, 32) mgr_submit_fun) list" where
  "md5_submit_entries p kern =
     [(''md5_ctx_mgr_submit_sve'', on_sve_submit ''sve'' (md5_ctx_mgr_submit_sve (nat (md5_mb_sve_max_lanes p)) (kern ''sve''))),
      (''md5_ctx_mgr_submit_sve2'', on_sve_submit ''sve2'' (md5_ctx_mgr_submit_sve2 (nat (md5_mb_sve_max_lanes p)) (kern ''sve2''))),
      (''md5_ctx_mgr_submit_asimd'', on_lanes_submit ''asimd'' (md5_ctx_mgr_submit_asimd (kern ''asimd''))),
      (''_md5_ctx_mgr_submit_base'', on_base_submit (base_mgr_submit md5_ctx_mgr_submit_base))]"

definition md5_flush_entries ::
  "platform \<Rightarrow> (string \<Rightarrow> 32 kernel) \<Rightarrow> (string \<times> (32 lane_mgr mgr_image, 32, 32) mgr_flush_fun) list" where
  "md5_flush_entries p kern =
     [(''md5_ctx_mgr_flush_sve'', on_sve_flush ''sve'' (md5_ctx_mgr_flush_sve (nat (md5_mb_sve_max_lanes p)) (kern ''sve''))),
      (''md5_ctx_mgr_flush_sve2'', on_sve_flush ''sve2'' (md5_ctx_mgr_flush_sve2 (nat (md5_mb_sve_max_lanes p)) (kern ''sve2''))),
      (''md5_ctx_mgr_flush_asimd'', on_lanes_flush ''asimd'' (md5_ctx_mgr_flush_asimd (kern ''asimd''))),
      (''_md5_ctx_mgr_flush_base'', on_base_flush base_mgr_flush)]"

definition md5_init_entries :: "platform \<Rightarrow> (string \<times> 32 lane_mgr mgr_image) list" where
  "md5_init_entries p =
     [(''md5_ctx_mgr_init_sve'', Sve_lanes ''sve'' md5_mb_mgr_init_sve),
      (''md5_ctx_mgr_init_sve2'', Sve_lanes ''sve2'' md5_mb_mgr_init_sve2),
      (''md5_ctx_mgr_init_asimd'', Lanes ''asimd'' md5_mb_mgr_init_asimd),
      (''_md5_ctx_mgr_init_base'', Untouched)]"

definition md5_linked_submit ::
  "platform \<Rightarrow> (string \<Rightarrow> 32 kernel) \<Rightarrow> (32 lane_mgr mgr_image, 32, 32) mgr_submit_fun" where
  "md5_linked_submit p kern = linked_submit (md5_submit_entries p kern) (md5_ctx_mgr_submit_dispatcher p)"

definition md5_linked_flush ::
  "platform \<Rightarrow> (string \<Rightarrow> 32 kernel) \<Rightarrow> (32 lane_mgr mgr_image, 32, 32) mgr_flush_fun" where
  "md5_linked_flush p kern = linked_flush (md5_flush_entries p kern) (md5_ctx_mgr_flush_dispatcher p)"

definition md5_linked_init :: "platform \<Rightarrow> 32 lane_mgr mgr_image" where
  "md5_linked_init p = linked_init (md5_init_entries p) (md5_ctx_mgr_init_dispatcher p)"

lemmas md5_linked_defs = md5_linked_submit_def md5_linked_flush_def md5_linked_init_def
  md5_submit_entries_def md5_flush_entries_def md5_init_entries_def
  md5_ctx_mgr_submit_dispatcher_def md5_ctx_mgr_init_dispatcher_def md5_ctx_mgr_flush_dispatcher_def
  linked_submit_def linked_flush_def linked_init_def linked_def PROVIDER_INFO_def PROVIDER_BASIC_def

lemma md5_sve_entry:
  assumes "kernel_ok md5_alg (kern ''sve'')" "0 < md5_mb_sve_max_lanes p"
  shows "\<exists>good. context_manager md5_alg (on_sve_submit ''sve'' (md5_ctx_mgr_submit_sve (nat (md5_mb_sve_max_lanes p)) (kern ''sve'')))
    (on_sve_flush ''sve'' (md5_ctx_mgr_flush_sve (nat (md5_mb_sve_max_lanes p)) (kern ''sve''))) (2 ^ 23) (Sve_lanes ''sve'' md5_mb_mgr_init_sve) good"
proof -
  have "0 < nat (md5_mb_sve_max_lanes p)" using assms(2) by simp
  note m = ready_scheduler.is_context_manager[OF md5_sve_scheduler(1)[OF assms(1) this] zero_le_one]
  show ?thesis
    unfolding md5_ctx_mgr_submit_sve_def md5_ctx_mgr_flush_sve_def
    by (rule sve_image[OF m order_refl])
qed

lemma md5_sve2_entry:
  assumes "kernel_ok md5_alg (kern ''sve2'')" "0 < md5_mb_sve_max_lanes p"
  shows "\<exists>good. context_manager md5_alg (on_sve_submit ''sve2'' (md5_ctx_mgr_submit_sve2 (nat (md5_mb_sve_max_lanes p)) (kern ''sve2'')))
    (on_sve_flush ''sve2'' (md5_ctx_mgr_flush_sve2 (nat (md5_mb_sve_max_lanes p)) (kern ''sve2''))) (2 ^ 23) (Sve_lanes ''sve2'' md5_mb_mgr_init_sve2) good"
proof -
  have "0 < nat (md5_mb_sve_max_lanes p)" using assms(2) by simp
  note m = ready_scheduler.is_context_manager[OF md5_sve_scheduler(2)[OF assms(1) this] zero_le_one]
  show ?thesis
    unfolding md5_ctx_mgr_submit_sve2_def md5_ctx_mgr_flush_sve2_def
    by (rule sve_image[OF m order_refl])
qed

lemma md5_asimd_entry:
  assumes "kernel_ok md5_alg (kern ''asimd'')"
  shows "\<exists>good. context_manager md5_alg (on_lanes_submit ''asimd'' (md5_ctx_mgr_submit_asimd (kern ''asimd'')))
    (on_lanes_flush ''asimd'' (md5_ctx_mgr_flush_asimd (kern ''asimd''))) (2 ^ 23) (Lanes ''asimd'' md5_mb_mgr_init_asimd) good"
proof -
  note m = ready_scheduler.is_context_manager[OF lane_scheduler.is_ready_scheduler[OF md5_asimd_scheduler[OF assms(1)]] zero_le_one]
  show ?thesis
    unfolding md5_ctx_mgr_submit_asimd_def md5_ctx_mgr_flush_asimd_def md5_mb_mgr_submit_asimd_def md5_mb_mgr_flush_asimd_def md5_mb_mgr_init_asimd_def
    by (intro lanes_image[OF m]) simp
qed

lemma md5_linked_manager:
  assumes "\<And>x. kernel_ok md5_alg (kern x)" "0 < md5_mb_sve_max_lanes p"
  shows "\<exists>good. context_manager md5_alg (md5_linked_submit p kern) (md5_linked_flush p kern) (2 ^ 23) (md5_linked_init p) good"
proof -
  have base: "\<exists>good. context_manager md5_alg (on_base_submit (base_mgr_submit md5_ctx_mgr_submit_base)) (on_base_flush base_mgr_flush)
      (2 ^ 23) (Untouched :: 32 lane_mgr mgr_image) good"
    unfolding md5_ctx_mgr_submit_base_def by (intro base_image) (simp_all add: md5.hash_algorithm_axioms)
  note entries = md5_sve_entry[where kern = kern, OF assms] md5_sve2_entry[where kern = kern, OF assms] md5_asimd_entry[where kern = kern, OF assms(1)] base
  show ?thesis
    unfolding md5_linked_defs
    using entries by (cases "md5_sve_capable p (at_hwcap p)") simp_all
qed

section \<open>SHA-1\<close>

definition sha1_submit_entries ::
  "platform \<Rightarrow> (string \<Rightarrow> 32 kernel) \<Rightarrow> (string \<times> (32 lane_mgr mgr_image, 32, 32) mgr_submit_fun) list" where
  "sha1_submit_entries p kern =
     [(''sha1_ctx_mgr_submit_ce'', on_lanes_submit ''ce'' (sha1_ctx_mgr_submit_ce (kern ''ce''))),
      (''sha1_ctx_mgr_submit_asimd'', on_lanes_submit ''asimd'' (sha1_ctx_mgr_submit_asimd (kern ''asimd''))),
      (''_sha1_ctx_mgr_submit_base'', on_base_submit (base_mgr_submit sha1_ctx_mgr_submit_base))]"

definition sha1_flush_entries ::
  "platform \<Rightarrow> (string \<Rightarrow> 32 kernel) \<Rightarrow> (string \<times> (32 lane_mgr mgr_image, 32, 32) mgr_flush_fun) list" where
  "sha1_flush_entries p kern =
     [(''sha1_ctx_mgr_flush_ce'', on_lanes_flush ''ce'' (sha1_ctx_mgr_flush_ce (kern ''ce''))),
      (''sha1_ctx_mgr_flush_asimd'', on_lanes_flush ''asimd'' (sha1_ctx_mgr_flush_asimd (kern ''asimd''))),
      (''_sha1_ctx_mgr_flush_base'', on_base_flush base_mgr_flush)]"

definition sha1_init_entries :: "platform \<Rightarrow> (string \<times> 32 lane_mgr mgr_image) list" where
  "sha1_init_entries p =
     [(''sha1_ctx_mgr_init_ce'', Lanes ''ce'' sha1_mb_mgr_init_ce),
      (''sha1_ctx_mgr_init_asimd'', Lanes ''asimd'' sha1_mb_mgr_init_asimd),
      (''_sha1_ctx_mgr_init_base'', Untouched)]"

definition sha1_linked_submit ::
  "platform \<Rightarrow> (string \<Rightarrow> 32 kernel) \<Rightarrow> (32 lane_mgr mgr_image, 32, 32) mgr_submit_fun" where
  "sha1_linked_submit p kern = linked_submit (sha1_submit_entries p kern) (sha1_ctx_mgr_submit_dispatcher p)"

definition sha1_linked_flush ::
  "platform \<Rightarrow> (string \<Rightarrow> 32 kernel) \<Rightarrow> (32 lane_mgr mgr_image, 32, 32) mgr_flush_fun" where
  "sha1_linked_flush p kern = linked_flush (sha1_flush_entries p kern) (sha1_ctx_mgr_flush_dispatcher p)"

definition sha1_linked_init :: "platform \<Rightarrow> 32 lane_mgr mgr_image" where
  "sha1_linked_init p = linked_init (sha1_init_entries p) (sha1_ctx_mgr_init_dispatcher p)"

lemmas sha1_linked_defs = sha1_linked_submit_def sha1_linked_flush_def sha1_linked_init_def
  sha1_submit_entries_def sha1_flush_entries_def sha1_init_entries_def
  sha1_ctx_mgr_submit_dispatcher_def sha1_ctx_mgr_init_dispatcher_def sha1_ctx_mgr_flush_dispatcher_def
  linked_submit_def linked_flush_def linked_init_def linked_def PROVIDER_INFO_def PROVIDER_BASIC_def

lemma sha1_ce_entry:
  assumes "kernel_ok sha1_alg (kern ''ce'')"
  shows "\<exists>good. context_manager sha1_alg (on_lanes_submit ''ce'' (sha1_ctx_mgr_submit_ce (kern ''ce'')))
    (on_lanes_flush ''ce'' (sha1_ctx_mgr_flush_ce (kern ''ce''))) (2 ^ 25) (Lanes ''ce'' sha1_mb_mgr_init_ce) good"
proof -
  note m = ready_scheduler.is_context_manager[OF lane_scheduler.is_ready_scheduler[OF sha1_ce_scheduler[OF assms(1)]] zero_le_one]
  show ?thesis
    unfolding sha1_ctx_mgr_submit_ce_def sha1_ctx_mgr_flush_ce_def sha1_mb_mgr_submit_ce_def sha1_mb_mgr_flush_ce_def sha1_mb_mgr_init_ce_def
    by (intro lanes_image[OF m]) simp
qed

lemma sha1_asimd_entry:
  assumes "kernel_ok sha1_alg (kern ''asimd'')"
  shows "\<exists>good. context_manager sha1_alg (on_lanes_submit ''asimd'' (sha1_ctx_mgr_submit_asimd (kern ''asimd'')))
    (on_lanes_flush ''asimd'' (sha1_ctx_mgr_flush_asimd (kern ''asimd''))) (2 ^ 25) (Lanes ''asimd'' sha1_mb_mgr_init_asimd) good"
proof -
  note m = ready_scheduler.is_context_manager[OF lane_scheduler.is_ready_scheduler[OF sha1_asimd_scheduler[OF assms(1)]] zero_le_one]
  show ?thesis
    unfolding sha1_ctx_mgr_submit_asimd_def sha1_ctx_mgr_flush_asimd_def sha1_mb_mgr_submit_asimd_def sha1_mb_mgr_flush_asimd_def sha1_mb_mgr_init_asimd_def
    by (intro lanes_image[OF m]) simp
qed

lemma sha1_linked_manager:
  assumes "\<And>x. kernel_ok sha1_alg (kern x)"
  shows "\<exists>good. context_manager sha1_alg (sha1_linked_submit p kern) (sha1_linked_flush p kern) (2 ^ 25) (sha1_linked_init p) good"
proof -
  have base: "\<exists>good. context_manager sha1_alg (on_base_submit (base_mgr_submit sha1_ctx_mgr_submit_base)) (on_base_flush base_mgr_flush)
      (2 ^ 25) (Untouched :: 32 lane_mgr mgr_image) good"
    unfolding sha1_ctx_mgr_submit_base_def by (intro base_image) (simp_all add: sha1.hash_algorithm_axioms)
  note entries = sha1_ce_entry[where kern = kern, OF assms] sha1_asimd_entry[where kern = kern, OF assms] base
  show ?thesis
    unfolding sha1_linked_defs
    using entries by (simp add: Let_def)
qed

section \<open>SHA-256\<close>

definition sha256_submit_entries ::
  "platform \<Rightarrow> (string \<Rightarrow> 32 kernel) \<Rightarrow> (string \<times> (32 lane_mgr mgr_image, 32, 64) mgr_submit_fun) list" where
  "sha256_submit_entries p kern =
     [(''sha256_ctx_mgr_submit_ce'', on_lanes_submit ''ce'' (sha256_ctx_mgr_submit_ce (kern ''ce''))),
      (''_sha256_ctx_mgr_submit_base'', on_base_submit (base_mgr_submit sha256_ctx_mgr_submit_base))]"

definition sha256_flush_entries ::
  "platform \<Rightarrow> (string \<Rightarrow> 32 kernel) \<Rightarrow> (string \<times> (32 lane_mgr mgr_image, 32, 64) mgr_flush_fun) list" where
  "sha256_flush_entries p kern =
     [(''sha256_ctx_mgr_flush_ce'', on_lanes_flush ''ce'' (sha256_ctx_mgr_flush_ce (kern ''ce''))),
      (''_sha256_ctx_mgr_flush_base'', on_base_flush base_mgr_flush)]"

definition sha256_init_entries :: "platform \<Rightarrow> (string \<times> 32 lane_mgr mgr_image) list" where
  "sha256_init_entries p =
     [(''sha256_ctx_mgr_init_ce'', Lanes ''ce'' sha256_mb_mgr_init_ce),
      (''_sha256_ctx_mgr_init_base'', Untouched)]"

definition sha256_linked_submit ::
  "platform \<Rightarrow> (string \<Rightarrow> 32 kernel) \<Rightarrow> (32 lane_mgr mgr_image, 32, 64) mgr_submit_fun" where
  "sha256_linked_submit p kern = linked_submit (sha256_submit_entries p kern) (sha256_ctx_mgr_submit_dispatcher p)"

definition sha256_linked_flush ::
  "platform \<Rightarrow> (string \<Rightarrow> 32 kernel) \<Rightarrow> (32 lane_mgr mgr_image, 32, 64) mgr_flush_fun" where
  "sha256_linked_flush p kern = linked_flush (sha256_flush_entries p kern) (sha256_ctx_mgr_flush_dispatcher p)"

definition sha256_linked_init :: "platform \<Rightarrow> 32 lane_mgr mgr_image" where
  "sha256_linked_init p = linked_init (sha256_init_entries p) (sha256_ctx_mgr_init_dispatcher p)"

lemmas sha256_linked_defs = sha256_linked_submit_def sha256_linked_flush_def sha256_linked_init_def
  sha256_submit_entries_def sha256_flush_entries_def sha256_init_entries_def
  sha256_ctx_mgr_submit_dispatcher_def sha256_ctx_mgr_init_dispatcher_def sha256_ctx_mgr_flush_dispatcher_def
  linked_submit_def linked_flush_def linked_init_def linked_def PROVIDER_INFO_def PROVIDER_BASIC_def

lemma sha256_ce_entry:
  assumes "kernel_ok sha256_alg (kern ''ce'')"
  shows "\<exists>good. context_manager sha256_alg (on_lanes_submit ''ce'' (sha256_ctx_mgr_submit_ce (kern ''ce'')))
    (on_lanes_flush ''ce'' (sha256_ctx_mgr_flush_ce (kern ''ce''))) (2 ^ 25) (Lanes ''ce'' sha256_mb_mgr_init_ce) good"
proof -
  note m = ready_scheduler.is_context_manager[OF lane_scheduler.is_ready_scheduler[OF sha256_ce_scheduler[OF assms(1)]] zero_le_one]
  show ?thesis
    unfolding sha256_ctx_mgr_submit_ce_def sha256_ctx_mgr_flush_ce_def sha256_mb_mgr_submit_ce_def sha256_mb_mgr_flush_ce_def sha256_mb_mgr_init_ce_def
    by (intro lanes_image[OF m]) simp
qed

lemma sha256_linked_manager:
  assumes "\<And>x. kernel_ok sha256_alg (kern x)"
  shows "\<exists>good. context_manager sha256_alg (sha256_linked_submit p kern) (sha256_linked_flush p kern) (2 ^ 25) (sha256_linked_init p) good"
proof -
  have base: "\<exists>good. context_manager sha256_alg (on_base_submit (base_mgr_submit sha256_ctx_mgr_submit_base)) (on_base_flush base_mgr_flush)
      (2 ^ 25) (Untouched :: 32 lane_mgr mgr_image) good"
    unfolding sha256_ctx_mgr_submit_base_def by (intro base_image) (simp_all add: sha256.hash_algorithm_axioms)
  note entries = sha256_ce_entry[where kern = kern, OF assms] base
  show ?thesis
    unfolding sha256_linked_defs
    using entries by (simp add: Let_def)
qed

section \<open>SHA-512\<close>

definition sha512_submit_entries ::
  "platform \<Rightarrow> (string \<Rightarrow> 64 kernel) \<Rightarrow> (string \<times> (64 lane_mgr mgr_image, 64, 64) mgr_submit_fun) list" where
  "sha512_submit_entries p kern =
     [(''sha512_ctx_mgr_submit_ce'', on_lanes_submit ''ce'' (sha512_ctx_mgr_submit_ce (kern ''ce''))),
      (''_sha512_ctx_mgr_submit_base'', on_base_submit (base_mgr_submit sha512_ctx_mgr_submit_base))]"

definition sha512_flush_entries ::
  "platform \<Rightarrow> (string \<Rightarrow> 64 kernel) \<Rightarrow> (string \<times> (64 lane_mgr mgr_image, 64, 64) mgr_flush_fun) list" where
  "sha512_flush_entries p kern =
     [(''sha512_ctx_mgr_flush_ce'', on_lanes_flush ''ce'' (sha512_ctx_mgr_flush_ce (kern ''ce''))),
      (''_sha512_ctx_mgr_flush_base'', on_base_flush base_mgr_flush)]"

definition sha512_init_entries :: "platform \<Rightarrow> (string \<times> 64 lane_mgr mgr_image) list" where
  "sha512_init_entries p =
     [(''sha512_ctx_mgr_init_ce'', Lanes ''ce'' sha512_mb_mgr_init_ce),
      (''_sha512_ctx_mgr_init_base'', Untouched)]"

definition sha512_linked_submit ::
  "platform \<Rightarrow> (string \<Rightarrow> 64 kernel) \<Rightarrow> (64 lane_mgr mgr_image, 64, 64) mgr_submit_fun" where
  "sha512_linked_submit p kern = linked_submit (sha512_submit_entries p kern) (sha512_ctx_mgr_submit_dispatcher p)"

definition sha512_linked_flush ::
  "platform \<Rightarrow> (string \<Rightarrow> 64 kernel) \<Rightarrow> (64 lane_mgr mgr_image, 64, 64) mgr_flush_fun" where
  "sha512_linked_flush p kern = linked_flush (sha512_flush_entries p kern) (sha512_ctx_mgr_flush_dispatcher p)"

definition sha512_linked_init :: "platform \<Rightarrow> 64 lane_mgr mgr_image" where
  "sha512_linked_init p = linked_init (sha512_init_entries p) (sha512_ctx_mgr_init_dispatcher p)"

lemmas sha512_linked_defs = sha512_linked_submit_def sha512_linked_flush_def sha512_linked_init_def
  sha512_submit_entries_def sha512_flush_entries_def sha512_init_entries_def
  sha512_ctx_mgr_submit_dispatcher_def sha512_ctx_mgr_init_dispatcher_def sha512_ctx_mgr_flush_dispatcher_def
  linked_submit_def linked_flush_def linked_init_def linked_def PROVIDER_INFO_def PROVIDER_BASIC_def

lemma sha512_ce_entry:
  assumes "kernel_ok sha512_alg (kern ''ce'')"
  shows "\<exists>good. context_manager sha512_alg (on_lanes_submit ''ce'' (sha512_ctx_mgr_submit_ce (kern ''ce'')))
    (on_lanes_flush ''ce'' (sha512_ctx_mgr_flush_ce (kern ''ce''))) (2 ^ 24) (Lanes ''ce'' sha512_mb_mgr_init_ce) good"
proof -
  note m = ready_scheduler.is_context_manager[OF lane_scheduler.is_ready_scheduler[OF sha512_ce_scheduler[OF assms(1)]] zero_le_one]
  show ?thesis
    unfolding sha512_ctx_mgr_submit_ce_def sha512_ctx_mgr_flush_ce_def sha512_mb_mgr_submit_ce_def sha512_mb_mgr_flush_ce_def sha512_mb_mgr_init_ce_def
    by (intro lanes_image[OF m]) simp
qed

lemma sha512_linked_manager:
  assumes "\<And>x. kernel_ok sha512_alg (kern x)"
  shows "\<exists>good. context_manager sha512_alg (sha512_linked_submit p kern) (sha512_linked_flush p kern) (2 ^ 24) (sha512_linked_init p) good"
proof -
  have base: "\<exists>good. context_manager sha512_alg (on_base_submit (base_mgr_submit sha512_ctx_mgr_submit_base)) (on_base_flush base_mgr_flush)
      (2 ^ 24) (Untouched :: 64 lane_mgr mgr_image) good"
    unfolding sha512_ctx_mgr_submit_base_def by (intro base_image) (simp_all add: sha512.hash_algorithm_axioms)
  note entries = sha512_ce_entry[where kern = kern, OF assms] base
  show ?thesis
    unfolding sha512_linked_defs
    using entries by (simp add: Let_def)
qed

section \<open>SM3\<close>

text \<open>The number of lanes a manager for SVE uses: what the routine reports, at most sixteen.\<close>

definition sm3_lanes :: "platform \<Rightarrow> nat" where
  "sm3_lanes p = min 16 (nat (sm3_mb_sve_max_lanes p))"

definition sm3_submit_entries ::
  "platform \<Rightarrow> (string \<Rightarrow> 32 kernel) \<Rightarrow> (string \<times> (32 lane_mgr mgr_image, 32, 64) mgr_submit_fun) list" where
  "sm3_submit_entries p kern =
     [(''sm3_ctx_mgr_submit_sm'', on_lanes_submit ''sm'' (sm3_ctx_mgr_submit_sm (kern ''sm''))),
      (''sm3_ctx_mgr_submit_sve'', on_lanes_submit ''sve'' (sm3_ctx_mgr_submit_sve (sm3_lanes p) (kern ''sve''))),
      (''sm3_ctx_mgr_submit_sve2'', on_lanes_submit ''sve2'' (sm3_ctx_mgr_submit_sve2 (sm3_lanes p) (kern ''sve2''))),
      (''sm3_ctx_mgr_submit_asimd'', on_lanes_submit ''asimd'' (sm3_ctx_mgr_submit_asimd (kern ''asimd''))),
      (''_sm3_ctx_mgr_submit_base'', on_base_submit (base_mgr_submit sm3_ctx_mgr_submit_base))]"

definition sm3_flush_entries ::
  "platform \<Rightarrow> (string \<Rightarrow> 32 kernel) \<Rightarrow> (string \<times> (32 lane_mgr mgr_image, 32, 64) mgr_flush_fun) list" where
  "sm3_flush_entries p kern =
     [(''sm3_ctx_mgr_flush_sm'', on_lanes_flush ''sm'' (sm3_ctx_mgr_flush_sm (kern ''sm''))),
      (''sm3_ctx_mgr_flush_sve'', on_lanes_flush ''sve'' (sm3_ctx_mgr_flush_sve (sm3_lanes p) (kern ''sve''))),
      (''sm3_ctx_mgr_flush_sve2'', on_lanes_flush ''sve2'' (sm3_ctx_mgr_flush_sve2 (sm3_lanes p) (kern ''sve2''))),
      (''sm3_ctx_mgr_flush_asimd'', on_lanes_flush ''asimd'' (sm3_ctx_mgr_flush_asimd (kern ''asimd''))),
      (''_sm3_ctx_mgr_flush_base'', on_base_flush base_mgr_flush)]"

definition sm3_init_entries :: "platform \<Rightarrow> (string \<times> 32 lane_mgr mgr_image) list" where
  "sm3_init_entries p =
     [(''sm3_ctx_mgr_init_sm'', Lanes ''sm'' sm3_mb_mgr_init_sm),
      (''sm3_ctx_mgr_init_sve'', Lanes ''sve'' (sm3_mb_mgr_init_sve (sm3_lanes p))),
      (''sm3_ctx_mgr_init_sve2'', Lanes ''sve2'' (sm3_mb_mgr_init_sve2 (sm3_lanes p))),
      (''sm3_ctx_mgr_init_asimd'', Lanes ''asimd'' sm3_mb_mgr_init_asimd),
      (''_sm3_ctx_mgr_init_base'', Untouched)]"

definition sm3_linked_submit ::
  "platform \<Rightarrow> (string \<Rightarrow> 32 kernel) \<Rightarrow> (32 lane_mgr mgr_image, 32, 64) mgr_submit_fun" where
  "sm3_linked_submit p kern = linked_submit (sm3_submit_entries p kern) (sm3_ctx_mgr_submit_dispatcher p)"

definition sm3_linked_flush ::
  "platform \<Rightarrow> (string \<Rightarrow> 32 kernel) \<Rightarrow> (32 lane_mgr mgr_image, 32, 64) mgr_flush_fun" where
  "sm3_linked_flush p kern = linked_flush (sm3_flush_entries p kern) (sm3_ctx_mgr_flush_dispatcher p)"

definition sm3_linked_init :: "platform \<Rightarrow> 32 lane_mgr mgr_image" where
  "sm3_linked_init p = linked_init (sm3_init_entries p) (sm3_ctx_mgr_init_dispatcher p)"

lemma sm3_be_manager:
  assumes "ready_scheduler sm3_be_alg sub flush inflight work sinv mx init"
  shows "context_manager sm3_alg (ctx_mgr_submit sm3_be_alg 0 sub) (ctx_mgr_flush sm3_be_alg 0 sub flush)
    mx init (\<lambda>fin msg out s st. (\<exists>st0. fresh sm3_be_alg st0 \<and>
      history sm3_be_alg 0 sub flush mx init st0 fin msg s st) \<and> out = inflight s)"
proof (rule context_manager_alg[OF ready_scheduler.is_context_manager[OF assms zero_le_one]])
  show "block_size sm3_alg = block_size sm3_be_alg" by (simp add: sm3_be_alg_def sm3_alg_def)
qed (simp only: sm3_be_hash)

lemmas sm3_linked_defs = sm3_linked_submit_def sm3_linked_flush_def sm3_linked_init_def
  sm3_submit_entries_def sm3_flush_entries_def sm3_init_entries_def
  sm3_ctx_mgr_submit_dispatcher_def sm3_ctx_mgr_init_dispatcher_def sm3_ctx_mgr_flush_dispatcher_def
  linked_submit_def linked_flush_def linked_init_def linked_def PROVIDER_INFO_def PROVIDER_BASIC_def

lemma sm3_sm_entry:
  assumes "kernel_ok sm3_be_alg (kern ''sm'')"
  shows "\<exists>good. context_manager sm3_alg (on_lanes_submit ''sm'' (sm3_ctx_mgr_submit_sm (kern ''sm'')))
    (on_lanes_flush ''sm'' (sm3_ctx_mgr_flush_sm (kern ''sm''))) (2 ^ 25) (Lanes ''sm'' sm3_mb_mgr_init_sm) good"
proof -
  note m = sm3_be_manager[OF lane_scheduler.is_ready_scheduler[OF sm3_sm_scheduler[OF assms(1)]]]
  show ?thesis
    unfolding sm3_ctx_mgr_submit_sm_def sm3_ctx_mgr_flush_sm_def sm3_mb_mgr_submit_sm_def sm3_mb_mgr_flush_sm_def sm3_mb_mgr_init_sm_def
    by (intro lanes_image[OF m]) simp
qed

lemma sm3_sve_entry:
  assumes "kernel_ok sm3_be_alg (kern ''sve'')" "0 < sm3_mb_sve_max_lanes p"
  shows "\<exists>good. context_manager sm3_alg (on_lanes_submit ''sve'' (sm3_ctx_mgr_submit_sve (sm3_lanes p) (kern ''sve'')))
    (on_lanes_flush ''sve'' (sm3_ctx_mgr_flush_sve (sm3_lanes p) (kern ''sve''))) (2 ^ 25) (Lanes ''sve'' (sm3_mb_mgr_init_sve (sm3_lanes p))) good"
proof -
  have l: "0 < sm3_lanes p" "sm3_lanes p \<le> 16" using assms(2) by (simp_all add: sm3_lanes_def)
  note m = sm3_be_manager[OF lane_scheduler.is_ready_scheduler[OF sm3_sve_scheduler[OF assms(1) l]]]
  show ?thesis
    unfolding sm3_ctx_mgr_submit_sve_def sm3_ctx_mgr_flush_sve_def sm3_mb_mgr_submit_sve_def sm3_mb_mgr_flush_sve_def sm3_mb_mgr_init_sve_def
    by (intro lanes_image[OF m]) simp
qed

lemma sm3_sve2_entry:
  assumes "kernel_ok sm3_be_alg (kern ''sve2'')" "0 < sm3_mb_sve_max_lanes p"
  shows "\<exists>good. context_manager sm3_alg (on_lanes_submit ''sve2'' (sm3_ctx_mgr_submit_sve2 (sm3_lanes p) (kern ''sve2'')))
    (on_lanes_flush ''sve2'' (sm3_ctx_mgr_flush_sve2 (sm3_lanes p) (kern ''sve2''))) (2 ^ 25) (Lanes ''sve2'' (sm3_mb_mgr_init_sve2 (sm3_lanes p))) good"
proof -
  have l: "0 < sm3_lanes p" "sm3_lanes p \<le> 16" using assms(2) by (simp_all add: sm3_lanes_def)
  note m = sm3_be_manager[OF lane_scheduler.is_ready_scheduler[OF sm3_sve2_scheduler[OF assms(1) l]]]
  show ?thesis
    unfolding sm3_ctx_mgr_submit_sve2_def sm3_ctx_mgr_flush_sve2_def sm3_mb_mgr_submit_sve2_def sm3_mb_mgr_flush_sve2_def sm3_mb_mgr_init_sve2_def
    by (intro lanes_image[OF m]) simp
qed

lemma sm3_asimd_entry:
  assumes "kernel_ok sm3_be_alg (kern ''asimd'')"
  shows "\<exists>good. context_manager sm3_alg (on_lanes_submit ''asimd'' (sm3_ctx_mgr_submit_asimd (kern ''asimd'')))
    (on_lanes_flush ''asimd'' (sm3_ctx_mgr_flush_asimd (kern ''asimd''))) (2 ^ 25) (Lanes ''asimd'' sm3_mb_mgr_init_asimd) good"
proof -
  note m = sm3_be_manager[OF lane_scheduler.is_ready_scheduler[OF sm3_asimd_scheduler[OF assms(1)]]]
  show ?thesis
    unfolding sm3_ctx_mgr_submit_asimd_def sm3_ctx_mgr_flush_asimd_def sm3_mb_mgr_submit_asimd_def sm3_mb_mgr_flush_asimd_def sm3_mb_mgr_init_asimd_def
    by (intro lanes_image[OF m]) simp
qed

lemma sm3_linked_manager:
  assumes "\<And>x. kernel_ok sm3_be_alg (kern x)" "0 < sm3_mb_sve_max_lanes p"
  shows "\<exists>good. context_manager sm3_alg (sm3_linked_submit p kern) (sm3_linked_flush p kern) (2 ^ 25) (sm3_linked_init p) good"
proof -
  have base: "\<exists>good. context_manager sm3_alg (on_base_submit (base_mgr_submit sm3_ctx_mgr_submit_base)) (on_base_flush base_mgr_flush)
      (2 ^ 25) (Untouched :: 32 lane_mgr mgr_image) good"
    unfolding sm3_ctx_mgr_submit_base_def by (intro base_image) (simp_all add: sm3.hash_algorithm_axioms)
  note entries = sm3_sm_entry[where kern = kern, OF assms(1)] sm3_sve_entry[where kern = kern, OF assms] sm3_sve2_entry[where kern = kern, OF assms] sm3_asimd_entry[where kern = kern, OF assms(1)] base
  show ?thesis
    unfolding sm3_linked_defs
    using entries by (cases "sm3_sve_capable p (at_hwcap p)") (simp_all add: Let_def)
qed

end
