(* ===== verification/MhSimd.thy ===== *)
theory MhSimd
  imports MhApi Dispatch
begin

text \<open>
  The multi-hashes for one instruction set after the other: \<open>mh_sha1.c\<close>, \<open>mh_sha1_avx512.c\<close>,
  \<open>aarch64/mh_sha1_<arch>.c\<close> and their counterparts for SHA-256 and murmur3 include the files of the
  portable functions with other names and another block function, which is assembly and an
  argument here. The second half links the functions as the dispatchers of aarch64 and riscv64 do.
\<close>

type_synonym mh_update_fun = "mh_sha_ctx option \<Rightarrow> byte list \<Rightarrow> u32 \<Rightarrow> mh_ctx_error \<times> mh_sha_ctx option"
type_synonym mh_finalize_fun =
  "mh_sha_ctx option \<Rightarrow> u32 list option \<Rightarrow> mh_ctx_error \<times> mh_sha_ctx option \<times> u32 list option"
type_synonym mh_tail_fun = "byte list \<Rightarrow> u32 \<Rightarrow> segs \<Rightarrow> u32 list \<times> byte list \<times> segs"
type_synonym mur_update_fun = "mur_ctx option \<Rightarrow> byte list \<Rightarrow> u32 \<Rightarrow> mh_ctx_error \<times> mur_ctx option"

section \<open>mh_sha1\<close>

text \<open>\<open>mh_sha1/mh_sha1.c\<close>.\<close>

definition mh_sha1_update_sse :: "mh_block_fun \<Rightarrow> mh_update_fun" where
  "mh_sha1_update_sse blk = mh_update blk"

definition mh_sha1_tail_sse :: "mh_block_fun \<Rightarrow> mh_tail_fun" where
  "mh_sha1_tail_sse blk = mh_tail mh_sha1_alg blk"

definition mh_sha1_finalize_sse :: "mh_block_fun \<Rightarrow> mh_finalize_fun" where
  "mh_sha1_finalize_sse blk = mh_finalize mh_sha1_alg blk"

definition mh_sha1_update_avx :: "mh_block_fun \<Rightarrow> mh_update_fun" where
  "mh_sha1_update_avx blk = mh_update blk"

definition mh_sha1_tail_avx :: "mh_block_fun \<Rightarrow> mh_tail_fun" where
  "mh_sha1_tail_avx blk = mh_tail mh_sha1_alg blk"

definition mh_sha1_finalize_avx :: "mh_block_fun \<Rightarrow> mh_finalize_fun" where
  "mh_sha1_finalize_avx blk = mh_finalize mh_sha1_alg blk"

definition mh_sha1_update_avx2 :: "mh_block_fun \<Rightarrow> mh_update_fun" where
  "mh_sha1_update_avx2 blk = mh_update blk"

definition mh_sha1_tail_avx2 :: "mh_block_fun \<Rightarrow> mh_tail_fun" where
  "mh_sha1_tail_avx2 blk = mh_tail mh_sha1_alg blk"

definition mh_sha1_finalize_avx2 :: "mh_block_fun \<Rightarrow> mh_finalize_fun" where
  "mh_sha1_finalize_avx2 blk = mh_finalize mh_sha1_alg blk"

text \<open>\<open>mh_sha1/mh_sha1_avx512.c\<close>.\<close>

definition mh_sha1_update_avx512 :: "mh_block_fun \<Rightarrow> mh_update_fun" where
  "mh_sha1_update_avx512 blk = mh_update blk"

definition mh_sha1_tail_avx512 :: "mh_block_fun \<Rightarrow> mh_tail_fun" where
  "mh_sha1_tail_avx512 blk = mh_tail mh_sha1_alg blk"

definition mh_sha1_finalize_avx512 :: "mh_block_fun \<Rightarrow> mh_finalize_fun" where
  "mh_sha1_finalize_avx512 blk = mh_finalize mh_sha1_alg blk"

text \<open>\<open>mh_sha1/aarch64/mh_sha1_asimd.c\<close>.\<close>

definition mh_sha1_update_asimd :: "mh_block_fun \<Rightarrow> mh_update_fun" where
  "mh_sha1_update_asimd blk = mh_update blk"

definition mh_sha1_tail_asimd :: "mh_block_fun \<Rightarrow> mh_tail_fun" where
  "mh_sha1_tail_asimd blk = mh_tail mh_sha1_alg blk"

definition mh_sha1_finalize_asimd :: "mh_block_fun \<Rightarrow> mh_finalize_fun" where
  "mh_sha1_finalize_asimd blk = mh_finalize mh_sha1_alg blk"

text \<open>\<open>mh_sha1/aarch64/mh_sha1_ce.c\<close>.\<close>

definition mh_sha1_update_ce :: "mh_block_fun \<Rightarrow> mh_update_fun" where
  "mh_sha1_update_ce blk = mh_update blk"

definition mh_sha1_tail_ce :: "mh_block_fun \<Rightarrow> mh_tail_fun" where
  "mh_sha1_tail_ce blk = mh_tail mh_sha1_alg blk"

definition mh_sha1_finalize_ce :: "mh_block_fun \<Rightarrow> mh_finalize_fun" where
  "mh_sha1_finalize_ce blk = mh_finalize mh_sha1_alg blk"

text \<open>\<open>mh_sha1/aarch64/mh_sha1_sve.c\<close>.\<close>

definition mh_sha1_update_sve :: "mh_block_fun \<Rightarrow> mh_update_fun" where
  "mh_sha1_update_sve blk = mh_update blk"

definition mh_sha1_tail_sve :: "mh_block_fun \<Rightarrow> mh_tail_fun" where
  "mh_sha1_tail_sve blk = mh_tail mh_sha1_alg blk"

definition mh_sha1_finalize_sve :: "mh_block_fun \<Rightarrow> mh_finalize_fun" where
  "mh_sha1_finalize_sve blk = mh_finalize mh_sha1_alg blk"

text \<open>\<open>mh_sha1/aarch64/mh_sha1_sve2.c\<close>.\<close>

definition mh_sha1_update_sve2 :: "mh_block_fun \<Rightarrow> mh_update_fun" where
  "mh_sha1_update_sve2 blk = mh_update blk"

definition mh_sha1_tail_sve2 :: "mh_block_fun \<Rightarrow> mh_tail_fun" where
  "mh_sha1_tail_sve2 blk = mh_tail mh_sha1_alg blk"

definition mh_sha1_finalize_sve2 :: "mh_block_fun \<Rightarrow> mh_finalize_fun" where
  "mh_sha1_finalize_sve2 blk = mh_finalize mh_sha1_alg blk"

section \<open>mh_sha256\<close>

text \<open>\<open>mh_sha256/mh_sha256.c\<close>.\<close>

definition mh_sha256_update_sse :: "mh_block_fun \<Rightarrow> mh_update_fun" where
  "mh_sha256_update_sse blk = mh_update blk"

definition mh_sha256_tail_sse :: "mh_block_fun \<Rightarrow> mh_tail_fun" where
  "mh_sha256_tail_sse blk = mh_tail mh_sha256_alg blk"

definition mh_sha256_finalize_sse :: "mh_block_fun \<Rightarrow> mh_finalize_fun" where
  "mh_sha256_finalize_sse blk = mh_finalize mh_sha256_alg blk"

definition mh_sha256_update_avx :: "mh_block_fun \<Rightarrow> mh_update_fun" where
  "mh_sha256_update_avx blk = mh_update blk"

definition mh_sha256_tail_avx :: "mh_block_fun \<Rightarrow> mh_tail_fun" where
  "mh_sha256_tail_avx blk = mh_tail mh_sha256_alg blk"

definition mh_sha256_finalize_avx :: "mh_block_fun \<Rightarrow> mh_finalize_fun" where
  "mh_sha256_finalize_avx blk = mh_finalize mh_sha256_alg blk"

definition mh_sha256_update_avx2 :: "mh_block_fun \<Rightarrow> mh_update_fun" where
  "mh_sha256_update_avx2 blk = mh_update blk"

definition mh_sha256_tail_avx2 :: "mh_block_fun \<Rightarrow> mh_tail_fun" where
  "mh_sha256_tail_avx2 blk = mh_tail mh_sha256_alg blk"

definition mh_sha256_finalize_avx2 :: "mh_block_fun \<Rightarrow> mh_finalize_fun" where
  "mh_sha256_finalize_avx2 blk = mh_finalize mh_sha256_alg blk"

text \<open>\<open>mh_sha256/mh_sha256_avx512.c\<close>.\<close>

definition mh_sha256_update_avx512 :: "mh_block_fun \<Rightarrow> mh_update_fun" where
  "mh_sha256_update_avx512 blk = mh_update blk"

definition mh_sha256_tail_avx512 :: "mh_block_fun \<Rightarrow> mh_tail_fun" where
  "mh_sha256_tail_avx512 blk = mh_tail mh_sha256_alg blk"

definition mh_sha256_finalize_avx512 :: "mh_block_fun \<Rightarrow> mh_finalize_fun" where
  "mh_sha256_finalize_avx512 blk = mh_finalize mh_sha256_alg blk"

text \<open>\<open>mh_sha256/aarch64/mh_sha256_ce.c\<close>.\<close>

definition mh_sha256_update_ce :: "mh_block_fun \<Rightarrow> mh_update_fun" where
  "mh_sha256_update_ce blk = mh_update blk"

definition mh_sha256_tail_ce :: "mh_block_fun \<Rightarrow> mh_tail_fun" where
  "mh_sha256_tail_ce blk = mh_tail mh_sha256_alg blk"

definition mh_sha256_finalize_ce :: "mh_block_fun \<Rightarrow> mh_finalize_fun" where
  "mh_sha256_finalize_ce blk = mh_finalize mh_sha256_alg blk"

text \<open>\<open>mh_sha256/riscv64/mh_sha256_block.c\<close>.\<close>

definition mh_sha256_update_rvv :: "mh_block_fun \<Rightarrow> mh_update_fun" where
  "mh_sha256_update_rvv blk = mh_update blk"

definition mh_sha256_tail_rvv :: "mh_block_fun \<Rightarrow> mh_tail_fun" where
  "mh_sha256_tail_rvv blk = mh_tail mh_sha256_alg blk"

definition mh_sha256_finalize_rvv :: "mh_block_fun \<Rightarrow> mh_finalize_fun" where
  "mh_sha256_finalize_rvv blk = mh_finalize mh_sha256_alg blk"

section \<open>mh_sha1_murmur3_x64_128\<close>

text \<open>\<open>mh_sha1_murmur3_x64_128/mh_sha1_murmur3_x64_128.c\<close>.\<close>

definition mh_sha1_murmur3_update_sse :: "mur_digest block_fun \<Rightarrow> mur_update_fun" where
  "mh_sha1_murmur3_update_sse both = mh_update both"

definition mh_sha1_murmur3_finalize_sse :: "mh_block_fun \<Rightarrow> mur_finalize_fun" where
  "mh_sha1_murmur3_finalize_sse blk = mh_murmur3_finalize blk"

definition mh_sha1_murmur3_update_avx :: "mur_digest block_fun \<Rightarrow> mur_update_fun" where
  "mh_sha1_murmur3_update_avx both = mh_update both"

definition mh_sha1_murmur3_finalize_avx :: "mh_block_fun \<Rightarrow> mur_finalize_fun" where
  "mh_sha1_murmur3_finalize_avx blk = mh_murmur3_finalize blk"

definition mh_sha1_murmur3_update_avx2 :: "mur_digest block_fun \<Rightarrow> mur_update_fun" where
  "mh_sha1_murmur3_update_avx2 both = mh_update both"

definition mh_sha1_murmur3_finalize_avx2 :: "mh_block_fun \<Rightarrow> mur_finalize_fun" where
  "mh_sha1_murmur3_finalize_avx2 blk = mh_murmur3_finalize blk"

text \<open>\<open>mh_sha1_murmur3_x64_128/mh_sha1_murmur3_x64_128_avx512.c\<close>.\<close>

definition mh_sha1_murmur3_update_avx512 :: "mur_digest block_fun \<Rightarrow> mur_update_fun" where
  "mh_sha1_murmur3_update_avx512 both = mh_update both"

definition mh_sha1_murmur3_finalize_avx512 :: "mh_block_fun \<Rightarrow> mur_finalize_fun" where
  "mh_sha1_murmur3_finalize_avx512 blk = mh_murmur3_finalize blk"

text \<open>\<open>mh_sha1_murmur3_x64_128/aarch64/mh_sha1_murmur3_asimd.c\<close>.\<close>

definition mh_sha1_murmur3_update_asimd :: "mur_digest block_fun \<Rightarrow> mur_update_fun" where
  "mh_sha1_murmur3_update_asimd both = mh_update both"

definition mh_sha1_murmur3_finalize_asimd :: "mh_block_fun \<Rightarrow> mur_finalize_fun" where
  "mh_sha1_murmur3_finalize_asimd blk = mh_murmur3_finalize blk"

text \<open>\<open>mh_sha1_murmur3_x64_128/aarch64/mh_sha1_murmur3_ce.c\<close>.\<close>

definition mh_sha1_murmur3_update_ce :: "mur_digest block_fun \<Rightarrow> mur_update_fun" where
  "mh_sha1_murmur3_update_ce both = mh_update both"

definition mh_sha1_murmur3_finalize_ce :: "mh_block_fun \<Rightarrow> mur_finalize_fun" where
  "mh_sha1_murmur3_finalize_ce blk = mh_murmur3_finalize blk"

section \<open>Streams through the entry points\<close>

text \<open>
  A context is a structure that all implementations share; a pointer that is \<open>NULL\<close> or a symbol the
  library does not have would lose it.
\<close>

definition linked_mh_update ::
  "(string \<times> ('d mh_ctx option \<Rightarrow> byte list \<Rightarrow> u32 \<Rightarrow> mh_ctx_error \<times> 'd mh_ctx option)) list \<Rightarrow> provider \<Rightarrow>
   'd mh_ctx option \<Rightarrow> byte list \<Rightarrow> u32 \<Rightarrow> mh_ctx_error \<times> 'd mh_ctx option" where
  "linked_mh_update table e =
     (case linked table e of Some f \<Rightarrow> f | None \<Rightarrow> (\<lambda>ctx bs len. (CTX_ERROR_NULL, None)))"

definition linked_mh_finalize :: "(string \<times> mh_finalize_fun) list \<Rightarrow> provider \<Rightarrow> mh_finalize_fun" where
  "linked_mh_finalize table e =
     (case linked table e of Some f \<Rightarrow> f | None \<Rightarrow> (\<lambda>ctx out. (CTX_ERROR_NULL, None, None)))"

definition linked_mur_finalize :: "(string \<times> mur_finalize_fun) list \<Rightarrow> provider \<Rightarrow> mur_finalize_fun" where
  "linked_mur_finalize table e =
     (case linked table e of Some f \<Rightarrow> f | None \<Rightarrow> (\<lambda>ctx out mur. (CTX_ERROR_NULL, None, None, None)))"

text \<open>\<open>init\<close>, any number of \<open>update\<close>s and \<open>finalize\<close> through two entry points.\<close>

definition stream_via ::
  "mh_alg \<Rightarrow> mh_update_fun \<Rightarrow> mh_finalize_fun \<Rightarrow> mh_sha_ctx \<Rightarrow> byte list list \<Rightarrow> u32 list option" where
  "stream_via A upd fin ctx bss =
     (let ctx = snd (mh_init A (Some ctx));
          ctx = fold (\<lambda>bs c. snd (upd c bs (of_nat (length bs)))) bss ctx
      in snd (snd (fin ctx (Some []))))"

definition mur_stream_via ::
  "mur_update_fun \<Rightarrow> mur_finalize_fun \<Rightarrow> mur_ctx \<Rightarrow> u64 \<Rightarrow> byte list list \<Rightarrow>
   u32 list option \<times> (u64 \<times> u64) option" where
  "mur_stream_via upd fin ctx murmur_seed bss =
     (let ctx = snd (mh_sha1_murmur3_init (Some ctx) murmur_seed);
          ctx = fold (\<lambda>bs c. snd (upd c bs (of_nat (length bs)))) bss ctx
      in snd (snd (fin ctx (Some []) (Some (0, 0)))))"

lemma stream_via_same:
  assumes "mh_block A blk" "\<forall>bs\<in>set bss. length bs < 2 ^ 32"
  shows "stream_via A (mh_update blk) (mh_finalize A blk) ctx bss =
    Some (mh_hash_len A (concat bss) (length (concat bss) mod 2 ^ 32))"
  using mh_block.stream_eq[OF assms] by (simp add: stream_via_def mh_stream_def)

lemma mur_stream_via_same:
  assumes "mur_stream blk both" "\<forall>bs\<in>set bss. length bs < 2 ^ 32"
  shows "mur_stream_via (mh_update both) (mh_murmur3_finalize blk) ctx seed bss =
    (Some (mh_hash_len mh_sha1_alg (concat bss) (length (concat bss) mod 2 ^ 32)),
     Some (mur_hash_len (concat bss) seed (of_nat (length (concat bss)))))"
  using mur_stream.stream_eq[OF assms] by (simp add: mur_stream_via_def mh_murmur3_stream_def)

definition mh_sha1_update_entries :: "(string \<Rightarrow> mh_block_fun) \<Rightarrow> (string \<times> mh_update_fun) list" where
  "mh_sha1_update_entries k =
     [(''mh_sha1_update_ce'', mh_sha1_update_ce (k ''ce'')),
      (''mh_sha1_update_sve'', mh_sha1_update_sve (k ''sve'')),
      (''mh_sha1_update_sve2'', mh_sha1_update_sve2 (k ''sve2'')),
      (''mh_sha1_update_asimd'', mh_sha1_update_asimd (k ''asimd'')),
      (''_mh_sha1_update_base'', mh_sha1_update_base)]"

definition mh_sha1_finalize_entries :: "(string \<Rightarrow> mh_block_fun) \<Rightarrow> (string \<times> mh_finalize_fun) list" where
  "mh_sha1_finalize_entries k =
     [(''mh_sha1_finalize_ce'', mh_sha1_finalize_ce (k ''ce'')),
      (''mh_sha1_finalize_sve'', mh_sha1_finalize_sve (k ''sve'')),
      (''mh_sha1_finalize_sve2'', mh_sha1_finalize_sve2 (k ''sve2'')),
      (''mh_sha1_finalize_asimd'', mh_sha1_finalize_asimd (k ''asimd'')),
      (''_mh_sha1_finalize_base'', mh_sha1_finalize_base)]"

definition mh_sha1_linked_stream ::
  "platform \<Rightarrow> (string \<Rightarrow> mh_block_fun) \<Rightarrow> mh_sha_ctx \<Rightarrow> byte list list \<Rightarrow> u32 list option" where
  "mh_sha1_linked_stream p k =
     stream_via mh_sha1_alg
       (linked_mh_update (mh_sha1_update_entries k) (mh_sha1_update_dispatcher p))
       (linked_mh_finalize (mh_sha1_finalize_entries k) (mh_sha1_finalize_dispatcher p))"

definition mh_sha256_update_entries :: "(string \<Rightarrow> mh_block_fun) \<Rightarrow> (string \<times> mh_update_fun) list" where
  "mh_sha256_update_entries k =
     [(''mh_sha256_update_ce'', mh_sha256_update_ce (k ''ce'')),
      (''mh_sha256_update_rvv'', mh_sha256_update_rvv (k ''rvv'')),
      (''_mh_sha256_update_base'', mh_sha256_update_base)]"

definition mh_sha256_finalize_entries :: "(string \<Rightarrow> mh_block_fun) \<Rightarrow> (string \<times> mh_finalize_fun) list" where
  "mh_sha256_finalize_entries k =
     [(''mh_sha256_finalize_ce'', mh_sha256_finalize_ce (k ''ce'')),
      (''mh_sha256_finalize_rvv'', mh_sha256_finalize_rvv (k ''rvv'')),
      (''_mh_sha256_finalize_base'', mh_sha256_finalize_base)]"

definition mh_sha256_linked_stream ::
  "platform \<Rightarrow> (string \<Rightarrow> mh_block_fun) \<Rightarrow> mh_sha_ctx \<Rightarrow> byte list list \<Rightarrow> u32 list option" where
  "mh_sha256_linked_stream p k =
     stream_via mh_sha256_alg
       (linked_mh_update (mh_sha256_update_entries k) (mh_sha256_update_dispatcher p))
       (linked_mh_finalize (mh_sha256_finalize_entries k) (mh_sha256_finalize_dispatcher p))"

definition mh_sha256_riscv64_linked_stream ::
  "bool \<Rightarrow> platform \<Rightarrow> (string \<Rightarrow> mh_block_fun) \<Rightarrow> mh_sha_ctx \<Rightarrow> byte list list \<Rightarrow> u32 list option" where
  "mh_sha256_riscv64_linked_stream have_rvv p k =
     stream_via mh_sha256_alg
       (linked_mh_update (mh_sha256_update_entries k) (mh_sha256_update_riscv64_dispatcher have_rvv p))
       (linked_mh_finalize (mh_sha256_finalize_entries k) (mh_sha256_finalize_riscv64_dispatcher have_rvv p))"

definition mur_update_entries :: "(string \<Rightarrow> mur_digest block_fun) \<Rightarrow> (string \<times> mur_update_fun) list" where
  "mur_update_entries both =
     [(''mh_sha1_murmur3_update_ce'', mh_sha1_murmur3_update_ce (both ''ce'')),
      (''mh_sha1_murmur3_update_asimd'', mh_sha1_murmur3_update_asimd (both ''asimd'')),
      (''_mh_sha1_murmur3_x64_128_update_base'', mh_sha1_murmur3_update_base)]"

definition mur_finalize_entries :: "(string \<Rightarrow> mh_block_fun) \<Rightarrow> (string \<times> mur_finalize_fun) list" where
  "mur_finalize_entries k =
     [(''mh_sha1_murmur3_finalize_ce'', mh_sha1_murmur3_finalize_ce (k ''ce'')),
      (''mh_sha1_murmur3_finalize_asimd'', mh_sha1_murmur3_finalize_asimd (k ''asimd'')),
      (''_mh_sha1_murmur3_x64_128_finalize_base'', mh_sha1_murmur3_finalize_base)]"

definition mur_linked_stream ::
  "platform \<Rightarrow> (string \<Rightarrow> mh_block_fun) \<Rightarrow> (string \<Rightarrow> mur_digest block_fun) \<Rightarrow> mur_ctx \<Rightarrow> u64 \<Rightarrow>
   byte list list \<Rightarrow> u32 list option \<times> (u64 \<times> u64) option" where
  "mur_linked_stream p k both =
     mur_stream_via
       (linked_mh_update (mur_update_entries both) (mh_sha1_murmur3_x64_128_update_dispatcher p))
       (linked_mur_finalize (mur_finalize_entries k) (mh_sha1_murmur3_x64_128_finalize_dispatcher p))"

text \<open>Whatever the processor, both calls go to functions over one block function.\<close>

lemmas linking = linked_mh_update_def linked_mh_finalize_def linked_mur_finalize_def linked_def
  PROVIDER_INFO_def PROVIDER_BASIC_def

lemma mh_sha1_linked:
  assumes "\<And>x. mh_block mh_sha1_alg (k x)" "\<forall>bs\<in>set bss. length bs < 2 ^ 32"
  shows "mh_sha1_linked_stream p k ctx bss =
    Some (mh_hash_len mh_sha1_alg (concat bss) (length (concat bss) mod 2 ^ 32))"
proof -
  note via = stream_via_same[OF assms(1) assms(2)] stream_via_same[OF mh_sha1.mh_block_axioms assms(2)]
  show ?thesis
    unfolding mh_sha1_linked_stream_def mh_sha1_update_entries_def mh_sha1_finalize_entries_def
      mh_sha1_update_dispatcher_def mh_sha1_finalize_dispatcher_def linking
      mh_sha1_update_ce_def mh_sha1_finalize_ce_def mh_sha1_update_sve_def mh_sha1_finalize_sve_def mh_sha1_update_sve2_def mh_sha1_finalize_sve2_def mh_sha1_update_asimd_def mh_sha1_finalize_asimd_def
      mh_sha1_update_base_def mh_sha1_finalize_base_def
    using via by (cases "mh_sha1_sve_capable p (at_hwcap p)") (simp_all add: Let_def)
qed

lemma mh_sha256_linked:
  assumes "\<And>x. mh_block mh_sha256_alg (k x)" "\<forall>bs\<in>set bss. length bs < 2 ^ 32"
  shows "mh_sha256_linked_stream p k ctx bss =
      Some (mh_hash_len mh_sha256_alg (concat bss) (length (concat bss) mod 2 ^ 32))"
    "mh_sha256_riscv64_linked_stream have_rvv p k ctx bss =
      Some (mh_hash_len mh_sha256_alg (concat bss) (length (concat bss) mod 2 ^ 32))"
proof -
  note via = stream_via_same[OF assms(1) assms(2)] stream_via_same[OF mh_sha256.mh_block_axioms assms(2)]
  note defs = mh_sha256_update_entries_def mh_sha256_finalize_entries_def linking
    mh_sha256_update_ce_def mh_sha256_finalize_ce_def mh_sha256_update_rvv_def mh_sha256_finalize_rvv_def
    mh_sha256_update_base_def mh_sha256_finalize_base_def
  show "mh_sha256_linked_stream p k ctx bss =
      Some (mh_hash_len mh_sha256_alg (concat bss) (length (concat bss) mod 2 ^ 32))"
    unfolding mh_sha256_linked_stream_def mh_sha256_update_dispatcher_def mh_sha256_finalize_dispatcher_def defs
    using via by (simp add: Let_def)
  show "mh_sha256_riscv64_linked_stream have_rvv p k ctx bss =
      Some (mh_hash_len mh_sha256_alg (concat bss) (length (concat bss) mod 2 ^ 32))"
    unfolding mh_sha256_riscv64_linked_stream_def mh_sha256_update_riscv64_dispatcher_def
      mh_sha256_finalize_riscv64_dispatcher_def defs
    using via by simp
qed

lemma mur_linked:
  assumes "\<And>x. mur_stream (k x) (both x)" "\<forall>bs\<in>set bss. length bs < 2 ^ 32"
  shows "mur_linked_stream p k both ctx seed bss =
    (Some (mh_hash_len mh_sha1_alg (concat bss) (length (concat bss) mod 2 ^ 32)),
     Some (mur_hash_len (concat bss) seed (of_nat (length (concat bss)))))"
proof -
  note via = mur_stream_via_same[OF assms(1) assms(2)] mur_stream_via_same[OF murmur.mur_stream_axioms assms(2)]
  show ?thesis
    unfolding mur_linked_stream_def mur_update_entries_def mur_finalize_entries_def
      mh_sha1_murmur3_x64_128_update_dispatcher_def mh_sha1_murmur3_x64_128_finalize_dispatcher_def linking
      mh_sha1_murmur3_update_ce_def mh_sha1_murmur3_update_asimd_def mh_sha1_murmur3_update_base_def
      mh_sha1_murmur3_finalize_ce_def mh_sha1_murmur3_finalize_asimd_def mh_sha1_murmur3_finalize_base_def
    using via by (simp add: Let_def)
qed

end
