(* ===== verification/BaseAliases.thy ===== *)
theory BaseAliases
  imports CtxContract MhApi RollingHash Sha256 Sha512 Sha1 Md5 Sm3
begin

text \<open>
  Builds without assembly: \<open><dir>/<name>_base_aliases.c\<close> gives every entry point the portable
  function. The managers keep the contract of \<open>CtxContract\<close>.
\<close>

section \<open>The multi-buffer hashes\<close>

text \<open>\<open>sha256_mb/sha256_ctx_base_aliases.c\<close>.\<close>

definition noarch_sha256_ctx_mgr_init :: unit where
  "noarch_sha256_ctx_mgr_init = ()"

definition noarch_sha256_ctx_mgr_submit :: "(unit, 32, 64) mgr_submit_fun" where
  "noarch_sha256_ctx_mgr_submit = base_mgr_submit sha256_ctx_mgr_submit_base"

definition noarch_sha256_ctx_mgr_flush :: "(unit, 32, 64) mgr_flush_fun" where
  "noarch_sha256_ctx_mgr_flush = base_mgr_flush"

text \<open>\<open>sha512_mb/sha512_ctx_base_aliases.c\<close>.\<close>

definition noarch_sha512_ctx_mgr_init :: unit where
  "noarch_sha512_ctx_mgr_init = ()"

definition noarch_sha512_ctx_mgr_submit :: "(unit, 64, 64) mgr_submit_fun" where
  "noarch_sha512_ctx_mgr_submit = base_mgr_submit sha512_ctx_mgr_submit_base"

definition noarch_sha512_ctx_mgr_flush :: "(unit, 64, 64) mgr_flush_fun" where
  "noarch_sha512_ctx_mgr_flush = base_mgr_flush"

text \<open>\<open>sha1_mb/sha1_ctx_base_aliases.c\<close>.\<close>

definition noarch_sha1_ctx_mgr_init :: unit where
  "noarch_sha1_ctx_mgr_init = ()"

definition noarch_sha1_ctx_mgr_submit :: "(unit, 32, 32) mgr_submit_fun" where
  "noarch_sha1_ctx_mgr_submit = base_mgr_submit sha1_ctx_mgr_submit_base"

definition noarch_sha1_ctx_mgr_flush :: "(unit, 32, 32) mgr_flush_fun" where
  "noarch_sha1_ctx_mgr_flush = base_mgr_flush"

text \<open>\<open>md5_mb/md5_ctx_base_aliases.c\<close>.\<close>

definition noarch_md5_ctx_mgr_init :: unit where
  "noarch_md5_ctx_mgr_init = ()"

definition noarch_md5_ctx_mgr_submit :: "(unit, 32, 32) mgr_submit_fun" where
  "noarch_md5_ctx_mgr_submit = base_mgr_submit md5_ctx_mgr_submit_base"

definition noarch_md5_ctx_mgr_flush :: "(unit, 32, 32) mgr_flush_fun" where
  "noarch_md5_ctx_mgr_flush = base_mgr_flush"

text \<open>\<open>sm3_mb/sm3_ctx_base_aliases.c\<close>.\<close>

definition noarch_sm3_ctx_mgr_init :: unit where
  "noarch_sm3_ctx_mgr_init = ()"

definition noarch_sm3_ctx_mgr_submit :: "(unit, 32, 64) mgr_submit_fun" where
  "noarch_sm3_ctx_mgr_submit = base_mgr_submit sm3_ctx_mgr_submit_base"

definition noarch_sm3_ctx_mgr_flush :: "(unit, 32, 64) mgr_flush_fun" where
  "noarch_sm3_ctx_mgr_flush = base_mgr_flush"

interpretation noarch_sha256: context_manager sha256_alg noarch_sha256_ctx_mgr_submit noarch_sha256_ctx_mgr_flush
  "2 ^ 32" noarch_sha256_ctx_mgr_init
  "\<lambda>fin msg out s st. out = {} \<and> (\<forall>c. at_rest sha256_alg (fin c) (msg c) (st c))"
  unfolding noarch_sha256_ctx_mgr_submit_def noarch_sha256_ctx_mgr_flush_def noarch_sha256_ctx_mgr_init_def
    sha256_ctx_mgr_submit_base_def
  by (rule hash_algorithm.base_manager[OF sha256.hash_algorithm_axioms])

interpretation noarch_sha512: context_manager sha512_alg noarch_sha512_ctx_mgr_submit noarch_sha512_ctx_mgr_flush
  "2 ^ 32" noarch_sha512_ctx_mgr_init
  "\<lambda>fin msg out s st. out = {} \<and> (\<forall>c. at_rest sha512_alg (fin c) (msg c) (st c))"
  unfolding noarch_sha512_ctx_mgr_submit_def noarch_sha512_ctx_mgr_flush_def noarch_sha512_ctx_mgr_init_def
    sha512_ctx_mgr_submit_base_def
  by (rule hash_algorithm.base_manager[OF sha512.hash_algorithm_axioms])

interpretation noarch_sha1: context_manager sha1_alg noarch_sha1_ctx_mgr_submit noarch_sha1_ctx_mgr_flush
  "2 ^ 32" noarch_sha1_ctx_mgr_init
  "\<lambda>fin msg out s st. out = {} \<and> (\<forall>c. at_rest sha1_alg (fin c) (msg c) (st c))"
  unfolding noarch_sha1_ctx_mgr_submit_def noarch_sha1_ctx_mgr_flush_def noarch_sha1_ctx_mgr_init_def
    sha1_ctx_mgr_submit_base_def
  by (rule hash_algorithm.base_manager[OF sha1.hash_algorithm_axioms])

interpretation noarch_md5: context_manager md5_alg noarch_md5_ctx_mgr_submit noarch_md5_ctx_mgr_flush
  "2 ^ 32" noarch_md5_ctx_mgr_init
  "\<lambda>fin msg out s st. out = {} \<and> (\<forall>c. at_rest md5_alg (fin c) (msg c) (st c))"
  unfolding noarch_md5_ctx_mgr_submit_def noarch_md5_ctx_mgr_flush_def noarch_md5_ctx_mgr_init_def
    md5_ctx_mgr_submit_base_def
  by (rule hash_algorithm.base_manager[OF md5.hash_algorithm_axioms])

interpretation noarch_sm3: context_manager sm3_alg noarch_sm3_ctx_mgr_submit noarch_sm3_ctx_mgr_flush
  "2 ^ 32" noarch_sm3_ctx_mgr_init
  "\<lambda>fin msg out s st. out = {} \<and> (\<forall>c. at_rest sm3_alg (fin c) (msg c) (st c))"
  unfolding noarch_sm3_ctx_mgr_submit_def noarch_sm3_ctx_mgr_flush_def noarch_sm3_ctx_mgr_init_def
    sm3_ctx_mgr_submit_base_def
  by (rule hash_algorithm.base_manager[OF sm3.hash_algorithm_axioms])

section \<open>The multi-hashes and the rolling hash\<close>

definition noarch_mh_sha1_update ::
  "mh_sha_ctx option \<Rightarrow> byte list \<Rightarrow> u32 \<Rightarrow> mh_ctx_error \<times> mh_sha_ctx option" where
  "noarch_mh_sha1_update = mh_sha1_update_base"

definition noarch_mh_sha1_finalize ::
  "mh_sha_ctx option \<Rightarrow> u32 list option \<Rightarrow> mh_ctx_error \<times> mh_sha_ctx option \<times> u32 list option" where
  "noarch_mh_sha1_finalize = mh_sha1_finalize_base"

definition noarch_mh_sha256_update ::
  "mh_sha_ctx option \<Rightarrow> byte list \<Rightarrow> u32 \<Rightarrow> mh_ctx_error \<times> mh_sha_ctx option" where
  "noarch_mh_sha256_update = mh_sha256_update_base"

definition noarch_mh_sha256_finalize ::
  "mh_sha_ctx option \<Rightarrow> u32 list option \<Rightarrow> mh_ctx_error \<times> mh_sha_ctx option \<times> u32 list option" where
  "noarch_mh_sha256_finalize = mh_sha256_finalize_base"

definition noarch_mh_sha1_murmur3_x64_128_update ::
  "mur_ctx option \<Rightarrow> byte list \<Rightarrow> u32 \<Rightarrow> mh_ctx_error \<times> mur_ctx option" where
  "noarch_mh_sha1_murmur3_x64_128_update = mh_sha1_murmur3_update_base"

definition noarch_mh_sha1_murmur3_x64_128_finalize :: mur_finalize_fun where
  "noarch_mh_sha1_murmur3_x64_128_finalize = mh_sha1_murmur3_finalize_base"

definition noarch_rolling_hash2_run_until ::
  "u32 \<Rightarrow> int \<Rightarrow> u64 list \<Rightarrow> u64 list \<Rightarrow> (int \<Rightarrow> byte) \<Rightarrow> (int \<Rightarrow> byte) \<Rightarrow>
   u64 \<Rightarrow> u64 \<Rightarrow> u64 \<Rightarrow> u32 \<times> u64" where
  "noarch_rolling_hash2_run_until = rolling_hash2_run_until_base"

end
