(* ===== verification/Spec2Isabelle.thy ===== *)
theory Spec2Isabelle
  imports Sha256Ctx Sha512Ctx Sha1Ctx Md5Ctx Md5SveCtx Sm3Ctx X86Mgr Memcpy TestVectors RollingHash MhApi SelfTests ShaSelfTest AesSelfTest
    Dispatched MhSimd BaseAliases
begin

text \<open>
  \<^bold>\<open>isa-l_crypto, the C code.\<close> The library has three groups of hash functions, the AES modes, and
  the self tests that FIPS builds run first. Assembly does the inner work (compression of several
  lanes at once, the ciphers); the C code modelled here schedules, buffers, pads, checks and
  composes. Everything written in assembly is an argument of the model, with what the C code relies
  on as a named law (\<open>kernel_ok\<close>, \<open>job_scheduler\<close>, \<open>aes_kernels_ok\<close>).

  \<^bold>\<open>Shared.\<close> \<open>Prelude\<close>: machine types, little-endian memory, \<open>memcpy\<close> into a fixed buffer, iteration
  over blocks. \<open>Endian\<close>: \<open>include/internal/endian_helper.h\<close>. \<open>Memcpy\<close>: the copying routines of
  \<open>include/internal/memcpy_inline.h\<close>, shown to be the plain copy that the other theories use.
  \<open>LaneStack\<close>, \<open>Nibbles\<close>: words as stacks of lane numbers. \<open>MultiBuffer\<close>: flags, status, errors, jobs and contexts of
  \<open>include/isa-l_crypto/multi_buffer.h\<close> and \<open><alg>_mb.h\<close>. \<open>HashSpec\<close>: the abstract specification of
  all hashes, padding and Merkle-Damgard iteration over a record \<open>hash_alg\<close>.

  \<^bold>\<open>Multi-buffer hashes\<close> (MD5, SHA-1, SHA-256, SHA-512, SM3), \<open><alg>_mb/\<close>. A context is hashed by a
  sequence of \<open>submit\<close> calls (first, update, last) and handed back, in any order, by \<open>submit\<close> or \<open>flush\<close>.
    \<^item> \<open>BaseCtx\<close>: the portable manager (\<open><alg>_ctx_base.c\<close>), once for all algorithms.
    \<^item> \<open>Rounds\<close>, \<open>Sha2\<close>, \<open>Sha256\<close>, \<open>Sha512\<close>, \<open>Sha1\<close>, \<open>Md5\<close>, \<open>Sm3\<close>: macros, tables and compression
      functions, which unroll the rounds with rotated arguments and a ring of sixteen message words.
      They are shown equal to the compression functions of the standards, written down apart from the
      code (\<open>Fips180\<close> for SHA-256 and SHA-512, with the constants as roots of primes); \<open>TestVectors\<close> and
      \<open>ShaVectors\<close> evaluate known answers, which pins down the tables.
    \<^item> \<open>CtxMgr\<close>: the context layer over a job scheduler (\<open>hash_pad\<close>, \<open>resubmit\<close>, \<open>submit\<close>, \<open>flush\<close>; one
      copy per architecture in the C code). \<open>Scheduler\<close>: the locale \<open>job_scheduler\<close> with the laws of a
      scheduler, and the proof that every history of calls on any scheduler keeping them hashes
      the messages, refuses what it should and returns; \<open>ReadyScheduler\<close> states it from the initial
      state on.
    \<^item> \<open>LaneMgr\<close>: the schedulers written in C (aarch64). \<open>LaneInv\<close>, \<open>LaneKernels\<close>, \<open>LaneReach\<close>: their
      invariant, and that they are job schedulers when the kernels hash (locale \<open>lane_scheduler\<close>),
      which never insert a job where no lane is free.
    \<^item> \<open>SveMgr\<close>: the MD5 scheduler for SVE, whose 32 lanes need another representation of the free
      lanes; it is proved over \<open>LaneTable\<close>, the table of lanes behind any such state.
    \<^item> \<open>X86Mgr\<close>: the initial states of the x86 schedulers, and the single-buffer one of SHA-512.
    \<^item> \<open>Sha256Ctx\<close>, \<open>Sha512Ctx\<close>, \<open>Sha1Ctx\<close>, \<open>Md5Ctx\<close>, \<open>Md5SveCtx\<close>, \<open>Sm3Ctx\<close>: the instances, one group of definitions
      per C file. The x86 schedulers are assembly and stay arguments; the aarch64 ones are
      interpretations of the locales.
    \<^item> \<open>Build\<close>, \<open>HashApi\<close>: the checked entry points \<open>isal_<alg>_ctx_mgr_*\<close> of \<open><alg>_mb.c\<close> under the
      build options \<open>SAFE_PARAM\<close> and \<open>FIPS_MODE\<close>.

  \<^bold>\<open>Multi-hashes\<close> (\<open>mh_sha1/\<close>, \<open>mh_sha256/\<close>, \<open>mh_sha1_murmur3_x64_128/\<close>). \<open>BlockStream\<close>: the shared
  buffering of \<open>update\<close>. \<open>MultiHash\<close>: sixteen interleaved segments and the closing hash. \<open>MhSha1\<close>,
  \<open>MhSha256\<close>, \<open>MhMurmur\<close>: the instances, their block functions and one-shot references, and that the
  stream gives the digest of the concatenated input. \<open>MhApi\<close>: the checked entry points.

  \<^bold>\<open>Rolling hash\<close> (\<open>rolling_hash/\<close>). \<open>RollingHash\<close>: the incremental search for a chunk boundary, against a
  reference that recomputes every window.

  \<^bold>\<open>AES\<close> (\<open>aes/\<close>). \<open>AesApi\<close>: every entry point of CBC, XTS, GCM and key expansion over the record
  \<open>aes_kernels\<close>, functions from the bytes a cipher reads to the bytes it writes. They check their
  parameters and, in a FIPS build, run the self tests first; the one that does not is shown apart.

  \<^bold>\<open>Self tests\<close> (\<open>fips/\<close>). \<open>AesSelfTest\<close> and \<open>ShaSelfTest\<close>: the known-answer tests. \<open>SelfTests\<close>: how
  threads agree to run them once, as step relations on the status word, one step per access, both
  shown to implement one abstract machine (locale \<open>once_impl\<close>).

  \<^bold>\<open>Bounds.\<close> A call hashes fewer than 2^32 bytes (\<open>uint32_t\<close> lengths); the laws of a scheduler bound a job
  by \<open>mx\<close> blocks. The lane schedulers advance a buffer by \<open>len << 2\<close> bytes, computed in an \<open>int\<close>, which a
  job of 2^31 bytes overflows: they are claimed below that (\<open>mx = 2^25\<close>, for SHA-512 \<open>2^24\<close>), and the
  pointer is lost in the model when the shift overflows. The SVE schedulers of MD5 keep 24 bits, read through an
  \<open>int\<close>: they are claimed below 2^23 blocks, and what happens at 2^24 is a theorem. Digests are claimed for the total lengths the 64-bit
  counters hold; the multi-hashes keep the length modulo 2^32 and the theorem says so. The rolling
  search is claimed below 2^31 bytes, and what happens beyond is a theorem; its mask generator is an
  option, \<open>None\<close> where C leaves the shift or the subtraction undefined. No definition uses fuel:
  loops that depend on a scheduler are partial functions, and that they return is proved.

  \<^bold>\<open>Entry points.\<close> \<open>Dispatch\<close>: the functions \<open><name>_dispatcher\<close> of aarch64 and riscv64, which choose the
  implementation behind an entry point from the words the kernel reports. \<open>CtxContract\<close>: the locale
  \<open>context_manager\<close>, what a caller may rely on whichever manager it is; the managers over a scheduler
  and the portable ones are instances. \<open>Dispatched\<close>: the hashes through the linked entry points. A
  manager is there a piece of memory tagged with the implementation that wrote it, and a call that
  lands in another one is undefined, so that the theorems say this never happens. \<open>MhSimd\<close>: the
  multi-hashes per instruction set, which compile the same files with another block function, and
  through their entry points. \<open>BaseAliases\<close>: the entry points of builds without assembly.
  \<open>Build\<close> also holds the version number.

  \<^bold>\<open>Not modelled.\<close> Assembly (its laws are hypotheses; on x86 the schedulers and the run-time dispatch
  are assembly too), tests and benchmarks, the deprecated names of the managers and multi-hashes, which
  only forward to another function. In the state of the schedulers, the arguments that only kernels
  read, and the \<open>user_data\<close> pointers.
\<close>

section \<open>Contexts the witnesses run on\<close>

definition zero_ctx :: "nat \<Rightarrow> nat \<Rightarrow> ('w::len, 'l::len) hash_ctx" where
  "zero_ctx k B =
     \<lparr>job = \<lparr>job_buffer = Own 0, job_len = 0, result_digest = replicate k 0, job_status = STS_UNKNOWN\<rparr>,
      status = STS_COMPLETE, error = ERROR_NONE, total_length = 0, incoming_buffer = [],
      incoming_buffer_length = 0, partial_block_buffer = replicate (2 * B) 0,
      partial_block_buffer_length = 0\<rparr>"

lemma zero_ctx_fresh:
  "fresh sha256_alg (\<lambda>_. zero_ctx 8 64)" "fresh sha512_alg (\<lambda>_. zero_ctx 8 128)"
  "fresh sha1_alg (\<lambda>_. zero_ctx 5 64)" "fresh md5_alg (\<lambda>_. zero_ctx 4 64)"
  "fresh sm3_be_alg (\<lambda>_. zero_ctx 8 64)" "fresh sm3_alg (\<lambda>_. zero_ctx 8 64)"
  by (simp_all add: fresh_def zero_ctx_def sha256_alg_def sha512_alg_def sha1_alg_def md5_alg_def
      sm3_be_alg_def sm3_alg_def)

text \<open>
  A processor with every feature, and the masks of \<open><asm/hwcap.h>\<close> on Linux.
\<close>

definition linux_platform :: platform where
  "linux_platform =
     \<lparr>at_hwcap = 0x7fffff, at_hwcap2 = 2, midr_el1 = 0x411fd490, sm3_mb_sve_max_lanes = 4,
      md5_mb_sve_max_lanes = 8, HWCAP_ASIMD = 2 ^ 1, HWCAP_AES = 2 ^ 3, HWCAP_PMULL = 2 ^ 4,
      HWCAP_SHA1 = 2 ^ 5, HWCAP_SHA2 = 2 ^ 6, HWCAP_SHA3 = 2 ^ 17, HWCAP_SM3 = 2 ^ 18, HWCAP_SVE = 2 ^ 22\<rparr>"

lemma linux_lanes: "0 < md5_mb_sve_max_lanes linux_platform" "0 < sm3_mb_sve_max_lanes linux_platform"
  by (simp_all add: linux_platform_def)

abbreviation abc :: "byte list" where
  "abc \<equiv> [0x61, 0x62, 0x63]"

lemma abc_len:
  "unat (3 :: u32) div block_size sha256_alg < 2 ^ 25" "unat (3 :: u32) div block_size sha512_alg < 2 ^ 24"
  "unat (3 :: u32) div block_size sha1_alg < 2 ^ 25" "unat (3 :: u32) div block_size md5_alg < 2 ^ 25"
  "unat (3 :: u32) div block_size sm3_be_alg < 2 ^ 25" "unat (3 :: u32) \<le> length abc"
  by (simp_all add: sha256_alg_def sha512_alg_def sha1_alg_def md5_alg_def sm3_be_alg_def sm3_alg_def)

text \<open>The bounds on the length of a call, in blocks.\<close>

lemma call_blocks:
  fixes len :: u32
  shows sha256_blocks: "unat len < 2 ^ 31 \<Longrightarrow> unat len div block_size sha256_alg < 2 ^ 25"
    and sha1_blocks: "unat len < 2 ^ 31 \<Longrightarrow> unat len div block_size sha1_alg < 2 ^ 25"
    and sm3_blocks: "unat len < 2 ^ 31 \<Longrightarrow> unat len div block_size sm3_alg < 2 ^ 25"
    and sm3_be_blocks: "unat len < 2 ^ 31 \<Longrightarrow> unat len div block_size sm3_be_alg < 2 ^ 25"
    and sha512_blocks: "unat len < 2 ^ 31 \<Longrightarrow> unat len div block_size sha512_alg < 2 ^ 24"
    and md5_blocks: "unat len < 2 ^ 29 \<Longrightarrow> unat len div block_size md5_alg < 2 ^ 23"
  by (simp_all add: sha256_alg_def sha512_alg_def sha1_alg_def md5_alg_def sm3_be_alg_def sm3_alg_def div_less_iff_less_mult)

lemma len3:
  shows sha256_len3: "unat (3 :: u32) div block_size sha256_alg < 2 ^ 25"
    and sha1_len3: "unat (3 :: u32) div block_size sha1_alg < 2 ^ 25"
    and sm3_len3: "unat (3 :: u32) div block_size sm3_alg < 2 ^ 25"
    and sha512_len3: "unat (3 :: u32) div block_size sha512_alg < 2 ^ 24"
  by (rule call_blocks, simp)+

lemma md5_len3: "unat (3 :: u32) div block_size md5_alg < 2 ^ 23"
  by (rule md5_blocks) simp

lemma abc_take: "take (unat (3 :: u32)) abc = abc"
  by simp

section \<open>The hashes behind the entry points of aarch64\<close>

text \<open>
  C1. SHA-256 through the entry points, whatever the processor: the three dispatchers link one
  and the same implementation, so no call ever finds a manager that another one wrote; and in
  every history of submits of less than 2^31 bytes each (accepted or refused) and flushes on
  freshly initialised contexts, a context that has been handed back and whose last request
  carried \<open>LAST\<close> is complete and holds the digest the standard defines of the bytes
  submitted since its \<open>FIRST\<close>. Every submission (of less than 2^31 bytes) returns,
  and a flush returns a context exactly when one is out.
\<close>
theorem sha256_linked_history:
  assumes "\<And>x. kernel_ok sha256_alg (kern x)" "fresh sha256_alg st0"
    "calls sha256_alg (sha256_linked_submit p kern) (sha256_linked_flush p kern) (2 ^ 25) (sha256_linked_init p) st0 fin msg out s st"
  shows "(\<forall>c. c \<notin> out \<longrightarrow> fin c \<longrightarrow> status (st c) = STS_COMPLETE \<and> digest (st c) = fips_sha256 (msg c)) \<and>
    (\<forall>c buffer len flags. unat len \<le> length buffer \<longrightarrow> unat len < 2 ^ 31 \<longrightarrow>
      sha256_linked_submit p kern s st c buffer len flags \<noteq> None) \<and>
    (\<exists>s' st' r. sha256_linked_flush p kern s st = Some (s', st', r) \<and> (r = None \<longleftrightarrow> out = {}))"
  using calls_guarantee[OF sha256_linked_manager[OF assms(1)] assms(2,3) sha256_hash_fips, where P = "\<lambda>len. unat len < 2 ^ 31"] sha256_blocks by simp

lemma sha256_linked_history_witness:
  "\<exists>s st. calls sha256_alg (sha256_linked_submit linux_platform (\<lambda>_. ref_kernel sha256_alg))
      (sha256_linked_flush linux_platform (\<lambda>_. ref_kernel sha256_alg)) (2 ^ 25) (sha256_linked_init linux_platform)
      (\<lambda>_. zero_ctx 8 64) ((\<lambda>_. False)(0 := True)) ((\<lambda>_. [])(0 := abc)) {} s st \<and>
    digest (st 0) = fips_sha256 abc"
proof -
  note k = ref_kernel_ok[of sha256_alg]
  obtain s st where h: "calls sha256_alg (sha256_linked_submit linux_platform (\<lambda>_. ref_kernel sha256_alg))
      (sha256_linked_flush linux_platform (\<lambda>_. ref_kernel sha256_alg)) (2 ^ 25) (sha256_linked_init linux_platform)
      (\<lambda>_. zero_ctx 8 64) ((\<lambda>_. False)(0 := True)) ((\<lambda>_. [])(0 := abc)) {} s st"
    using calls_entire_exists[OF sha256_linked_manager[where kern = "\<lambda>_. ref_kernel sha256_alg" and p = linux_platform, OF k]
        zero_ctx_fresh(1) abc_len(6) sha256_len3, of 0, unfolded abc_take] by blast
  have "digest (st 0) = fips_sha256 abc" using conjunct1[OF sha256_linked_history[OF k zero_ctx_fresh(1) h]] by simp
  with h show ?thesis by blast
qed

text \<open>
  C2. SHA-1 through the entry points, whatever the processor: the three dispatchers link one and
  the same implementation, so no call ever finds a manager that another one wrote; and in every
  history of submits of less than 2^31 bytes each (accepted or refused) and flushes on freshly
  initialised contexts, a context that has been handed back and whose last request carried
  \<open>LAST\<close> is complete and holds the digest the standard defines of the bytes
  submitted since its \<open>FIRST\<close>. Every submission (of less than 2^31 bytes) returns,
  and a flush returns a context exactly when one is out.
\<close>
theorem sha1_linked_history:
  assumes "\<And>x. kernel_ok sha1_alg (kern x)" "fresh sha1_alg st0"
    "calls sha1_alg (sha1_linked_submit p kern) (sha1_linked_flush p kern) (2 ^ 25) (sha1_linked_init p) st0 fin msg out s st"
  shows "(\<forall>c. c \<notin> out \<longrightarrow> fin c \<longrightarrow> status (st c) = STS_COMPLETE \<and> digest (st c) = fips_sha1 (msg c)) \<and>
    (\<forall>c buffer len flags. unat len \<le> length buffer \<longrightarrow> unat len < 2 ^ 31 \<longrightarrow>
      sha1_linked_submit p kern s st c buffer len flags \<noteq> None) \<and>
    (\<exists>s' st' r. sha1_linked_flush p kern s st = Some (s', st', r) \<and> (r = None \<longleftrightarrow> out = {}))"
  using calls_guarantee[OF sha1_linked_manager[OF assms(1)] assms(2,3) sha1_hash_fips, where P = "\<lambda>len. unat len < 2 ^ 31"] sha1_blocks by simp

lemma sha1_linked_history_witness:
  "\<exists>s st. calls sha1_alg (sha1_linked_submit linux_platform (\<lambda>_. ref_kernel sha1_alg))
      (sha1_linked_flush linux_platform (\<lambda>_. ref_kernel sha1_alg)) (2 ^ 25) (sha1_linked_init linux_platform)
      (\<lambda>_. zero_ctx 5 64) ((\<lambda>_. False)(0 := True)) ((\<lambda>_. [])(0 := abc)) {} s st \<and>
    digest (st 0) = fips_sha1 abc"
proof -
  note k = ref_kernel_ok[of sha1_alg]
  obtain s st where h: "calls sha1_alg (sha1_linked_submit linux_platform (\<lambda>_. ref_kernel sha1_alg))
      (sha1_linked_flush linux_platform (\<lambda>_. ref_kernel sha1_alg)) (2 ^ 25) (sha1_linked_init linux_platform)
      (\<lambda>_. zero_ctx 5 64) ((\<lambda>_. False)(0 := True)) ((\<lambda>_. [])(0 := abc)) {} s st"
    using calls_entire_exists[OF sha1_linked_manager[where kern = "\<lambda>_. ref_kernel sha1_alg" and p = linux_platform, OF k]
        zero_ctx_fresh(3) abc_len(6) sha1_len3, of 0, unfolded abc_take] by blast
  have "digest (st 0) = fips_sha1 abc" using conjunct1[OF sha1_linked_history[OF k zero_ctx_fresh(3) h]] by simp
  with h show ?thesis by blast
qed

text \<open>
  C3. MD5 through the entry points, whatever the processor: the three dispatchers link one and
  the same implementation, so no call ever finds a manager that another one wrote; and in every
  history of submits of less than 2^29 bytes each (accepted or refused) and flushes on freshly
  initialised contexts, a context that has been handed back and whose last request carried
  \<open>LAST\<close> is complete and holds the digest the standard defines of the bytes
  submitted since its \<open>FIRST\<close>. Every submission (of less than 2^29 bytes) returns,
  and a flush returns a context exactly when one is out.
\<close>
theorem md5_linked_history:
  assumes "\<And>x. kernel_ok md5_alg (kern x)" "0 < md5_mb_sve_max_lanes p" "fresh md5_alg st0"
    "calls md5_alg (md5_linked_submit p kern) (md5_linked_flush p kern) (2 ^ 23) (md5_linked_init p) st0 fin msg out s st"
  shows "(\<forall>c. c \<notin> out \<longrightarrow> fin c \<longrightarrow> status (st c) = STS_COMPLETE \<and> digest (st c) = rfc_md5 (msg c)) \<and>
    (\<forall>c buffer len flags. unat len \<le> length buffer \<longrightarrow> unat len < 2 ^ 29 \<longrightarrow>
      md5_linked_submit p kern s st c buffer len flags \<noteq> None) \<and>
    (\<exists>s' st' r. md5_linked_flush p kern s st = Some (s', st', r) \<and> (r = None \<longleftrightarrow> out = {}))"
  using calls_guarantee[OF md5_linked_manager[OF assms(1,2)] assms(3,4) md5_hash_rfc, where P = "\<lambda>len. unat len < 2 ^ 29"] md5_blocks by simp

lemma md5_linked_history_witness:
  "\<exists>s st. calls md5_alg (md5_linked_submit linux_platform (\<lambda>_. ref_kernel md5_alg))
      (md5_linked_flush linux_platform (\<lambda>_. ref_kernel md5_alg)) (2 ^ 23) (md5_linked_init linux_platform)
      (\<lambda>_. zero_ctx 4 64) ((\<lambda>_. False)(0 := True)) ((\<lambda>_. [])(0 := abc)) {} s st \<and>
    digest (st 0) = rfc_md5 abc"
proof -
  note k = ref_kernel_ok[of md5_alg]
  obtain s st where h: "calls md5_alg (md5_linked_submit linux_platform (\<lambda>_. ref_kernel md5_alg))
      (md5_linked_flush linux_platform (\<lambda>_. ref_kernel md5_alg)) (2 ^ 23) (md5_linked_init linux_platform)
      (\<lambda>_. zero_ctx 4 64) ((\<lambda>_. False)(0 := True)) ((\<lambda>_. [])(0 := abc)) {} s st"
    using calls_entire_exists[OF md5_linked_manager[where kern = "\<lambda>_. ref_kernel md5_alg" and p = linux_platform, OF k linux_lanes(1)]
        zero_ctx_fresh(4) abc_len(6) md5_len3, of 0, unfolded abc_take] by blast
  have "digest (st 0) = rfc_md5 abc" using conjunct1[OF md5_linked_history[OF k linux_lanes(1) zero_ctx_fresh(4) h]] by simp
  with h show ?thesis by blast
qed

text \<open>
  C4. SM3 through the entry points, whatever the processor: the three dispatchers link one and
  the same implementation, so no call ever finds a manager that another one wrote; and in every
  history of submits of less than 2^31 bytes each (accepted or refused) and flushes on freshly
  initialised contexts, a context that has been handed back and whose last request carried
  \<open>LAST\<close> is complete and holds the digest the standard defines of the bytes
  submitted since its \<open>FIRST\<close>. Every submission (of less than 2^31 bytes) returns,
  and a flush returns a context exactly when one is out.
\<close>
theorem sm3_linked_history:
  assumes "\<And>x. kernel_ok sm3_be_alg (kern x)" "0 < sm3_mb_sve_max_lanes p" "fresh sm3_alg st0"
    "calls sm3_alg (sm3_linked_submit p kern) (sm3_linked_flush p kern) (2 ^ 25) (sm3_linked_init p) st0 fin msg out s st"
  shows "(\<forall>c. c \<notin> out \<longrightarrow> fin c \<longrightarrow> status (st c) = STS_COMPLETE \<and> digest (st c) = gbt_sm3 (msg c)) \<and>
    (\<forall>c buffer len flags. unat len \<le> length buffer \<longrightarrow> unat len < 2 ^ 31 \<longrightarrow>
      sm3_linked_submit p kern s st c buffer len flags \<noteq> None) \<and>
    (\<exists>s' st' r. sm3_linked_flush p kern s st = Some (s', st', r) \<and> (r = None \<longleftrightarrow> out = {}))"
  using calls_guarantee[OF sm3_linked_manager[OF assms(1,2)] assms(3,4) sm3_hash_gbt, where P = "\<lambda>len. unat len < 2 ^ 31"] sm3_blocks by simp

lemma sm3_linked_history_witness:
  "\<exists>s st. calls sm3_alg (sm3_linked_submit linux_platform (\<lambda>_. ref_kernel sm3_be_alg))
      (sm3_linked_flush linux_platform (\<lambda>_. ref_kernel sm3_be_alg)) (2 ^ 25) (sm3_linked_init linux_platform)
      (\<lambda>_. zero_ctx 8 64) ((\<lambda>_. False)(0 := True)) ((\<lambda>_. [])(0 := abc)) {} s st \<and>
    digest (st 0) = gbt_sm3 abc"
proof -
  note k = ref_kernel_ok[of sm3_be_alg]
  obtain s st where h: "calls sm3_alg (sm3_linked_submit linux_platform (\<lambda>_. ref_kernel sm3_be_alg))
      (sm3_linked_flush linux_platform (\<lambda>_. ref_kernel sm3_be_alg)) (2 ^ 25) (sm3_linked_init linux_platform)
      (\<lambda>_. zero_ctx 8 64) ((\<lambda>_. False)(0 := True)) ((\<lambda>_. [])(0 := abc)) {} s st"
    using calls_entire_exists[OF sm3_linked_manager[where kern = "\<lambda>_. ref_kernel sm3_be_alg" and p = linux_platform, OF k linux_lanes(2)]
        zero_ctx_fresh(6) abc_len(6) sm3_len3, of 0, unfolded abc_take] by blast
  have "digest (st 0) = gbt_sm3 abc" using conjunct1[OF sm3_linked_history[OF k linux_lanes(2) zero_ctx_fresh(6) h]] by simp
  with h show ?thesis by blast
qed

text \<open>
  C5. SHA-512 through the entry points, whatever the processor: the three dispatchers link one
  and the same implementation, so no call ever finds a manager that another one wrote; and in
  every history of submits of less than 2^31 bytes each (accepted or refused) and flushes on
  freshly initialised contexts, a context that has been handed back and whose last request
  carried \<open>LAST\<close> is complete and holds the digest the standard defines of the bytes
  submitted since its \<open>FIRST\<close>. Every submission (of less than 2^31 bytes) returns,
  and a flush returns a context exactly when one is out.
\<close>
theorem sha512_linked_history:
  assumes "\<And>x. kernel_ok sha512_alg (kern x)" "fresh sha512_alg st0"
    "calls sha512_alg (sha512_linked_submit p kern) (sha512_linked_flush p kern) (2 ^ 24) (sha512_linked_init p) st0 fin msg out s st"
  shows "(\<forall>c. c \<notin> out \<longrightarrow> fin c \<longrightarrow> status (st c) = STS_COMPLETE \<and> digest (st c) = fips_sha512 (msg c)) \<and>
    (\<forall>c buffer len flags. unat len \<le> length buffer \<longrightarrow> unat len < 2 ^ 31 \<longrightarrow>
      sha512_linked_submit p kern s st c buffer len flags \<noteq> None) \<and>
    (\<exists>s' st' r. sha512_linked_flush p kern s st = Some (s', st', r) \<and> (r = None \<longleftrightarrow> out = {}))"
  using calls_guarantee[OF sha512_linked_manager[OF assms(1)] assms(2,3) sha512_hash_fips, where P = "\<lambda>len. unat len < 2 ^ 31"] sha512_blocks by simp

lemma sha512_linked_history_witness:
  "\<exists>s st. calls sha512_alg (sha512_linked_submit linux_platform (\<lambda>_. ref_kernel sha512_alg))
      (sha512_linked_flush linux_platform (\<lambda>_. ref_kernel sha512_alg)) (2 ^ 24) (sha512_linked_init linux_platform)
      (\<lambda>_. zero_ctx 8 128) ((\<lambda>_. False)(0 := True)) ((\<lambda>_. [])(0 := abc)) {} s st \<and>
    digest (st 0) = fips_sha512 abc"
proof -
  note k = ref_kernel_ok[of sha512_alg]
  obtain s st where h: "calls sha512_alg (sha512_linked_submit linux_platform (\<lambda>_. ref_kernel sha512_alg))
      (sha512_linked_flush linux_platform (\<lambda>_. ref_kernel sha512_alg)) (2 ^ 24) (sha512_linked_init linux_platform)
      (\<lambda>_. zero_ctx 8 128) ((\<lambda>_. False)(0 := True)) ((\<lambda>_. [])(0 := abc)) {} s st"
    using calls_entire_exists[OF sha512_linked_manager[where kern = "\<lambda>_. ref_kernel sha512_alg" and p = linux_platform, OF k]
        zero_ctx_fresh(2) abc_len(6) sha512_len3, of 0, unfolded abc_take] by blast
  have "digest (st 0) = fips_sha512 abc" using conjunct1[OF sha512_linked_history[OF k zero_ctx_fresh(2) h]] by simp
  with h show ?thesis by blast
qed

section \<open>The multi-buffer managers of aarch64\<close>

text \<open>
  The SHA-256 manager with crypto extensions computes SHA-256. For any kernels that hash as the
  compression function does, in every history of submits of less than 2^31 bytes each (accepted
  or refused) and flushes on freshly initialised contexts, a context that is not in flight and
  whose last request carried \<open>LAST\<close> is complete and holds the digest the standard
  defines of the bytes submitted since its \<open>FIRST\<close>.
\<close>
lemma sha256_ce_history:
  assumes "kernel_ok sha256_alg kern" "fresh sha256_alg st0"
    "history sha256_alg 0 (sha256_mb_mgr_submit_ce kern) (sha256_mb_mgr_flush_ce kern) (2 ^ 25) sha256_mb_mgr_init_ce st0 fin msg s st"
    "c \<notin> lane_inflight s" "fin c"
  shows "status (st c) = STS_COMPLETE \<and> digest (st c) = fips_sha256 (msg c)"
  using ready_scheduler.reach_done(1)[OF lane_scheduler.is_ready_scheduler[OF sha256_ce_scheduler[OF assms(1)]] zero_le_one assms(2)
      assms(3)[unfolded sha256_mb_mgr_submit_ce_def sha256_mb_mgr_flush_ce_def sha256_mb_mgr_init_ce_def]
      assms(4,5)]
  by (simp only: sha256_hash_fips)

lemma sha256_ce_history_witness:
  "\<exists>s st. history sha256_alg 0 (sha256_mb_mgr_submit_ce (ref_kernel sha256_alg)) (sha256_mb_mgr_flush_ce (ref_kernel sha256_alg)) (2 ^ 25) sha256_mb_mgr_init_ce
      (\<lambda>_. zero_ctx 8 64) ((\<lambda>_. False)(0 := True)) ((\<lambda>_. [])(0 := abc)) s st \<and>
    digest (st 0) = fips_sha256 abc"
proof -
  obtain s st where h: "history sha256_alg 0 (sha256_mb_mgr_submit_ce (ref_kernel sha256_alg)) (sha256_mb_mgr_flush_ce (ref_kernel sha256_alg)) (2 ^ 25) sha256_mb_mgr_init_ce
      (\<lambda>_. zero_ctx 8 64) ((\<lambda>_. False)(0 := True)) ((\<lambda>_. [])(0 := abc)) s st"
    "lane_inflight s = {}"
    using sha256_ce.reach_entire[OF zero_le_one zero_ctx_fresh(1) abc_len(6,1),
      of 0, unfolded abc_take, folded sha256_mb_mgr_submit_ce_def sha256_mb_mgr_flush_ce_def sha256_mb_mgr_init_ce_def] by blast
  from sha256_ce_history[OF ref_kernel_ok zero_ctx_fresh(1) h(1), of 0] h show ?thesis by auto
qed

text \<open>
  The SHA-1 manager for ASIMD computes SHA-1. For any kernels that hash as the compression
  function does, in every history of submits of less than 2^31 bytes each (accepted or refused)
  and flushes on freshly initialised contexts, a context that is not in flight and whose last
  request carried \<open>LAST\<close> is complete and holds the digest the standard defines of
  the bytes submitted since its \<open>FIRST\<close>.
\<close>
lemma sha1_asimd_history:
  assumes "kernel_ok sha1_alg kern" "fresh sha1_alg st0"
    "history sha1_alg 0 (sha1_mb_mgr_submit_asimd kern) (sha1_mb_mgr_flush_asimd kern) (2 ^ 25) sha1_mb_mgr_init_asimd st0 fin msg s st"
    "c \<notin> lane_inflight s" "fin c"
  shows "status (st c) = STS_COMPLETE \<and> digest (st c) = fips_sha1 (msg c)"
  using ready_scheduler.reach_done(1)[OF lane_scheduler.is_ready_scheduler[OF sha1_asimd_scheduler[OF assms(1)]] zero_le_one assms(2)
      assms(3)[unfolded sha1_mb_mgr_submit_asimd_def sha1_mb_mgr_flush_asimd_def sha1_mb_mgr_init_asimd_def]
      assms(4,5)]
  by (simp only: sha1_hash_fips)

lemma sha1_asimd_history_witness:
  "\<exists>s st. history sha1_alg 0 (sha1_mb_mgr_submit_asimd (ref_kernel sha1_alg)) (sha1_mb_mgr_flush_asimd (ref_kernel sha1_alg)) (2 ^ 25) sha1_mb_mgr_init_asimd
      (\<lambda>_. zero_ctx 5 64) ((\<lambda>_. False)(0 := True)) ((\<lambda>_. [])(0 := abc)) s st \<and>
    digest (st 0) = fips_sha1 abc"
proof -
  obtain s st where h: "history sha1_alg 0 (sha1_mb_mgr_submit_asimd (ref_kernel sha1_alg)) (sha1_mb_mgr_flush_asimd (ref_kernel sha1_alg)) (2 ^ 25) sha1_mb_mgr_init_asimd
      (\<lambda>_. zero_ctx 5 64) ((\<lambda>_. False)(0 := True)) ((\<lambda>_. [])(0 := abc)) s st"
    "lane_inflight s = {}"
    using sha1_asimd.reach_entire[OF zero_le_one zero_ctx_fresh(3) abc_len(6,3),
      of 0, unfolded abc_take, folded sha1_mb_mgr_submit_asimd_def sha1_mb_mgr_flush_asimd_def sha1_mb_mgr_init_asimd_def] by blast
  from sha1_asimd_history[OF ref_kernel_ok zero_ctx_fresh(3) h(1), of 0] h show ?thesis by auto
qed

text \<open>
  The MD5 manager for ASIMD computes MD5. For any kernels that hash as the compression function
  does, in every history of submits of less than 2^31 bytes each (accepted or refused) and
  flushes on freshly initialised contexts, a context that is not in flight and whose last
  request carried \<open>LAST\<close> is complete and holds the digest the standard defines of
  the bytes submitted since its \<open>FIRST\<close>.
\<close>
lemma md5_asimd_history:
  assumes "kernel_ok md5_alg kern" "fresh md5_alg st0"
    "history md5_alg 0 (md5_mb_mgr_submit_asimd kern) (md5_mb_mgr_flush_asimd kern) (2 ^ 25) md5_mb_mgr_init_asimd st0 fin msg s st"
    "c \<notin> lane_inflight s" "fin c"
  shows "status (st c) = STS_COMPLETE \<and> digest (st c) = rfc_md5 (msg c)"
  using ready_scheduler.reach_done(1)[OF lane_scheduler.is_ready_scheduler[OF md5_asimd_scheduler[OF assms(1)]] zero_le_one assms(2)
      assms(3)[unfolded md5_mb_mgr_submit_asimd_def md5_mb_mgr_flush_asimd_def md5_mb_mgr_init_asimd_def]
      assms(4,5)]
  by (simp only: md5_hash_rfc)

lemma md5_asimd_history_witness:
  "\<exists>s st. history md5_alg 0 (md5_mb_mgr_submit_asimd (ref_kernel md5_alg)) (md5_mb_mgr_flush_asimd (ref_kernel md5_alg)) (2 ^ 25) md5_mb_mgr_init_asimd
      (\<lambda>_. zero_ctx 4 64) ((\<lambda>_. False)(0 := True)) ((\<lambda>_. [])(0 := abc)) s st \<and>
    digest (st 0) = rfc_md5 abc"
proof -
  obtain s st where h: "history md5_alg 0 (md5_mb_mgr_submit_asimd (ref_kernel md5_alg)) (md5_mb_mgr_flush_asimd (ref_kernel md5_alg)) (2 ^ 25) md5_mb_mgr_init_asimd
      (\<lambda>_. zero_ctx 4 64) ((\<lambda>_. False)(0 := True)) ((\<lambda>_. [])(0 := abc)) s st"
    "lane_inflight s = {}"
    using md5_asimd.reach_entire[OF zero_le_one zero_ctx_fresh(4) abc_len(6,4),
      of 0, unfolded abc_take, folded md5_mb_mgr_submit_asimd_def md5_mb_mgr_flush_asimd_def md5_mb_mgr_init_asimd_def] by blast
  from md5_asimd_history[OF ref_kernel_ok zero_ctx_fresh(4) h(1), of 0] h show ?thesis by auto
qed

text \<open>
  The MD5 manager for SVE computes MD5, whatever the number of lanes \<open>vl\<close> of the
  machine: for any kernels that hash as the compression function does, in every history of calls
  that submit less than 2^29 bytes each, a context that is not in flight and whose last request
  carried \<open>LAST\<close> is complete and holds the MD5 digest of the bytes submitted since
  its \<open>FIRST\<close>.
\<close>
lemma md5_sve_history:
  assumes "kernel_ok md5_alg kern" "0 < vl" "fresh md5_alg st0"
    "history md5_alg 0 (md5_mb_mgr_submit_sve vl kern) (md5_mb_mgr_flush_sve vl kern) (2 ^ 23)
       md5_mb_mgr_init_sve st0 fin msg s st"
    "c \<notin> sve_jobs s" "fin c"
  shows "status (st c) = STS_COMPLETE \<and> digest (st c) = rfc_md5 (msg c)"
  using ready_scheduler.reach_done(1)[OF md5_sve_scheduler(1)[OF assms(1,2)] zero_le_one assms(3-6)]
  by (simp only: md5_hash_rfc)

lemma md5_sve_history_witness:
  "\<exists>s st. history md5_alg 0 (md5_mb_mgr_submit_sve 16 (ref_kernel md5_alg)) (md5_mb_mgr_flush_sve 16 (ref_kernel md5_alg))
      (2 ^ 23) md5_mb_mgr_init_sve (\<lambda>_. zero_ctx 4 64) ((\<lambda>_. False)(0 := True)) ((\<lambda>_. [])(0 := abc)) s st \<and>
    digest (st 0) = rfc_md5 abc"
proof -
  have len: "unat (3 :: u32) div block_size md5_alg < 2 ^ 23" by (simp add: md5_alg_def)
  obtain s st where h: "history md5_alg 0 (md5_mb_mgr_submit_sve 16 (ref_kernel md5_alg)) (md5_mb_mgr_flush_sve 16 (ref_kernel md5_alg))
      (2 ^ 23) md5_mb_mgr_init_sve (\<lambda>_. zero_ctx 4 64) ((\<lambda>_. False)(0 := True)) ((\<lambda>_. [])(0 := abc)) s st"
    "sve_jobs s = {}"
    using md5_sve.reach_entire[OF zero_le_one zero_ctx_fresh(4) abc_len(6) len, of 0, unfolded abc_take] by blast
  from md5_sve_history[OF ref_kernel_ok _ zero_ctx_fresh(4) h(1), of 0] h show ?thesis by auto
qed

text \<open>
  C6. The state of the MD5 manager for SVE is well formed whenever a call is made: each of the
  four stacks holds the free lanes of its group, each once, a lane is free, no job is in two
  lanes, the counter counts the jobs in flight, and of every job in a lane its length word
  counts fewer than 2^23 blocks, which its buffer has.
\<close>
theorem md5_sve_wellformed:
  assumes "kernel_ok md5_alg kern" "0 < vl" "fresh md5_alg st0"
    "history md5_alg 0 (md5_mb_mgr_submit_sve vl kern) (md5_mb_mgr_flush_sve vl kern) (2 ^ 23)
       md5_mb_mgr_init_sve st0 fin msg s st"
  shows "(\<exists>gs. \<forall>g<4. distinct (gs g) \<and> set (gs g) = {i. i div 8 = g \<and> sve_ldata s ! i = None} \<and>
      lane_stack 8 (gs g) (sve_unused_lanes s ! g)) \<and>
    length (sve_unused_lanes s) = 4 \<and> length (sve_lens s) = 32 \<and> length (sve_ldata s) = 32 \<and>
    unat (sve_num_lanes_inuse s) = card (sve_jobs s) \<and> card (sve_jobs s) < min vl 32 \<and>
    (\<forall>i<32. \<forall>j. sve_ldata s ! i = Some j \<longrightarrow> (\<forall>k<32. sve_ldata s ! k = Some j \<longrightarrow> k = i) \<and>
       unat (sve_lens s ! i) div 256 < 2 ^ 23 \<and>
       unat (sve_lens s ! i) div 256 * 64 \<le> length (buf_bytes (st j) (job_buffer (job (st j)))))"
proof -
  obtain gs where core: "sve_core gs s st" and room: "card (dom (sve_tab s)) < min vl 32"
    using ready_scheduler.reach_inv[OF md5_sve_scheduler(1)[OF assms(1,2)] zero_le_one assms(3,4)]
    unfolding sve_inv_def by blast
  note d = sve_coreD[OF core] and card = sve_card_jobs[OF core]
  have lane: "(\<forall>k<32. sve_ldata s ! k = Some j \<longrightarrow> k = i) \<and> unat (sve_lens s ! i) div 256 < 2 ^ 23 \<and>
      unat (sve_lens s ! i) div 256 * 64 \<le> length (buf_bytes (st j) (job_buffer (job (st j))))"
    if "i < 32" "sve_ldata s ! i = Some j" for i j
  proof -
    have "sve_tab s i = Some (j, unat (sve_lens s ! i) div 256)" using that by (simp add: sve_tab_eq)
    from tab_okD[OF d(4) this] show ?thesis by (auto simp: sve_tab_eq md5_alg_def)
  qed
  show ?thesis
    using d(1-3) d(6-9) room lane unfolding card by blast
qed

lemma md5_sve_wellformed_witness:
  "unat (sve_num_lanes_inuse md5_mb_mgr_init_sve) = card (sve_jobs md5_mb_mgr_init_sve) \<and>
   card (sve_jobs md5_mb_mgr_init_sve) < min 16 32"
  using md5_sve_wellformed[OF ref_kernel_ok _ zero_ctx_fresh(4) history.start, of 16] by simp

text \<open>
  C7. The length words of the SVE managers are too narrow for the lengths the API takes: a job
  of 2^24 blocks (a buffer of 2^30 bytes, which a \<open>uint32_t\<close> length allows) is
  handed back at once as completed, with its digest unchanged: nothing of it is hashed.
\<close>
theorem md5_sve_long_job:
  assumes "unat (job_len (job (st c))) = 2 ^ 24"
    "md5_mb_mgr_submit_sve vl kern md5_mb_mgr_init_sve st c = (s', st', r)"
  shows "r = Some c \<and> job_status (job (st' c)) = STS_COMPLETED \<and> digest (st' c) = digest (st c)"
  using sve_submit_long[OF assms(1) assms(2)[unfolded md5_mb_mgr_submit_sve_def md5_mb_mgr_init_sve_def]] by simp

lemma md5_sve_long_job_witness:
  "\<exists>s' st'. md5_mb_mgr_submit_sve 16 (ref_kernel md5_alg) md5_mb_mgr_init_sve
      ((\<lambda>_. zero_ctx 4 64)(0 := set_job (User (replicate (2 ^ 30) 0)) (2 ^ 24) (zero_ctx 4 64))) 0 = (s', st', Some 0) \<and>
    digest (st' 0) = digest (zero_ctx 4 64 :: md5_ctx)"
proof -
  let ?st = "(\<lambda>_. zero_ctx 4 64)(0 := set_job (User (replicate (2 ^ 30) 0)) (2 ^ 24) (zero_ctx 4 64)) :: (32, 32) store"
  obtain s' st' r where e: "md5_mb_mgr_submit_sve 16 (ref_kernel md5_alg) md5_mb_mgr_init_sve ?st 0 = (s', st', r)"
    by (metis prod_cases3)
  have l: "unat (job_len (job (?st 0))) = 2 ^ 24" "digest (?st 0) = digest (zero_ctx 4 64 :: md5_ctx)"
    by (simp_all add: set_job_def)
  from md5_sve_long_job[OF l(1) e] e l(2) show ?thesis by auto
qed

text \<open>
  The SHA-512 manager with crypto extensions computes SHA-512. For any kernels that hash as the
  compression function does, in every history of submits of less than 2^31 bytes each (accepted
  or refused) and flushes on freshly initialised contexts, a context that is not in flight and
  whose last request carried \<open>LAST\<close> is complete and holds the digest the standard
  defines of the bytes submitted since its \<open>FIRST\<close>.
\<close>
lemma sha512_ce_history:
  assumes "kernel_ok sha512_alg kern" "fresh sha512_alg st0"
    "history sha512_alg 0 (sha512_mb_mgr_submit_ce kern) (sha512_mb_mgr_flush_ce kern) (2 ^ 24) sha512_mb_mgr_init_ce st0 fin msg s st"
    "c \<notin> lane_inflight s" "fin c"
  shows "status (st c) = STS_COMPLETE \<and> digest (st c) = fips_sha512 (msg c)"
  using ready_scheduler.reach_done(1)[OF lane_scheduler.is_ready_scheduler[OF sha512_ce_scheduler[OF assms(1)]] zero_le_one assms(2)
      assms(3)[unfolded sha512_mb_mgr_submit_ce_def sha512_mb_mgr_flush_ce_def sha512_mb_mgr_init_ce_def]
      assms(4,5)]
  by (simp only: sha512_hash_fips)

lemma sha512_ce_history_witness:
  "\<exists>s st. history sha512_alg 0 (sha512_mb_mgr_submit_ce (ref_kernel sha512_alg)) (sha512_mb_mgr_flush_ce (ref_kernel sha512_alg)) (2 ^ 24) sha512_mb_mgr_init_ce
      (\<lambda>_. zero_ctx 8 128) ((\<lambda>_. False)(0 := True)) ((\<lambda>_. [])(0 := abc)) s st \<and>
    digest (st 0) = fips_sha512 abc"
proof -
  obtain s st where h: "history sha512_alg 0 (sha512_mb_mgr_submit_ce (ref_kernel sha512_alg)) (sha512_mb_mgr_flush_ce (ref_kernel sha512_alg)) (2 ^ 24) sha512_mb_mgr_init_ce
      (\<lambda>_. zero_ctx 8 128) ((\<lambda>_. False)(0 := True)) ((\<lambda>_. [])(0 := abc)) s st"
    "lane_inflight s = {}"
    using sha512_ce.reach_entire[OF zero_le_one zero_ctx_fresh(2) abc_len(6,2),
      of 0, unfolded abc_take, folded sha512_mb_mgr_submit_ce_def sha512_mb_mgr_flush_ce_def sha512_mb_mgr_init_ce_def] by blast
  from sha512_ce_history[OF ref_kernel_ok zero_ctx_fresh(2) h(1), of 0] h show ?thesis by auto
qed

text \<open>
  The SM3 manager for SVE computes SM3, whatever the number of lanes of the machine. For any
  kernels that hash as the compression function does, in every history of submits of less than
  2^31 bytes each (accepted or refused) and flushes on freshly initialised contexts, a context
  that is not in flight and whose last request carried \<open>LAST\<close> is complete and holds
  the digest the standard defines of the bytes submitted since its \<open>FIRST\<close>.
\<close>
lemma sm3_sve_history:
  assumes "kernel_ok sm3_be_alg kern" "0 < maxjobs" "maxjobs \<le> 16" "fresh sm3_be_alg st0"
    "history sm3_be_alg 0 (sm3_mb_mgr_submit_sve maxjobs kern) (sm3_mb_mgr_flush_sve maxjobs kern) (2 ^ 25) (sm3_mb_mgr_init_sve maxjobs) st0 fin msg s st"
    "c \<notin> lane_inflight s" "fin c"
  shows "status (st c) = STS_COMPLETE \<and> digest (st c) = gbt_sm3 (msg c)"
  using ready_scheduler.reach_done(1)[OF lane_scheduler.is_ready_scheduler[OF sm3_sve_scheduler[OF assms(1-3)]] zero_le_one assms(4)
      assms(5)[unfolded sm3_mb_mgr_submit_sve_def sm3_mb_mgr_flush_sve_def sm3_mb_mgr_init_sve_def]
      assms(6,7)]
  by (simp only: sm3_be_hash sm3_hash_gbt)

lemma sm3_sve_history_witness:
  "\<exists>s st. history sm3_be_alg 0 (sm3_mb_mgr_submit_sve 16 (ref_kernel sm3_be_alg)) (sm3_mb_mgr_flush_sve 16 (ref_kernel sm3_be_alg)) (2 ^ 25) (sm3_mb_mgr_init_sve 16)
      (\<lambda>_. zero_ctx 8 64) ((\<lambda>_. False)(0 := True)) ((\<lambda>_. [])(0 := abc)) s st \<and>
    digest (st 0) = gbt_sm3 abc"
proof -
  obtain s st where h: "history sm3_be_alg 0 (sm3_mb_mgr_submit_sve 16 (ref_kernel sm3_be_alg)) (sm3_mb_mgr_flush_sve 16 (ref_kernel sm3_be_alg)) (2 ^ 25) (sm3_mb_mgr_init_sve 16)
      (\<lambda>_. zero_ctx 8 64) ((\<lambda>_. False)(0 := True)) ((\<lambda>_. [])(0 := abc)) s st"
    "lane_inflight s = {}"
    using sm3_sve.reach_entire[OF zero_le_one zero_ctx_fresh(5) abc_len(6,5),
      of 0, unfolded abc_take, folded sm3_mb_mgr_submit_sve_def sm3_mb_mgr_flush_sve_def sm3_mb_mgr_init_sve_def] by blast
  from sm3_sve_history[OF ref_kernel_ok _ _ zero_ctx_fresh(5) h(1), of 0] h show ?thesis by auto
qed

text \<open>A call that leaves a context in flight, for the witnesses.\<close>

lemma sha512_ce_init_state:
  "(mgr_init 2 8 :: 64 lane_mgr) =
    \<lparr>unused_lanes = 0xf10, lens = [0, 1, 0xf, 0xf, 0xf, 0xf, 0xf, 0xf],
     ldata = [None, None, None, None, None, None, None, None], num_lanes_inuse = 0\<rparr>"
  by (simp add: mgr_init_def upt_rec numeral_eq_Suc)

lemma one_block_in_flight:
  "\<exists>s st. ctx_mgr_submit sha512_alg 0 (sha512_mb_mgr_submit_ce kern) sha512_mb_mgr_init_ce (\<lambda>_. zero_ctx 8 128)
      0 (replicate 128 7) 128 ISAL_HASH_FIRST = Some (s, st, None) \<and> lane_inflight s = {0}"
proof -
  have two: "[0..<2] = [0, 1 :: nat]" by (simp add: upt_rec)
  show ?thesis
    by (simp add: ctx_mgr_submit_def zero_ctx_def Let_def submit_start_def submit_fill_def sha512_alg_def set_digest_def
      ctx_mgr_resubmit.simps[of _ _ _ _ _ "Some _"] ctx_mgr_resubmit.simps[of _ _ _ _ _ None] take_incoming_def
      sha512_mb_mgr_submit_ce_def sha512_mb_mgr_init_ce_def mgr_submit_def insert_job_def free_lane_def set_job_def
      sha512_ce_init_state two lane_is_finished_def lane_inflight_def)
qed

text \<open>
  C8. As many calls of \<open>flush\<close> as contexts are in flight give all of them back,
  from every state that a history of calls reaches, each submitting less than 2^31 bytes
  (SHA-512 with crypto extensions): each call returns, and the manager ends empty.
\<close>
theorem sha512_ce_drain:
  assumes "kernel_ok sha512_alg kern" "fresh sha512_alg st0"
    "history sha512_alg 0 (sha512_mb_mgr_submit_ce kern) (sha512_mb_mgr_flush_ce kern) (2 ^ 24)
       sha512_mb_mgr_init_ce st0 fin msg s st"
  shows "\<exists>s' st'. flush_times (sha512_ctx_mgr_flush_ce kern) (card (lane_inflight s)) s st = Some (s', st') \<and>
    lane_inflight s' = {}"
  using ready_scheduler.reach_drain[OF lane_scheduler.is_ready_scheduler[OF sha512_ce_scheduler[OF assms(1)]] zero_le_one assms(2)
      assms(3)[unfolded sha512_mb_mgr_submit_ce_def sha512_mb_mgr_flush_ce_def sha512_mb_mgr_init_ce_def]]
  unfolding sha512_ctx_mgr_flush_ce_def sha512_mb_mgr_submit_ce_def sha512_mb_mgr_flush_ce_def by blast

lemma sha512_ce_drain_witness:
  "\<exists>s st. sha512_ctx_mgr_submit_ce (ref_kernel sha512_alg) sha512_mb_mgr_init_ce (\<lambda>_. zero_ctx 8 128)
      0 (replicate 128 7) 128 ISAL_HASH_FIRST = Some (s, st, None) \<and> lane_inflight s = {0} \<and>
    (\<exists>s' st'. flush_times (sha512_ctx_mgr_flush_ce (ref_kernel sha512_alg)) 1 s st = Some (s', st') \<and>
       lane_inflight s' = {})"
proof -
  let ?sub = "sha512_mb_mgr_submit_ce (ref_kernel sha512_alg)" and ?c = "zero_ctx 8 128 :: sha512_ctx"
  obtain s st where r: "ctx_mgr_submit sha512_alg 0 ?sub sha512_mb_mgr_init_ce (\<lambda>_. ?c)
      0 (replicate 128 7) 128 ISAL_HASH_FIRST = Some (s, st, None)" "lane_inflight s = {0}"
    using one_block_in_flight by blast
  have acc: "accepted ?c ISAL_HASH_FIRST" by (simp add: accepted_def zero_ctx_def)
  have "unat (128 :: u32) \<le> length (replicate 128 (7 :: byte))" "unat (128 :: u32) div block_size sha512_alg < 2 ^ 24"
    by (simp_all add: sha512_alg_def)
  from sha512_ce_drain[OF ref_kernel_ok zero_ctx_fresh(2) history.submit[OF history.start this acc r(1)]] r
  show ?thesis unfolding sha512_ctx_mgr_submit_ce_def by auto
qed

text \<open>
  C9. A request the checks accept returns from every reachable state (the loop of
  \<open>resubmit\<close> ends), whatever other jobs the scheduler hands back first; the context
  is then in flight or the one returned, and its error is cleared (SHA-256 with crypto
  extensions, any length below 2^31 bytes).
\<close>
theorem sha256_ce_submit_returns:
  assumes "kernel_ok sha256_alg kern" "fresh sha256_alg st0"
    "history sha256_alg 0 (sha256_mb_mgr_submit_ce kern) (sha256_mb_mgr_flush_ce kern) (2 ^ 25)
       sha256_mb_mgr_init_ce st0 fin msg s st"
    "accepted (st c) flags" "unat len \<le> length buffer" "unat len < 2 ^ 31"
  shows "\<exists>s' st' r. sha256_ctx_mgr_submit_ce kern s st c buffer len flags = Some (s', st', r) \<and>
    lane_inflight s' = insert c (lane_inflight s) - set_option r \<and>
    set_option r \<subseteq> insert c (lane_inflight s) \<and> error (st' c) = ERROR_NONE"
  using ready_scheduler.reach_submit[OF lane_scheduler.is_ready_scheduler[OF sha256_ce_scheduler[OF assms(1)]] zero_le_one assms(2)
      assms(3)[unfolded sha256_mb_mgr_submit_ce_def sha256_mb_mgr_flush_ce_def sha256_mb_mgr_init_ce_def]
      assms(4,5) sha256_blocks[OF assms(6)]]
  unfolding sha256_ctx_mgr_submit_ce_def sha256_mb_mgr_submit_ce_def by metis

lemma sha256_ce_submit_returns_witness:
  "\<exists>s' st' r. sha256_ctx_mgr_submit_ce (ref_kernel sha256_alg) sha256_mb_mgr_init_ce (\<lambda>_. zero_ctx 8 64)
      0 abc 3 ISAL_HASH_FIRST = Some (s', st', r) \<and>
    lane_inflight s' = insert 0 (lane_inflight sha256_mb_mgr_init_ce) - set_option r \<and>
    set_option r \<subseteq> insert 0 (lane_inflight sha256_mb_mgr_init_ce) \<and> error (st' 0) = ERROR_NONE"
  by (rule sha256_ce_submit_returns[OF ref_kernel_ok zero_ctx_fresh(1) history.start])
    (simp_all add: accepted_def zero_ctx_def)

text \<open>
  \<open>flush\<close> returns from every reachable state: with \<open>NULL\<close> exactly when
  nothing is in flight, and otherwise with a context that was in flight and no longer is (SHA-1
  with crypto extensions).
\<close>
lemma sha1_ce_flush_returns:
  assumes "kernel_ok sha1_alg kern" "fresh sha1_alg st0"
    "history sha1_alg 0 (sha1_mb_mgr_submit_ce kern) (sha1_mb_mgr_flush_ce kern) (2 ^ 25)
       sha1_mb_mgr_init_ce st0 fin msg s st"
  shows "\<exists>s' st' r. sha1_ctx_mgr_flush_ce kern s st = Some (s', st', r) \<and>
    (r = None \<longleftrightarrow> lane_inflight s = {}) \<and>
    lane_inflight s' = lane_inflight s - set_option r \<and> set_option r \<subseteq> lane_inflight s"
  using ready_scheduler.reach_flush[OF lane_scheduler.is_ready_scheduler[OF sha1_ce_scheduler[OF assms(1)]] zero_le_one assms(2)
      assms(3)[unfolded sha1_mb_mgr_submit_ce_def sha1_mb_mgr_flush_ce_def sha1_mb_mgr_init_ce_def]]
  unfolding sha1_ctx_mgr_flush_ce_def sha1_mb_mgr_submit_ce_def sha1_mb_mgr_flush_ce_def by metis

lemma sha1_ce_flush_returns_witness:
  "\<exists>s' st' r. sha1_ctx_mgr_flush_ce (ref_kernel sha1_alg) sha1_mb_mgr_init_ce (\<lambda>_. zero_ctx 5 64)
      = Some (s', st', r) \<and> (r = None \<longleftrightarrow> lane_inflight sha1_mb_mgr_init_ce = {}) \<and>
    lane_inflight s' = lane_inflight sha1_mb_mgr_init_ce - set_option r \<and>
    set_option r \<subseteq> lane_inflight sha1_mb_mgr_init_ce"
  by (rule sha1_ce_flush_returns[OF ref_kernel_ok zero_ctx_fresh(3) history.start])

text \<open>The SM3 scheduler, watched.\<close>

abbreviation sm3_watched_submit where
  "sm3_watched_submit kern \<equiv> watched_submit 4 (sm3_mb_mgr_submit_sm kern)"

abbreviation sm3_watched_flush where
  "sm3_watched_flush kern \<equiv> watched_flush (sm3_mb_mgr_flush_sm kern)"

text \<open>
  C10. Every job that is inserted finds a free lane, so the assertion in
  \<open>insert_job\<close> never fails and no job in a lane is overwritten (SM3 with the SM
  extension). The scheduler is watched: the first \<open>submit\<close> that is called while the
  lane on top of the stack is not a lane or holds a job sets a bit for good, the calls in the
  loops of \<open>resubmit\<close> and \<open>flush\<close> included. After any history of calls
  that submit less than 2^31 bytes each the bit is not set, a lane is free, and the lane count
  is the number of contexts in flight; and the next accepted submit and the next flush return
  without setting it.
\<close>
theorem sm3_sm_lane_free:
  assumes "kernel_ok sm3_be_alg kern" "fresh sm3_be_alg st0"
    "history sm3_be_alg 0 (sm3_watched_submit kern) (sm3_watched_flush kern) (2 ^ 25) (sm3_mb_mgr_init_sm, False) st0 fin msg (s, bad) st"
  shows "\<not> bad \<and> lane_free 4 s \<and> unat (num_lanes_inuse s) = card (lane_inflight s) \<and> card (lane_inflight s) < 4 \<and>
    (\<forall>c buffer len flags. accepted (st c) flags \<longrightarrow> unat len \<le> length buffer \<longrightarrow> unat len < 2 ^ 31 \<longrightarrow>
      (\<exists>s' st' r. ctx_mgr_submit sm3_be_alg 0 (sm3_watched_submit kern) (s, bad) st c buffer len flags = Some ((s', False), st', r))) \<and>
    (\<exists>s' st' r. ctx_mgr_flush sm3_be_alg 0 (sm3_watched_submit kern) (sm3_watched_flush kern) (s, bad) st = Some ((s', False), st', r))"
proof -
  note W = lane_scheduler.watched_ready_scheduler[OF sm3_sm_scheduler[OF assms(1)], folded sm3_mb_mgr_submit_sm_def
      sm3_mb_mgr_flush_sm_def sm3_mb_mgr_init_sm_def]
  note h = assms(3)
  note inv = ready_scheduler.reach_inv[OF W zero_le_one assms(2)]
  note free = lane_scheduler.lane_inv_free[OF sm3_sm_scheduler[OF assms(1)]]
  have sub: "\<exists>s' st' r. ctx_mgr_submit sm3_be_alg 0 (sm3_watched_submit kern) (s, bad) st c buffer len flags = Some ((s', False), st', r)"
    if a: "accepted (st c) flags" "unat len \<le> length buffer" "unat len < 2 ^ 31" for c buffer and len :: u32 and flags
  proof -
    obtain s' st' r where r: "ctx_mgr_submit sm3_be_alg 0 (sm3_watched_submit kern) (s, bad) st c buffer len flags = Some (s', st', r)"
      "history sm3_be_alg 0 (sm3_watched_submit kern) (sm3_watched_flush kern) (2 ^ 25) (sm3_mb_mgr_init_sm, False) st0
        (fin(c := next_fin flags)) (msg(c := next_msg (msg c) buffer len flags)) s' st'"
      by (rule ready_scheduler.reach_submit[OF W zero_le_one assms(2) h a(1,2) sm3_be_blocks[OF a(3)]])
    from inv[OF r(2)] r(1) show ?thesis by (cases s') auto
  qed
  have flush: "\<exists>s' st' r. ctx_mgr_flush sm3_be_alg 0 (sm3_watched_submit kern) (sm3_watched_flush kern) (s, bad) st = Some ((s', False), st', r)"
  proof -
    obtain s' st' r where r: "ctx_mgr_flush sm3_be_alg 0 (sm3_watched_submit kern) (sm3_watched_flush kern) (s, bad) st = Some (s', st', r)"
      "history sm3_be_alg 0 (sm3_watched_submit kern) (sm3_watched_flush kern) (2 ^ 25) (sm3_mb_mgr_init_sm, False) st0 fin msg s' st'"
      by (rule ready_scheduler.reach_flush[OF W zero_le_one assms(2) h])
    from inv[OF r(2)] r(1) show ?thesis by (cases s') auto
  qed
  show ?thesis using inv[OF h] free[of s st] sub flush by simp
qed

lemma sm3_sm_lane_free_witness:
  "\<exists>s bad st. history sm3_be_alg 0 (sm3_watched_submit (ref_kernel sm3_be_alg))
      (sm3_watched_flush (ref_kernel sm3_be_alg)) (2 ^ 25) (sm3_mb_mgr_init_sm, False)
      (\<lambda>_. zero_ctx 8 64) ((\<lambda>_. False)(0 := True)) ((\<lambda>_. [])(0 := abc)) (s, bad) st \<and> \<not> bad \<and> lane_free 4 s"
proof -
  note W = sm3_sm.watched_ready_scheduler[folded sm3_mb_mgr_submit_sm_def sm3_mb_mgr_flush_sm_def sm3_mb_mgr_init_sm_def]
  obtain s bad st where h: "history sm3_be_alg 0 (sm3_watched_submit (ref_kernel sm3_be_alg))
      (sm3_watched_flush (ref_kernel sm3_be_alg)) (2 ^ 25) (sm3_mb_mgr_init_sm, False)
      (\<lambda>_. zero_ctx 8 64) ((\<lambda>_. False)(0 := True)) ((\<lambda>_. [])(0 := abc)) (s, bad) st"
    using ready_scheduler.reach_entire[OF W zero_le_one zero_ctx_fresh(5) abc_len(6,5), of 0, unfolded abc_take] by (metis prod.collapse)
  from sm3_sm_lane_free[OF ref_kernel_ok zero_ctx_fresh(5) h] h show ?thesis by blast
qed

section \<open>The context layer over any scheduler\<close>

text \<open>
  C11. Over any scheduler that keeps the laws of \<open>job_scheduler\<close> (the x86 ones are
  assembly), in every history of submits and flushes a context that is not in flight and whose
  last request carried \<open>LAST\<close> is complete and holds the hash of the bytes submitted
  since its \<open>FIRST\<close>; with \<open>clr\<close> 1 this covers the two files that clear
  one byte further on.
\<close>
theorem scheduler_history:
  assumes "job_scheduler A sub flush inflight work sinv mx" "clr \<le> 1"
    "sinv s0 st0" "inflight s0 = {}" "fresh A st0"
    "history A clr sub flush mx s0 st0 fin msg s st" "c \<notin> inflight s" "fin c"
  shows "status (st c) = STS_COMPLETE \<and> digest (st c) = md_hash A (msg c)"
  using job_scheduler.history_ok[OF assms(1-6)] assms(1,7,8)
  by (auto simp: job_scheduler.world_ok_def[OF assms(1)] at_rest_def settled_def)

lemma scheduler_history_witness:
  "\<exists>s st. history sha256_alg 1 (sha256_mb_mgr_submit_ce (ref_kernel sha256_alg))
      (sha256_mb_mgr_flush_ce (ref_kernel sha256_alg)) (2 ^ 25) sha256_mb_mgr_init_ce
      (\<lambda>_. zero_ctx 8 64) ((\<lambda>_. False)(0 := True)) ((\<lambda>_. [])(0 := abc)) s st \<and>
    digest (st 0) = md_hash sha256_alg abc"
proof -
  note e = sha256_ce.reach_entire[OF order_refl zero_ctx_fresh(1) abc_len(6,1), of 0, unfolded abc_take]
  obtain s st where h: "history sha256_alg 1 (mgr_submit 3 3 (sha256_mb_mgr_do_jobs_ce (ref_kernel sha256_alg)))
      (mgr_flush 3 (sha256_mb_mgr_do_jobs_ce (ref_kernel sha256_alg))) (2 ^ 25) (mgr_init 3 16)
      (\<lambda>_. zero_ctx 8 64) ((\<lambda>_. False)(0 := True)) ((\<lambda>_. [])(0 := abc)) s st"
    "lane_inflight s = {}" using e by blast
  from scheduler_history[OF sha256_ce.is_job_scheduler order_refl sha256_ce.mgr_init_inv
      zero_ctx_fresh(1) h(1), of 0] h
  show ?thesis
    unfolding sha256_mb_mgr_submit_ce_def sha256_mb_mgr_flush_ce_def sha256_mb_mgr_init_ce_def by auto
qed

text \<open>
  C12. \<open>hash_pad\<close> turns the partial block into the last one or two blocks of the
  message: after the buffered bytes of a message of \<open>n\<close> bytes it writes the padding
  of the standard, and returns the number of blocks, whether it clears from the first free byte
  or the one after it.
\<close>
theorem hash_pad_is_padding:
  assumes "hash_algorithm A" "length pb = 2 * block_size A" "clr \<le> 1"
  shows "\<exists>pb' k. hash_pad A clr pb (of_nat n) = (pb', of_nat k) \<and> k \<in> {1, 2} \<and>
    length pb' = length pb \<and>
    take (k * block_size A) pb' = take (n mod block_size A) pb @ md_padding A n"
proof -
  obtain pb' k where "hash_pad A clr pb (of_nat n) = (pb', of_nat k)" "0 < k" "k \<le> 2"
    "length pb' = 2 * block_size A" "take (k * block_size A) pb' = take (n mod block_size A) pb @ md_padding A n"
    by (rule hash_algorithm.hash_pad_eq[OF assms(1,2) refl assms(3)])
  then show ?thesis using assms(2) by (intro exI[of _ pb'] exI[of _ k]) auto
qed

lemma hash_pad_is_padding_witness:
  "\<exists>pb' k. hash_pad sha512_alg 1 (replicate 256 7) (of_nat 113) = (pb', of_nat k) \<and> k \<in> {1, 2} \<and>
    length pb' = length (replicate 256 (7 :: byte)) \<and>
    take (k * block_size sha512_alg) pb' = take (113 mod block_size sha512_alg) (replicate 256 7) @ md_padding sha512_alg 113"
  by (rule hash_pad_is_padding[OF sha512.hash_algorithm_axioms]) (simp_all add: sha512_alg_def)

text \<open>
  The two files that clear the buffer from one byte further on hand the scheduler the same blocks
  as their siblings (SM3 for AVX2 with and without the new instructions).
\<close>

lemma sm3_hash_pad_avx2_ni_same:
  assumes "length pb = 128"
  shows "snd (sm3_hash_pad_avx2_ni pb (of_nat n)) = snd (sm3_hash_pad_avx2 pb (of_nat n)) \<and>
    (let k = unat (snd (sm3_hash_pad_avx2 pb (of_nat n))) * 64 in
     take k (fst (sm3_hash_pad_avx2_ni pb (of_nat n))) = take k (fst (sm3_hash_pad_avx2 pb (of_nat n))))"
proof -
  have len: "length pb = 2 * block_size sm3_alg" using assms by (simp add: sm3_alg_def)
  have B: "block_size sm3_alg = 64" by (simp add: sm3_alg_def)
  obtain p0 k0 where 0: "hash_pad sm3_alg 0 pb (of_nat n) = (p0, of_nat k0)" "0 < k0" "k0 \<le> 2"
    "length p0 = 2 * block_size sm3_alg"
    "take (k0 * block_size sm3_alg) p0 = take (n mod block_size sm3_alg) pb @ md_padding sm3_alg n"
    by (rule hash_algorithm.hash_pad_eq[OF sm3.hash_algorithm_axioms len refl zero_le_one])
  obtain p1 k1 where 1: "hash_pad sm3_alg 1 pb (of_nat n) = (p1, of_nat k1)" "0 < k1" "k1 \<le> 2"
    "length p1 = 2 * block_size sm3_alg"
    "take (k1 * block_size sm3_alg) p1 = take (n mod block_size sm3_alg) pb @ md_padding sm3_alg n"
    by (rule hash_algorithm.hash_pad_eq[OF sm3.hash_algorithm_axioms len refl order_refl])
  have "length (take (k0 * block_size sm3_alg) p0) = length (take (k1 * block_size sm3_alg) p1)"
    by (simp only: 0(5) 1(5))
  then have k: "k1 = k0" using 0(3,4) 1(3,4) by (auto simp: B min_def split: if_splits)
  have "unat (of_nat k0 :: u32) = k0" using 0(3) by (intro unat_of_nat_small) simp
  then show ?thesis
    using 0(1,5) 1(1,5) unfolding k B by (simp add: sm3_hash_pad_avx2_ni_def sm3_hash_pad_avx2_def)
qed

text \<open>
  C13. A request with unknown flags, on a context that is being processed, or continuing a
  completed one without \<open>FIRST\<close> comes straight back with the matching error;
  neither the manager nor anything else of any context changes.
\<close>
theorem submit_refused:
  assumes "\<not> accepted (st c) flags"
  shows "ctx_mgr_submit A clr sub s st c buffer len flags =
    Some (s, st(c := (st c)\<lparr>error := refusal (st c) flags\<rparr>), Some c)"
  using assms by (rule ctx_mgr_submit_refused)

lemma submit_refused_witness:
  "ctx_mgr_submit md5_alg 0 (md5_mb_mgr_submit_asimd (ref_kernel md5_alg)) md5_mb_mgr_init_asimd
      (\<lambda>_. zero_ctx 4 64) 0 abc 3 ISAL_HASH_LAST =
    Some (md5_mb_mgr_init_asimd, (\<lambda>_. zero_ctx 4 64)(0 := (zero_ctx 4 64)\<lparr>error := ERROR_ALREADY_COMPLETED\<rparr>), Some 0)"
  using submit_refused[of "\<lambda>_. zero_ctx 4 64 :: md5_ctx" 0 ISAL_HASH_LAST md5_alg 0
      "md5_mb_mgr_submit_asimd (ref_kernel md5_alg)" md5_mb_mgr_init_asimd abc 3]
  by (simp add: accepted_def refusal_def zero_ctx_def)

section \<open>The portable managers\<close>

text \<open>
  C14. A message given to a portable manager in pieces, with \<open>FIRST\<close>, any number of
  \<open>UPDATE\<close>s and \<open>LAST\<close>, each piece shorter than 2^32 bytes, ends in a
  completed context whose digest is the Merkle-Damgard hash of the concatenation, however it was
  cut.
\<close>
theorem base_stream_digest:
  assumes "hash_algorithm A" "wf_ctx A ctx" "\<forall>b\<in>set (x # ys @ [z]). length b < 2 ^ 32"
  shows "digest (base_stream A ctx x ys z) = md_hash A (x @ concat ys @ z) \<and>
    status (base_stream A ctx x ys z) = STS_COMPLETE \<and>
    error (base_stream A ctx x ys z) = ERROR_NONE"
  using hash_algorithm.base_stream[OF assms] by simp

lemma base_stream_digest_witness:
  "digest (base_stream sha256_alg (zero_ctx 8 64 :: sha256_ctx) [0x61] [[0x62], []] [0x63])
    = md_hash sha256_alg [0x61, 0x62, 0x63]"
  using base_stream_digest[OF sha256.hash_algorithm_axioms,
      of "zero_ctx 8 64 :: sha256_ctx" "[0x61]" "[[0x62], []]" "[0x63]"]
  by (simp add: wf_ctx_def zero_ctx_def sha256_alg_def)

text \<open>
  C15. One call of a portable manager with \<open>ENTIRE\<close>, on a context that is not being
  processed, computes the standard hash of the buffer: SHA-256, SHA-512, SHA-1, MD5 and SM3.
\<close>
theorem base_entire_standard:
  assumes "unat len \<le> length buf"
  shows "(length (partial_block_buffer c256) = 128 \<and> status c256 AND STS_PROCESSING = 0 \<longrightarrow>
      digest (sha256_ctx_mgr_submit_base c256 buf len ISAL_HASH_ENTIRE) = fips_sha256 (take (unat len) buf)) \<and>
    (length (partial_block_buffer c512) = 256 \<and> status c512 AND STS_PROCESSING = 0 \<longrightarrow>
      digest (sha512_ctx_mgr_submit_base c512 buf len ISAL_HASH_ENTIRE) = fips_sha512 (take (unat len) buf)) \<and>
    (length (partial_block_buffer c1) = 128 \<and> status c1 AND STS_PROCESSING = 0 \<longrightarrow>
      digest (sha1_ctx_mgr_submit_base c1 buf len ISAL_HASH_ENTIRE) = fips_sha1 (take (unat len) buf)) \<and>
    (length (partial_block_buffer c5) = 128 \<and> status c5 AND STS_PROCESSING = 0 \<longrightarrow>
      digest (md5_ctx_mgr_submit_base c5 buf len ISAL_HASH_ENTIRE) = rfc_md5 (take (unat len) buf)) \<and>
    (length (partial_block_buffer c3) = 128 \<and> status c3 AND STS_PROCESSING = 0 \<longrightarrow>
      digest (sm3_ctx_mgr_submit_base c3 buf len ISAL_HASH_ENTIRE) = gbt_sm3 (take (unat len) buf))"
proof -
  note e = base_entire_digest[OF _ _ _ assms]
  have "(length (partial_block_buffer c256) = 128 \<and> status c256 AND STS_PROCESSING = 0 \<longrightarrow>
      digest (sha256_ctx_mgr_submit_base c256 buf len ISAL_HASH_ENTIRE) = fips_sha256 (take (unat len) buf))"
    unfolding sha256_ctx_mgr_submit_base_def sha256_hash_fips[symmetric]
    by (intro impI, rule e[OF sha256.hash_algorithm_axioms]) (simp_all add: wf_ctx_def sha256_alg_def)
  moreover
  have "(length (partial_block_buffer c512) = 256 \<and> status c512 AND STS_PROCESSING = 0 \<longrightarrow>
      digest (sha512_ctx_mgr_submit_base c512 buf len ISAL_HASH_ENTIRE) = fips_sha512 (take (unat len) buf))"
    unfolding sha512_ctx_mgr_submit_base_def sha512_hash_fips[symmetric]
    by (intro impI, rule e[OF sha512.hash_algorithm_axioms]) (simp_all add: wf_ctx_def sha512_alg_def)
  moreover
  have "(length (partial_block_buffer c1) = 128 \<and> status c1 AND STS_PROCESSING = 0 \<longrightarrow>
      digest (sha1_ctx_mgr_submit_base c1 buf len ISAL_HASH_ENTIRE) = fips_sha1 (take (unat len) buf))"
    unfolding sha1_ctx_mgr_submit_base_def sha1_hash_fips[symmetric]
    by (intro impI, rule e[OF sha1.hash_algorithm_axioms]) (simp_all add: wf_ctx_def sha1_alg_def)
  moreover
  have "(length (partial_block_buffer c5) = 128 \<and> status c5 AND STS_PROCESSING = 0 \<longrightarrow>
      digest (md5_ctx_mgr_submit_base c5 buf len ISAL_HASH_ENTIRE) = rfc_md5 (take (unat len) buf))"
    unfolding md5_ctx_mgr_submit_base_def md5_hash_rfc[symmetric]
    by (intro impI, rule e[OF md5.hash_algorithm_axioms]) (simp_all add: wf_ctx_def md5_alg_def)
  moreover
  have "(length (partial_block_buffer c3) = 128 \<and> status c3 AND STS_PROCESSING = 0 \<longrightarrow>
      digest (sm3_ctx_mgr_submit_base c3 buf len ISAL_HASH_ENTIRE) = gbt_sm3 (take (unat len) buf))"
    unfolding sm3_ctx_mgr_submit_base_def sm3_hash_gbt[symmetric]
    by (intro impI, rule e[OF sm3.hash_algorithm_axioms]) (simp_all add: wf_ctx_def sm3_alg_def)
  ultimately show ?thesis by (intro conjI)
qed

lemma base_entire_standard_witness:
  "digest (sha256_ctx_mgr_submit_base (zero_ctx 8 64) abc 3 ISAL_HASH_ENTIRE) = fips_sha256 abc \<and>
   digest (md5_ctx_mgr_submit_base (zero_ctx 4 64) abc 3 ISAL_HASH_ENTIRE) = rfc_md5 abc"
  using base_entire_standard[OF abc_len(6), of "zero_ctx 8 64" "zero_ctx 8 128" "zero_ctx 5 64" "zero_ctx 4 64"
    "zero_ctx 8 64"] unfolding abc_take
  by (simp add: zero_ctx_def)

text \<open>
  The three refusals of a portable \<open>submit\<close> set only the error code: unknown flags,
  \<open>ENTIRE\<close> on a context being processed, and continuing a completed context without
  \<open>FIRST\<close>.
\<close>
lemma base_submit_refusals:
  "(flags AND NOT ISAL_HASH_ENTIRE \<noteq> 0 \<longrightarrow>
      base_submit A ctx buffer len flags = ctx\<lparr>error := ERROR_INVALID_FLAGS\<rparr>) \<and>
   (status ctx AND STS_PROCESSING \<noteq> 0 \<longrightarrow>
      base_submit A ctx buffer len ISAL_HASH_ENTIRE = ctx\<lparr>error := ERROR_ALREADY_PROCESSING\<rparr>) \<and>
   (status ctx = STS_COMPLETE \<and> (flags = ISAL_HASH_UPDATE \<or> flags = ISAL_HASH_LAST) \<longrightarrow>
      base_submit A ctx buffer len flags = ctx\<lparr>error := ERROR_ALREADY_COMPLETED\<rparr>)"
  by (intro conjI impI; (elim conjE)?) (rule base_submit_errors; assumption)+

lemma base_submit_refusals_witness:
  "base_submit md5_alg (zero_ctx 4 64 :: md5_ctx) abc 3 4 = (zero_ctx 4 64)\<lparr>error := ERROR_INVALID_FLAGS\<rparr> \<and>
   base_submit md5_alg ((zero_ctx 4 64 :: md5_ctx)\<lparr>status := STS_PROCESSING\<rparr>) abc 3 ISAL_HASH_ENTIRE =
     (zero_ctx 4 64)\<lparr>status := STS_PROCESSING, error := ERROR_ALREADY_PROCESSING\<rparr> \<and>
   base_submit md5_alg (zero_ctx 4 64 :: md5_ctx) abc 3 ISAL_HASH_LAST =
     (zero_ctx 4 64)\<lparr>error := ERROR_ALREADY_COMPLETED\<rparr>"
  using base_submit_refusals[of 4 md5_alg "zero_ctx 4 64 :: md5_ctx" abc 3]
    base_submit_refusals[of ISAL_HASH_LAST md5_alg "zero_ctx 4 64 :: md5_ctx" abc 3]
    base_submit_refusals[of ISAL_HASH_ENTIRE md5_alg "(zero_ctx 4 64 :: md5_ctx)\<lparr>status := STS_PROCESSING\<rparr>" abc 3]
  by (simp add: zero_ctx_def)

text \<open>
  C16. An error left in a context by a refused request outlives later accepted
  \<open>UPDATE\<close> and \<open>LAST\<close> requests of a portable manager; over a scheduler
  that keeps its laws every accepted request returns with the error of its context cleared,
  whatever \<open>FIRST\<close>, \<open>UPDATE\<close> or \<open>LAST\<close> it carries and
  whatever history of calls came before.
\<close>
theorem base_error_sticks:
  assumes "hash_algorithm A" "ctx_holds A m ctx" "status ctx = STS_IDLE" "unat len \<le> length buffer"
    and "ready_scheduler B sub flush inflight work sinv mx s0" "clr \<le> 1" "fresh B st0"
    "history B clr sub flush mx s0 st0 fin msg s st" "accepted (st c) flags"
    "unat n \<le> length buf" "unat n div block_size B < mx"
  shows "error (base_submit A ctx buffer len ISAL_HASH_UPDATE) = error ctx \<and>
    error (base_submit A ctx buffer len ISAL_HASH_LAST) = error ctx \<and>
    (\<exists>s' st' r. ctx_mgr_submit B clr sub s st c buf n flags = Some (s', st', r) \<and> error (st' c) = ERROR_NONE)"
proof (intro conjI)
  show "error (base_submit A ctx buffer len ISAL_HASH_UPDATE) = error ctx"
    by (rule hash_algorithm.base_submit_update(3)[OF assms(1-4)])
  show "error (base_submit A ctx buffer len ISAL_HASH_LAST) = error ctx"
    by (rule hash_algorithm.base_submit_last(3)[OF assms(1-4)])
  show "\<exists>s' st' r. ctx_mgr_submit B clr sub s st c buf n flags = Some (s', st', r) \<and> error (st' c) = ERROR_NONE"
    by (rule ready_scheduler.reach_submit[OF assms(5-11)]) blast
qed

lemma base_error_sticks_witness:
  "error (base_submit sha1_alg ((base_init sha1_alg (zero_ctx 5 64))\<lparr>status := STS_IDLE, error := ERROR_INVALID_FLAGS\<rparr> :: sha1_ctx)
      abc 3 ISAL_HASH_LAST) = ERROR_INVALID_FLAGS \<and>
    (\<exists>s' st' r. ctx_mgr_submit sha1_alg 0 (mgr_submit 2 2 (sha1_mb_mgr_do_jobs_ce (ref_kernel sha1_alg))) (mgr_init 2 16)
        (\<lambda>_. zero_ctx 5 64\<lparr>error := ERROR_INVALID_FLAGS\<rparr>) 0 abc 3 ISAL_HASH_ENTIRE = Some (s', st', r) \<and>
      error (st' 0) = ERROR_NONE)"
proof -
  let ?c = "(base_init sha1_alg (zero_ctx 5 64))\<lparr>status := STS_IDLE, error := ERROR_INVALID_FLAGS\<rparr> :: sha1_ctx"
  let ?st = "\<lambda>_ :: nat. (zero_ctx 5 64)\<lparr>error := ERROR_INVALID_FLAGS\<rparr> :: sha1_ctx"
  have "ctx_holds sha1_alg [] (base_init sha1_alg (zero_ctx 5 64 :: sha1_ctx))"
    by (rule sha1.base_init_holds) (simp add: wf_ctx_def zero_ctx_def sha1_alg_def)
  then have c: "ctx_holds sha1_alg [] ?c" by (simp add: ctx_holds_def)
  have st: "fresh sha1_alg ?st" "accepted (?st 0) ISAL_HASH_ENTIRE"
    by (simp_all add: fresh_def accepted_def zero_ctx_def sha1_alg_def)
  from base_error_sticks[OF sha1.hash_algorithm_axioms c _ abc_len(6) sha1_ce.is_ready_scheduler zero_le_one st(1) history.start st(2)
      abc_len(6,3)] show ?thesis by simp
qed

text \<open>
  C17. The one-shot reference functions compute the standard hashes of the first
  \<open>len\<close> bytes: SHA-256, SHA-512, SHA-1 and MD5.
\<close>
theorem ref_standard:
  assumes "unat len \<le> length buf"
  shows "sha256_ref buf len = fips_sha256 (take (unat len) buf) \<and> sha512_ref buf len = fips_sha512 (take (unat len) buf) \<and>
    sha1_ref buf len = fips_sha1 (take (unat len) buf) \<and> md5_ref buf len = rfc_md5 (take (unat len) buf)"
proof -
  have m: "min (length buf) (unat len) = unat len" using assms by simp
  show ?thesis
    unfolding sha256_hash_fips[symmetric] sha512_hash_fips[symmetric] sha1_hash_fips[symmetric] md5_hash_rfc[symmetric]
      sha256_ref_eq sha512_ref_eq sha1_ref_eq md5_ref_eq
      sha256.ref_hash_eq[OF assms] sha512.ref_hash_eq[OF assms] sha1.ref_hash_eq[OF assms] md5.ref_hash_eq[OF assms]
    by (simp add: md_hash_def m)
      (simp add: sha256_alg_def sha512_alg_def sha1_alg_def md5_alg_def)
qed

lemma ref_standard_witness:
  "sha256_ref abc 3 = fips_sha256 abc \<and> sha512_ref abc 3 = fips_sha512 abc \<and>
    sha1_ref abc 3 = fips_sha1 abc \<and> md5_ref abc 3 = rfc_md5 abc"
  using ref_standard[OF abc_len(6)] unfolding abc_take .

section \<open>Compression functions\<close>

text \<open>
  C18. The hand-unrolled rounds of SHA-256 and SHA-512, with their rotating variables and
  sixteen-word schedule ring, are the compression functions of FIPS 180-4, stated from the
  standard alone: its sigma functions as rotations and shifts, big-endian words, and as round
  constants the first bits of the fractional parts of the cube roots of the first primes. The
  initial digests are the bits of the square roots of the first eight primes.
\<close>
theorem sha2_compression:
  "(length H = 8 \<and> length data = 64 \<longrightarrow> sha256_single data H = fips_compress fips256 data H) \<and>
   (length G = 8 \<and> length block = 128 \<longrightarrow> sha512_single block G = fips_compress fips512 block G) \<and>
   sha256_initial_digest = map (\<lambda>p. fraction_bits (sqrt (of_int p))) (take 8 fips_primes) \<and>
   sha512_initial_digest = map (\<lambda>p. fraction_bits (sqrt (of_int p))) (take 8 fips_primes)"
  by (simp add: sha256_single_fips sha512_single_fips sha256_initial_digest_fips sha512_initial_digest_fips fips_H0_def)

lemma sha2_compression_witness:
  "sha256_single (replicate 64 0) sha256_initial_digest = fips_compress fips256 (replicate 64 0) sha256_initial_digest \<and>
   sha512_single (replicate 128 0) sha512_initial_digest = fips_compress fips512 (replicate 128 0) sha512_initial_digest"
proof -
  have l: "length sha256_initial_digest = 8" "length sha512_initial_digest = 8"
    "length (replicate 64 (0 :: byte)) = 64" "length (replicate 128 (0 :: byte)) = 128"
    by (simp_all add: sha256_initial_digest_def sha512_initial_digest_def)
  from sha2_compression[where H = sha256_initial_digest and G = sha512_initial_digest
      and data = "replicate 64 0" and block = "replicate 128 0"] l
  show ?thesis by blast
qed



text \<open>
  C20. The SM3 compression function is the one of GB/T 32905, its rotations by 0 in rounds 0 and
  32 included; and the byte-swapped digest words of the aarch64 files give the same hash.
\<close>
theorem sm3_compression:
  "(length data = 64 \<longrightarrow> sm3_single data V = gbt_compress data V) \<and> md_hash sm3_be_alg m = gbt_sm3 m"
  by (simp add: sm3_single_gbt sm3_be_hash sm3_hash_gbt)

lemma sm3_compression_witness:
  "sm3_single (replicate 64 0) sm3_initial_digest = gbt_compress (replicate 64 0) sm3_initial_digest"
  using sm3_compression[of "replicate 64 0" sm3_initial_digest] by simp

text \<open>
  C21. Known answers: the reference functions give the published digests of "abc" (MD5) and of
  the messages of the FIPS self tests (SHA-1 and SHA-256 over two blocks, SHA-512), evaluated by
  rewriting; this pins down the constant tables.
\<close>
theorem known_answers:
  "md5_ref abc 3 = [0x98500190, 0xb04fd23c, 0x7d3f96d6, 0x727fe128] \<and>
   sha1_ref kat_msg 56 = [0x84983E44, 0x1C3BD26E, 0xBAAE4AA1, 0xF95129E5, 0xE54670F1] \<and>
   sha256_ref kat_msg 56 = [0x248D6A61, 0xD20638B8, 0xE5C02693, 0x0C3E6039,
                            0xA33CE459, 0x64FF2167, 0xF6ECEDD4, 0x19DB06C1] \<and>
   sha512_ref kat_msg_sha512 43 = [0x07e547d9586f6a73, 0xf73fbac0435ed769,
                                   0x51218fb7d0c8d788, 0xa309d785436bbb64,
                                   0x2e93a252a954f239, 0x12547d1e8a3b5ed6,
                                   0xe1bfd7097821233f, 0xa0538f3db854fee6]"
  using md5_abc sha1_ref_kat sha256_ref_kat sha512_ref_kat
  unfolding sha1_kat_digest_def sha256_kat_digest_def sha512_kat_digest_def by blast

text \<open>
  C22. Byte order: storing a byte-swapped word writes its bytes most significant first, loading
  a word and byte-swapping it reads big-endian, and each pair is a round trip, at 32 and 64
  bits.
\<close>
theorem byteswap_roundtrips:
  "store_le 4 (byteswap32 x) = store_be 4 x \<and> byteswap32 (load_le (store_be 4 x)) = x \<and>
   byteswap32 (byteswap32 x) = x \<and>
   store_le 8 (byteswap64 y) = store_be 8 y \<and> byteswap64 (load_le (store_be 8 y)) = y \<and>
   byteswap64 (byteswap64 y) = y"
  by (simp add: store_le_byteswap32 store_le_byteswap64 byteswap32_load_le byteswap64_load_le
      load_be_store_be32 load_be_store_be64)

section \<open>The rolling hash\<close>

text \<open>A state after \<open>init\<close> with a window of one byte and \<open>reset\<close>, for the witnesses.\<close>

definition rh_sample :: rh_state2 where
  "rh_sample = rolling_hash2_reset (snd (rolling_hash2_init
     \<lparr>rh_history = replicate 48 0, rh_table1 = [], rh_table2 = [], rh_hash = 0, rh_w = 0\<rparr> 1)) [0x61]"

lemma rh_sample_ok: "rh_ok rh_sample" "rh_w rh_sample = 1" "rh_window rh_sample = [0x61]"
proof -
  let ?st = "\<lparr>rh_history = replicate 48 0, rh_table1 = [], rh_table2 = [], rh_hash = 0, rh_w = 0\<rparr> :: rh_state2"
  have "rh_tables (snd (rolling_hash2_init ?st 1)) \<and> rh_w (snd (rolling_hash2_init ?st 1)) = 1"
    using rolling_hash2_init_tables[of 1 ?st] by auto
  then show "rh_ok rh_sample" "rh_w rh_sample = 1" "rh_window rh_sample = [0x61]"
    using rolling_hash2_reset_ok[of "snd (rolling_hash2_init ?st 1)" "[0x61]"] by (simp_all add: rh_sample_def)
qed

text \<open>
  C23. The rolling search finds the first position at which the hash of the last
  \<open>w\<close> bytes, computed from scratch, meets the trigger under the mask, and leaves
  the state of that position; without one it consumes the buffer and returns \<open>MAX\<close>
  (buffers shorter than 2^31).
\<close>
theorem rolling_finds_first:
  assumes "rh_ok st" "unat n \<le> length buffer" "unat n < 2 ^ 31"
  shows "\<exists>r k st'. rolling_hash2_run st buffer n msk trigger = (r, of_nat k, st') \<and>
    (r, k) = (case first_hit (\<lambda>k. window_hash rolling_hash2_table1
          (take (unat (rh_w st)) (drop k (rh_window st @ buffer))) AND ucast msk = ucast trigger) (unat n) of
        Some k \<Rightarrow> (RET_HIT, k) | None \<Rightarrow> (RET_MAX, unat n)) \<and>
    rh_ok st' \<and> rh_window st' = take (unat (rh_w st)) (drop k (rh_window st @ buffer))"
  using rolling_hash2_run_spec[OF assms, of msk trigger]
  unfolding run_result_def rh_hit_def hash_at_def moved_def by (metis prod.collapse)

lemma rolling_finds_first_witness:
  "\<exists>r k st'. rolling_hash2_run rh_sample abc 3 0 0 = (r, of_nat k, st') \<and> r = RET_HIT \<and> k = 1 \<and>
    rh_window st' = [0x61]"
proof -
  have "first_hit (\<lambda>k. window_hash rolling_hash2_table1 (take (unat (rh_w rh_sample)) (drop k (rh_window rh_sample @ abc)))
      AND ucast (0 :: u32) = ucast (0 :: u32)) (unat (3 :: u32)) = Some 1"
    by (rule first_hit_Some) auto
  with rolling_finds_first[OF rh_sample_ok(1), of 3 abc 0 0] show ?thesis by (auto simp: rh_sample_ok)
qed

text \<open>
  C24. A search that ends without a hit is continued by the next buffer: the second call returns
  what one call on the concatenation returns (its offset counted from the second buffer), with
  the same window and hash.
\<close>
theorem rolling_continues:
  assumes "rh_ok st" "unat n = length xs" "unat k \<le> length ys" "unat n + unat k < 2 ^ 31"
    "rolling_hash2_run st xs n msk trigger = (RET_MAX, i, st1)"
  shows "\<exists>r j st2 st3. rolling_hash2_run st1 ys k msk trigger = (r, j, st2) \<and>
    rolling_hash2_run st (xs @ ys) (n + k) msk trigger = (r, n + j, st3) \<and>
    rh_window st3 = rh_window st2 \<and> rh_hash st3 = rh_hash st2"
  by (rule rolling_hash2_run_append[OF assms])

lemma rolling_continues_witness:
  "\<exists>i st1 r j st2 st3. rolling_hash2_run rh_sample abc 3 0 1 = (RET_MAX, i, st1) \<and>
    rolling_hash2_run st1 abc 3 0 1 = (r, j, st2) \<and>
    rolling_hash2_run rh_sample (abc @ abc) (3 + 3) 0 1 = (r, 3 + j, st3)"
proof -
  have "run_result rh_sample abc 3 0 1 = (RET_MAX, 3)"
    by (simp add: run_result_def rh_hit_def first_hit_None)
  then obtain st1 where "rolling_hash2_run rh_sample abc 3 0 1 = (RET_MAX, 3, st1)"
    using rolling_hash2_run_spec[OF rh_sample_ok(1), of 3 abc 0 1] by auto
  with rolling_continues[OF rh_sample_ok(1) _ _ _ this, of 3 abc] show ?thesis by auto
qed

text \<open>
  C25. \<open>init\<close> refuses windows above 48 with -1 and an unchanged state; for windows
  from 1 to 48, \<open>init\<close> and \<open>reset\<close> establish the state invariant (the
  second table is the first rotated by the window, the hash is that of the window), and a search
  keeps it.
\<close>
theorem rolling_state_invariant:
  assumes "0 < w" "length (rh_history st) = 48" "unat w \<le> length bytes" "unat n \<le> length buffer" "unat n < 2 ^ 31"
  shows "(48 < w \<longrightarrow> rolling_hash2_init st w = (-1, st)) \<and>
    (w \<le> 48 \<longrightarrow> fst (rolling_hash2_init st w) = 0 \<and>
      (let st1 = rolling_hash2_reset (snd (rolling_hash2_init st w)) bytes
       in rh_ok st1 \<and> rh_window st1 = take (unat w) bytes \<and>
          rh_ok (snd (snd (rolling_hash2_run st1 buffer n msk trigger)))))"
proof -
  let ?st = "snd (rolling_hash2_init st w)"
  have "rh_ok (snd (snd (rolling_hash2_run s buffer n msk trigger)))" if "rh_ok s" for s
    using rolling_hash2_run_spec[OF that assms(4,5), of msk trigger] by (auto simp: moved_def)
  moreover have "w \<le> 48 \<Longrightarrow> fst (rolling_hash2_init st w) = 0 \<and> rh_tables ?st \<and> rh_w ?st = w"
    using rolling_hash2_init_tables[OF assms(1,2)] by auto
  ultimately show ?thesis
    using rolling_hash2_reset_ok[of ?st bytes] assms(3) by (auto simp: rolling_hash2_init_def[of st] Let_def)
qed

lemma rolling_state_invariant_witness:
  "fst (rolling_hash2_init rh_sample 49) = -1 \<and> fst (rolling_hash2_init rh_sample 3) = 0"
proof -
  have "length (rh_history rh_sample) = 48" using rh_sample_ok(1) by (simp add: rh_ok_def rh_tables_def)
  from rolling_state_invariant[OF _ this, of 49 "replicate 49 0" 0 "[]"] rolling_state_invariant[OF _ this, of 3 abc 0 "[]"]
  show ?thesis by simp
qed

text \<open>
  C26. The length of the buffer is a \<open>uint32_t\<close> that the second loop receives as an
  \<open>int\<close>: with a length of 2^31 or more and no hit among the first \<open>w\<close>
  bytes, the search stops after \<open>w\<close> bytes and reports that the maximum length was
  reached.
\<close>
theorem rolling_long_buffer:
  assumes "rh_ok st" "unat n \<le> length buffer" "2 ^ 31 \<le> unat n"
    "\<forall>j. 0 < j \<and> j \<le> unat (rh_w st) \<longrightarrow> \<not> rh_hit (unat (rh_w st)) (rh_window st @ buffer) (ucast msk) (ucast trigger) j"
  shows "\<exists>st'. rolling_hash2_run st buffer n msk trigger = (RET_MAX, rh_w st, st')"
  using assms by (rule rolling_hash2_run_negative)

lemma rolling_long_buffer_witness:
  "\<exists>st'. rolling_hash2_run rh_sample (replicate (2 ^ 31) 0) 0x80000000 0 1 = (RET_MAX, 1, st')"
  using rolling_long_buffer[OF rh_sample_ok(1), of "0x80000000" "replicate (2 ^ 31) 0" 0 1]
  by (simp add: rh_hit_def rh_sample_ok(2))



text \<open>
  C28. A build with \<open>SAFE_PARAM\<close> never dereferences \<open>NULL\<close> in the
  public search: it succeeds exactly when no pointer is \<open>NULL\<close> and the build is not
  for FIPS, and a refused call changes neither the state nor the outputs.
\<close>
theorem rolling_run_safe:
  assumes "safe_param b"
  shows "\<exists>e st' i r. isal_rolling_hash2_run b state buffer n msk trigger offset match = Some (e, st', i, r) \<and>
    (e \<noteq> ERR_NONE \<longrightarrow> st' = state \<and> i = offset \<and> r = match) \<and>
    (e = ERR_NONE \<longleftrightarrow> \<not> fips_mode b \<and> state \<noteq> None \<and> buffer \<noteq> None \<and> offset \<noteq> None \<and> match \<noteq> None)"
  using assms by (rule isal_rolling_hash2_run_safe)

lemma rolling_run_safe_witness:
  "\<exists>e st' i r. isal_rolling_hash2_run \<lparr>fips_mode = False, safe_param = True\<rparr> None (Some abc) 3 0 0 (Some 7) None
      = Some (e, st', i, r) \<and> e \<noteq> ERR_NONE \<and> i = Some 7"
  using rolling_run_safe[of "\<lparr>fips_mode = False, safe_param = True\<rparr>" None "Some abc" 3 0 0 "Some 7" None] by auto

section \<open>The multi-hash functions\<close>

text \<open>
  mh_sha1. A message given to \<open>init\<close>, any number of \<open>update\<close>s (each
  shorter than 2^32 bytes) and \<open>finalize\<close> of the portable functions has the multi-
  hash digest over the compression function and the hash of FIPS 180-4, however it was cut; the
  length field holds the length of the message modulo 2^32 bytes.
\<close>
lemma mh_sha1_stream:
  assumes "\<forall>bs\<in>set bss. length bs < 2 ^ 32"
  shows "mh_stream mh_sha1_alg mh_sha1_block_base ctx bss =
    Some (mh_hash_len fips_mh_sha1_alg (concat bss) (length (concat bss) mod 2 ^ 32))"
  using mh_sha1.stream_eq[OF assms] by (simp only: mh_sha1_fips)

lemma mh_sha1_stream_witness:
  "mh_stream mh_sha1_alg mh_sha1_block_base \<lparr>mh_digest = [], mh_total_length = 7, mh_partial = [], mh_interim = []\<rparr> [abc, [], abc] = Some (mh_hash fips_mh_sha1_alg (abc @ abc))"
proof -
  have p: "\<forall>bs\<in>set [abc, [], abc]. length bs < 2 ^ 32" by simp
  have e: "concat [abc, [], abc] = abc @ abc" by simp
  have m: "length (abc @ abc) mod 2 ^ 32 = length (abc @ abc)" by simp
  show ?thesis using mh_sha1_stream[OF p] unfolding e m mh_hash_def .
qed

text \<open>
  C29. The multi-hashes through the entry points, on every aarch64 and riscv64 processor:
  \<open>init\<close>, any number of \<open>update\<close>s (each shorter than 2^32 bytes) and
  \<open>finalize\<close> of whichever functions the dispatchers link give the multi-hash digest
  over the compression function and the hash of FIPS 180-4, however the message was cut, for any
  block functions that hash blocks as the portable ones do. The length field holds the length of
  the message modulo 2^32 bytes.
\<close>
theorem mh_linked_stream:
  assumes "\<And>x. mh_block mh_sha1_alg (k x)" "\<And>x. mh_block mh_sha256_alg (k' x)"
    "\<forall>bs\<in>set bss. length bs < 2 ^ 32"
  shows "mh_sha1_linked_stream p k ctx bss =
      Some (mh_hash_len fips_mh_sha1_alg (concat bss) (length (concat bss) mod 2 ^ 32)) \<and>
    mh_sha256_linked_stream p k' ctx' bss =
      Some (mh_hash_len fips_mh_sha256_alg (concat bss) (length (concat bss) mod 2 ^ 32)) \<and>
    mh_sha256_riscv64_linked_stream have_rvv p k' ctx' bss =
      Some (mh_hash_len fips_mh_sha256_alg (concat bss) (length (concat bss) mod 2 ^ 32))"
  using mh_sha1_linked[OF assms(1,3)] mh_sha256_linked[OF assms(2,3)] by (simp only: mh_sha1_fips mh_sha256_fips)

lemma mh_linked_stream_witness:
  "mh_sha1_linked_stream linux_platform (\<lambda>_. mh_sha1_block_base)
      \<lparr>mh_digest = [], mh_total_length = 7, mh_partial = [], mh_interim = []\<rparr> [abc, [], abc] =
    Some (mh_hash fips_mh_sha1_alg (abc @ abc))"
proof -
  have p: "\<forall>bs\<in>set [abc, [], abc]. length bs < 2 ^ 32" by simp
  have e: "concat [abc, [], abc] = abc @ abc" by simp
  have m: "length (abc @ abc) mod 2 ^ 32 = length (abc @ abc)" by simp
  show ?thesis
    using conjunct1[OF mh_linked_stream[where k = "\<lambda>_. mh_sha1_block_base", OF mh_sha1.mh_block_axioms mh_sha256.mh_block_axioms p]]
    unfolding e m mh_hash_def .
qed

text \<open>
  mh_sha256. A message given to \<open>init\<close>, any number of \<open>update\<close>s (each
  shorter than 2^32 bytes) and \<open>finalize\<close> of the portable functions has the multi-
  hash digest over the compression function and the hash of FIPS 180-4, however it was cut; the
  length field holds the length of the message modulo 2^32 bytes.
\<close>
lemma mh_sha256_stream:
  assumes "\<forall>bs\<in>set bss. length bs < 2 ^ 32"
  shows "mh_stream mh_sha256_alg mh_sha256_block_base ctx bss =
    Some (mh_hash_len fips_mh_sha256_alg (concat bss) (length (concat bss) mod 2 ^ 32))"
  using mh_sha256.stream_eq[OF assms] by (simp only: mh_sha256_fips)

lemma mh_sha256_stream_witness:
  "mh_stream mh_sha256_alg mh_sha256_block_base \<lparr>mh_digest = [], mh_total_length = 7, mh_partial = [], mh_interim = []\<rparr> [abc, [], abc] = Some (mh_hash fips_mh_sha256_alg (abc @ abc))"
proof -
  have p: "\<forall>bs\<in>set [abc, [], abc]. length bs < 2 ^ 32" by simp
  have e: "concat [abc, [], abc] = abc @ abc" by simp
  have m: "length (abc @ abc) mod 2 ^ 32 = length (abc @ abc)" by simp
  show ?thesis using mh_sha256_stream[OF p] unfolding e m mh_hash_def .
qed

text \<open>
  C30. The streaming functions of \<open>mh_sha1\<close> and \<open>mh_sha256\<close> agree with
  the one-shot references \<open>mh_sha1_ref\<close> and \<open>mh_sha256_ref\<close>, which
  gather each segment and transpose the digests, on every message shorter than 2^32 bytes.
\<close>
theorem mh_stream_ref:
  assumes "\<forall>bs\<in>set bss. length bs < 2 ^ 32" "length (concat bss) = unat len"
  shows "mh_stream mh_sha1_alg mh_sha1_block_base ctx bss = Some (mh_sha1_ref (concat bss) len) \<and>
    mh_stream mh_sha256_alg mh_sha256_block_base ctx' bss = Some (mh_sha256_ref (concat bss) len)"
proof -
  have "unat len < 2 ^ LENGTH(32)" by (rule unsigned_less)
  then have "length (concat bss) mod 2 ^ 32 = length (concat bss)" by (simp add: assms(2))
  moreover have "mh_sha1_ref (concat bss) len = mh_hash mh_sha1_alg (concat bss)"
    unfolding mh_sha1_ref_eq using assms(2) by (subst mh_ref_eq[OF mh_sha1_one_seg_length]) simp_all
  moreover have "mh_sha256_ref (concat bss) len = mh_hash mh_sha256_alg (concat bss)"
    unfolding mh_sha256_ref_eq using assms(2) by (subst mh_ref_eq[OF mh_sha256_one_seg_length]) simp_all
  ultimately show ?thesis
    using mh_sha1.stream_eq[OF assms(1)] mh_sha256.stream_eq[OF assms(1)] by (simp only: mh_hash_def)
qed

lemma mh_stream_ref_witness:
  "mh_stream mh_sha1_alg mh_sha1_block_base \<lparr>mh_digest = [], mh_total_length = 0, mh_partial = [], mh_interim = []\<rparr> [abc, abc]
    = Some (mh_sha1_ref (abc @ abc) 6)"
  using mh_stream_ref[of "[abc, abc]" 6] by simp

text \<open>
  C31. One pass of \<open>mh_sha1_murmur3_x64_128\<close> computes both hashes of a stream: the
  multi-hash digest, and the murmur3 hash that the one-shot \<open>murmur3_x64_128\<close> gives
  for the whole message.
\<close>
theorem murmur_stream:
  assumes "\<forall>bs\<in>set bss. length bs < 2 ^ 32" "length (concat bss) = unat len"
  shows "mh_sha1_murmur3_stream ctx seed bss =
    (Some (mh_hash fips_mh_sha1_alg (concat bss)), Some (murmur3_x64_128 (concat bss) len seed))"
proof -
  have "(of_nat (length (concat bss)) :: u32) = len" using assms(2) by (metis of_nat_unat ucast_id)
  moreover have "unat len < 2 ^ LENGTH(32)" by (rule unsigned_less)
  then have "length (concat bss) mod 2 ^ 32 = length (concat bss)" by (simp add: assms(2))
  moreover have "murmur3_x64_128 (concat bss) len seed = mur_hash_len (concat bss) seed len"
    using murmur3_x64_128_eq[of len "concat bss" seed] assms(2) by simp
  ultimately show ?thesis
    using mh_sha1_murmur3_stream_eq[OF assms(1), of ctx seed] by (simp only: mh_hash_def mh_sha1_fips)
qed

lemma murmur_stream_witness:
  "mh_sha1_murmur3_stream \<lparr>mh_digest = [], mh_total_length = 0, mh_partial = [], mh_interim = ([], 0, 0)\<rparr> 42 [abc, abc]
    = (Some (mh_hash fips_mh_sha1_alg (abc @ abc)), Some (murmur3_x64_128 (abc @ abc) 6 42))"
  using murmur_stream[of "[abc, abc]" 6] by simp

section \<open>The self tests of FIPS builds\<close>

abbreviation fips_build :: build where
  "fips_build \<equiv> \<lparr>fips_mode = True, safe_param = True\<rparr>"

lemma block_sizes: "block_size sha1_alg = 64" "block_size sha256_alg = 64" "block_size sha512_alg = 128"
  by (simp_all add: sha1_alg_def sha256_alg_def sha512_alg_def)

text \<open>Ciphers for the witnesses: they copy the message, and expand any key to fixed schedules.\<close>

definition copy_bytes :: "u64 \<Rightarrow> byte list \<Rightarrow> byte list" where
  "copy_bytes len xs = take (unat len) (xs @ replicate (unat len) 0)"

definition copy_kernels :: "unit aes_kernels" where
  "copy_kernels =
     \<lparr>k_keyexp = (\<lambda>n key. (replicate (sched_bytes n) 0, replicate (sched_bytes n) 1)),
      k_cbc = (\<lambda>d n xs iv e len. copy_bytes len xs),
      k_xts = (\<lambda>d n k2 k1 tw len xs. copy_bytes len xs),
      k_xts_expanded = (\<lambda>d n k2 k1 tw len xs. copy_bytes len xs),
      k_gcm_precomp = (\<lambda>n kd. kd),
      k_gcm_crypt = (\<lambda>d n nt kd c xs len iv aad alen tlen. ((), copy_bytes len xs, replicate (unat tlen) 0)),
      k_gcm_init = (\<lambda>n kd c iv aad alen. ()),
      k_gcm_update = (\<lambda>d n nt kd c xs len. ((), copy_bytes len xs)),
      k_gcm_finalize = (\<lambda>d n kd c tlen. ((), replicate (unat tlen) 0))\<rparr>"

lemma length_copy_bytes [simp]: "length (copy_bytes len xs) = unat len"
  by (simp add: copy_bytes_def)

lemma copy_bytes_cong:
  assumes "take (unat len) xs = take (unat len) ys"
  shows "copy_bytes len xs = copy_bytes len ys"
proof -
  have "min (length xs) (unat len) = min (length ys) (unat len)"
    using arg_cong[OF assms, of length] by simp
  then have "unat len - length xs = unat len - length ys" by linarith
  then show ?thesis using assms by (simp add: copy_bytes_def)
qed

lemma copy_reads:
  "reads_only (unat len) (copy_bytes len)" "reads_only (unat len) (\<lambda>xs. ((), copy_bytes len xs))"
  "reads_only (unat len) (\<lambda>xs. ((), copy_bytes len xs, tag))" "reads_only n (\<lambda>_. bytes)"
  unfolding reads_only_def using copy_bytes_cong by blast+

lemma copy_kernels_ok: "aes_kernels_ok copy_kernels"
  unfolding aes_kernels_ok_def
proof (intro conjI)
  show "keyexp_law copy_kernels" by (simp add: keyexp_law_def copy_kernels_def)
  show "cbc_law copy_kernels" "xts_law copy_kernels" "gcm_law copy_kernels"
    by (simp_all add: cbc_law_def xts_law_def gcm_law_def copy_kernels_def copy_reads)
  show "gcm_starts_afresh copy_kernels" by (simp add: gcm_starts_afresh_def copy_kernels_def)
qed

lemma copy_kernels_fail: "\<exists>v\<in>set cbc_vectors. \<not> cbc_answers copy_kernels v"
proof -
  let ?v = "add_cbc_vector aes_cbc_128_key aes_cbc_128_iv aes_cbc_128_plaintext aes_cbc_128_ciphertext"
  have "length aes_cbc_128_plaintext = 64" by (simp add: aes_cbc_128_plaintext_def)
  moreover have "aes_cbc_128_plaintext ! 0 \<noteq> aes_cbc_128_ciphertext ! 0"
    by (simp add: aes_cbc_128_plaintext_def aes_cbc_128_ciphertext_def)
  ultimately have "\<not> cbc_answers copy_kernels ?v"
    by (auto simp: cbc_answers_def add_cbc_vector_def copy_kernels_def copy_bytes_def)
  then show ?thesis by (simp add: cbc_vectors_def)
qed

lemma gcm_max_len: "len \<le> ISAL_GCM_MAX_LEN \<longleftrightarrow> len \<le> 2 ^ 39 - 257"
  by (simp add: ISAL_GCM_MAX_LEN_def)

lemma lane_inflight_init: "lane_inflight (mgr_init 3 16 :: 32 lane_mgr) = {}"
  by (rule sha256_ce.mgr_init_inv(2))

text \<open>
  C32. The self tests run at most once, however the steps of any number of threads and calls
  interleave: all calls that return give one code, success exactly when both tests returned 0,
  and otherwise some test failed. This holds of the version over C11 atomics for any values the
  tests return, and of the version over the assembly routines for tests that return 0 or 1, as
  the internal header announces.
\<close>
theorem selftest_once:
  assumes "fips_mode b"
  shows "(trace (generic_rel b) generic_init es s \<longrightarrow> once_ok es) \<and>
    (trace (asm_rel b {0, 1} {0, 1}) asm_init es' s' \<longrightarrow> once_ok es')"
proof -
  obtain sp where "b = \<lparr>fips_mode = True, safe_param = sp\<rparr>" using assms by (cases b) simp
  then show ?thesis using generic.trace_ok asm.trace_ok by blast
qed

lemma selftest_once_witness:
  "once_ok (fst (run_schedule (generic_step fips_build) [(0, 0), (1, 0), (0, 0), (1, 0)] generic_init))"
proof -
  let ?ts = "[(0, 0), (1, 0), (0, 0), (1, 0)] :: (thread \<times> u32) list"
  have "trace (generic_rel fips_build) generic_init ([] @ fst (run_schedule (generic_step fips_build) ?ts generic_init))
      (snd (run_schedule (generic_step fips_build) ?ts generic_init))"
    by (rule generic_schedule_trace[OF trace_nil])
  then show ?thesis using selftest_once[of fips_build] by simp
qed

text \<open>
  C33. No caller waits for ever: from every state that calls can reach, a thread inside the
  function returns within ten steps of a schedule chosen in advance, whatever the tests then
  return (at most three of the thread that runs the tests, then seven of its own; version over
  C11 atomics).
\<close>
theorem selftest_returns:
  assumes "fips_mode b" "trace (generic_rel b) generic_init es s" "g_pc s u \<noteq> GOut"
  shows "\<exists>ts. length ts \<le> 10 \<and> (\<forall>rs. length rs = length ts \<longrightarrow>
    (\<exists>e. Return u e \<in> set (fst (run_schedule (generic_step b) (zip ts rs) s))))"
  using assms by (rule every_call_returns)

lemma selftest_returns_witness:
  "\<exists>ts. length ts \<le> 10 \<and> (\<forall>rs. length rs = length ts \<longrightarrow> (\<exists>e. Return 5 e \<in>
     set (fst (run_schedule (generic_step fips_build) (zip ts rs) (snd (run_schedule (generic_step fips_build) [(5, 0)] generic_init))))))"
proof (rule selftest_returns)
  show "trace (generic_rel fips_build) generic_init ([] @ fst (run_schedule (generic_step fips_build) [(5, 0)] generic_init))
      (snd (run_schedule (generic_step fips_build) [(5, 0)] generic_init))"
    by (rule generic_schedule_trace[OF trace_nil])
qed (simp_all add: generic_step_def generic_init_def)

text \<open>
  C34. A failure of the SHA tests is not final in the version over the assembly routines: the
  tests return -1, not the announced 1, the status word is then none of its four codes, the next
  caller runs the tests again, and if they now pass its call succeeds after the first one
  reported the failure.
\<close>
theorem selftest_failure_not_final:
  "\<exists>es s. trace (asm_rel fips_build {0, 1} {0, -1}) asm_init es s \<and> begins es = 2 \<and>
    returns es = [ERR_SELF_TEST, ERR_NONE] \<and>
    sha_self_tests (sha1_self_test sub1 fl1 m1 st1) (sha256_self_test sub256 fl256 m256 st256)
      (sha512_self_test sub512 fl512 m512 st512) \<in> {None, Some 0, Some (-1)}"
proof -
  obtain es s where "trace (asm_rel fips_build {0, 1} {0, -1}) asm_init es s" "begins es = 2"
    "returns es = [ERR_SELF_TEST, ERR_NONE]"
    using asm_rerun[of fips_build] by auto
  moreover have "sha_self_tests (sha1_self_test sub1 fl1 m1 st1) (sha256_self_test sub256 fl256 m256 st256)
      (sha512_self_test sub512 fl512 m512 st512) \<in> {None, Some 0, Some (-1)}"
    by (cases "sha_self_tests (sha1_self_test sub1 fl1 m1 st1)
      (sha256_self_test sub256 fl256 m256 st256) (sha512_self_test sub512 fl512 m512 st512)")
      (auto dest: sha_self_tests_range)
  ultimately show ?thesis by blast
qed

text \<open>
  C35. The SHA self tests pass through the entry points, on every aarch64 processor and in
  builds without assembly, for any kernels that hash as the compression functions do: the three
  known answers come out and the tests return 0, whatever the context on the stack held before.
\<close>
theorem sha_self_tests_pass:
  assumes "\<And>x. kernel_ok sha1_alg (kern1 x)" "\<And>x. kernel_ok sha256_alg (kern256 x)" "\<And>x. kernel_ok sha512_alg (kern512 x)"
    "fresh sha1_alg (st1(0 := isal_hash_ctx_init (st1 0)))" "fresh sha256_alg (st256(0 := isal_hash_ctx_init (st256 0)))"
    "fresh sha512_alg (st512(0 := isal_hash_ctx_init (st512 0)))"
  shows "sha_self_tests
      (sha1_self_test (sha1_linked_submit p kern1) (sha1_linked_flush p kern1) (sha1_linked_init p) st1)
      (sha256_self_test (sha256_linked_submit p kern256) (sha256_linked_flush p kern256) (sha256_linked_init p) st256)
      (sha512_self_test (sha512_linked_submit p kern512) (sha512_linked_flush p kern512) (sha512_linked_init p) st512)
    = Some 0 \<and>
    sha_self_tests
      (sha1_self_test noarch_sha1_ctx_mgr_submit noarch_sha1_ctx_mgr_flush noarch_sha1_ctx_mgr_init st1)
      (sha256_self_test noarch_sha256_ctx_mgr_submit noarch_sha256_ctx_mgr_flush noarch_sha256_ctx_mgr_init st256)
      (sha512_self_test noarch_sha512_ctx_mgr_submit noarch_sha512_ctx_mgr_flush noarch_sha512_ctx_mgr_init st512)
    = Some 0"
proof -
  note ok = context_manager.self_test_ok
  obtain g1 where m1: "context_manager sha1_alg (sha1_linked_submit p kern1) (sha1_linked_flush p kern1) (2 ^ 25) (sha1_linked_init p) g1"
    using sha1_linked_manager[where kern = kern1 and p = p, OF assms(1)] by blast
  obtain g2 where m2: "context_manager sha256_alg (sha256_linked_submit p kern256) (sha256_linked_flush p kern256) (2 ^ 25) (sha256_linked_init p) g2"
    using sha256_linked_manager[where kern = kern256 and p = p, OF assms(2)] by blast
  obtain g3 where m3: "context_manager sha512_alg (sha512_linked_submit p kern512) (sha512_linked_flush p kern512) (2 ^ 24) (sha512_linked_init p) g3"
    using sha512_linked_manager[where kern = kern512 and p = p, OF assms(3)] by blast
  note noarch = noarch_sha1.context_manager_axioms noarch_sha256.context_manager_axioms noarch_sha512.context_manager_axioms
  have all_ok: "t1 = Some 0 \<Longrightarrow> t2 = Some 0 \<Longrightarrow> t3 = Some 0 \<Longrightarrow> sha_self_tests t1 t2 t3 = Some 0" for t1 t2 t3
    by (simp add: sha_self_tests_def)
  show ?thesis
    unfolding sha1_self_test_def sha256_self_test_def sha512_self_test_def
    by (intro conjI all_ok ok[OF m1 assms(4) _ _ sha1_kat] ok[OF m2 assms(5) _ _ sha256_kat] ok[OF m3 assms(6) _ _ sha512_kat]
        ok[OF noarch(1) assms(4) _ _ sha1_kat] ok[OF noarch(2) assms(5) _ _ sha256_kat] ok[OF noarch(3) assms(6) _ _ sha512_kat])
      (simp_all add: kat_msg_length block_sizes)
qed

lemma sha_self_tests_pass_witness:
  "sha_self_tests
      (sha1_self_test (sha1_linked_submit linux_platform (\<lambda>_. ref_kernel sha1_alg))
        (sha1_linked_flush linux_platform (\<lambda>_. ref_kernel sha1_alg)) (sha1_linked_init linux_platform) (\<lambda>_. zero_ctx 5 64))
      (sha256_self_test (sha256_linked_submit linux_platform (\<lambda>_. ref_kernel sha256_alg))
        (sha256_linked_flush linux_platform (\<lambda>_. ref_kernel sha256_alg)) (sha256_linked_init linux_platform) (\<lambda>_. zero_ctx 8 64))
      (sha512_self_test (sha512_linked_submit linux_platform (\<lambda>_. ref_kernel sha512_alg))
        (sha512_linked_flush linux_platform (\<lambda>_. ref_kernel sha512_alg)) (sha512_linked_init linux_platform) (\<lambda>_. zero_ctx 8 128))
    = Some 0"
proof -
  have f: "fresh A (st(0 := isal_hash_ctx_init (st 0)))" if "fresh A st" for A :: "'w::len hash_alg" and st :: "('w, 'l::len) store"
    using that by (simp add: fresh_def isal_hash_ctx_init_def)
  note k = ref_kernel_ok
  show ?thesis
    by (rule conjunct1[OF sha_self_tests_pass[OF k k k zero_ctx_fresh(3)[THEN f] zero_ctx_fresh(1)[THEN f] zero_ctx_fresh(2)[THEN f]]])
qed

text \<open>
  C36. The AES self tests return 0 exactly when the ciphers give every known answer, encrypting
  and decrypting, with plain and expanded XTS keys, with the single and the stepwise GCM calls,
  and otherwise 1. That the stepwise calls write their tag over the expected one does not weaken
  the comparison, and a passing run leaves the table of vectors as it was.
\<close>
theorem aes_self_tests_known_answers:
  assumes "aes_kernels_ok K" "length tag = 16"
  shows "(case aes_self_tests K junk1 junk2 gkey gctx tag gcm_vectors of (ret, gvs) \<Rightarrow>
      ret = (if (\<forall>v\<in>set cbc_vectors. cbc_answers K v) \<and> (\<forall>v\<in>set xts_vectors. xts_answers K v) \<and>
               (\<forall>v\<in>set gcm_vectors. gcm_answers K gkey gctx v) then 0 else 1) \<and>
      (ret = 0 \<longrightarrow> gvs = gcm_vectors))"
  using aes_self_tests_iff[OF assms, where ?junk1.0 = junk1 and ?junk2.0 = junk2 and gkey = gkey and gctx = gctx] by (auto split: prod.splits if_splits)

lemma aes_self_tests_known_answers_witness:
  "fst (aes_self_tests copy_kernels ([], []) ([], []) \<lparr>expanded_keys = [], shifted_hkeys = []\<rparr> () (replicate 16 0) gcm_vectors) = 1"
  using aes_self_tests_known_answers[OF copy_kernels_ok, where tag = "replicate 16 0" and ?junk1.0 = "([], [])" and ?junk2.0 = "([], [])"
      and gkey = "\<lparr>expanded_keys = [], shifted_hkeys = []\<rparr>" and gctx = "()"] copy_kernels_fail
  by (auto split: prod.splits if_splits)

section \<open>The checked entry points\<close>

text \<open>
  C37. The code that the checked hash API returns, over a manager on any scheduler after any
  history of calls: a refused request gives the code of its refusal and its own context; an
  accepted one gives success, unless the manager hands back another context, whose error field
  may still hold the refusal of a call made while that context was in flight.
\<close>
theorem hash_api_submit_code:
  assumes "job_scheduler A sub flush inflight work sinv mx" "clr \<le> 1"
    "sinv s0 st0" "inflight s0 = {}" "fresh A st0"
    "history A clr sub flush mx s0 st0 fin msg s st"
    "unat len \<le> length buf" "unat len div block_size A < mx"
    "safe_param b" "fips_mode b \<longrightarrow> approved \<and> tests = ERR_NONE"
  shows "\<exists>code s' st' r.
    hash_mgr_submit b approved tests (ctx_mgr_submit A clr sub) (Some s) st (Some c) (Some out) (Some buf) len flags
      = Some (code, Some s', st', Some r) \<and>
    (if accepted (st c) flags
     then code = (case r of None \<Rightarrow> ERR_NONE | Some d \<Rightarrow> if d = c then ERR_NONE else ctx_error_code (error (st d))) \<and>
       set_option r \<subseteq> insert c (inflight s)
     else code = ctx_error_code (refusal (st c) flags) \<and> code \<noteq> ERR_NONE \<and> r = Some c \<and> s' = s)"
  by (rule job_scheduler.api_submit[OF assms])

lemma hash_api_submit_code_witness:
  "\<exists>code s' st' r.
    hash_mgr_submit fips_build True ERR_NONE
      (ctx_mgr_submit sha256_alg 0 (mgr_submit 3 3 (sha256_mb_mgr_do_jobs_ce (ref_kernel sha256_alg))))
      (Some (mgr_init 3 16)) (\<lambda>_. zero_ctx 8 64) (Some 0) (Some None) (Some abc) 3 8
      = Some (code, Some s', st', Some r) \<and> code = ERR_INVALID_FLAGS"
proof -
  have "\<not> accepted (zero_ctx 8 64 :: sha256_ctx) 8" "refusal (zero_ctx 8 64 :: sha256_ctx) 8 = ERROR_INVALID_FLAGS"
    by (simp_all add: accepted_def refusal_def)
  with hash_api_submit_code[OF sha256_ce.is_job_scheduler zero_le_one sha256_ce.mgr_init_inv zero_ctx_fresh(1)
      history.start, of 3 abc fips_build True ERR_NONE 0 None 8] abc_len(1,6)
  show ?thesis by (fastforce simp: lane_inflight_init)
qed

text \<open>
  C38. With \<open>SAFE_PARAM\<close> the AES entry points (key expansion, CBC, XTS on plain and
  expanded keys, GCM in one call, GCM precomputation, init, update and finalize; each is one of
  these functions at its direction, key size and kernel) never dereference \<open>NULL\<close>:
  a call succeeds exactly on the parameters listed (for GCM up to 2^39 - 257 bytes, for XTS from
  16 bytes to 2^24), in a FIPS build only after the self tests passed and, for XTS, with keys
  that differ in their first \<open>kb\<close> bytes; it then has the effect of the cipher, and
  otherwise changes nothing. The one exception is \<open>isal_aes_gcm_dec_256_update\<close>: it
  answers as if the self tests had passed, also when they have failed.
\<close>
theorem aes_api_safe:
  assumes "safe_param b" "null_key \<noteq> ERR_NONE"
  shows "safe_call b tests (key \<noteq> None \<and> enc \<noteq> None \<and> dec \<noteq> None) (enc, dec)
      (keyexp_call K n key enc dec) (keyexp_checked K n b tests key enc dec) \<and>
    safe_call b tests (keys \<noteq> None \<and> src \<noteq> None \<and> out \<noteq> None \<and> iv \<noteq> None \<and> clen AND 0xf = 0) out
      (cbc_call K d n src iv keys out clen) (cbc_checked K d n b tests src iv keys out clen) \<and>
    safe_call b tests
      (k1 \<noteq> None \<and> k2 \<noteq> None \<and> tweak \<noteq> None \<and> src \<noteq> None \<and> out \<noteq> None \<and> 16 \<le> xlen \<and> xlen \<le> 2 ^ 24 \<and>
        (fips_mode b \<longrightarrow> take kb (the k1) \<noteq> take kb (the k2))) out
      (xts_call kern k2 k1 tweak xlen src out) (xts_checked kern null_key kb b tests k2 k1 tweak xlen src out) \<and>
    safe_call b tests
      (kd \<noteq> None \<and> ctx \<noteq> None \<and> (len \<noteq> 0 \<longrightarrow> out \<noteq> None \<and> src \<noteq> None) \<and> len \<le> 2 ^ 39 - 257 \<and>
        iv \<noteq> None \<and> (aad_len \<noteq> 0 \<longrightarrow> aad \<noteq> None) \<and> tag \<noteq> None \<and> tag_len \<in> {16, 12, 8}) (ctx, out, tag)
      (gcm_call K d n nt kd ctx out src len iv aad aad_len tag tag_len)
      (gcm_checked K d n nt b tests kd ctx out src len iv aad aad_len tag tag_len) \<and>
    safe_call b tests (key \<noteq> None \<and> kd \<noteq> None) kd
      (do { key \<leftarrow> key; kd \<leftarrow> kd; Some (Some (gcm_pre K n key kd)) }) (gcm_pre_checked K n b tests key kd) \<and>
    safe_call b tests (kd \<noteq> None \<and> ctx \<noteq> None \<and> iv \<noteq> None \<and> (aad_len \<noteq> 0 \<longrightarrow> aad \<noteq> None)) ctx
      (gcm_init_call K n kd ctx iv aad aad_len) (gcm_init_checked K n b tests kd ctx iv aad aad_len) \<and>
    safe_call b tests
      (kd \<noteq> None \<and> ctx \<noteq> None \<and> (len \<noteq> 0 \<longrightarrow> out \<noteq> None \<and> src \<noteq> None) \<and> len \<le> 2 ^ 39 - 257) (ctx, out)
      (gcm_update_call K d n nt kd ctx out src len) (gcm_update_checked K d n nt b tests kd ctx out src len) \<and>
    safe_call b tests (kd \<noteq> None \<and> ctx \<noteq> None \<and> tag \<noteq> None \<and> tag_len \<in> {16, 12, 8}) (ctx, tag)
      (gcm_finalize_call K d n kd ctx tag tag_len) (gcm_finalize_checked K d n b tests kd ctx tag tag_len) \<and>
    safe_call b ERR_NONE
      (kd \<noteq> None \<and> ctx \<noteq> None \<and> (len \<noteq> 0 \<longrightarrow> out \<noteq> None \<and> src \<noteq> None) \<and> len \<le> 2 ^ 39 - 257) (ctx, out)
      (gcm_update_call K Dec Bits256 False kd ctx out src len) (isal_aes_gcm_dec_256_update K b tests kd ctx out src len)"
proof -
  have xts: "safe_call b tests
      (k1 \<noteq> None \<and> k2 \<noteq> None \<and> tweak \<noteq> None \<and> src \<noteq> None \<and> out \<noteq> None \<and> 16 \<le> xlen \<and> xlen \<le> 2 ^ 24 \<and>
        (fips_mode b \<longrightarrow> take kb (the k1) \<noteq> take kb (the k2))) out
      (xts_call kern k2 k1 tweak xlen src out) (xts_checked kern null_key kb b tests k2 k1 tweak xlen src out)"
    using xts_checked_safe[OF assms, of kern kb tests k2 k1 tweak xlen src out]
    unfolding safe_call_def ISAL_AES_XTS_MIN_LEN_def ISAL_AES_XTS_MAX_LEN_def list.set ball_simps fst_conv by blast
  note update = gcm_update_checked_safe[OF assms(1), of K d n nt tests kd ctx out src len, folded safe_call_def]
  show ?thesis
    unfolding gcm_max_len[symmetric]
    by (intro conjI xts gcm_pre_checked_safe[OF assms(1)] gcm_dec_256_update_safe[OF assms(1)]
        keyexp_checked_safe[OF assms(1), folded safe_call_def] cbc_checked_safe[OF assms(1), folded safe_call_def]
        gcm_checked_safe[OF assms(1), folded safe_call_def] gcm_init_checked_safe[OF assms(1), folded safe_call_def]
        update gcm_finalize_checked_safe[OF assms(1), folded safe_call_def])
qed

lemma aes_api_safe_witness:
  "(\<exists>r. isal_aes_gcm_dec_256_update copy_kernels fips_build ERR_SELF_TEST
      (Some \<lparr>expanded_keys = [], shifted_hkeys = []\<rparr>) (Some ()) (Some abc) (Some abc) 3 = Some (ERR_NONE, r)) \<and>
    isal_aes_gcm_enc_256_update copy_kernels fips_build ERR_SELF_TEST
      (Some \<lparr>expanded_keys = [], shifted_hkeys = []\<rparr>) (Some ()) (Some abc) (Some abc) 3 \<noteq> None \<and>
    (\<forall>r. isal_aes_gcm_enc_256_update copy_kernels fips_build ERR_SELF_TEST
      (Some \<lparr>expanded_keys = [], shifted_hkeys = []\<rparr>) (Some ()) (Some abc) (Some abc) 3 \<noteq> Some (ERR_NONE, r))"
proof -
  have p: "safe_param fips_build" "ERR_NULL_KEY \<noteq> ERR_NONE" by simp_all
  note t = aes_api_safe[OF p, where K = copy_kernels and d = Enc and n = Bits256
      and nt = False and tests = ERR_SELF_TEST and kd = "Some \<lparr>expanded_keys = [], shifted_hkeys = []\<rparr>" and ctx = "Some ()"
      and out = "Some abc" and src = "Some abc" and len = 3]
  note u = t[THEN conjunct2, THEN conjunct2, THEN conjunct2, THEN conjunct2, THEN conjunct2, THEN conjunct2]
  from u[THEN conjunct1] u[THEN conjunct2, THEN conjunct2] show ?thesis
    unfolding isal_aes_gcm_enc_256_update_def safe_call_def by auto
qed

text \<open>
  C39. A FIPS build refuses XTS decryption under two equal keys, but the entry point on expanded
  keys does not notice them: it compares the decryption schedule of one key with the encryption
  schedule of the other, which differ for any key whose two schedules do.
\<close>
theorem xts_equal_expanded_keys:
  assumes "k_keyexp K Bits128 key = (enc, dec)" "take (16 * 11) enc \<noteq> take (16 * 11) dec"
    "16 \<le> len" "len \<le> 2 ^ 24"
  shows "isal_aes_xts_dec_128 K fips_build ERR_NONE (Some key) (Some key) (Some tweak) len (Some src) (Some dst)
      = Some (ERR_XTS_SAME_KEYS, Some dst) \<and>
    isal_aes_xts_dec_128_expanded_key K fips_build ERR_NONE (Some enc) (Some dec) (Some tweak) len (Some src) (Some dst)
      = Some (ERR_NONE, Some (memcpy_at dst 0 (k_xts_expanded K Dec Bits128 enc dec tweak len src) (unat len)))"
proof -
  have len: "ISAL_AES_XTS_MIN_LEN \<le> len" "len \<le> ISAL_AES_XTS_MAX_LEN"
    using assms(3,4) by (simp_all only: ISAL_AES_XTS_MIN_LEN_def ISAL_AES_XTS_MAX_LEN_def)
  have "isal_aes_xts_dec_128 K fips_build ERR_NONE (Some key) (Some key) (Some tweak) len (Some src) (Some dst)
      = Some (ERR_XTS_SAME_KEYS, Some dst)"
    using len by (simp add: isal_aes_xts_dec_128_def xts_checked_def checked_def same_keys_def not_less)
  then show ?thesis
    unfolding isal_aes_xts_dec_128_expanded_key_def
    using xts_dec_expanded_same_key[of fips_build ERR_NONE K Bits128 key enc dec "16 * 11" len] assms(1,2) len by simp
qed

lemma xts_equal_expanded_keys_witness:
  "isal_aes_xts_dec_128_expanded_key copy_kernels fips_build ERR_NONE (Some (replicate 176 0)) (Some (replicate 176 1))
     (Some abc) 16 (Some abc) (Some abc) \<noteq> None \<and>
   isal_aes_xts_dec_128 copy_kernels fips_build ERR_NONE (Some abc) (Some abc) (Some abc) 16 (Some abc) (Some abc)
     = Some (ERR_XTS_SAME_KEYS, Some abc)"
proof -
  have "take (16 * 11) (replicate 176 (0 :: byte)) ! 0 \<noteq> take (16 * 11) (replicate 176 (1 :: byte)) ! 0" by simp
  then have "take (16 * 11) (replicate 176 (0 :: byte)) \<noteq> take (16 * 11) (replicate 176 (1 :: byte))" by metis
  moreover have "k_keyexp copy_kernels Bits128 abc = (replicate 176 0, replicate 176 1)"
    by (simp add: copy_kernels_def)
  ultimately show ?thesis using xts_equal_expanded_keys[of copy_kernels abc _ _ 16 abc abc abc] by simp
qed

section \<open>The inline memory routines\<close>

text \<open>
  C40. The inline copying and clearing routines, which move whole registers and cover the rest
  by moves that overlap, are a plain copy and a plain clearing of the first n bytes, for every
  n, in the versions for fixed and for variable lengths; nothing beyond the n bytes is read or
  written.
\<close>
theorem memcpy_inline_plain:
  assumes "n \<le> length src" "n \<le> length dst"
  shows "memcpy_sse_varlen dst src n = take n src @ drop n dst \<and>
    memcpy_sse_fixedlen dst src n = take n src @ drop n dst \<and>
    memclr_sse_varlen dst n = replicate n 0 @ drop n dst \<and>
    memclr_sse_fixedlen dst n = replicate n 0 @ drop n dst"
  using memcpy_sse[OF assms] memclr_sse[OF assms(2)] by simp

lemma memcpy_inline_plain_witness:
  "memcpy_sse_varlen (replicate 250 1) (replicate 240 2) 237 = replicate 237 2 @ replicate 13 1"
  using memcpy_inline_plain[of 237 "replicate 240 2" "replicate 250 1"] by simp

end
